(* ===== verification/Prelude.thy ===== *)
theory Prelude
  imports Main "HOL-Library.AList" "HOL-Library.List_Lexorder" "HOL-Library.Char_ord"
begin

text \<open>
  Shared vocabulary of the development.

  \<^item> Python exceptions as values (\<open>exc\<close>), and the result type \<open>'a res\<close> in which
    every \<open>raise\<close> of the source is an \<open>Inl\<close>.
  \<^item> Effects as explicit state passing: \<open>('w, 'a) io\<close> takes a world and returns a result
    together with the world as it stands, also when the operation raised.
  \<^item> Python dictionaries as association lists in insertion order (\<open>AList.update\<close>
    overwrites in place and appends a new key, as \<open>d[k] = v\<close> does).
  \<^item> A \<open>char\<close> is a code point below 256; text is a list of code points.
\<close>

named_theorems res_simps \<open>rewriting of the result combinators\<close>
named_theorems io_simps \<open>rewriting of the state-passing combinators\<close>

section \<open>Exceptions\<close>

datatype exc_class =
    ValueErrorC | ValidationErrorC | JSONDecodeErrorC | GraphCompilationErrorC
  | KeyErrorC | TimeoutErrorC | TypeErrorC | IndexErrorC | StopIterationC
  | RuntimeErrorC | NotImplementedErrorC | GraphDeadlockErrorC | CheckpointDriftErrorC
  | SandboxUnavailableC | FileNotFoundErrorC | ForeignErrorC string

text \<open>\<open>type(exc).__name__\<close>.\<close>

fun exc_class_name :: "exc_class \<Rightarrow> string" where
  "exc_class_name ValueErrorC = ''ValueError''"
| "exc_class_name ValidationErrorC = ''ValidationError''"
| "exc_class_name JSONDecodeErrorC = ''JSONDecodeError''"
| "exc_class_name GraphCompilationErrorC = ''GraphCompilationError''"
| "exc_class_name KeyErrorC = ''KeyError''"
| "exc_class_name TimeoutErrorC = ''TimeoutError''"
| "exc_class_name TypeErrorC = ''TypeError''"
| "exc_class_name IndexErrorC = ''IndexError''"
| "exc_class_name StopIterationC = ''StopIteration''"
| "exc_class_name RuntimeErrorC = ''RuntimeError''"
| "exc_class_name NotImplementedErrorC = ''NotImplementedError''"
| "exc_class_name GraphDeadlockErrorC = ''GraphDeadlockError''"
| "exc_class_name CheckpointDriftErrorC = ''CheckpointDriftError''"
| "exc_class_name SandboxUnavailableC = ''OfficialLCBSandboxUnavailable''"
| "exc_class_name FileNotFoundErrorC = ''FileNotFoundError''"
| "exc_class_name (ForeignErrorC n) = n"

text \<open>The subclass relation to \<open>ValueError\<close>: validation, JSON and compilation errors.\<close>

fun is_value_error :: "exc_class \<Rightarrow> bool" where
  "is_value_error ValueErrorC = True"
| "is_value_error ValidationErrorC = True"
| "is_value_error JSONDecodeErrorC = True"
| "is_value_error GraphCompilationErrorC = True"
| "is_value_error _ = False"

datatype exc = Exc (exc_cls: exc_class) (exc_msg: string)

type_synonym 'a res = "exc + 'a"

abbreviation value_error :: "string \<Rightarrow> exc" where
  "value_error m \<equiv> Exc ValueErrorC m"

abbreviation key_error :: "string \<Rightarrow> exc" where
  "key_error k \<equiv> Exc KeyErrorC (CHR 0x27 # k @ [CHR 0x27])"

section \<open>Results\<close>

fun rbind :: "'a res \<Rightarrow> ('a \<Rightarrow> 'b res) \<Rightarrow> 'b res" where
  "rbind (Inl e) f = Inl e"
| "rbind (Inr x) f = f x"

text \<open>\<open>[f(x) for x in xs]\<close>, stopping at the first exception.\<close>

fun rmap :: "('a \<Rightarrow> 'b res) \<Rightarrow> 'a list \<Rightarrow> 'b list res" where
  "rmap f [] = Inr []"
| "rmap f (x # xs) = rbind (f x) (\<lambda>y. rbind (rmap f xs) (\<lambda>ys. Inr (y # ys)))"

text \<open>\<open>[x for x in xs if p(x)]\<close>, stopping at the first exception.\<close>

fun rfilter :: "('a \<Rightarrow> bool res) \<Rightarrow> 'a list \<Rightarrow> 'a list res" where
  "rfilter p [] = Inr []"
| "rfilter p (x # xs) =
     rbind (p x) (\<lambda>b. rbind (rfilter p xs) (\<lambda>ys. Inr (if b then x # ys else ys)))"

text \<open>\<open>all(p(x) for x in xs)\<close> and \<open>any(...)\<close>, short-circuiting as the generators do.\<close>

fun rall :: "('a \<Rightarrow> bool res) \<Rightarrow> 'a list \<Rightarrow> bool res" where
  "rall p [] = Inr True"
| "rall p (x # xs) = rbind (p x) (\<lambda>b. if b then rall p xs else Inr False)"

fun rany :: "('a \<Rightarrow> bool res) \<Rightarrow> 'a list \<Rightarrow> bool res" where
  "rany p [] = Inr False"
| "rany p (x # xs) = rbind (p x) (\<lambda>b. if b then Inr True else rany p xs)"

text \<open>\<open>for x in xs: check(x)\<close>, where a check only raises or passes.\<close>

fun rcheck :: "('a \<Rightarrow> unit res) \<Rightarrow> 'a list \<Rightarrow> unit res" where
  "rcheck c [] = Inr ()"
| "rcheck c (x # xs) = rbind (c x) (\<lambda>_. rcheck c xs)"

definition from_option :: "exc \<Rightarrow> 'a option \<Rightarrow> 'a res" where
  "from_option e v = (case v of None \<Rightarrow> Inl e | Some x \<Rightarrow> Inr x)"

lemma rbind_eq_Inr [res_simps]: "rbind m f = Inr y \<longleftrightarrow> (\<exists>x. m = Inr x \<and> f x = Inr y)"
  by (cases m) auto

lemma rbind_eq_Inl [res_simps]:
  "rbind m f = Inl e \<longleftrightarrow> m = Inl e \<or> (\<exists>x. m = Inr x \<and> f x = Inl e)"
  by (cases m) auto

lemma from_option_eq_Inr [res_simps]: "from_option e v = Inr x \<longleftrightarrow> v = Some x"
  by (auto simp: from_option_def split: option.splits)

lemma from_option_simps [simp]:
  "from_option e None = Inl e" "from_option e (Some x) = Inr x"
  by (simp_all add: from_option_def)

lemma rcheck_eq_Inr: "rcheck c xs = Inr () \<longleftrightarrow> (\<forall>x \<in> set xs. c x = Inr ())"
  by (induction xs) (auto simp: res_simps)

lemma rcheck_cong [fundef_cong]:
  "xs = ys \<Longrightarrow> (\<And>x. x \<in> set ys \<Longrightarrow> c x = d x) \<Longrightarrow> rcheck c xs = rcheck d ys"
proof (induction xs arbitrary: ys)
  case (Cons x xs)
  then show ?case by (cases ys) auto
qed simp

lemma rfilter_pure: "(\<And>x. x \<in> set xs \<Longrightarrow> p x = Inr (q x)) \<Longrightarrow> rfilter p xs = Inr (filter q xs)"
  by (induction xs) auto

lemma rfilter_set: "rfilter p xs = Inr ys \<Longrightarrow> set ys = {x \<in> set xs. p x = Inr True}"
  by (induction xs arbitrary: ys) (auto simp: res_simps split: if_splits)

lemma rfilter_subseq_distinct: "rfilter p xs = Inr ys \<Longrightarrow> distinct xs \<Longrightarrow> distinct ys"
proof (induction xs arbitrary: ys)
  case (Cons x xs)
  then obtain b zs where "rfilter p xs = Inr zs" and "ys = (if b then x # zs else zs)"
    by (auto simp: res_simps)
  with Cons rfilter_set [of p xs zs] show ?case by auto
qed simp

lemma rall_pure: "(\<And>x. x \<in> set xs \<Longrightarrow> p x = Inr (q x)) \<Longrightarrow> rall p xs = Inr (list_all q xs)"
  by (induction xs) auto

lemma rall_TrueD: "rall p xs = Inr True \<Longrightarrow> x \<in> set xs \<Longrightarrow> p x = Inr True"
  by (induction xs) (auto simp: res_simps split: if_splits)

lemma rmap_pure: "(\<And>x. x \<in> set xs \<Longrightarrow> f x = Inr (g x)) \<Longrightarrow> rmap f xs = Inr (map g xs)"
  by (induction xs) auto

lemma rmap_length: "rmap f xs = Inr ys \<Longrightarrow> length ys = length xs"
  by (induction xs arbitrary: ys) (auto simp: res_simps)

section \<open>State passing\<close>

type_synonym ('w, 'a) io = "'w \<Rightarrow> 'a res \<times> 'w"

definition ret :: "'a \<Rightarrow> ('w, 'a) io" where
  "ret x = (\<lambda>w. (Inr x, w))"

definition throw :: "exc \<Rightarrow> ('w, 'a) io" where
  "throw e = (\<lambda>w. (Inl e, w))"

definition lift :: "'a res \<Rightarrow> ('w, 'a) io" where
  "lift r = (\<lambda>w. (r, w))"

definition bnd :: "('w, 'a) io \<Rightarrow> ('a \<Rightarrow> ('w, 'b) io) \<Rightarrow> ('w, 'b) io" where
  "bnd m f = (\<lambda>w. case m w of (Inl e, w') \<Rightarrow> (Inl e, w') | (Inr x, w') \<Rightarrow> f x w')"

definition thn :: "('w, 'a) io \<Rightarrow> ('w, 'b) io \<Rightarrow> ('w, 'b) io" where
  "thn m k = bnd m (\<lambda>_. k)"

definition update_w :: "('w \<Rightarrow> 'w) \<Rightarrow> ('w, unit) io" where
  "update_w f = (\<lambda>w. (Inr (), f w))"

text \<open>\<open>for x in xs: body(x)\<close>.\<close>

fun for_each :: "('a \<Rightarrow> ('w, unit) io) \<Rightarrow> 'a list \<Rightarrow> ('w, unit) io" where
  "for_each f [] = ret ()"
| "for_each f (x # xs) = thn (f x) (for_each f xs)"

text \<open>\<open>[await f(x) for x in xs]\<close>.\<close>

fun collect :: "('a \<Rightarrow> ('w, 'b) io) \<Rightarrow> 'a list \<Rightarrow> ('w, 'b list) io" where
  "collect f [] = ret []"
| "collect f (x # xs) = bnd (f x) (\<lambda>y. bnd (collect f xs) (\<lambda>ys. ret (y # ys)))"

lemma ret_apply [simp, io_simps]: "ret x w = (Inr x, w)"
  by (simp add: ret_def)

lemma throw_apply [simp, io_simps]: "throw e w = (Inl e, w)"
  by (simp add: throw_def)

lemma lift_apply [simp, io_simps]: "lift r w = (r, w)"
  by (simp add: lift_def)

lemma update_w_apply [simp, io_simps]: "update_w f w = (Inr (), f w)"
  by (simp add: update_w_def)

lemma bnd_InrI: "m w = (Inr x, w') \<Longrightarrow> bnd m f w = f x w'"
  by (simp add: bnd_def)

lemma bnd_InlI: "m w = (Inl e, w') \<Longrightarrow> bnd m f w = (Inl e, w')"
  by (simp add: bnd_def)

lemma bnd_eq_Inr [io_simps]:
  "bnd m f w = (Inr y, w'') \<longleftrightarrow> (\<exists>x w'. m w = (Inr x, w') \<and> f x w' = (Inr y, w''))"
  by (auto simp: bnd_def split: prod.splits sum.splits)

lemma thn_eq_Inr [io_simps]:
  "thn m k w = (Inr y, w'') \<longleftrightarrow> (\<exists>x w'. m w = (Inr x, w') \<and> k w' = (Inr y, w''))"
  by (simp add: thn_def bnd_eq_Inr)

lemma thn_InrI: "m w = (Inr x, w') \<Longrightarrow> thn m k w = k w'"
  by (simp add: thn_def bnd_def)

lemma for_each_append: "for_each f (xs @ ys) w = thn (for_each f xs) (for_each f ys) w"
  by (induction xs arbitrary: w) (auto simp: thn_def bnd_def split: prod.splits sum.splits)

lemma for_each_pure:
  "(\<And>x w. x \<in> set xs \<Longrightarrow> f x w = (Inr (), g x w)) \<Longrightarrow> for_each f xs w = (Inr (), fold g xs w)"
  by (induction xs arbitrary: w) (auto simp: thn_def bnd_def)

text \<open>
  A relation between worlds that every primitive operation keeps is kept by every program
  built from them, whether it returns or raises. Instances: the log only grows, stored
  artifacts never change.
\<close>

locale world_order =
  fixes le :: "'w \<Rightarrow> 'w \<Rightarrow> bool"
  assumes le_refl: "le w w"
    and le_trans: "le w1 w2 \<Longrightarrow> le w2 w3 \<Longrightarrow> le w1 w3"
begin

definition keeps :: "('w, 'a) io \<Rightarrow> bool" where
  "keeps m \<longleftrightarrow> (\<forall>w r w'. m w = (r, w') \<longrightarrow> le w w')"

lemma keepsD: "keeps m \<Longrightarrow> m w = (r, w') \<Longrightarrow> le w w'"
  by (auto simp: keeps_def)

lemma keeps_snd: "keeps m \<Longrightarrow> le w (snd (m w))"
  by (metis keepsD prod.collapse)

lemma keeps_ret [intro]: "keeps (ret x)"
  by (auto simp: keeps_def le_refl)

lemma keeps_throw [intro]: "keeps (throw e)"
  by (auto simp: keeps_def le_refl)

lemma keeps_lift [intro]: "keeps (lift r)"
  by (auto simp: keeps_def le_refl)

lemma keeps_update [intro]: "(\<And>w. le w (f w)) \<Longrightarrow> keeps (update_w f)"
  by (auto simp: keeps_def)

lemma keeps_bnd [intro]: "keeps m \<Longrightarrow> (\<And>x. keeps (f x)) \<Longrightarrow> keeps (bnd m f)"
  by (auto simp: keeps_def bnd_def split: prod.splits sum.splits) (blast intro: le_trans)+

lemma keeps_bnd_lift: "(\<And>x. r = Inr x \<Longrightarrow> keeps (f x)) \<Longrightarrow> keeps (bnd (lift r) f)"
  by (cases r) (auto simp: keeps_def bnd_def le_refl)

lemma keeps_thn [intro]: "keeps m \<Longrightarrow> keeps k \<Longrightarrow> keeps (thn m k)"
  by (auto simp: thn_def)

lemma keeps_for_each [intro]: "(\<And>x. x \<in> set xs \<Longrightarrow> keeps (f x)) \<Longrightarrow> keeps (for_each f xs)"
  by (induction xs) auto

lemma keeps_collect [intro]: "(\<And>x. x \<in> set xs \<Longrightarrow> keeps (f x)) \<Longrightarrow> keeps (collect f xs)"
  by (induction xs) auto

end

text \<open>
  The special case of a relation that says a view of the world stays as it was: such a
  relation is also symmetric.
\<close>

locale world_view =
  fixes le :: "'w \<Rightarrow> 'w \<Rightarrow> bool"
    and view :: "'w \<Rightarrow> 'v"
  assumes le_view: "le w w' \<longleftrightarrow> view w' = view w"

sublocale world_view \<subseteq> world_order le
  by unfold_locales (simp_all add: le_view)

context world_view
begin

lemma le_sym: "le w w' \<Longrightarrow> le w' w"
  by (simp add: le_view)

lemma view_after: "keeps m \<Longrightarrow> view (snd (m w)) = view w"
  using keeps_snd [of m w] by (simp add: le_view)

end

section \<open>Dictionaries\<close>

type_synonym 'v dict = "(string \<times> 'v) list"

abbreviation dget :: "'v dict \<Rightarrow> string \<Rightarrow> 'v option" where
  "dget d k \<equiv> map_of d k"

abbreviation dset :: "string \<Rightarrow> 'v \<Rightarrow> 'v dict \<Rightarrow> 'v dict" where
  "dset k v d \<equiv> AList.update k v d"

abbreviation dkeys :: "'v dict \<Rightarrow> string list" where
  "dkeys d \<equiv> map fst d"

abbreviation dvalues :: "'v dict \<Rightarrow> 'v list" where
  "dvalues d \<equiv> map snd d"

text \<open>\<open>d[k]\<close>, raising \<open>KeyError\<close>.\<close>

definition dindex :: "'v dict \<Rightarrow> string \<Rightarrow> 'v res" where
  "dindex d k = from_option (key_error k) (dget d k)"

text \<open>A dictionary comprehension: later items overwrite earlier ones.\<close>

definition dict_of :: "(string \<times> 'v) list \<Rightarrow> 'v dict" where
  "dict_of kvs = fold (\<lambda>(k, v). dset k v) kvs []"

lemma dindex_eq_Inr [res_simps]: "dindex d k = Inr v \<longleftrightarrow> dget d k = Some v"
  by (simp add: dindex_def res_simps)

lemma dget_dset: "dget (dset k v d) k' = (if k' = k then Some v else dget d k')"
  by (simp add: update_conv')

lemma dset_new: "k \<notin> set (dkeys d) \<Longrightarrow> dset k v d = d @ [(k, v)]"
  by (induction d) auto

lemma dict_of_acc:
  "distinct (dkeys (d @ kvs)) \<Longrightarrow> fold (\<lambda>(k, v). dset k v) kvs d = d @ kvs"
proof (induction kvs arbitrary: d)
  case (Cons kv kvs)
  obtain k v where kv: "kv = (k, v)" by (cases kv)
  from Cons.prems kv have "dset k v d = d @ [(k, v)]"
    by (intro dset_new) auto
  with Cons.IH [of "d @ [(k, v)]"] Cons.prems kv show ?case by simp
qed simp

lemma dict_of_distinct: "distinct (dkeys kvs) \<Longrightarrow> dict_of kvs = kvs"
  by (simp add: dict_of_def dict_of_acc)

lemma dkeys_dset: "set (dkeys (dset k v d)) = insert k (set (dkeys d))"
  by (induction d) auto

section \<open>Python's slices and first elements\<close>

text \<open>\<open>xs[:n]\<close> for any integer \<open>n\<close>: a negative bound counts from the end.\<close>

definition py_prefix :: "int \<Rightarrow> 'a list \<Rightarrow> 'a list" where
  "py_prefix n xs =
     (if 0 \<le> n then take (nat n) xs else take (nat (int (length xs) + n)) xs)"

lemma py_prefix_subset: "set (py_prefix n xs) \<subseteq> set xs"
  by (auto simp: py_prefix_def dest: in_set_takeD)

lemma py_prefix_distinct: "distinct xs \<Longrightarrow> distinct (py_prefix n xs)"
  by (simp add: py_prefix_def)

lemma py_prefix_length: "0 \<le> n \<Longrightarrow> int (length (py_prefix n xs)) \<le> n"
  by (simp add: py_prefix_def)

end
