(* ===== verification/PyFloat.thy ===== *)
theory PyFloat
  imports Prelude "HOL-Library.Log_Nat" Complex_Main
begin

text \<open>
  Python's \<open>float\<close>. A finite double is represented by the rational number it denotes, and
  every arithmetic operation rounds its exact result to 53 significant bits, ties to even,
  as IEEE 754 arithmetic does. Exponents are unbounded here: overflow to infinity,
  subnormal numbers and NaN are outside the model (the program's floats are ratios of
  counts, seconds and milliseconds). The lemmas show that rounding is monotone and exact on
  small integers, which is what comparisons of scores rest on.
\<close>

type_synonym py_float = rat

section \<open>Rounding\<close>

definition round_half_even :: "rat \<Rightarrow> int" where
  "round_half_even q =
     (let f = \<lfloor>q\<rfloor>; r = q - of_int f in
      if r < 1 / 2 then f else if 1 / 2 < r then f + 1 else if even f then f else f + 1)"

text \<open>\<open>ilog2 q\<close> is the exponent \<open>e\<close> with \<open>2 ^ e \<le> q < 2 ^ (e + 1)\<close>, for positive \<open>q\<close>.\<close>

definition ilog2 :: "rat \<Rightarrow> int" where
  "ilog2 q =
     (let (a, b) = quotient_of q;
          e = int (floorlog 2 (nat a)) - int (floorlog 2 (nat b))
      in if 2 powi e \<le> q then e else e - 1)"

definition round53 :: "rat \<Rightarrow> py_float" where
  "round53 q =
     (if q = 0 then 0
      else let u = 2 powi (ilog2 \<bar>q\<bar> - 52)
           in sgn q * (of_int (round_half_even (\<bar>q\<bar> / u)) * u))"

text \<open>\<open>a / b\<close> on integers, \<open>a + b\<close>, \<open>a * b\<close> on floats.\<close>

definition py_truediv :: "int \<Rightarrow> int \<Rightarrow> py_float" where
  "py_truediv a b = round53 (of_int a / of_int b)"

definition fl_div :: "py_float \<Rightarrow> py_float \<Rightarrow> py_float" where
  "fl_div a b = round53 (a / b)"

definition fl_add :: "py_float \<Rightarrow> py_float \<Rightarrow> py_float" where
  "fl_add a b = round53 (a + b)"

definition fl_mult :: "py_float \<Rightarrow> py_float \<Rightarrow> py_float" where
  "fl_mult a b = round53 (a * b)"

text \<open>\<open>int(x)\<close> truncates towards zero.\<close>

definition fl_int :: "py_float \<Rightarrow> int" where
  "fl_int x = (if 0 \<le> x then \<lfloor>x\<rfloor> else - \<lfloor>- x\<rfloor>)"

section \<open>Rounding to an integer\<close>

lemma round_half_even_of_int [simp]: "round_half_even (of_int n) = n"
  by (simp add: round_half_even_def)

lemma round_half_even_bounds:
  "\<lfloor>q\<rfloor> \<le> round_half_even q \<and> round_half_even q \<le> \<lfloor>q\<rfloor> + 1"
  by (simp add: round_half_even_def Let_def)

lemma round_half_even_mono: "p \<le> q \<Longrightarrow> round_half_even p \<le> round_half_even q"
proof (cases "\<lfloor>p\<rfloor> = \<lfloor>q\<rfloor>")
  case True
  moreover assume "p \<le> q"
  ultimately show ?thesis by (auto simp: round_half_even_def Let_def)
next
  case False
  moreover assume "p \<le> q"
  ultimately have "\<lfloor>p\<rfloor> + 1 \<le> \<lfloor>q\<rfloor>" using floor_mono [of p q] by linarith
  then show ?thesis
    using round_half_even_bounds [of p] round_half_even_bounds [of q] by linarith
qed

lemma round_half_even_ge: "of_int n \<le> q \<Longrightarrow> n \<le> round_half_even q"
  using round_half_even_mono [of "of_int n" q] by simp

lemma round_half_even_le: "q \<le> of_int n \<Longrightarrow> round_half_even q \<le> n"
  using round_half_even_mono [of q "of_int n"] by simp

section \<open>The binary exponent\<close>

lemma floorlog2_bounds:
  "0 < n \<Longrightarrow> 2 ^ (floorlog 2 n - 1) \<le> n \<and> n < 2 ^ floorlog 2 n \<and> 0 < floorlog 2 n"
  using floorlog_bounds [of n 2] by (auto simp: floorlog_eq_zero_iff intro: ccontr)

lemma ilog2_bounds:
  assumes "0 < q"
  shows "2 powi (ilog2 q) \<le> q" and "q < 2 powi (ilog2 q + 1)"
proof -
  obtain a b where ab: "quotient_of q = (a, b)" by (cases "quotient_of q")
  have b: "0 < b" using quotient_of_denom_pos [OF ab] .
  have q: "q = of_int a / of_int b" using quotient_of_div [OF ab] .
  have a: "0 < a" using assms b q by (simp add: zero_less_divide_iff)
  define la lb where "la = floorlog 2 (nat a)" and "lb = floorlog 2 (nat b)"
  define e where "e = int la - int lb"
  have na: "2 ^ (la - 1) \<le> nat a" "nat a < 2 ^ la" "0 < la"
    and nb: "2 ^ (lb - 1) \<le> nat b" "nat b < 2 ^ lb" "0 < lb"
    using floorlog2_bounds [of "nat a"] floorlog2_bounds [of "nat b"] a b
    by (auto simp: la_def lb_def)
  have ra: "(2::rat) ^ (la - 1) \<le> of_int a" "(of_int a :: rat) < 2 ^ la"
    and rb: "(2::rat) ^ (lb - 1) \<le> of_int b" "(of_int b :: rat) < 2 ^ lb"
    using na nb a b
    by (metis le_nat_iff less_imp_le of_int_le_iff of_int_numeral of_int_power of_nat_numeral of_nat_power nat_le_iff int_nat_eq nat_less_iff of_int_less_iff)+
  have pa: "(2::rat) ^ la = 2 * 2 ^ (la - 1)" and pb: "(2::rat) ^ lb = 2 * 2 ^ (lb - 1)"
    using na nb by (simp_all flip: power_Suc)
  have pe: "(2::rat) powi e = 2 ^ la / 2 ^ lb"
    by (simp add: e_def power_int_diff)
  have up: "q < 2 powi (e + 1)"
  proof -
    have "of_int a < 2 ^ la * (1::rat)" using ra by simp
    also have "\<dots> \<le> 2 ^ la * (of_int b / 2 ^ (lb - 1))"
      using rb by (intro mult_left_mono) (auto simp: field_simps)
    finally show ?thesis
      using b by (simp add: q power_int_add pe pb field_simps)
  qed
  have low: "2 powi (e - 1) \<le> q"
  proof -
    have "2 powi (e - 1) * of_int b \<le> 2 powi (e - 1) * (2 :: rat) ^ lb"
      using rb by (intro mult_left_mono) auto
    also have "\<dots> = 2 ^ (la - 1)"
      by (simp add: power_int_diff pe pa)
    also have "\<dots> \<le> of_int a" using ra by simp
    finally show ?thesis using b by (simp add: q field_simps)
  qed
  have il: "ilog2 q = (if 2 powi e \<le> q then e else e - 1)"
    by (simp add: ilog2_def ab Let_def e_def la_def lb_def)
  show "2 powi (ilog2 q) \<le> q" and "q < 2 powi (ilog2 q + 1)"
    using il up low by (auto split: if_splits)
qed

lemma powi2_less_iff: "(2::rat) powi a < 2 powi b \<longleftrightarrow> a < b"
  using power_int_strict_increasing [of a b "2::rat"] power_int_increasing [of b a "2::rat"]
  by (meson leD linorder_not_le one_le_numeral one_less_numeral_iff semiring_norm(76))

lemma ilog2_mono:
  assumes "0 < p" "p \<le> q"
  shows "ilog2 p \<le> ilog2 q"
proof -
  have "(2::rat) powi (ilog2 p) < 2 powi (ilog2 q + 1)"
    using ilog2_bounds [of p] ilog2_bounds [of q] assms by linarith
  then show ?thesis by (simp add: powi2_less_iff)
qed

lemma ilog2_unique:
  assumes "2 powi e \<le> q" "q < 2 powi (e + 1)"
  shows "ilog2 q = e"
proof -
  have "0 < q" using assms(1) by (rule less_le_trans [rotated]) simp
  then have "(2::rat) powi e < 2 powi (ilog2 q + 1)" "(2::rat) powi (ilog2 q) < 2 powi (e + 1)"
    using ilog2_bounds [of q] assms by linarith+
  then show ?thesis by (simp add: powi2_less_iff)
qed

section \<open>Rounding to 53 bits\<close>

lemma round53_pos:
  "0 < q \<Longrightarrow> round53 q =
     of_int (round_half_even (q / 2 powi (ilog2 q - 52))) * 2 powi (ilog2 q - 52)"
  by (simp add: round53_def Let_def)

lemma round53_bounds:
  assumes "0 < q"
  shows "2 powi (ilog2 q) \<le> round53 q" and "round53 q \<le> 2 powi (ilog2 q + 1)"
proof -
  let ?u = "(2::rat) powi (ilog2 q - 52)"
  have u: "0 < ?u" by simp
  have e: "2 powi (ilog2 q) = of_int (2 ^ 52) * ?u" "2 powi (ilog2 q + 1) = of_int (2 ^ 53) * ?u"
    by (simp_all add: power_int_diff power_int_add)
  have "of_int (2 ^ 52) \<le> q / ?u" "q / ?u \<le> of_int (2 ^ 53)"
    using ilog2_bounds [OF assms] u unfolding e by (simp_all add: pos_le_divide_eq pos_divide_le_eq)
  then have "2 ^ 52 \<le> round_half_even (q / ?u)" "round_half_even (q / ?u) \<le> 2 ^ 53"
    using round_half_even_ge round_half_even_le by blast+
  then show "2 powi (ilog2 q) \<le> round53 q" and "round53 q \<le> 2 powi (ilog2 q + 1)"
    unfolding round53_pos [OF assms] e by (intro mult_right_mono of_int_le_iff [THEN iffD2]; simp)+
qed

lemma round53_mono_pos:
  assumes "0 < p" "p \<le> q"
  shows "round53 p \<le> round53 q"
proof (cases "ilog2 p = ilog2 q")
  case True
  let ?u = "(2::rat) powi (ilog2 q - 52)"
  have "round_half_even (p / ?u) \<le> round_half_even (q / ?u)"
    using assms by (intro round_half_even_mono divide_right_mono) auto
  then show ?thesis using assms True by (simp add: round53_pos mult_right_mono)
next
  case False
  with ilog2_mono [OF assms] have "ilog2 p + 1 \<le> ilog2 q" by simp
  then have "(2::rat) powi (ilog2 p + 1) \<le> 2 powi (ilog2 q)"
    by (intro power_int_increasing) auto
  then show ?thesis using round53_bounds [of p] round53_bounds [of q] assms by linarith
qed

lemma round53_zero [simp]: "round53 0 = 0"
  by (simp add: round53_def)

lemma round53_pos_pos: "0 < q \<Longrightarrow> 0 < round53 q"
  using round53_bounds(1) [of q] by (meson less_le_trans zero_less_numeral zero_less_power_int)

lemma round53_minus: "round53 (- q) = - round53 q"
  by (simp add: round53_def Let_def)

lemma round53_mono: "p \<le> q \<Longrightarrow> round53 p \<le> round53 q"
proof -
  assume pq: "p \<le> q"
  consider "0 < p" | "p \<le> 0" "0 \<le> q" | "q < 0" by linarith
  then show ?thesis
  proof cases
    case 1
    with pq show ?thesis by (intro round53_mono_pos)
  next
    case 2
    have "0 \<le> round53 q" using round53_pos_pos [of q] 2 by (cases "q = 0") auto
    moreover have "0 \<le> round53 (- p)" using round53_pos_pos [of "- p"] 2 by (cases "p = 0") auto
    ultimately show ?thesis by (simp add: round53_minus)
  next
    case 3
    with pq have "round53 (- q) \<le> round53 (- p)" by (intro round53_mono_pos) auto
    then show ?thesis by (simp add: round53_minus)
  qed
qed

text \<open>A number with at most 53 significant bits is its own rounding.\<close>

lemma round53_exact:
  assumes "0 < n" "n < 2 ^ 53"
  shows "round53 (of_int n * 2 powi k) = of_int n * 2 powi k"
proof -
  let ?q = "of_int n * (2::rat) powi k"
  let ?e = "ilog2 (of_int n)"
  have n: "(0::rat) < of_int n" using assms by simp
  have exp: "ilog2 ?q = ?e + k"
    using ilog2_bounds [OF n] by (intro ilog2_unique) (simp_all add: power_int_add)
  have "(2::rat) powi ?e < 2 powi 53"
  proof -
    have "(of_int n :: rat) < of_int (2 ^ 53)" using assms(2) by (simp only: of_int_less_iff)
    then show ?thesis using ilog2_bounds(1) [OF n] by simp
  qed
  then have "?e < 53" by (simp only: powi2_less_iff)
  then have e: "?e \<le> 52" by simp
  have "(2::rat) powi k / 2 powi (?e + k - 52) = 2 powi (k - (?e + k - 52))"
    by (simp only: power_int_diff [OF disjI1] zero_neq_numeral [symmetric] not_False_eq_True)
  also have "\<dots> = of_int (2 ^ nat (52 - ?e))"
    using e by (simp add: power_int_def)
  finally have u: "?q / 2 powi (?e + k - 52) = of_int (n * 2 ^ nat (52 - ?e))"
    by (simp only: times_divide_eq_right [symmetric] of_int_mult)
  have "round53 ?q = of_int (round_half_even (?q / 2 powi (?e + k - 52))) * 2 powi (?e + k - 52)"
    using n exp by (simp add: round53_pos)
  also have "\<dots> = (?q / 2 powi (?e + k - 52)) * 2 powi (?e + k - 52)"
    by (simp only: u round_half_even_of_int)
  finally show ?thesis by simp
qed

lemma round53_of_int: "\<bar>n\<bar> < 2 ^ 53 \<Longrightarrow> round53 (of_int n) = of_int n"
proof -
  assume "\<bar>n\<bar> < 2 ^ 53"
  then show ?thesis
    using round53_exact [of n 0] round53_exact [of "- n" 0] round53_minus [of "of_int n"]
    by (cases "n = 0"; cases "0 < n") auto
qed

lemma round53_1 [simp]: "round53 1 = 1"
  using round53_of_int [of 1] by simp

lemma py_truediv_unit: "0 < t \<Longrightarrow> 0 \<le> p \<Longrightarrow> p \<le> t \<Longrightarrow> 0 \<le> py_truediv p t \<and> py_truediv p t \<le> 1"
  using round53_mono [of 0 "of_int p / of_int t"] round53_mono [of "of_int p / of_int t" 1]
  by (auto simp: py_truediv_def)

lemma py_truediv_mono: "0 < t \<Longrightarrow> p \<le> p' \<Longrightarrow> py_truediv p t \<le> py_truediv p' t"
  unfolding py_truediv_def by (intro round53_mono divide_right_mono) auto

lemma py_truediv_same: "t \<noteq> 0 \<Longrightarrow> py_truediv t t = 1"
  by (simp add: py_truediv_def)

end
