(* ===== verification/Json.thy ===== *)
theory Json
  imports PyText PyFloat
begin

text \<open>
  JSON values as Python holds them after \<open>json.loads\<close> or \<open>model_dump(mode="json")\<close>, the
  comparisons \<open>==\<close>, \<open><\<close> and \<open>>\<close> on them, and the canonical text
  \<open>json.dumps(v, sort_keys=True, separators=(",", ":"), ensure_ascii=False)\<close>.
\<close>

datatype json =
    JNull | JBool bool | JInt int | JFloat py_float | JStr string
  | JList "json list" | JObj "(string \<times> json) list"

section \<open>Comparison\<close>

text \<open>\<open>bool\<close> is a subclass of \<open>int\<close>, so \<open>True == 1\<close>; integers and floats compare exactly.\<close>

fun num_val :: "json \<Rightarrow> rat option" where
  "num_val (JBool b) = Some (if b then 1 else 0)"
| "num_val (JInt i) = Some (of_int i)"
| "num_val (JFloat x) = Some x"
| "num_val _ = None"

text \<open>
  \<open>a == b\<close>: numbers by value, lists by elements, dictionaries as maps from keys.
\<close>

fun py_eq :: "json \<Rightarrow> json \<Rightarrow> bool"
and py_eq_list :: "json list \<Rightarrow> json list \<Rightarrow> bool"
and py_eq_dict :: "(string \<times> json) list \<Rightarrow> (string \<times> json) list \<Rightarrow> bool"
where
  "py_eq JNull b = (b = JNull)"
| "py_eq (JStr s) b = (b = JStr s)"
| "py_eq (JBool x) b = (num_val b = Some (if x then 1 else 0))"
| "py_eq (JInt x) b = (num_val b = Some (of_int x))"
| "py_eq (JFloat x) b = (num_val b = Some x)"
| "py_eq (JList xs) b = (case b of JList ys \<Rightarrow> py_eq_list xs ys | _ \<Rightarrow> False)"
| "py_eq (JObj xs) b =
     (case b of JObj ys \<Rightarrow> length xs = length ys \<and> py_eq_dict xs ys | _ \<Rightarrow> False)"
| "py_eq_list [] ys = (ys = [])"
| "py_eq_list (x # xs) ys = (case ys of [] \<Rightarrow> False | y # ys' \<Rightarrow> py_eq x y \<and> py_eq_list xs ys')"
| "py_eq_dict [] ys = True"
| "py_eq_dict ((k, x) # xs) ys =
     ((case map_of ys k of None \<Rightarrow> False | Some y \<Rightarrow> py_eq x y) \<and> py_eq_dict xs ys)"

text \<open>
  \<open>a < b\<close>: numbers, strings by code points, lists at their first difference; every
  other pair raises \<open>TypeError\<close>.
\<close>

fun py_lt :: "json \<Rightarrow> json \<Rightarrow> bool res" where
  "py_lt (JStr s) (JStr t) = Inr (s < t)"
| "py_lt (JList []) (JList ys) = Inr (ys \<noteq> [])"
| "py_lt (JList (x # xs)) (JList []) = Inr False"
| "py_lt (JList (x # xs)) (JList (y # ys)) =
     (if py_eq x y then py_lt (JList xs) (JList ys) else py_lt x y)"
| "py_lt a b =
     (case (num_val a, num_val b) of
        (Some x, Some y) \<Rightarrow> Inr (x < y)
      | _ \<Rightarrow> Inl (Exc TypeErrorC ''comparison not supported between instances''))"

text \<open>\<open>a > b\<close> is the reflected comparison.\<close>

definition py_gt :: "json \<Rightarrow> json \<Rightarrow> bool res" where
  "py_gt a b = py_lt b a"

text \<open>A condition on a flag compares it with a JSON boolean: no other value is equal to both.\<close>

lemma py_eq_bool: "py_eq (JBool a) (JBool b) = (a = b)"
  by auto

lemma py_lt_numbers: "num_val a = Some x \<Longrightarrow> num_val b = Some y \<Longrightarrow> py_lt a b = Inr (x < y)"
  by (cases a; cases b) auto

lemma py_lt_total_on_strings: "\<exists>r. py_lt (JStr s) (JStr t) = Inr r"
  by simp

section \<open>Canonical text\<close>

text \<open>Sorting the keys of every dictionary.\<close>

fun sort_keys :: "json \<Rightarrow> json" where
  "sort_keys (JList xs) = JList (map sort_keys xs)"
| "sort_keys (JObj kvs) = JObj (sort_key fst (map (\<lambda>(k, v). (k, sort_keys v)) kvs))"
| "sort_keys v = v"

text \<open>
  \<open>py_encode_basestring\<close>: a quote, a backslash and the control characters are escaped,
  everything else is kept (\<open>ensure_ascii=False\<close>).
\<close>

definition hex_digit :: "nat \<Rightarrow> char" where
  "hex_digit n = (if n < 10 then char_of (48 + n) else char_of (87 + n))"

definition esc_char :: "char \<Rightarrow> string" where
  "esc_char c = (let n = of_char c :: nat in
     if c = CHR 0x22 then [CHR 0x5C, CHR 0x22]
     else if c = CHR 0x5C then [CHR 0x5C, CHR 0x5C]
     else if n = 10 then [CHR 0x5C, CHR ''n'']
     else if n = 13 then [CHR 0x5C, CHR ''r'']
     else if n = 9 then [CHR 0x5C, CHR ''t'']
     else if n = 12 then [CHR 0x5C, CHR ''f'']
     else if n = 8 then [CHR 0x5C, CHR ''b'']
     else if n < 32 then CHR 0x5C # ''u00'' @ [hex_digit (n div 16), hex_digit (n mod 16)]
     else [c])"

definition json_string :: "string \<Rightarrow> string" where
  "json_string s = CHR 0x22 # concat (map esc_char s) @ [CHR 0x22]"

fun join :: "string \<Rightarrow> string list \<Rightarrow> string" where
  "join sep [] = []"
| "join sep [x] = x"
| "join sep (x # xs) = x @ sep @ join sep xs"

text \<open>
  \<open>dumps repr v\<close> with compact separators; \<open>repr\<close> is \<open>float.__repr__\<close>.
\<close>

fun dumps :: "(py_float \<Rightarrow> string) \<Rightarrow> json \<Rightarrow> string" where
  "dumps repr JNull = ''null''"
| "dumps repr (JBool b) = (if b then ''true'' else ''false'')"
| "dumps repr (JInt i) = py_str_int i"
| "dumps repr (JFloat x) = repr x"
| "dumps repr (JStr s) = json_string s"
| "dumps repr (JList xs) = ''['' @ join '','' (map (dumps repr) xs) @ '']''"
| "dumps repr (JObj kvs) =
     ''{'' @ join '','' (map (\<lambda>(k, v). json_string k @ '':'' @ dumps repr v) kvs) @ ''}''"

definition canonical_json :: "(py_float \<Rightarrow> string) \<Rightarrow> json \<Rightarrow> string" where
  "canonical_json repr v = dumps repr (sort_keys v)"

end
