(* ===== verification/Schemas.thy ===== *)
theory Schemas
  imports Json "HOL-Library.Monad_Syntax"
begin

text \<open>
  The artifact schemas of \<open>schemas/artifacts.py\<close>: one record per pydantic model, its
  \<open>model_dump(mode="json")\<close> and its \<open>model_validate\<close>.

  What a class declares (field names, order, required or default, \<open>extra="forbid"\<close>,
  literals, optional and list fields, nested models) is written out. How pydantic coerces a
  scalar (\<open>str\<close>, \<open>bool\<close>, \<open>int\<close>, \<open>float\<close>) and words its error is a parameter, the
  record \<open>pydantic\<close>; \<open>pydantic_ok\<close> states its documented behaviour on values that
  already have the declared type. Round-trip lemmas: validating a dump gives the model back.
\<close>

record pydantic =
  as_str :: "json \<Rightarrow> string option"
  as_bool :: "json \<Rightarrow> bool option"
  as_int :: "json \<Rightarrow> int option"
  as_float :: "json \<Rightarrow> py_float option"
  validation_message :: "string \<Rightarrow> json \<Rightarrow> string"

definition pydantic_ok :: "pydantic \<Rightarrow> bool" where
  "pydantic_ok P \<longleftrightarrow> (\<forall>s. as_str P (JStr s) = Some s) \<and> (\<forall>b. as_bool P (JBool b) = Some b)
     \<and> (\<forall>i. as_int P (JInt i) = Some i) \<and> (\<forall>x. as_float P (JFloat x) = Some x)"

text \<open>An instance that accepts exactly the values of the declared type (strict mode).\<close>

definition strict_pydantic :: pydantic where
  "strict_pydantic = \<lparr>
     as_str = (\<lambda>v. case v of JStr s \<Rightarrow> Some s | _ \<Rightarrow> None),
     as_bool = (\<lambda>v. case v of JBool b \<Rightarrow> Some b | _ \<Rightarrow> None),
     as_int = (\<lambda>v. case v of JInt i \<Rightarrow> Some i | _ \<Rightarrow> None),
     as_float = (\<lambda>v. case v of JFloat x \<Rightarrow> Some x | _ \<Rightarrow> None),
     validation_message = (\<lambda>c v. ''validation error for '' @ c)\<rparr>"

lemma strict_pydantic_ok: "pydantic_ok strict_pydantic"
  by (simp add: pydantic_ok_def strict_pydantic_def)

section \<open>Reading fields\<close>

definition as_obj :: "json \<Rightarrow> json dict option" where
  "as_obj v = (case v of JObj d \<Rightarrow> Some d | _ \<Rightarrow> None)"

definition only_keys :: "string list \<Rightarrow> json dict \<Rightarrow> unit option" where
  "only_keys ks d = (if list_all (\<lambda>k. k \<in> set ks) (dkeys d) then Some () else None)"

definition req :: "json dict \<Rightarrow> string \<Rightarrow> (json \<Rightarrow> 'a option) \<Rightarrow> 'a option" where
  "req d k f = (case dget d k of None \<Rightarrow> None | Some v \<Rightarrow> f v)"

definition opt :: "json dict \<Rightarrow> string \<Rightarrow> (json \<Rightarrow> 'a option) \<Rightarrow> 'a \<Rightarrow> 'a option" where
  "opt d k f x = (case dget d k of None \<Rightarrow> Some x | Some v \<Rightarrow> f v)"

definition as_opt :: "(json \<Rightarrow> 'a option) \<Rightarrow> json \<Rightarrow> 'a option option" where
  "as_opt f v = (if v = JNull then Some None else map_option Some (f v))"

definition as_list :: "(json \<Rightarrow> 'a option) \<Rightarrow> json \<Rightarrow> 'a list option" where
  "as_list f v = (case v of JList vs \<Rightarrow> those (map f vs) | _ \<Rightarrow> None)"

definition as_lit :: "string list \<Rightarrow> json \<Rightarrow> string option" where
  "as_lit ls v = (case v of JStr s \<Rightarrow> if s \<in> set ls then Some s else None | _ \<Rightarrow> None)"

definition dump_opt :: "('a \<Rightarrow> json) \<Rightarrow> 'a option \<Rightarrow> json" where
  "dump_opt f x = (case x of None \<Rightarrow> JNull | Some y \<Rightarrow> f y)"

named_theorems field_simps_schema \<open>reading the fields of a dumped model\<close>

lemma those_map: "(\<And>x. x \<in> set xs \<Longrightarrow> f (g x) = Some x) \<Longrightarrow> those (map f (map g xs)) = Some xs"
  by (induction xs) auto

lemma as_list_dump [field_simps_schema]:
  "(\<And>x. x \<in> set xs \<Longrightarrow> f (g x) = Some x) \<Longrightarrow> as_list f (JList (map g xs)) = Some xs"
  using those_map [of xs f g] by (simp add: as_list_def)

lemma as_opt_dump [field_simps_schema]:
  "(\<And>y. f (g y) = Some y) \<Longrightarrow> (\<And>y. g y \<noteq> JNull) \<Longrightarrow> as_opt f (dump_opt g x) = Some x"
  by (cases x) (simp_all add: as_opt_def dump_opt_def)

lemma pydantic_simps [field_simps_schema]:
  assumes "pydantic_ok P"
  shows "as_str P (JStr s) = Some s" "as_bool P (JBool b) = Some b"
    "as_int P (JInt i) = Some i" "as_float P (JFloat x) = Some x"
  using assms by (simp_all add: pydantic_ok_def)

lemmas read_defs [field_simps_schema] =
  as_obj_def only_keys_def req_def opt_def as_lit_def

section \<open>Public examples\<close>

record public_example =
  ex_input :: string
  ex_output :: string
  ex_testtype :: string

definition dump_example :: "public_example \<Rightarrow> json" where
  "dump_example e = JObj [(''input'', JStr (ex_input e)), (''output'', JStr (ex_output e)),
     (''testtype'', JStr (ex_testtype e))]"

text \<open>\<open>PublicExample\<close> does not forbid extra keys: they are dropped.\<close>

definition validate_example :: "pydantic \<Rightarrow> json \<Rightarrow> public_example option" where
  "validate_example P v = do {
     d \<leftarrow> as_obj v;
     i \<leftarrow> req d ''input'' (as_str P);
     out \<leftarrow> req d ''output'' (as_str P);
     t \<leftarrow> opt d ''testtype'' (as_lit [''stdin'', ''functional'']) ''stdin'';
     Some \<lparr>ex_input = i, ex_output = out, ex_testtype = t\<rparr> }"

text \<open>The literal fields range over their declared values.\<close>

definition wf_example :: "public_example \<Rightarrow> bool" where
  "wf_example e \<longleftrightarrow> ex_testtype e \<in> {''stdin'', ''functional''}"

lemma validate_example_dump:
  "pydantic_ok P \<Longrightarrow> wf_example e \<Longrightarrow> validate_example P (dump_example e) = Some e"
  by (auto simp: validate_example_def dump_example_def wf_example_def field_simps_schema)

lemma dump_example_not_null [simp]: "dump_example e \<noteq> JNull"
  by (simp add: dump_example_def)


section \<open>ProblemArtifact\<close>

record problem_artifact =
  pr_schema_version :: string
  pr_question_id :: string
  pr_title :: string
  pr_statement :: string
  pr_starter_code :: string
  pr_difficulty :: string
  pr_platform :: string
  pr_contest_date :: string
  pr_public_examples :: "public_example list"
  pr_function_name :: "string option"

definition problem_fields :: "string list" where
  "problem_fields = [''schema_version'',
     ''question_id'',
     ''title'',
     ''statement'',
     ''starter_code'',
     ''difficulty'',
     ''platform'',
     ''contest_date'',
     ''public_examples'',
     ''function_name'']"

definition dump_problem :: "problem_artifact \<Rightarrow> json" where
  "dump_problem a = JObj [
     (''schema_version'', JStr (pr_schema_version a)),
     (''question_id'', JStr (pr_question_id a)),
     (''title'', JStr (pr_title a)),
     (''statement'', JStr (pr_statement a)),
     (''starter_code'', JStr (pr_starter_code a)),
     (''difficulty'', JStr (pr_difficulty a)),
     (''platform'', JStr (pr_platform a)),
     (''contest_date'', JStr (pr_contest_date a)),
     (''public_examples'', JList (map dump_example (pr_public_examples a))),
     (''function_name'', dump_opt JStr (pr_function_name a))]"

definition validate_problem :: "pydantic \<Rightarrow> json \<Rightarrow> problem_artifact option" where
  "validate_problem P v = do {
     d \<leftarrow> as_obj v;
     _ \<leftarrow> only_keys problem_fields d;
     x0 \<leftarrow> opt d ''schema_version'' (as_str P) ''1.0'';
     x1 \<leftarrow> req d ''question_id'' (as_str P);
     x2 \<leftarrow> req d ''title'' (as_str P);
     x3 \<leftarrow> req d ''statement'' (as_str P);
     x4 \<leftarrow> opt d ''starter_code'' (as_str P) '''';
     x5 \<leftarrow> req d ''difficulty'' (as_str P);
     x6 \<leftarrow> req d ''platform'' (as_str P);
     x7 \<leftarrow> opt d ''contest_date'' (as_str P) '''';
     x8 \<leftarrow> opt d ''public_examples'' (as_list (validate_example P)) [];
     x9 \<leftarrow> opt d ''function_name'' (as_opt (as_str P)) None;
     Some \<lparr>pr_schema_version = x0, pr_question_id = x1, pr_title = x2, pr_statement = x3, pr_starter_code = x4, pr_difficulty = x5, pr_platform = x6, pr_contest_date = x7, pr_public_examples = x8, pr_function_name = x9\<rparr> }"

definition wf_problem :: "problem_artifact \<Rightarrow> bool" where
  "wf_problem a \<longleftrightarrow> list_all wf_example (pr_public_examples a)"

lemma validate_problem_dump:
  "pydantic_ok P \<Longrightarrow> wf_problem a \<Longrightarrow> validate_problem P (dump_problem a) = Some a"
  by (simp add: validate_problem_def dump_problem_def problem_fields_def field_simps_schema wf_problem_def list_all_iff validate_example_dump)

lemma validate_problem_keys:
  "validate_problem P v = Some a \<Longrightarrow> \<exists>d. v = JObj d \<and> set (dkeys d) \<subseteq> set problem_fields"
  by (auto simp: validate_problem_def as_obj_def only_keys_def list_all_iff bind_eq_Some_conv
      split: json.splits if_splits)

section \<open>AlgorithmPlanArtifact\<close>

record algorithm_plan_artifact =
  al_schema_version :: string
  al_problem_summary :: string
  al_algorithm :: string
  al_data_structures :: "string list"
  al_correctness_argument :: string
  al_time_complexity :: string
  al_space_complexity :: string
  al_edge_cases :: "string list"
  al_implementation_notes :: "string list"

definition algorithm_plan_fields :: "string list" where
  "algorithm_plan_fields = [''schema_version'',
     ''problem_summary'',
     ''algorithm'',
     ''data_structures'',
     ''correctness_argument'',
     ''time_complexity'',
     ''space_complexity'',
     ''edge_cases'',
     ''implementation_notes'']"

definition dump_algorithm_plan :: "algorithm_plan_artifact \<Rightarrow> json" where
  "dump_algorithm_plan a = JObj [
     (''schema_version'', JStr (al_schema_version a)),
     (''problem_summary'', JStr (al_problem_summary a)),
     (''algorithm'', JStr (al_algorithm a)),
     (''data_structures'', JList (map JStr (al_data_structures a))),
     (''correctness_argument'', JStr (al_correctness_argument a)),
     (''time_complexity'', JStr (al_time_complexity a)),
     (''space_complexity'', JStr (al_space_complexity a)),
     (''edge_cases'', JList (map JStr (al_edge_cases a))),
     (''implementation_notes'', JList (map JStr (al_implementation_notes a)))]"

definition validate_algorithm_plan :: "pydantic \<Rightarrow> json \<Rightarrow> algorithm_plan_artifact option" where
  "validate_algorithm_plan P v = do {
     d \<leftarrow> as_obj v;
     _ \<leftarrow> only_keys algorithm_plan_fields d;
     x0 \<leftarrow> opt d ''schema_version'' (as_str P) ''1.0'';
     x1 \<leftarrow> req d ''problem_summary'' (as_str P);
     x2 \<leftarrow> req d ''algorithm'' (as_str P);
     x3 \<leftarrow> opt d ''data_structures'' (as_list (as_str P)) [];
     x4 \<leftarrow> req d ''correctness_argument'' (as_str P);
     x5 \<leftarrow> req d ''time_complexity'' (as_str P);
     x6 \<leftarrow> req d ''space_complexity'' (as_str P);
     x7 \<leftarrow> req d ''edge_cases'' (as_list (as_str P));
     x8 \<leftarrow> opt d ''implementation_notes'' (as_list (as_str P)) [];
     Some \<lparr>al_schema_version = x0, al_problem_summary = x1, al_algorithm = x2, al_data_structures = x3, al_correctness_argument = x4, al_time_complexity = x5, al_space_complexity = x6, al_edge_cases = x7, al_implementation_notes = x8\<rparr> }"

lemma validate_algorithm_plan_dump:
  "pydantic_ok P \<Longrightarrow> validate_algorithm_plan P (dump_algorithm_plan a) = Some a"
  by (simp add: validate_algorithm_plan_def dump_algorithm_plan_def algorithm_plan_fields_def field_simps_schema)

lemma validate_algorithm_plan_keys:
  "validate_algorithm_plan P v = Some a \<Longrightarrow> \<exists>d. v = JObj d \<and> set (dkeys d) \<subseteq> set algorithm_plan_fields"
  by (auto simp: validate_algorithm_plan_def as_obj_def only_keys_def list_all_iff bind_eq_Some_conv
      split: json.splits if_splits)

section \<open>EdgeCaseArtifact\<close>

record edge_case_artifact =
  ec_schema_version :: string
  ec_input_output_interpretation :: string
  ec_edge_cases :: "string list"
  ec_overflow_risks :: "string list"
  ec_indexing_risks :: "string list"
  ec_interface_concerns :: "string list"
  ec_likely_failure_modes :: "string list"

definition edge_case_fields :: "string list" where
  "edge_case_fields = [''schema_version'',
     ''input_output_interpretation'',
     ''edge_cases'',
     ''overflow_risks'',
     ''indexing_risks'',
     ''interface_concerns'',
     ''likely_failure_modes'']"

definition dump_edge_case :: "edge_case_artifact \<Rightarrow> json" where
  "dump_edge_case a = JObj [
     (''schema_version'', JStr (ec_schema_version a)),
     (''input_output_interpretation'', JStr (ec_input_output_interpretation a)),
     (''edge_cases'', JList (map JStr (ec_edge_cases a))),
     (''overflow_risks'', JList (map JStr (ec_overflow_risks a))),
     (''indexing_risks'', JList (map JStr (ec_indexing_risks a))),
     (''interface_concerns'', JList (map JStr (ec_interface_concerns a))),
     (''likely_failure_modes'', JList (map JStr (ec_likely_failure_modes a)))]"

definition validate_edge_case :: "pydantic \<Rightarrow> json \<Rightarrow> edge_case_artifact option" where
  "validate_edge_case P v = do {
     d \<leftarrow> as_obj v;
     _ \<leftarrow> only_keys edge_case_fields d;
     x0 \<leftarrow> opt d ''schema_version'' (as_str P) ''1.0'';
     x1 \<leftarrow> req d ''input_output_interpretation'' (as_str P);
     x2 \<leftarrow> req d ''edge_cases'' (as_list (as_str P));
     x3 \<leftarrow> opt d ''overflow_risks'' (as_list (as_str P)) [];
     x4 \<leftarrow> opt d ''indexing_risks'' (as_list (as_str P)) [];
     x5 \<leftarrow> opt d ''interface_concerns'' (as_list (as_str P)) [];
     x6 \<leftarrow> opt d ''likely_failure_modes'' (as_list (as_str P)) [];
     Some \<lparr>ec_schema_version = x0, ec_input_output_interpretation = x1, ec_edge_cases = x2, ec_overflow_risks = x3, ec_indexing_risks = x4, ec_interface_concerns = x5, ec_likely_failure_modes = x6\<rparr> }"

lemma validate_edge_case_dump:
  "pydantic_ok P \<Longrightarrow> validate_edge_case P (dump_edge_case a) = Some a"
  by (simp add: validate_edge_case_def dump_edge_case_def edge_case_fields_def field_simps_schema)

lemma validate_edge_case_keys:
  "validate_edge_case P v = Some a \<Longrightarrow> \<exists>d. v = JObj d \<and> set (dkeys d) \<subseteq> set edge_case_fields"
  by (auto simp: validate_edge_case_def as_obj_def only_keys_def list_all_iff bind_eq_Some_conv
      split: json.splits if_splits)

section \<open>CombinedPlanArtifact\<close>

record combined_plan_artifact =
  cp_schema_version :: string
  cp_problem_summary :: string
  cp_algorithm :: string
  cp_correctness_argument :: string
  cp_time_complexity :: string
  cp_space_complexity :: string
  cp_data_structures :: "string list"
  cp_edge_cases :: "string list"
  cp_implementation_risks :: "string list"

definition combined_plan_fields :: "string list" where
  "combined_plan_fields = [''schema_version'',
     ''problem_summary'',
     ''algorithm'',
     ''correctness_argument'',
     ''time_complexity'',
     ''space_complexity'',
     ''data_structures'',
     ''edge_cases'',
     ''implementation_risks'']"

definition dump_combined_plan :: "combined_plan_artifact \<Rightarrow> json" where
  "dump_combined_plan a = JObj [
     (''schema_version'', JStr (cp_schema_version a)),
     (''problem_summary'', JStr (cp_problem_summary a)),
     (''algorithm'', JStr (cp_algorithm a)),
     (''correctness_argument'', JStr (cp_correctness_argument a)),
     (''time_complexity'', JStr (cp_time_complexity a)),
     (''space_complexity'', JStr (cp_space_complexity a)),
     (''data_structures'', JList (map JStr (cp_data_structures a))),
     (''edge_cases'', JList (map JStr (cp_edge_cases a))),
     (''implementation_risks'', JList (map JStr (cp_implementation_risks a)))]"

definition validate_combined_plan :: "pydantic \<Rightarrow> json \<Rightarrow> combined_plan_artifact option" where
  "validate_combined_plan P v = do {
     d \<leftarrow> as_obj v;
     _ \<leftarrow> only_keys combined_plan_fields d;
     x0 \<leftarrow> opt d ''schema_version'' (as_str P) ''1.0'';
     x1 \<leftarrow> req d ''problem_summary'' (as_str P);
     x2 \<leftarrow> req d ''algorithm'' (as_str P);
     x3 \<leftarrow> req d ''correctness_argument'' (as_str P);
     x4 \<leftarrow> req d ''time_complexity'' (as_str P);
     x5 \<leftarrow> req d ''space_complexity'' (as_str P);
     x6 \<leftarrow> opt d ''data_structures'' (as_list (as_str P)) [];
     x7 \<leftarrow> opt d ''edge_cases'' (as_list (as_str P)) [];
     x8 \<leftarrow> opt d ''implementation_risks'' (as_list (as_str P)) [];
     Some \<lparr>cp_schema_version = x0, cp_problem_summary = x1, cp_algorithm = x2, cp_correctness_argument = x3, cp_time_complexity = x4, cp_space_complexity = x5, cp_data_structures = x6, cp_edge_cases = x7, cp_implementation_risks = x8\<rparr> }"

lemma validate_combined_plan_dump:
  "pydantic_ok P \<Longrightarrow> validate_combined_plan P (dump_combined_plan a) = Some a"
  by (simp add: validate_combined_plan_def dump_combined_plan_def combined_plan_fields_def field_simps_schema)

lemma validate_combined_plan_keys:
  "validate_combined_plan P v = Some a \<Longrightarrow> \<exists>d. v = JObj d \<and> set (dkeys d) \<subseteq> set combined_plan_fields"
  by (auto simp: validate_combined_plan_def as_obj_def only_keys_def list_all_iff bind_eq_Some_conv
      split: json.splits if_splits)

section \<open>CodeArtifact\<close>

record code_artifact =
  co_schema_version :: string
  co_language :: string
  co_code :: string
  co_source_node :: string
  co_explanation :: "string option"

definition code_fields :: "string list" where
  "code_fields = [''schema_version'',
     ''language'',
     ''code'',
     ''source_node'',
     ''explanation'']"

definition dump_code :: "code_artifact \<Rightarrow> json" where
  "dump_code a = JObj [
     (''schema_version'', JStr (co_schema_version a)),
     (''language'', JStr (co_language a)),
     (''code'', JStr (co_code a)),
     (''source_node'', JStr (co_source_node a)),
     (''explanation'', dump_opt JStr (co_explanation a))]"

definition validate_code :: "pydantic \<Rightarrow> json \<Rightarrow> code_artifact option" where
  "validate_code P v = do {
     d \<leftarrow> as_obj v;
     _ \<leftarrow> only_keys code_fields d;
     x0 \<leftarrow> opt d ''schema_version'' (as_str P) ''1.0'';
     x1 \<leftarrow> opt d ''language'' (as_lit [''python'']) ''python'';
     x2 \<leftarrow> req d ''code'' (as_str P);
     x3 \<leftarrow> opt d ''source_node'' (as_str P) '''';
     x4 \<leftarrow> opt d ''explanation'' (as_opt (as_str P)) None;
     Some \<lparr>co_schema_version = x0, co_language = x1, co_code = x2, co_source_node = x3, co_explanation = x4\<rparr> }"

definition wf_code :: "code_artifact \<Rightarrow> bool" where
  "wf_code a \<longleftrightarrow> co_language a = ''python''"

lemma validate_code_dump:
  "pydantic_ok P \<Longrightarrow> wf_code a \<Longrightarrow> validate_code P (dump_code a) = Some a"
  by (simp add: validate_code_def dump_code_def code_fields_def field_simps_schema wf_code_def list_all_iff)

lemma validate_code_keys:
  "validate_code P v = Some a \<Longrightarrow> \<exists>d. v = JObj d \<and> set (dkeys d) \<subseteq> set code_fields"
  by (auto simp: validate_code_def as_obj_def only_keys_def list_all_iff bind_eq_Some_conv
      split: json.splits if_splits)

section \<open>VisibleFailureSummary\<close>

record failure_artifact =
  vf_schema_version :: string
  vf_compile_error :: "string option"
  vf_exception_type :: "string option"
  vf_timeout :: bool
  vf_public_input :: "string option"
  vf_expected_public_output :: "string option"
  vf_actual_public_output :: "string option"
  vf_failed_public_test_index :: "int option"
  vf_errors :: "string list"

definition failure_fields :: "string list" where
  "failure_fields = [''schema_version'',
     ''compile_error'',
     ''exception_type'',
     ''timeout'',
     ''public_input'',
     ''expected_public_output'',
     ''actual_public_output'',
     ''failed_public_test_index'',
     ''errors'']"

definition dump_failure :: "failure_artifact \<Rightarrow> json" where
  "dump_failure a = JObj [
     (''schema_version'', JStr (vf_schema_version a)),
     (''compile_error'', dump_opt JStr (vf_compile_error a)),
     (''exception_type'', dump_opt JStr (vf_exception_type a)),
     (''timeout'', JBool (vf_timeout a)),
     (''public_input'', dump_opt JStr (vf_public_input a)),
     (''expected_public_output'', dump_opt JStr (vf_expected_public_output a)),
     (''actual_public_output'', dump_opt JStr (vf_actual_public_output a)),
     (''failed_public_test_index'', dump_opt JInt (vf_failed_public_test_index a)),
     (''errors'', JList (map JStr (vf_errors a)))]"

definition validate_failure :: "pydantic \<Rightarrow> json \<Rightarrow> failure_artifact option" where
  "validate_failure P v = do {
     d \<leftarrow> as_obj v;
     _ \<leftarrow> only_keys failure_fields d;
     x0 \<leftarrow> opt d ''schema_version'' (as_str P) ''1.0'';
     x1 \<leftarrow> opt d ''compile_error'' (as_opt (as_str P)) None;
     x2 \<leftarrow> opt d ''exception_type'' (as_opt (as_str P)) None;
     x3 \<leftarrow> opt d ''timeout'' (as_bool P) False;
     x4 \<leftarrow> opt d ''public_input'' (as_opt (as_str P)) None;
     x5 \<leftarrow> opt d ''expected_public_output'' (as_opt (as_str P)) None;
     x6 \<leftarrow> opt d ''actual_public_output'' (as_opt (as_str P)) None;
     x7 \<leftarrow> opt d ''failed_public_test_index'' (as_opt (as_int P)) None;
     x8 \<leftarrow> opt d ''errors'' (as_list (as_str P)) [];
     Some \<lparr>vf_schema_version = x0, vf_compile_error = x1, vf_exception_type = x2, vf_timeout = x3, vf_public_input = x4, vf_expected_public_output = x5, vf_actual_public_output = x6, vf_failed_public_test_index = x7, vf_errors = x8\<rparr> }"

lemma validate_failure_dump:
  "pydantic_ok P \<Longrightarrow> validate_failure P (dump_failure a) = Some a"
  by (simp add: validate_failure_def dump_failure_def failure_fields_def field_simps_schema)

lemma validate_failure_keys:
  "validate_failure P v = Some a \<Longrightarrow> \<exists>d. v = JObj d \<and> set (dkeys d) \<subseteq> set failure_fields"
  by (auto simp: validate_failure_def as_obj_def only_keys_def list_all_iff bind_eq_Some_conv
      split: json.splits if_splits)

section \<open>RepairInputArtifact\<close>

record repair_input_artifact =
  ri_schema_version :: string
  ri_problem :: problem_artifact
  ri_plan :: algorithm_plan_artifact
  ri_previous_code :: string
  ri_visible_failure_summary :: failure_artifact

definition repair_input_fields :: "string list" where
  "repair_input_fields = [''schema_version'',
     ''problem'',
     ''plan'',
     ''previous_code'',
     ''visible_failure_summary'']"

definition dump_repair_input :: "repair_input_artifact \<Rightarrow> json" where
  "dump_repair_input a = JObj [
     (''schema_version'', JStr (ri_schema_version a)),
     (''problem'', dump_problem (ri_problem a)),
     (''plan'', dump_algorithm_plan (ri_plan a)),
     (''previous_code'', JStr (ri_previous_code a)),
     (''visible_failure_summary'', dump_failure (ri_visible_failure_summary a))]"

definition validate_repair_input :: "pydantic \<Rightarrow> json \<Rightarrow> repair_input_artifact option" where
  "validate_repair_input P v = do {
     d \<leftarrow> as_obj v;
     _ \<leftarrow> only_keys repair_input_fields d;
     x0 \<leftarrow> opt d ''schema_version'' (as_str P) ''1.0'';
     x1 \<leftarrow> req d ''problem'' (validate_problem P);
     x2 \<leftarrow> req d ''plan'' (validate_algorithm_plan P);
     x3 \<leftarrow> req d ''previous_code'' (as_str P);
     x4 \<leftarrow> req d ''visible_failure_summary'' (validate_failure P);
     Some \<lparr>ri_schema_version = x0, ri_problem = x1, ri_plan = x2, ri_previous_code = x3, ri_visible_failure_summary = x4\<rparr> }"

definition wf_repair_input :: "repair_input_artifact \<Rightarrow> bool" where
  "wf_repair_input a \<longleftrightarrow> wf_problem (ri_problem a)"

lemma validate_repair_input_dump:
  "pydantic_ok P \<Longrightarrow> wf_repair_input a \<Longrightarrow> validate_repair_input P (dump_repair_input a) = Some a"
  by (simp add: validate_repair_input_def dump_repair_input_def repair_input_fields_def field_simps_schema wf_repair_input_def list_all_iff validate_problem_dump validate_algorithm_plan_dump validate_failure_dump)

lemma validate_repair_input_keys:
  "validate_repair_input P v = Some a \<Longrightarrow> \<exists>d. v = JObj d \<and> set (dkeys d) \<subseteq> set repair_input_fields"
  by (auto simp: validate_repair_input_def as_obj_def only_keys_def list_all_iff bind_eq_Some_conv
      split: json.splits if_splits)

section \<open>RepairArtifact\<close>

record repair_artifact =
  re_schema_version :: string
  re_diagnosis :: string
  re_changes :: "string list"
  re_revised_code :: string

definition repair_fields :: "string list" where
  "repair_fields = [''schema_version'',
     ''diagnosis'',
     ''changes'',
     ''revised_code'']"

definition dump_repair :: "repair_artifact \<Rightarrow> json" where
  "dump_repair a = JObj [
     (''schema_version'', JStr (re_schema_version a)),
     (''diagnosis'', JStr (re_diagnosis a)),
     (''changes'', JList (map JStr (re_changes a))),
     (''revised_code'', JStr (re_revised_code a))]"

definition validate_repair :: "pydantic \<Rightarrow> json \<Rightarrow> repair_artifact option" where
  "validate_repair P v = do {
     d \<leftarrow> as_obj v;
     _ \<leftarrow> only_keys repair_fields d;
     x0 \<leftarrow> opt d ''schema_version'' (as_str P) ''1.0'';
     x1 \<leftarrow> req d ''diagnosis'' (as_str P);
     x2 \<leftarrow> req d ''changes'' (as_list (as_str P));
     x3 \<leftarrow> req d ''revised_code'' (as_str P);
     Some \<lparr>re_schema_version = x0, re_diagnosis = x1, re_changes = x2, re_revised_code = x3\<rparr> }"

lemma validate_repair_dump:
  "pydantic_ok P \<Longrightarrow> validate_repair P (dump_repair a) = Some a"
  by (simp add: validate_repair_def dump_repair_def repair_fields_def field_simps_schema)

lemma validate_repair_keys:
  "validate_repair P v = Some a \<Longrightarrow> \<exists>d. v = JObj d \<and> set (dkeys d) \<subseteq> set repair_fields"
  by (auto simp: validate_repair_def as_obj_def only_keys_def list_all_iff bind_eq_Some_conv
      split: json.splits if_splits)

section \<open>PublicHarnessResultArtifact\<close>

record harness_result_artifact =
  hr_schema_version :: string
  hr_harness_available :: bool
  hr_passed :: bool
  hr_pass_ratio :: py_float
  hr_compile_success :: bool
  hr_runtime_errors :: int
  hr_timeouts :: int
  hr_duration_ms :: int
  hr_failure_summary :: failure_artifact

definition harness_result_fields :: "string list" where
  "harness_result_fields = [''schema_version'',
     ''harness_available'',
     ''passed'',
     ''pass_ratio'',
     ''compile_success'',
     ''runtime_errors'',
     ''timeouts'',
     ''duration_ms'',
     ''failure_summary'']"

definition dump_harness_result :: "harness_result_artifact \<Rightarrow> json" where
  "dump_harness_result a = JObj [
     (''schema_version'', JStr (hr_schema_version a)),
     (''harness_available'', JBool (hr_harness_available a)),
     (''passed'', JBool (hr_passed a)),
     (''pass_ratio'', JFloat (hr_pass_ratio a)),
     (''compile_success'', JBool (hr_compile_success a)),
     (''runtime_errors'', JInt (hr_runtime_errors a)),
     (''timeouts'', JInt (hr_timeouts a)),
     (''duration_ms'', JInt (hr_duration_ms a)),
     (''failure_summary'', dump_failure (hr_failure_summary a))]"

definition validate_harness_result :: "pydantic \<Rightarrow> json \<Rightarrow> harness_result_artifact option" where
  "validate_harness_result P v = do {
     d \<leftarrow> as_obj v;
     _ \<leftarrow> only_keys harness_result_fields d;
     x0 \<leftarrow> opt d ''schema_version'' (as_str P) ''1.0'';
     x1 \<leftarrow> req d ''harness_available'' (as_bool P);
     x2 \<leftarrow> req d ''passed'' (as_bool P);
     x3 \<leftarrow> req d ''pass_ratio'' (as_float P);
     x4 \<leftarrow> req d ''compile_success'' (as_bool P);
     x5 \<leftarrow> req d ''runtime_errors'' (as_int P);
     x6 \<leftarrow> req d ''timeouts'' (as_int P);
     x7 \<leftarrow> req d ''duration_ms'' (as_int P);
     x8 \<leftarrow> req d ''failure_summary'' (validate_failure P);
     Some \<lparr>hr_schema_version = x0, hr_harness_available = x1, hr_passed = x2, hr_pass_ratio = x3, hr_compile_success = x4, hr_runtime_errors = x5, hr_timeouts = x6, hr_duration_ms = x7, hr_failure_summary = x8\<rparr> }"

lemma validate_harness_result_dump:
  "pydantic_ok P \<Longrightarrow> validate_harness_result P (dump_harness_result a) = Some a"
  by (simp add: validate_harness_result_def dump_harness_result_def harness_result_fields_def field_simps_schema validate_failure_dump)

lemma validate_harness_result_keys:
  "validate_harness_result P v = Some a \<Longrightarrow> \<exists>d. v = JObj d \<and> set (dkeys d) \<subseteq> set harness_result_fields"
  by (auto simp: validate_harness_result_def as_obj_def only_keys_def list_all_iff bind_eq_Some_conv
      split: json.splits if_splits)

section \<open>FinalCodeArtifact\<close>

record final_code_artifact =
  fc_schema_version :: string
  fc_language :: string
  fc_code :: string
  fc_source_artifact_id :: string

definition final_code_fields :: "string list" where
  "final_code_fields = [''schema_version'',
     ''language'',
     ''code'',
     ''source_artifact_id'']"

definition dump_final_code :: "final_code_artifact \<Rightarrow> json" where
  "dump_final_code a = JObj [
     (''schema_version'', JStr (fc_schema_version a)),
     (''language'', JStr (fc_language a)),
     (''code'', JStr (fc_code a)),
     (''source_artifact_id'', JStr (fc_source_artifact_id a))]"

definition validate_final_code :: "pydantic \<Rightarrow> json \<Rightarrow> final_code_artifact option" where
  "validate_final_code P v = do {
     d \<leftarrow> as_obj v;
     _ \<leftarrow> only_keys final_code_fields d;
     x0 \<leftarrow> opt d ''schema_version'' (as_str P) ''1.0'';
     x1 \<leftarrow> opt d ''language'' (as_lit [''python'']) ''python'';
     x2 \<leftarrow> req d ''code'' (as_str P);
     x3 \<leftarrow> req d ''source_artifact_id'' (as_str P);
     Some \<lparr>fc_schema_version = x0, fc_language = x1, fc_code = x2, fc_source_artifact_id = x3\<rparr> }"

definition wf_final_code :: "final_code_artifact \<Rightarrow> bool" where
  "wf_final_code a \<longleftrightarrow> fc_language a = ''python''"

lemma validate_final_code_dump:
  "pydantic_ok P \<Longrightarrow> wf_final_code a \<Longrightarrow> validate_final_code P (dump_final_code a) = Some a"
  by (simp add: validate_final_code_def dump_final_code_def final_code_fields_def field_simps_schema wf_final_code_def list_all_iff)

lemma validate_final_code_keys:
  "validate_final_code P v = Some a \<Longrightarrow> \<exists>d. v = JObj d \<and> set (dkeys d) \<subseteq> set final_code_fields"
  by (auto simp: validate_final_code_def as_obj_def only_keys_def list_all_iff bind_eq_Some_conv
      split: json.splits if_splits)

section \<open>The registry of payload schemas\<close>

text \<open>\<open>PAYLOAD_SCHEMAS\<close>: an instance of one of the registered classes.\<close>

datatype payload_model =
    MProblem problem_artifact
  | MAlgorithmPlan algorithm_plan_artifact
  | MEdgeCase edge_case_artifact
  | MCombinedPlan combined_plan_artifact
  | MCode code_artifact
  | MFailure failure_artifact
  | MRepairInput repair_input_artifact
  | MRepair repair_artifact
  | MHarnessResult harness_result_artifact
  | MFinalCode final_code_artifact

text \<open>\<open>type(payload).__name__\<close>.\<close>

fun type_name :: "payload_model \<Rightarrow> string" where
  "type_name (MProblem _) = ''ProblemArtifact''"
| "type_name (MAlgorithmPlan _) = ''AlgorithmPlanArtifact''"
| "type_name (MEdgeCase _) = ''EdgeCaseArtifact''"
| "type_name (MCombinedPlan _) = ''CombinedPlanArtifact''"
| "type_name (MCode _) = ''CodeArtifact''"
| "type_name (MFailure _) = ''VisibleFailureSummary''"
| "type_name (MRepairInput _) = ''RepairInputArtifact''"
| "type_name (MRepair _) = ''RepairArtifact''"
| "type_name (MHarnessResult _) = ''PublicHarnessResultArtifact''"
| "type_name (MFinalCode _) = ''FinalCodeArtifact''"

fun model_dump :: "payload_model \<Rightarrow> json" where
  "model_dump (MProblem a) = dump_problem a"
| "model_dump (MAlgorithmPlan a) = dump_algorithm_plan a"
| "model_dump (MEdgeCase a) = dump_edge_case a"
| "model_dump (MCombinedPlan a) = dump_combined_plan a"
| "model_dump (MCode a) = dump_code a"
| "model_dump (MFailure a) = dump_failure a"
| "model_dump (MRepairInput a) = dump_repair_input a"
| "model_dump (MRepair a) = dump_repair a"
| "model_dump (MHarnessResult a) = dump_harness_result a"
| "model_dump (MFinalCode a) = dump_final_code a"

text \<open>The declared field names, for each registered class name.\<close>

definition payload_schemas :: "string list dict" where
  "payload_schemas = [
     (''ProblemArtifact'', problem_fields),
     (''AlgorithmPlanArtifact'', algorithm_plan_fields),
     (''EdgeCaseArtifact'', edge_case_fields),
     (''CombinedPlanArtifact'', combined_plan_fields),
     (''CodeArtifact'', code_fields),
     (''VisibleFailureSummary'', failure_fields),
     (''RepairInputArtifact'', repair_input_fields),
     (''RepairArtifact'', repair_fields),
     (''PublicHarnessResultArtifact'', harness_result_fields),
     (''FinalCodeArtifact'', final_code_fields)]"

text \<open>\<open>PAYLOAD_SCHEMAS[name].model_validate(v)\<close> for a registered name.\<close>

definition validate_class :: "pydantic \<Rightarrow> string \<Rightarrow> json \<Rightarrow> payload_model option" where
  "validate_class P name v =
     (if name = ''ProblemArtifact'' then map_option MProblem (validate_problem P v)
      else if name = ''AlgorithmPlanArtifact'' then map_option MAlgorithmPlan (validate_algorithm_plan P v)
      else if name = ''EdgeCaseArtifact'' then map_option MEdgeCase (validate_edge_case P v)
      else if name = ''CombinedPlanArtifact'' then map_option MCombinedPlan (validate_combined_plan P v)
      else if name = ''CodeArtifact'' then map_option MCode (validate_code P v)
      else if name = ''VisibleFailureSummary'' then map_option MFailure (validate_failure P v)
      else if name = ''RepairInputArtifact'' then map_option MRepairInput (validate_repair_input P v)
      else if name = ''RepairArtifact'' then map_option MRepair (validate_repair P v)
      else if name = ''PublicHarnessResultArtifact'' then map_option MHarnessResult (validate_harness_result P v)
      else if name = ''FinalCodeArtifact'' then map_option MFinalCode (validate_final_code P v)
      else None)"

fun wf_model :: "payload_model \<Rightarrow> bool" where
  "wf_model (MProblem a) = wf_problem a"
| "wf_model (MCode a) = wf_code a"
| "wf_model (MRepairInput a) = wf_repair_input a"
| "wf_model (MFinalCode a) = wf_final_code a"
| "wf_model _ = True"

lemmas validate_dumps =
  validate_problem_dump validate_algorithm_plan_dump validate_edge_case_dump validate_combined_plan_dump validate_code_dump validate_failure_dump validate_repair_input_dump validate_repair_dump validate_harness_result_dump validate_final_code_dump

lemmas validate_keys =
  validate_problem_keys validate_algorithm_plan_keys validate_edge_case_keys validate_combined_plan_keys validate_code_keys validate_failure_keys validate_repair_input_keys validate_repair_keys validate_harness_result_keys validate_final_code_keys

lemma validate_class_dump:
  "pydantic_ok P \<Longrightarrow> wf_model m \<Longrightarrow> validate_class P (type_name m) (model_dump m) = Some m"
  by (cases m) (simp_all add: validate_class_def validate_dumps)

lemma validate_class_type: "validate_class P name v = Some m \<Longrightarrow> type_name m = name"
  by (auto simp: validate_class_def split: if_splits)

lemma validate_class_keys:
  assumes "validate_class P name v = Some m"
  shows "\<exists>d fs. v = JObj d \<and> dget payload_schemas name = Some fs \<and> set (dkeys d) \<subseteq> set fs"
  using assms unfolding validate_class_def payload_schemas_def
  by (auto split: if_splits dest!: validate_keys)

lemma type_name_registered: "dget payload_schemas (type_name m) \<noteq> None"
  by (cases m) (simp_all add: payload_schemas_def)

end
