(* ===== verification/Graph_IR.thy ===== *)
theory Graph_IR
  imports Schemas
begin

text \<open>
  The graph representation: node specifications (\<open>ir/nodes.py\<close>), edges and their
  conditions (\<open>ir/edges.py\<close>), agent contracts (\<open>ir/contracts.py\<close>) and the graph
  (\<open>ir/graph.py\<close>). A frozen pydantic model is an immutable record; the discriminated union
  of node classes is the datatype \<open>node_kind\<close> carried by the common fields.
\<close>

section \<open>Nodes\<close>

datatype node_kind =
    AgentNode (contract_id: string)
  | HarnessNode (harness_id: string)
  | TransformNode (transform_id: string)
  | SelectorNode (selector_id: string)

record node_spec =
  node_id :: string
  node_kind :: node_kind
  input_slots :: "string dict"
  output_slots :: "string dict"
  timeout_seconds :: "py_float option"

section \<open>Edges and conditions\<close>

datatype operator = Equals | NotEquals | GreaterThan | LessThan | IsTrue | IsFalse

record edge_condition =
  source_field :: string
  operator :: operator
  cond_value :: json

record edge_spec =
  edge_id :: string
  source_node :: string
  source_output :: string
  destination_node :: string
  destination_input :: string
  condition :: "edge_condition option"

text \<open>The walk along \<open>source_field.split(".")\<close>: a missing key or a non-dictionary ends it.\<close>

fun walk :: "json \<Rightarrow> string list \<Rightarrow> json option" where
  "walk v [] = Some v"
| "walk v (part # parts) =
     (case v of
        JObj d \<Rightarrow> (case dget d part of None \<Rightarrow> None | Some v' \<Rightarrow> walk v' parts)
      | _ \<Rightarrow> None)"

fun apply_operator :: "operator \<Rightarrow> json \<Rightarrow> json \<Rightarrow> bool res" where
  "apply_operator Equals v x = Inr (py_eq v x)"
| "apply_operator NotEquals v x = Inr (\<not> py_eq v x)"
| "apply_operator GreaterThan v x = py_gt v x"
| "apply_operator LessThan v x = py_lt v x"
| "apply_operator IsTrue v x = Inr (v = JBool True)"
| "apply_operator IsFalse v x = Inr (v = JBool False)"

text \<open>\<open>EdgeCondition.evaluate\<close>.\<close>

definition evaluate :: "edge_condition \<Rightarrow> json \<Rightarrow> bool res" where
  "evaluate c payload =
     (case walk payload (split_on CHR ''.'' (source_field c)) of
        None \<Rightarrow> Inr False
      | Some v \<Rightarrow> apply_operator (operator c) v (cond_value c))"

text \<open>Only an ordering comparison can raise.\<close>

lemma apply_operator_total:
  "op \<notin> {GreaterThan, LessThan} \<Longrightarrow> \<exists>b. apply_operator op v x = Inr b"
  by (cases op) auto

lemma evaluate_total: "operator c \<notin> {GreaterThan, LessThan} \<Longrightarrow> \<exists>b. evaluate c p = Inr b"
  using apply_operator_total by (auto simp: evaluate_def split: option.splits)

text \<open>A missing field disables the edge whatever the operator, \<open>not_equals\<close> included.\<close>

lemma evaluate_missing:
  "walk p (split_on CHR ''.'' (source_field c)) = None \<Longrightarrow> evaluate c p = Inr False"
  by (simp add: evaluate_def)

lemma evaluate_true_iff:
  "operator c = IsTrue \<Longrightarrow> evaluate c p = Inr b \<Longrightarrow>
     b \<longleftrightarrow> walk p (split_on CHR ''.'' (source_field c)) = Some (JBool True)"
  by (auto simp: evaluate_def split: option.splits)

text \<open>
  Branches gated by \<open>is_true\<close> and \<open>is_false\<close> on one field of one payload exclude each
  other; on a boolean field exactly one of them is taken.
\<close>

theorem gates_exclude:
  assumes "operator c = IsTrue" "operator d = IsFalse" "source_field c = source_field d"
  shows "\<not> (evaluate c p = Inr True \<and> evaluate d p = Inr True)"
  using assms by (auto simp: evaluate_def split: option.splits)

theorem gates_cover:
  assumes "operator c = IsTrue" "operator d = IsFalse" "source_field c = source_field d"
    and "walk p (split_on CHR ''.'' (source_field c)) = Some (JBool b)"
  shows "evaluate c p = Inr b \<and> evaluate d p = Inr (\<not> b)"
  using assms by (auto simp: evaluate_def)

section \<open>Contracts\<close>

record agent_contract =
  ct_id :: string
  ct_role :: string
  ct_system_prompt :: string
  ct_user_prompt :: string
  ct_model :: string
  ct_temperature :: py_float
  ct_max_tokens :: int
  ct_timeout_seconds :: py_float
  ct_allowed_tools :: "string list"
  ct_input_schema :: string
  ct_output_schema :: string
  ct_parser_id :: string
  ct_memory_scope :: string

text \<open>
  \<open>load_contracts\<close> over the parsed files of the directory, in sorted path order.
\<close>

fun add_contracts :: "agent_contract list \<Rightarrow> agent_contract dict \<Rightarrow> agent_contract dict res" where
  "add_contracts [] acc = Inr acc"
| "add_contracts (c # cs) acc =
     (if dget acc (ct_id c) \<noteq> None
      then Inl (value_error (''Duplicate contract ID: '' @ ct_id c))
      else add_contracts cs (dset (ct_id c) c acc))"

definition load_contracts :: "agent_contract list \<Rightarrow> agent_contract dict res" where
  "load_contracts parsed = add_contracts parsed []"

lemma add_contracts_ok:
  "distinct (map ct_id cs) \<Longrightarrow> (\<forall>c \<in> set cs. dget acc (ct_id c) = None) \<Longrightarrow>
     add_contracts cs acc = Inr (acc @ map (\<lambda>c. (ct_id c, c)) cs)"
proof (induction cs arbitrary: acc)
  case (Cons c cs)
  have "ct_id c \<notin> set (dkeys acc)"
    using Cons.prems by (simp add: map_of_eq_None_iff)
  then have "dset (ct_id c) c acc = acc @ [(ct_id c, c)]" by (rule dset_new)
  moreover have "\<forall>x \<in> set cs. dget (acc @ [(ct_id c, c)]) (ct_id x) = None"
    using Cons.prems by (auto simp: map_add_def) (metis image_eqI)
  ultimately show ?case using Cons by simp
qed simp

lemma add_contracts_duplicate:
  "\<not> (distinct (map ct_id cs) \<and> (\<forall>c \<in> set cs. dget acc (ct_id c) = None)) \<Longrightarrow>
     \<exists>m. add_contracts cs acc = Inl (value_error m)"
proof (induction cs arbitrary: acc)
  case (Cons c cs)
  show ?case
  proof (cases "dget acc (ct_id c) = None")
    case True
    have "\<not> (distinct (map ct_id cs) \<and> (\<forall>x \<in> set cs. dget (dset (ct_id c) c acc) (ct_id x) = None))"
      using Cons.prems True by (auto simp: dget_dset split: if_splits)
    from Cons.IH [OF this] True show ?thesis by simp
  qed simp
qed simp

section \<open>Graphs\<close>

record orchestra_graph =
  graph_id :: string
  version :: string
  nodes :: "node_spec list"
  edges :: "edge_spec list"
  initial_artifact_slots :: "string dict"
  final_output_slot :: string
  metadata :: "json dict"

definition node_ids :: "orchestra_graph \<Rightarrow> string list" where
  "node_ids g = map node_id (nodes g)"

definition edge_ids :: "orchestra_graph \<Rightarrow> string list" where
  "edge_ids g = map edge_id (edges g)"

text \<open>\<open>{node.node_id: node for node in graph.nodes}\<close> and \<open>next(node for node in ...)\<close>.\<close>

definition node_map :: "orchestra_graph \<Rightarrow> node_spec dict" where
  "node_map g = dict_of (map (\<lambda>n. (node_id n, n)) (nodes g))"

definition find_node :: "orchestra_graph \<Rightarrow> string \<Rightarrow> node_spec option" where
  "find_node g nid = find (\<lambda>n. node_id n = nid) (nodes g)"

lemma map_of_ids:
  "distinct (map node_id ns) \<Longrightarrow> n \<in> set ns \<Longrightarrow> map_of (map (\<lambda>n. (node_id n, n)) ns) (node_id n) = Some n"
  by (induction ns) (auto simp: rev_image_eqI)

lemma node_map_distinct:
  "distinct (node_ids g) \<Longrightarrow> node_map g = map (\<lambda>n. (node_id n, n)) (nodes g)"
  by (simp add: node_map_def node_ids_def dict_of_distinct comp_def)

lemma node_map_lookup:
  "distinct (node_ids g) \<Longrightarrow> n \<in> set (nodes g) \<Longrightarrow> dget (node_map g) (node_id n) = Some n"
  by (simp add: node_map_distinct map_of_ids node_ids_def)

lemma node_map_SomeD:
  "distinct (node_ids g) \<Longrightarrow> dget (node_map g) k = Some n \<Longrightarrow> n \<in> set (nodes g) \<and> node_id n = k"
  by (auto simp: node_map_distinct dest: map_of_SomeD)

lemma find_node_SomeD: "find_node g k = Some n \<Longrightarrow> n \<in> set (nodes g) \<and> node_id n = k"
  by (auto simp: find_node_def find_Some_iff in_set_conv_nth)

lemma find_node_exists: "n \<in> set (nodes g) \<Longrightarrow> \<exists>m. find_node g (node_id n) = Some m"
  by (metis (mono_tags) find_None_iff find_node_def not_None_eq)

lemma find_node_distinct:
  "distinct (node_ids g) \<Longrightarrow> n \<in> set (nodes g) \<Longrightarrow> find_node g (node_id n) = Some n"
  by (metis find_node_SomeD find_node_exists node_map_lookup option.inject)

end
