(* ===== verification/Artifacts.thy ===== *)
theory Artifacts
  imports Graph_IR
begin

text \<open>
  Artifact envelopes (\<open>ir/artifacts.py\<close>): a payload with its provenance and the digest of
  its canonical text. The host supplies what is not under \<open>src/\<close>: pydantic's coercions,
  \<open>float.__repr__\<close> and SHA-256 (\<open>platform\<close>), and for each new artifact the random suffix
  and the time stamp (\<open>stamp\<close>).
\<close>

record platform =
  pyd :: pydantic
  float_repr :: "py_float \<Rightarrow> string"
  sha256_hex :: "string \<Rightarrow> string"

record stamp =
  uuid_hex :: string
  utc_now :: string

record envelope =
  artifact_id :: string
  artifact_type :: string
  envelope_version :: string
  producer_node_id :: string
  env_task_id :: string
  created_at :: string
  payload :: json
  parent_artifact_ids :: "string list"
  content_hash :: string

definition payload_digest :: "platform \<Rightarrow> json \<Rightarrow> string" where
  "payload_digest H v = sha256_hex H (canonical_json (float_repr H) v)"

text \<open>\<open>PAYLOAD_SCHEMAS[name].model_validate(v)\<close>, with pydantic's \<open>ValidationError\<close>.\<close>

definition model_validate :: "platform \<Rightarrow> string \<Rightarrow> json \<Rightarrow> payload_model res" where
  "model_validate H name v =
     from_option (Exc ValidationErrorC (validation_message (pyd H) name v))
       (validate_class (pyd H) name v)"

text \<open>\<open>ArtifactEnvelope.validate_payload\<close>.\<close>

definition validate_payload :: "platform \<Rightarrow> envelope \<Rightarrow> payload_model res" where
  "validate_payload H e =
     (if dget payload_schemas (artifact_type e) = None
      then Inl (value_error (''Unknown artifact type: '' @ artifact_type e))
      else rbind (model_validate H (artifact_type e) (payload e)) (\<lambda>parsed.
        if payload_digest H (model_dump parsed) \<noteq> content_hash e
        then Inl (value_error (''Artifact content hash mismatch: '' @ artifact_id e))
        else Inr parsed))"

text \<open>\<open>create_artifact\<close>.\<close>

definition create_artifact ::
  "platform \<Rightarrow> stamp \<Rightarrow> payload_model \<Rightarrow> string \<Rightarrow> string \<Rightarrow> string list \<Rightarrow> envelope" where
  "create_artifact H st m producer task parents =
     (let data = model_dump m in
      \<lparr>artifact_id = task @ ''-'' @ producer @ ''-'' @ uuid_hex st,
       artifact_type = type_name m,
       envelope_version = ''1.0'',
       producer_node_id = producer,
       env_task_id = task,
       created_at = utc_now st,
       payload = data,
       parent_artifact_ids = parents,
       content_hash = payload_digest H data\<rparr>)"

text \<open>An envelope that passes its own check.\<close>

definition valid_artifact :: "platform \<Rightarrow> envelope \<Rightarrow> bool" where
  "valid_artifact H e \<longleftrightarrow> (\<exists>m. validate_payload H e = Inr m)"

lemma validate_payload_InrD:
  assumes "validate_payload H e = Inr m"
  shows "validate_class (pyd H) (artifact_type e) (payload e) = Some m"
    and "content_hash e = payload_digest H (model_dump m)"
    and "type_name m = artifact_type e"
  using assms
  by (auto simp: validate_payload_def model_validate_def res_simps split: if_splits
      dest: validate_class_type)

lemma validate_create:
  "pydantic_ok (pyd H) \<Longrightarrow> wf_model m \<Longrightarrow>
     validate_payload H (create_artifact H st m producer task parents) = Inr m"
  by (simp add: validate_payload_def create_artifact_def model_validate_def
      validate_class_dump type_name_registered Let_def)

lemma valid_create:
  "pydantic_ok (pyd H) \<Longrightarrow> wf_model m \<Longrightarrow> valid_artifact H (create_artifact H st m producer task parents)"
  by (auto simp: valid_artifact_def validate_create)

lemma create_artifact_fields [simp]:
  "artifact_type (create_artifact H st m p t ps) = type_name m"
  "payload (create_artifact H st m p t ps) = model_dump m"
  "env_task_id (create_artifact H st m p t ps) = t"
  "producer_node_id (create_artifact H st m p t ps) = p"
  "parent_artifact_ids (create_artifact H st m p t ps) = ps"
  "artifact_id (create_artifact H st m p t ps) = t @ ''-'' @ p @ ''-'' @ uuid_hex st"
  by (simp_all add: create_artifact_def Let_def)

text \<open>
  What validates carries declared fields only: a payload with a key its class does not
  declare is refused, whatever the coercions accept.
\<close>

lemma validate_payload_declared:
  assumes "validate_payload H e = Inr m"
  shows "\<exists>d fs. payload e = JObj d \<and> dget payload_schemas (artifact_type e) = Some fs
           \<and> set (dkeys d) \<subseteq> set fs"
  using validate_class_keys [OF validate_payload_InrD(1) [OF assms]] by simp

end
