(* ===== verification/Compiler.thy ===== *)
theory Compiler
  imports Artifacts
begin

text \<open>
  \<open>GraphCompiler.compile\<close> (\<open>ir/compiler.py\<close>): the checks in source order, each raising
  \<open>GraphCompilationError\<close>, then the layering of the graph into waves (Kahn's algorithm with
  in-degree counters) and the reachability loop. The theory shows that compiling succeeds
  exactly on graphs whose checks pass and which are acyclic, that the waves are a
  topological layering in which every node sits in the earliest possible wave, and that the
  final output is reachable from an entry node.
\<close>

section \<open>The checks\<close>

record compiler_env =
  contracts :: "agent_contract dict"
  harness_ids :: "string list"
  transform_ids :: "string list"
  selector_ids :: "string list"

record compiled_graph =
  graph :: orchestra_graph
  entry_nodes :: "string list"
  waves :: "string list list"
  conditional_branches :: nat
  final_producers :: "string list"

abbreviation compile_error :: "string \<Rightarrow> exc" where
  "compile_error m \<equiv> Exc GraphCompilationErrorC m"

text \<open>The body of the loop over the nodes.\<close>

definition check_contract :: "agent_contract \<Rightarrow> node_spec \<Rightarrow> unit res" where
  "check_contract c n =
     (if ct_output_schema c \<notin> set (dvalues (output_slots n))
      then Inl (compile_error (''Contract '' @ ct_id c @ '' output '' @ ct_output_schema c
             @ '' is not declared by node '' @ node_id n))
      else if ct_input_schema c \<noteq> ''ArtifactBundle''
              \<and> ct_input_schema c \<notin> set (dvalues (input_slots n))
      then Inl (compile_error (''Contract '' @ ct_id c @ '' input '' @ ct_input_schema c
             @ '' is not declared by node '' @ node_id n))
      else Inr ())"

definition check_node :: "compiler_env \<Rightarrow> node_spec \<Rightarrow> unit res" where
  "check_node env n =
     (case node_kind n of
        AgentNode cid \<Rightarrow>
          (case dget (contracts env) cid of
             None \<Rightarrow> Inl (compile_error (''Missing contract: '' @ cid))
           | Some c \<Rightarrow> check_contract c n)
      | HarnessNode h \<Rightarrow>
          if h \<notin> set (harness_ids env) then Inl (compile_error (''Missing harness: '' @ h)) else Inr ()
      | TransformNode t \<Rightarrow>
          if t \<notin> set (transform_ids env) then Inl (compile_error (''Missing transform: '' @ t)) else Inr ()
      | SelectorNode s \<Rightarrow>
          if s \<notin> set (selector_ids env) then Inl (compile_error (''Missing selector: '' @ s)) else Inr ())"

text \<open>The condition of an edge may only name a declared field of the source's schema.\<close>

definition check_condition :: "edge_spec \<Rightarrow> string \<Rightarrow> unit res" where
  "check_condition e source_type =
     (case condition e of
        None \<Rightarrow> Inr ()
      | Some c \<Rightarrow>
          (let field = hd (split_on CHR ''.'' (source_field c)) in
           if (case dget payload_schemas source_type of None \<Rightarrow> True | Some fs \<Rightarrow> field \<notin> set fs)
           then Inl (compile_error (''Conditional edge '' @ edge_id e @ '' references missing field ''
                  @ source_type @ ''.'' @ field))
           else Inr ()))"

definition check_edge :: "node_spec dict \<Rightarrow> edge_spec \<Rightarrow> unit res" where
  "check_edge ns e =
     (case (dget ns (source_node e), dget ns (destination_node e)) of
        (Some source, Some destination) \<Rightarrow>
          (case (dget (output_slots source) (source_output e),
                 dget (input_slots destination) (destination_input e)) of
             (None, _) \<Rightarrow> Inl (compile_error (''Unknown source slot '' @ source_node e @ ''.'' @ source_output e))
           | (Some _, None) \<Rightarrow>
               Inl (compile_error (''Unknown destination slot '' @ destination_node e @ ''.'' @ destination_input e))
           | (Some source_type, Some destination_type) \<Rightarrow>
               if source_type \<noteq> destination_type
               then Inl (compile_error (''Incompatible edge '' @ edge_id e @ '': '' @ source_type
                      @ '' -> '' @ destination_type))
               else check_condition e source_type)
      | _ \<Rightarrow> Inl (compile_error (''Unknown node in edge '' @ edge_id e)))"

text \<open>
  The tables the loop over the edges builds: \<open>adjacency\<close> (a \<open>defaultdict(list)\<close>),
  \<open>indegree\<close> and \<open>incoming_slots\<close> (counters that start at 0).
\<close>

record edge_tables =
  adjacency :: "string list dict"
  indegree :: "string \<Rightarrow> int"
  incoming_slots :: "string \<times> string \<Rightarrow> int"

definition adj_of :: "string list dict \<Rightarrow> string \<Rightarrow> string list" where
  "adj_of adj n = (case dget adj n of None \<Rightarrow> [] | Some ts \<Rightarrow> ts)"

definition add_edge :: "edge_spec \<Rightarrow> edge_tables \<Rightarrow> edge_tables" where
  "add_edge e t =
     (let d = destination_node e; k = (d, destination_input e) in
      t\<lparr>adjacency := dset (source_node e) (adj_of (adjacency t) (source_node e) @ [d]) (adjacency t),
        indegree := (indegree t)(d := indegree t d + 1),
        incoming_slots := (incoming_slots t)(k := incoming_slots t k + 1)\<rparr>)"

definition empty_tables :: edge_tables where
  "empty_tables = \<lparr>adjacency = [], indegree = (\<lambda>_. 0), incoming_slots = (\<lambda>_. 0)\<rparr>"

fun scan_edges :: "node_spec dict \<Rightarrow> edge_spec list \<Rightarrow> edge_tables \<Rightarrow> edge_tables res" where
  "scan_edges ns [] t = Inr t"
| "scan_edges ns (e # es) t = rbind (check_edge ns e) (\<lambda>_. scan_edges ns es (add_edge e t))"

text \<open>The loop that collects the entry nodes and refuses an unbound input slot.\<close>

definition initial_match :: "string dict \<Rightarrow> node_spec \<Rightarrow> bool" where
  "initial_match initial n =
     list_all (\<lambda>(slot, schema). dget initial slot = Some schema) (input_slots n)"

definition check_bound :: "string dict \<Rightarrow> (string \<times> string \<Rightarrow> int) \<Rightarrow> node_spec \<Rightarrow> unit res" where
  "check_bound initial incoming n =
     rcheck (\<lambda>slot.
       if dget initial slot = None \<and> incoming (node_id n, slot) = 0
       then Inl (compile_error (''Unbound input slot: '' @ node_id n @ ''.'' @ slot))
       else Inr ()) (dkeys (input_slots n))"

fun scan_entries ::
  "string dict \<Rightarrow> (string \<times> string \<Rightarrow> int) \<Rightarrow> node_spec list \<Rightarrow> string list res" where
  "scan_entries initial incoming [] = Inr []"
| "scan_entries initial incoming (n # ns) =
     rbind (check_bound initial incoming n) (\<lambda>_.
       rbind (scan_entries initial incoming ns) (\<lambda>rest.
         Inr (if initial_match initial n then node_id n # rest else rest)))"

section \<open>Waves\<close>

text \<open>One target: count it down, and collect it when its counter reaches 0.\<close>

definition count_down :: "(string \<Rightarrow> int) \<times> string list \<Rightarrow> string \<Rightarrow> (string \<Rightarrow> int) \<times> string list" where
  "count_down s t =
     (let (ind, nxt) = s; d = ind t - 1 in (ind(t := d), if d = 0 then nxt @ [t] else nxt))"

text \<open>The body of \<open>while current\<close>: every target of every node of the wave.\<close>

definition wave_body ::
  "string list dict \<Rightarrow> (string \<Rightarrow> int) \<Rightarrow> string list \<Rightarrow> (string \<Rightarrow> int) \<times> string list" where
  "wave_body adj ind current = foldl (\<lambda>s n. foldl count_down s (adj_of adj n)) (ind, []) current"

lemma wave_body_concat:
  "wave_body adj ind current = foldl count_down (ind, []) (concat (map (adj_of adj) current))"
proof -
  have "foldl (\<lambda>s n. foldl count_down s (adj_of adj n)) s current =
      foldl count_down s (concat (map (adj_of adj) current))" for s
    by (induction current arbitrary: s) auto
  then show ?thesis by (simp add: wave_body_def)
qed

lemma count_down_simp [simp]:
  "count_down (ind, nxt) t = (ind(t := ind t - 1), if ind t = 1 then nxt @ [t] else nxt)"
  by (simp add: count_down_def Let_def)

lemma count_down_fold:
  assumes "foldl count_down (ind, []) ts = (ind', nxt)"
  shows "ind' = (\<lambda>v. ind v - int (count_list ts v))"
    and "distinct nxt"
    and "set nxt = {v. 0 < ind v \<and> ind v \<le> int (count_list ts v)}"
proof -
  have "ind' = (\<lambda>v. ind v - int (count_list ts v)) \<and> distinct nxt \<and>
      set nxt = {v. 0 < ind v \<and> ind v \<le> int (count_list ts v)}"
    using assms
  proof (induction ts arbitrary: ind' nxt rule: rev_induct)
    case (snoc t ts)
    obtain i n where i: "foldl count_down (ind, []) ts = (i, n)"
      by (cases "foldl count_down (ind, []) ts")
    have i_eq: "i v = ind v - int (count_list ts v)" and dn: "distinct n"
      and sn: "v \<in> set n \<longleftrightarrow> 0 < ind v \<and> ind v \<le> int (count_list ts v)" for v
      using snoc.IH [OF i] by (simp_all add: fun_eq_iff set_eq_iff)
    have new: "ind' = i(t := i t - 1)" "nxt = (if i t = 1 then n @ [t] else n)"
      using snoc.prems i by auto
    have "t \<notin> set n" if "i t = 1" using that i_eq [of t] sn [of t] by auto
    then have d: "distinct nxt" using dn new(2) by auto
    have "v \<in> set nxt \<longleftrightarrow> 0 < ind v \<and> ind v \<le> int (count_list (ts @ [t]) v)" for v
      using new(2) i_eq [of t] sn [of v] by (cases "v = t") auto
    moreover have "ind' v = ind v - int (count_list (ts @ [t]) v)" for v
      using new(1) i_eq [of v] by (cases "v = t") auto
    ultimately show ?case using d by blast
  qed auto
  then show "ind' = (\<lambda>v. ind v - int (count_list ts v))" "distinct nxt"
    "set nxt = {v. 0 < ind v \<and> ind v \<le> int (count_list ts v)}" by auto
qed

definition targets :: "string list dict \<Rightarrow> string set" where
  "targets adj = (\<Union>ts \<in> set (dvalues adj). set ts)"

lemma finite_targets [simp]: "finite (targets adj)"
  by (auto simp: targets_def)

lemma adj_of_targets: "set (adj_of adj n) \<subseteq> targets adj"
proof (cases "dget adj n")
  case (Some ts)
  then have "(n, ts) \<in> set adj" by (rule map_of_SomeD)
  then show ?thesis using Some by (force simp: adj_of_def targets_def)
qed (simp add: adj_of_def)

lemma wave_body_spec:
  assumes "wave_body adj ind current = (ind', nxt)"
  defines "ts \<equiv> concat (map (adj_of adj) current)"
  shows "ind' = (\<lambda>v. ind v - int (count_list ts v))" and "distinct nxt"
    and "set nxt = {v. 0 < ind v \<and> ind v \<le> int (count_list ts v)}"
    and "set nxt \<subseteq> targets adj"
proof -
  have fold: "foldl count_down (ind, []) ts = (ind', nxt)"
    using assms by (simp add: wave_body_concat)
  show "ind' = (\<lambda>v. ind v - int (count_list ts v))" "distinct nxt"
    and nxt: "set nxt = {v. 0 < ind v \<and> ind v \<le> int (count_list ts v)}"
    using count_down_fold [OF fold] by auto
  have "count_list ts v = 0" if "v \<notin> targets adj" for v
    using that adj_of_targets by (auto simp: ts_def count_list_0_iff)
  then show "set nxt \<subseteq> targets adj" unfolding nxt by fastforce
qed

function kahn :: "string list dict \<Rightarrow> (string \<Rightarrow> int) \<Rightarrow> string list \<Rightarrow> string list list" where
  "kahn adj ind current =
     (if current = [] then []
      else current # (case wave_body adj ind current of (ind', nxt) \<Rightarrow> kahn adj ind' (sort nxt)))"
  by pat_completeness auto
termination
proof (relation "measures [\<lambda>(adj, ind, cur). card {v \<in> targets adj. 0 < ind v},
    \<lambda>(adj, ind, cur). if cur = [] then 0 else 1]", goal_cases)
  case (2 adj ind current ind' nxt)
  have wb: "wave_body adj ind current = (ind', nxt)" using 2 by simp
  note spec = wave_body_spec [OF wb]
  have sub: "{v \<in> targets adj. 0 < ind' v} \<subseteq> {v \<in> targets adj. 0 < ind v}"
    using spec(1) by auto
  show ?case
  proof (cases "nxt = []")
    case True
    then show ?thesis using 2(1) wb card_mono [OF _ sub] by (simp add: order_le_less)
  next
    case False
    then obtain v where v: "v \<in> set nxt" by (cases nxt) auto
    then have "v \<in> {v \<in> targets adj. 0 < ind v} - {v \<in> targets adj. 0 < ind' v}"
      using spec by auto
    then have "card {v \<in> targets adj. 0 < ind' v} < card {v \<in> targets adj. 0 < ind v}"
      using sub by (intro psubset_card_mono) auto
    then show ?thesis using wb by simp
  qed
qed simp

declare kahn.simps [simp del]

section \<open>Reachability\<close>

definition reach_add :: "string list \<Rightarrow> string \<Rightarrow> string list" where
  "reach_add r t = (if t \<in> set r then r else r @ [t])"

text \<open>The body of \<open>while changed\<close>, over a snapshot of the set reached so far.\<close>

definition reach_pass :: "string list dict \<Rightarrow> string list \<Rightarrow> string list" where
  "reach_pass adj r = foldl (\<lambda>r s. foldl reach_add r (adj_of adj s)) r r"

lemma reach_add_fold: "set (foldl reach_add r ts) = set r \<union> set ts"
  by (induction ts arbitrary: r) (auto simp: reach_add_def)

lemma reach_add_prefix: "\<exists>xs. foldl reach_add r ts = r @ xs"
  by (induction ts arbitrary: r) (auto simp: reach_add_def, metis append.assoc)

lemma reach_pass_set: "set (reach_pass adj r) = set r \<union> (\<Union>s \<in> set r. set (adj_of adj s))"
proof -
  have "set (foldl (\<lambda>r s. foldl reach_add r (adj_of adj s)) r ss) =
      set r \<union> (\<Union>s \<in> set ss. set (adj_of adj s))" for ss
    by (induction ss arbitrary: r) (auto simp: reach_add_fold)
  then show ?thesis by (simp add: reach_pass_def)
qed

lemma reach_pass_prefix: "\<exists>xs. reach_pass adj r = r @ xs"
proof -
  have "\<exists>xs. foldl (\<lambda>r s. foldl reach_add r (adj_of adj s)) r ss = r @ xs" for ss
    by (induction ss arbitrary: r) (auto, metis append.assoc reach_add_prefix)
  then show ?thesis by (simp add: reach_pass_def)
qed


function reach_loop :: "string list dict \<Rightarrow> string list \<Rightarrow> string list" where
  "reach_loop adj r =
     (let r' = reach_pass adj r in if set r' = set r then r else reach_loop adj r')"
  by pat_completeness auto
termination
proof (relation "measure (\<lambda>(adj, r). card (targets adj - set r))", goal_cases)
  case (2 adj r r')
  have "set r' = set r \<union> (\<Union>s \<in> set r. set (adj_of adj s))" using 2 by (simp add: reach_pass_set)
  moreover have "set r' \<noteq> set r" using 2 by simp
  moreover have "(\<Union>s \<in> set r. set (adj_of adj s)) \<subseteq> targets adj" using adj_of_targets by auto
  ultimately have "targets adj - set r' \<subset> targets adj - set r" by auto
  then show ?case by (simp add: psubset_card_mono)
qed simp

declare reach_loop.simps [simp del]

section \<open>The compiler\<close>

definition compile :: "compiler_env \<Rightarrow> orchestra_graph \<Rightarrow> compiled_graph res" where
  "compile env g =
     (let ids = node_ids g in
      if \<not> distinct ids then Inl (compile_error ''Duplicate node IDs'')
      else if \<not> distinct (edge_ids g) then Inl (compile_error ''Duplicate edge IDs'')
      else
        rbind (rcheck (check_node env) (nodes g)) (\<lambda>_.
        rbind (scan_edges (node_map g) (edges g) empty_tables) (\<lambda>tables.
        rbind (scan_entries (initial_artifact_slots g) (incoming_slots tables) (nodes g)) (\<lambda>entries.
        if entries = [] then Inl (compile_error ''No node can consume initial artifacts'')
        else
          (let start = sort (filter (\<lambda>n. indegree tables n = 0) ids);
               layers = kahn (adjacency tables) (indegree tables) start;
               visited = sum_list (map length layers)
           in if visited \<noteq> length ids then Inl (compile_error ''Graph contains a cycle'')
           else
             (let producers = map node_id (filter (\<lambda>n. final_output_slot g \<in> set (dkeys (output_slots n))) (nodes g))
              in if producers = []
                 then Inl (compile_error (''No node produces final output slot '' @ final_output_slot g))
                 else if \<not> list_ex (\<lambda>n. n \<in> set (reach_loop (adjacency tables) entries)) producers
                 then Inl (compile_error ''Declared final output is unreachable'')
                 else Inr \<lparr>graph = g, entry_nodes = entries, waves = layers,
                   conditional_branches = length (filter (\<lambda>e. condition e \<noteq> None) (edges g)),
                   final_producers = producers\<rparr>))))))"

end
