(* ===== verification/Compiler_Props.thy ===== *)
theory Compiler_Props
  imports Compiler
begin

text \<open>
  What a successful compilation guarantees, and when compilation succeeds: the tables in
  closed form, the invariant of the wave loop, acyclicity, reachability.
\<close>

section \<open>The tables in closed form\<close>

lemma scan_edges_eq:
  "scan_edges ns es t =
     (case rcheck (check_edge ns) es of Inl e \<Rightarrow> Inl e | Inr _ \<Rightarrow> Inr (fold add_edge es t))"
proof (induction es arbitrary: t)
  case (Cons e es)
  show ?case by (cases "check_edge ns e") (simp_all add: Cons.IH split: sum.splits)
qed simp

lemma indegree_fold:
  "indegree (fold add_edge es t) v =
     indegree t v + int (length (filter (\<lambda>e. destination_node e = v) es))"
  by (induction es arbitrary: t) (auto simp: add_edge_def Let_def)

lemma incoming_fold:
  "incoming_slots (fold add_edge es t) (n, s) =
     incoming_slots t (n, s)
     + int (length (filter (\<lambda>e. destination_node e = n \<and> destination_input e = s) es))"
  by (induction es arbitrary: t) (auto simp: add_edge_def Let_def)

lemma adj_of_dset: "adj_of (dset k v d) n = (if n = k then v else adj_of d n)"
  by (simp add: adj_of_def dget_dset)

lemma adjacency_fold:
  "adj_of (adjacency (fold add_edge es t)) n =
     adj_of (adjacency t) n @ map destination_node (filter (\<lambda>e. source_node e = n) es)"
  by (induction es arbitrary: t) (auto simp: add_edge_def Let_def adj_of_dset)

definition tables_of :: "orchestra_graph \<Rightarrow> edge_tables" where
  "tables_of g = fold add_edge (edges g) empty_tables"

lemma tables_of_simps:
  "indegree (tables_of g) v = int (length (filter (\<lambda>e. destination_node e = v) (edges g)))"
  "incoming_slots (tables_of g) (n, s) =
     int (length (filter (\<lambda>e. destination_node e = n \<and> destination_input e = s) (edges g)))"
  "adj_of (adjacency (tables_of g)) n =
     map destination_node (filter (\<lambda>e. source_node e = n) (edges g))"
  by (simp_all add: tables_of_def indegree_fold incoming_fold adjacency_fold empty_tables_def
      adj_of_def [of "[]"])

definition edge_rel :: "orchestra_graph \<Rightarrow> (string \<times> string) set" where
  "edge_rel g = (\<lambda>e. (source_node e, destination_node e)) ` set (edges g)"

lemma adj_of_rel: "v \<in> set (adj_of (adjacency (tables_of g)) u) \<longleftrightarrow> (u, v) \<in> edge_rel g"
  by (auto simp: tables_of_simps edge_rel_def)

section \<open>Checked edges\<close>

text \<open>What \<open>check_edge\<close> accepts, slot by slot.\<close>

definition edge_ok :: "node_spec dict \<Rightarrow> edge_spec \<Rightarrow> bool" where
  "edge_ok ns e \<longleftrightarrow>
     (\<exists>src dst ty. dget ns (source_node e) = Some src \<and> dget ns (destination_node e) = Some dst
        \<and> dget (output_slots src) (source_output e) = Some ty
        \<and> dget (input_slots dst) (destination_input e) = Some ty
        \<and> (\<forall>c. condition e = Some c \<longrightarrow>
             (\<exists>fs. dget payload_schemas ty = Some fs \<and> hd (split_on CHR ''.'' (source_field c)) \<in> set fs)))"

lemma check_condition_Inr:
  "check_condition e ty = Inr () \<longleftrightarrow>
     (\<forall>c. condition e = Some c \<longrightarrow>
        (\<exists>fs. dget payload_schemas ty = Some fs \<and> hd (split_on CHR ''.'' (source_field c)) \<in> set fs))"
  by (auto simp: check_condition_def Let_def split: option.splits)

lemma check_edge_Inr: "check_edge ns e = Inr () \<longleftrightarrow> edge_ok ns e"
  by (auto simp: check_edge_def edge_ok_def check_condition_Inr split: option.splits)

lemma check_edge_class: "check_edge ns e = Inl x \<Longrightarrow> exc_cls x = GraphCompilationErrorC"
  by (auto simp: check_edge_def check_condition_def Let_def split: option.splits if_splits)

section \<open>The wave loop\<close>

definition kahn_inv ::
  "string list \<Rightarrow> edge_spec list \<Rightarrow> string list \<Rightarrow> (string \<Rightarrow> int) \<Rightarrow> string list \<Rightarrow> bool" where
  "kahn_inv ns es P ind cur \<longleftrightarrow>
     distinct (P @ cur) \<and> set (P @ cur) = {v \<in> set ns. ind v = 0}
     \<and> (\<forall>v. ind v = int (length (filter (\<lambda>e. destination_node e = v \<and> source_node e \<notin> set P) es)))"

lemma length_filter_split:
  "length (filter P xs) = length (filter (\<lambda>x. P x \<and> Q x) xs) + length (filter (\<lambda>x. P x \<and> \<not> Q x) xs)"
  by (induction xs) auto

lemma length_filter_disj:
  "(\<And>x. \<not> (P x \<and> Q x)) \<Longrightarrow>
     length (filter (\<lambda>x. P x \<or> Q x) xs) = length (filter P xs) + length (filter Q xs)"
  by (induction xs) auto

lemma count_list_map_filter:
  "count_list (map f (filter P xs)) v = length (filter (\<lambda>x. f x = v \<and> P x) xs)"
  by (induction xs) auto

lemma count_targets:
  assumes "\<And>n. adj_of adj n = map destination_node (filter (\<lambda>e. source_node e = n) es)"
    and "distinct cur"
  shows "count_list (concat (map (adj_of adj) cur)) v =
    length (filter (\<lambda>e. destination_node e = v \<and> source_node e \<in> set cur) es)"
  using assms(2)
proof (induction cur)
  case (Cons n cur)
  have "length (filter (\<lambda>e. destination_node e = v \<and> source_node e \<in> set (n # cur)) es) =
      length (filter (\<lambda>e. (destination_node e = v \<and> source_node e = n) \<or>
        (destination_node e = v \<and> source_node e \<in> set cur)) es)"
    by (rule arg_cong [where f = length], rule filter_cong) auto
  also have "\<dots> = length (filter (\<lambda>e. destination_node e = v \<and> source_node e = n) es)
      + length (filter (\<lambda>e. destination_node e = v \<and> source_node e \<in> set cur) es)"
    using Cons.prems by (intro length_filter_disj) auto
  finally show ?case using Cons by (simp add: assms(1) count_list_map_filter)
qed simp

lemma kahn_inv_step:
  assumes inv: "kahn_inv ns es P ind cur"
    and adj: "\<And>n. adj_of adj n = map destination_node (filter (\<lambda>e. source_node e = n) es)"
    and dst: "\<forall>e \<in> set es. destination_node e \<in> set ns"
    and wb: "wave_body adj ind cur = (ind', nxt)"
  shows "kahn_inv ns es (P @ cur) ind' (sort nxt)"
    and "\<forall>v \<in> set nxt. \<exists>e \<in> set es. destination_node e = v \<and> source_node e \<in> set cur"
proof -
  have d: "distinct (P @ cur)" and z: "set (P @ cur) = {v \<in> set ns. ind v = 0}"
    and cnt: "\<And>v. ind v = int (length (filter (\<lambda>e. destination_node e = v \<and> source_node e \<notin> set P) es))"
    using inv unfolding kahn_inv_def by blast+
  have ct: "count_list (concat (map (adj_of adj) cur)) v =
      length (filter (\<lambda>e. destination_node e = v \<and> source_node e \<in> set cur) es)" for v
    using d by (intro count_targets [OF adj]) auto
  note spec = wave_body_spec [OF wb, unfolded ct]
  have cnt': "ind' v = int (length (filter (\<lambda>e. destination_node e = v \<and> source_node e \<notin> set (P @ cur)) es))" for v
  proof -
    have "length (filter (\<lambda>e. destination_node e = v \<and> source_node e \<notin> set P) es) =
        length (filter (\<lambda>e. (destination_node e = v \<and> source_node e \<notin> set P) \<and> source_node e \<in> set cur) es)
        + length (filter (\<lambda>e. (destination_node e = v \<and> source_node e \<notin> set P) \<and> source_node e \<notin> set cur) es)"
      by (rule length_filter_split)
    moreover have "filter (\<lambda>e. (destination_node e = v \<and> source_node e \<notin> set P) \<and> source_node e \<in> set cur) es =
        filter (\<lambda>e. destination_node e = v \<and> source_node e \<in> set cur) es"
      using d by (intro filter_cong) auto
    ultimately show ?thesis by (simp add: spec(1) cnt conj_ac)
  qed
  have le: "ind v \<le> int (length (filter (\<lambda>e. destination_node e = v \<and> source_node e \<in> set cur) es)) \<longleftrightarrow> ind' v = 0" for v
  proof -
    have "ind' v = ind v - int (length (filter (\<lambda>e. destination_node e = v \<and> source_node e \<in> set cur) es))"
      by (simp add: spec(1))
    moreover have "0 \<le> ind' v" unfolding cnt' by simp
    ultimately show ?thesis by linarith
  qed
  have nxt: "set nxt = {v. 0 < ind v \<and> ind' v = 0}" unfolding spec(3) le ..
  have pos: "\<exists>e \<in> set es. destination_node e = v" if "0 < ind v" for v
  proof -
    have "filter (\<lambda>e. destination_node e = v \<and> source_node e \<notin> set P) es \<noteq> []"
      using that cnt [of v] by auto
    then show ?thesis by (auto simp: filter_empty_conv)
  qed
  have nn: "0 \<le> ind v" for v using cnt by simp
  have "set (P @ cur) \<union> set nxt = {v \<in> set ns. ind' v = 0}"
  proof (intro equalityI subsetI)
    fix v assume "v \<in> set (P @ cur) \<union> set nxt"
    then consider "v \<in> set ns" "ind v = 0" | "0 < ind v" "ind' v = 0" unfolding z nxt by auto
    then show "v \<in> {v \<in> set ns. ind' v = 0}"
    proof cases
      case 1
      then show ?thesis using cnt' [of v] by (simp add: spec(1))
    next
      case 2
      then show ?thesis using pos [of v] dst by auto
    qed
  next
    fix v assume "v \<in> {v \<in> set ns. ind' v = 0}"
    then show "v \<in> set (P @ cur) \<union> set nxt" unfolding z nxt using nn [of v] by auto
  qed
  moreover have "set (P @ cur) \<inter> set nxt = {}" unfolding z nxt by auto
  ultimately show "kahn_inv ns es (P @ cur) ind' (sort nxt)"
    using d spec(2) cnt' by (auto simp: kahn_inv_def)
  show "\<forall>v \<in> set nxt. \<exists>e \<in> set es. destination_node e = v \<and> source_node e \<in> set cur"
  proof
    fix v assume "v \<in> set nxt"
    then have "0 < length (filter (\<lambda>e. destination_node e = v \<and> source_node e \<in> set cur) es)"
      unfolding spec(3) by auto
    then show "\<exists>e \<in> set es. destination_node e = v \<and> source_node e \<in> set cur"
      by (auto simp: filter_empty_conv)
  qed
qed

text \<open>
  A layering: every edge into a layer comes from an earlier one; and every member of a later
  layer has a parent in the layer right before it.
\<close>

fun layered :: "edge_spec list \<Rightarrow> string list \<Rightarrow> string list list \<Rightarrow> bool" where
  "layered es P [] = True"
| "layered es P (w # ws) =
     ((\<forall>e \<in> set es. destination_node e \<in> set w \<longrightarrow> source_node e \<in> set P) \<and> layered es (P @ w) ws)"

fun chained :: "edge_spec list \<Rightarrow> string list list \<Rightarrow> bool" where
  "chained es (w1 # w2 # ws) =
     ((\<forall>v \<in> set w2. \<exists>e \<in> set es. destination_node e = v \<and> source_node e \<in> set w1) \<and> chained es (w2 # ws))"
| "chained es _ = True"

definition all_parents_in :: "edge_spec list \<Rightarrow> string list \<Rightarrow> string set \<Rightarrow> bool" where
  "all_parents_in es w S \<longleftrightarrow> (\<forall>e \<in> set es. destination_node e \<in> set w \<longrightarrow> source_node e \<in> S)"

lemma kahn_inv_parents:
  assumes "kahn_inv ns es P ind cur"
  shows "\<forall>e \<in> set es. destination_node e \<in> set cur \<longrightarrow> source_node e \<in> set P"
proof (intro ballI impI)
  fix e assume e: "e \<in> set es" "destination_node e \<in> set cur"
  then have "ind (destination_node e) = 0" using assms by (auto simp: kahn_inv_def)
  then have "filter (\<lambda>x. destination_node x = destination_node e \<and> source_node x \<notin> set P) es = []"
    using assms by (simp add: kahn_inv_def)
  then show "source_node e \<in> set P" using e by (auto simp: filter_empty_conv)
qed

lemma kahn_Nil: "kahn adj ind [] = []"
  by (simp add: kahn.simps)

lemma kahn_Cons: "cur \<noteq> [] \<Longrightarrow> \<exists>W. kahn adj ind cur = cur # W"
  by (subst kahn.simps) simp

lemma kahn_correct:
  assumes "kahn_inv ns es P ind cur"
    and "\<And>n. adj_of adj n = map destination_node (filter (\<lambda>e. source_node e = n) es)"
    and "\<forall>e \<in> set es. destination_node e \<in> set ns"
  shows "distinct (P @ concat (kahn adj ind cur)) \<and> set (P @ concat (kahn adj ind cur)) \<subseteq> set ns
    \<and> layered es P (kahn adj ind cur) \<and> chained es (kahn adj ind cur)
    \<and> (\<forall>w \<in> set (kahn adj ind cur). w \<noteq> [])
    \<and> (\<forall>v \<in> set ns - set (P @ concat (kahn adj ind cur)).
         \<exists>e \<in> set es. destination_node e = v \<and> source_node e \<notin> set (P @ concat (kahn adj ind cur)))"
  using assms
proof (induction adj ind cur arbitrary: P rule: kahn.induct)
  case (1 adj ind cur)
  note inv = "1.prems"(1)
  show ?case
  proof (cases "cur = []")
    case True
    have "\<exists>e \<in> set es. destination_node e = v \<and> source_node e \<notin> set P" if "v \<in> set ns - set P" for v
    proof -
      have cnt: "ind v = int (length (filter (\<lambda>e. destination_node e = v \<and> source_node e \<notin> set P) es))"
        and z: "set (P @ cur) = {v \<in> set ns. ind v = 0}"
        using inv unfolding kahn_inv_def by blast+
      have "ind v \<noteq> 0" using that True z by auto
      then have "filter (\<lambda>e. destination_node e = v \<and> source_node e \<notin> set P) es \<noteq> []"
        using cnt by auto
      then show ?thesis by (auto simp: filter_empty_conv)
    qed
    moreover have "distinct (P @ cur)" "set (P @ cur) = {v \<in> set ns. ind v = 0}"
      using inv unfolding kahn_inv_def by blast+
    then have "distinct P" "set P \<subseteq> set ns" using True by auto
    ultimately show ?thesis using True by (simp add: kahn_Nil)
  next
    case False
    obtain ind' nxt where wb: "wave_body adj ind cur = (ind', nxt)"
      by (cases "wave_body adj ind cur")
    note step = kahn_inv_step [OF inv "1.prems"(2,3) wb]
    have unfold: "kahn adj ind cur = cur # kahn adj ind' (sort nxt)"
      using False wb by (simp add: kahn.simps [of adj ind cur])
    have rest: "chained es (cur # kahn adj ind' (sort nxt))"
      if "chained es (kahn adj ind' (sort nxt))"
    proof (cases "nxt = []")
      case True
      then show ?thesis by (simp add: kahn_Nil)
    next
      case False
      then obtain W where "kahn adj ind' (sort nxt) = sort nxt # W"
        using kahn_Cons [of "sort nxt"] by (metis set_empty set_sort)
      then show ?thesis using that step(2) by simp
    qed
    have IH: "distinct ((P @ cur) @ concat (kahn adj ind' (sort nxt)))
      \<and> set ((P @ cur) @ concat (kahn adj ind' (sort nxt))) \<subseteq> set ns
      \<and> layered es (P @ cur) (kahn adj ind' (sort nxt)) \<and> chained es (kahn adj ind' (sort nxt))
      \<and> (\<forall>w \<in> set (kahn adj ind' (sort nxt)). w \<noteq> [])
      \<and> (\<forall>v \<in> set ns - set ((P @ cur) @ concat (kahn adj ind' (sort nxt))).
           \<exists>e \<in> set es. destination_node e = v
             \<and> source_node e \<notin> set ((P @ cur) @ concat (kahn adj ind' (sort nxt))))"
      using "1.IH" [OF False wb [symmetric] step(1) "1.prems"(2,3)] .
    show ?thesis
      unfolding unfold layered.simps concat.simps append_assoc [symmetric] list.set
      using IH rest False kahn_inv_parents [OF inv] by blast
  qed
qed

definition wave_index :: "string list list \<Rightarrow> string \<Rightarrow> nat" where
  "wave_index ws n = length (takeWhile (\<lambda>w. n \<notin> set w) ws)"

lemma layered_index:
  assumes "layered es P ws" "e \<in> set es" "destination_node e \<in> set (concat ws)"
    and "distinct (P @ concat ws)"
  shows "source_node e \<in> set P \<or> wave_index ws (source_node e) < wave_index ws (destination_node e)"
  using assms
proof (induction ws arbitrary: P)
  case (Cons w ws)
  show ?case
  proof (cases "destination_node e \<in> set w")
    case False
    with Cons.prems have "source_node e \<in> set (P @ w) \<or>
        wave_index ws (source_node e) < wave_index ws (destination_node e)"
      by (intro Cons.IH) auto
    then show ?thesis using False by (auto simp: wave_index_def)
  qed (use Cons.prems in auto)
qed simp

lemma chained_parent:
  assumes "chained es ws" "distinct (concat ws)" "Suc k < length ws" "v \<in> set (ws ! Suc k)"
  shows "\<exists>e \<in> set es. destination_node e = v \<and> source_node e \<in> set (ws ! k)"
  using assms
proof (induction es ws arbitrary: k rule: chained.induct)
  case (1 es w1 w2 ws)
  then show ?case by (cases k) auto
qed auto

section \<open>Destructing a successful compilation\<close>

definition start_nodes :: "orchestra_graph \<Rightarrow> string list" where
  "start_nodes g = sort (filter (\<lambda>n. indegree (tables_of g) n = 0) (node_ids g))"

definition layers_of :: "orchestra_graph \<Rightarrow> string list list" where
  "layers_of g = kahn (adjacency (tables_of g)) (indegree (tables_of g)) (start_nodes g)"

definition producers_of :: "orchestra_graph \<Rightarrow> string list" where
  "producers_of g =
     map node_id (filter (\<lambda>n. final_output_slot g \<in> set (dkeys (output_slots n))) (nodes g))"

definition reached_from :: "orchestra_graph \<Rightarrow> string list \<Rightarrow> string set" where
  "reached_from g r = set (reach_loop (adjacency (tables_of g)) r)"

lemma compile_Inr_iff:
  "compile env g = Inr cg \<longleftrightarrow>
     distinct (node_ids g) \<and> distinct (edge_ids g)
     \<and> (\<forall>n \<in> set (nodes g). check_node env n = Inr ())
     \<and> (\<forall>e \<in> set (edges g). edge_ok (node_map g) e)
     \<and> scan_entries (initial_artifact_slots g) (incoming_slots (tables_of g)) (nodes g) = Inr (entry_nodes cg)
     \<and> entry_nodes cg \<noteq> []
     \<and> length (concat (layers_of g)) = length (node_ids g)
     \<and> (\<exists>p \<in> set (producers_of g). p \<in> reached_from g (entry_nodes cg))
     \<and> cg = \<lparr>graph = g, entry_nodes = entry_nodes cg, waves = layers_of g,
          conditional_branches = length (filter (\<lambda>e. condition e \<noteq> None) (edges g)),
          final_producers = producers_of g\<rparr>"
proof -
  have scan: "scan_edges (node_map g) (edges g) empty_tables = Inr t \<longleftrightarrow>
      (\<forall>e \<in> set (edges g). edge_ok (node_map g) e) \<and> t = tables_of g" for t
    using rcheck_eq_Inr [of "check_edge (node_map g)" "edges g"]
    by (auto simp: scan_edges_eq tables_of_def check_edge_Inr split: sum.splits)
  show ?thesis
    by (cases cg)
      (auto simp: compile_def Let_def rbind_eq_Inr scan rcheck_eq_Inr length_concat list_ex_iff
        producers_of_def layers_of_def start_nodes_def reached_from_def filter_empty_conv)
qed

lemma kahn_inv_start:
  "distinct (node_ids g) \<Longrightarrow>
     kahn_inv (node_ids g) (edges g) [] (indegree (tables_of g)) (start_nodes g)"
  by (auto simp: kahn_inv_def start_nodes_def tables_of_simps)

lemma edge_ok_nodes:
  "distinct (node_ids g) \<Longrightarrow> edge_ok (node_map g) e \<Longrightarrow>
     source_node e \<in> set (node_ids g) \<and> destination_node e \<in> set (node_ids g)"
  unfolding edge_ok_def by (metis image_eqI list.set_map node_ids_def node_map_SomeD)

lemma layers_correct:
  assumes "distinct (node_ids g)" "\<forall>e \<in> set (edges g). edge_ok (node_map g) e"
  shows "distinct (concat (layers_of g)) \<and> set (concat (layers_of g)) \<subseteq> set (node_ids g)
    \<and> layered (edges g) [] (layers_of g) \<and> chained (edges g) (layers_of g)
    \<and> (\<forall>w \<in> set (layers_of g). w \<noteq> [])
    \<and> (\<forall>v \<in> set (node_ids g) - set (concat (layers_of g)).
         \<exists>e \<in> set (edges g). destination_node e = v \<and> source_node e \<notin> set (concat (layers_of g)))"
proof -
  have "\<forall>e \<in> set (edges g). destination_node e \<in> set (node_ids g)"
    using assms edge_ok_nodes by auto
  then show ?thesis
    using kahn_correct [OF kahn_inv_start [OF assms(1)] tables_of_simps(3)]
    by (simp add: layers_of_def)
qed

lemma visited_all_iff:
  assumes "distinct (node_ids g)" "\<forall>e \<in> set (edges g). edge_ok (node_map g) e"
  shows "length (concat (layers_of g)) = length (node_ids g) \<longleftrightarrow>
    set (concat (layers_of g)) = set (node_ids g)"
proof -
  note L = layers_correct [OF assms]
  have "length (concat (layers_of g)) = card (set (concat (layers_of g)))"
    using L by (metis distinct_card)
  moreover have "length (node_ids g) = card (set (node_ids g))"
    using assms by (metis distinct_card)
  ultimately show ?thesis using L by (metis List.finite_set card_subset_eq)
qed

lemma layers_acyclic:
  assumes "distinct (node_ids g)" "\<forall>e \<in> set (edges g). edge_ok (node_map g) e"
  shows "length (concat (layers_of g)) = length (node_ids g) \<longleftrightarrow> acyclic (edge_rel g)"
proof
  assume "length (concat (layers_of g)) = length (node_ids g)"
  then have all: "set (concat (layers_of g)) = set (node_ids g)"
    using visited_all_iff [OF assms] by simp
  have "edge_rel g \<subseteq> measure (wave_index (layers_of g))"
    using layered_index layers_correct [OF assms] edge_ok_nodes [OF assms(1)] assms(2) all
    by (fastforce simp: edge_rel_def)
  then show "acyclic (edge_rel g)"
    by (meson acyclic_subset wf_acyclic wf_measure)
next
  assume acyc: "acyclic (edge_rel g)"
  let ?R = "set (node_ids g) - set (concat (layers_of g))"
  have "finite (edge_rel g)" by (simp add: edge_rel_def)
  then have wf: "wf (edge_rel g)" using acyc by (rule finite_acyclic_wf)
  have "?R = {}"
  proof (rule ccontr)
    assume "?R \<noteq> {}"
    then obtain v where v: "v \<in> ?R" and min: "\<And>u. (u, v) \<in> edge_rel g \<Longrightarrow> u \<notin> ?R"
      using wf by (metis ex_in_conv wfE_min)
    obtain e where e: "e \<in> set (edges g)" "destination_node e = v"
        "source_node e \<notin> set (concat (layers_of g))"
      using layers_correct [OF assms] v by blast
    then have "source_node e \<in> ?R" using edge_ok_nodes [OF assms(1)] assms(2) by auto
    moreover have "(source_node e, v) \<in> edge_rel g" using e by (auto simp: edge_rel_def)
    ultimately show False using min by blast
  qed
  then show "length (concat (layers_of g)) = length (node_ids g)"
    using layers_correct [OF assms] visited_all_iff [OF assms] by blast
qed

lemma reach_loop_correct:
  "set (reach_loop adj r) = {v. \<exists>u \<in> set r. (u, v) \<in> {(a, b). b \<in> set (adj_of adj a)}\<^sup>*}"
proof (induction adj r rule: reach_loop.induct)
  case (1 adj r)
  let ?E = "{(a, b). b \<in> set (adj_of adj a)}"
  let ?r = "reach_pass adj r"
  show ?case
  proof (cases "set ?r = set r")
    case True
    then have closed: "b \<in> set r" if "a \<in> set r" "(a, b) \<in> ?E" for a b
      using that by (auto simp: reach_pass_set)
    have "v \<in> set r" if "(u, v) \<in> ?E\<^sup>*" "u \<in> set r" for u v
      using that by (induction rule: rtrancl_induct) (auto intro: closed)
    then show ?thesis using True by (auto simp: reach_loop.simps [of adj r])
  next
    case False
    have "(\<exists>u \<in> set ?r. (u, v) \<in> ?E\<^sup>*) \<longleftrightarrow> (\<exists>u \<in> set r. (u, v) \<in> ?E\<^sup>*)" for v
      unfolding reach_pass_set by (auto intro: converse_rtrancl_into_rtrancl)
    then show ?thesis using False 1 by (auto simp: reach_loop.simps [of adj r] Let_def)
  qed
qed

lemma reached_from_eq: "reached_from g r = {v. \<exists>u \<in> set r. (u, v) \<in> (edge_rel g)\<^sup>*}"
  by (simp add: reached_from_def reach_loop_correct adj_of_rel)

lemma scan_entries_Inr:
  "scan_entries initial inc ns = Inr r \<longleftrightarrow>
     (\<forall>n \<in> set ns. \<forall>slot \<in> set (dkeys (input_slots n)).
        dget initial slot \<noteq> None \<or> inc (node_id n, slot) \<noteq> 0)
     \<and> r = map node_id (filter (initial_match initial) ns)"
proof (induction ns arbitrary: r)
  case (Cons n ns)
  have "check_bound initial inc n = Inr () \<longleftrightarrow>
      (\<forall>slot \<in> set (dkeys (input_slots n)). dget initial slot \<noteq> None \<or> inc (node_id n, slot) \<noteq> 0)"
    by (auto simp: check_bound_def rcheck_eq_Inr split: if_splits)
  then show ?case by (auto simp: rbind_eq_Inr Cons)
qed auto

section \<open>What a successful compilation gives\<close>

lemma compiled_waves:
  assumes "compile env g = Inr cg"
  shows "distinct (concat (waves cg)) \<and> set (concat (waves cg)) = set (node_ids g)
    \<and> (\<forall>w \<in> set (waves cg). w \<noteq> [])
    \<and> (\<forall>e \<in> set (edges g). wave_index (waves cg) (source_node e) < wave_index (waves cg) (destination_node e))"
proof -
  have d: "distinct (node_ids g)" and ok: "\<forall>e \<in> set (edges g). edge_ok (node_map g) e"
    and len: "length (concat (layers_of g)) = length (node_ids g)" and w: "waves cg = layers_of g"
    using assms unfolding compile_Inr_iff by (blast, blast, blast, metis compiled_graph.select_convs(3))
  note L = layers_correct [OF d ok]
  have all: "set (concat (layers_of g)) = set (node_ids g)" using len visited_all_iff [OF d ok] by simp
  have "wave_index (layers_of g) (source_node e) < wave_index (layers_of g) (destination_node e)"
    if e: "e \<in> set (edges g)" for e
  proof -
    have "destination_node e \<in> set (node_ids g)" using edge_ok_nodes [OF d, of e] ok e by blast
    then have "destination_node e \<in> set (concat (layers_of g))" using all by simp
    then show ?thesis using layered_index [of "edges g" "[]" "layers_of g" e] L e by simp
  qed
  then show ?thesis using L all w by simp
qed

lemma compiled_distinct:
  assumes "compile env g = Inr cg"
  shows "distinct (node_ids g)" "distinct (edge_ids g)" "graph cg = g"
    and "e \<in> set (edges g) \<Longrightarrow> source_node e \<in> set (node_ids g) \<and> destination_node e \<in> set (node_ids g)"
proof -
  show d: "distinct (node_ids g)" "distinct (edge_ids g)"
    using assms unfolding compile_Inr_iff by blast+
  show "graph cg = g" using assms unfolding compile_Inr_iff by (metis compiled_graph.select_convs(1))
  show "source_node e \<in> set (node_ids g) \<and> destination_node e \<in> set (node_ids g)" if "e \<in> set (edges g)"
    using that assms edge_ok_nodes [OF d(1)] unfolding compile_Inr_iff by blast
qed

lemma compiled_earliest:
  assumes "compile env g = Inr cg" "Suc k < length (waves cg)" "v \<in> set (waves cg ! Suc k)"
  shows "\<exists>e \<in> set (edges g). destination_node e = v \<and> source_node e \<in> set (waves cg ! k)"
proof -
  have d: "distinct (node_ids g)" and ok: "\<forall>e \<in> set (edges g). edge_ok (node_map g) e"
    and w: "waves cg = layers_of g"
    using assms(1) unfolding compile_Inr_iff by (blast, blast, metis compiled_graph.select_convs(3))
  show ?thesis
    using layers_correct [OF d ok] chained_parent [of "edges g" "layers_of g" k v] assms(2,3) w by simp
qed

lemma scan_edges_Inr:
  "scan_edges (node_map g) (edges g) empty_tables = Inr t \<longleftrightarrow>
     (\<forall>e \<in> set (edges g). edge_ok (node_map g) e) \<and> t = tables_of g"
  using rcheck_eq_Inr [of "check_edge (node_map g)" "edges g"]
  by (auto simp: scan_edges_eq tables_of_def check_edge_Inr split: sum.splits)

lemma visited_iff_acyclic:
  assumes "distinct (node_ids g)" "scan_edges (node_map g) (edges g) empty_tables = Inr t"
  shows "length (concat (kahn (adjacency t) (indegree t)
      (sort (filter (\<lambda>n. indegree t n = 0) (node_ids g))))) = length (node_ids g)
    \<longleftrightarrow> acyclic ((\<lambda>e. (source_node e, destination_node e)) ` set (edges g))"
  using layers_acyclic [OF assms(1)] assms(2)
  unfolding scan_edges_Inr edge_rel_def layers_of_def start_nodes_def by blast

lemma compiled_bound:
  assumes "compile env g = Inr cg"
  shows "(\<forall>n \<in> set (nodes g). \<forall>slot \<in> set (dkeys (input_slots n)).
      dget (initial_artifact_slots g) slot \<noteq> None
      \<or> (\<exists>e \<in> set (edges g). destination_node e = node_id n \<and> destination_input e = slot))
    \<and> entry_nodes cg = map node_id (filter (initial_match (initial_artifact_slots g)) (nodes g))
    \<and> entry_nodes cg \<noteq> []"
proof -
  have "scan_entries (initial_artifact_slots g) (incoming_slots (tables_of g)) (nodes g) = Inr (entry_nodes cg)"
    "entry_nodes cg \<noteq> []"
    using assms unfolding compile_Inr_iff by blast+
  then show ?thesis
    unfolding scan_entries_Inr tables_of_simps by (auto simp: filter_empty_conv)
qed

lemma compiled_reachable:
  assumes "compile env g = Inr cg"
  shows "\<exists>n \<in> set (nodes g). \<exists>u \<in> set (entry_nodes cg). final_output_slot g \<in> set (dkeys (output_slots n))
    \<and> (u, node_id n) \<in> ((\<lambda>e. (source_node e, destination_node e)) ` set (edges g))\<^sup>*"
proof -
  obtain p where p: "p \<in> set (producers_of g)" "p \<in> reached_from g (entry_nodes cg)"
    using assms unfolding compile_Inr_iff by blast
  then obtain n where "n \<in> set (nodes g)" "node_id n = p" "final_output_slot g \<in> set (dkeys (output_slots n))"
    by (auto simp: producers_of_def)
  moreover obtain u where "u \<in> set (entry_nodes cg)" "(u, p) \<in> (edge_rel g)\<^sup>*"
    using p(2) by (auto simp: reached_from_eq)
  ultimately show ?thesis unfolding edge_rel_def by blast
qed

end
