(* ===== verification/Runtime_State.thy ===== *)
theory Runtime_State
  imports Compiler_Props
begin

text \<open>
  The state of a graph execution (\<open>runtime/state.py\<close>), the result of one node
  (\<open>llm/usage.py\<close>, \<open>NodeExecutionResult\<close>), the limits (\<open>runtime/limits.py\<close>), the run
  context (\<open>runtime/backend.py\<close>) and the telemetry events (\<open>telemetry/events.py\<close>).
\<close>

section \<open>State\<close>

datatype node_status = Pending | Ready | Running | Succeeded | Failed | Skipped | Cancelled

text \<open>\<open>status.value\<close>.\<close>

fun status_value :: "node_status \<Rightarrow> string" where
  "status_value Pending = ''pending''"
| "status_value Ready = ''ready''"
| "status_value Running = ''running''"
| "status_value Succeeded = ''succeeded''"
| "status_value Failed = ''failed''"
| "status_value Skipped = ''skipped''"
| "status_value Cancelled = ''cancelled''"

record runtime_state =
  run_id :: string
  task_id :: string
  st_graph_id :: string
  graph_hash :: string
  contract_hash :: string
  node_status :: "node_status dict"
  node_outputs :: "string dict dict"
  initial_artifacts :: "string dict"
  active_edges :: "string set"
  inactive_edges :: "string set"
  final_output_artifact_id :: "string option"
  frozen :: bool
  wave_id :: int
  checkpoint_count :: int
  node_latencies_ms :: "int dict"

section \<open>Results of a node\<close>

record llm_usage =
  prompt_tokens :: int
  completion_tokens :: int
  cached_tokens :: int
  total_tokens :: int
  estimated_cost_usd :: "py_float option"

definition no_usage :: llm_usage where
  "no_usage = \<lparr>prompt_tokens = 0, completion_tokens = 0, cached_tokens = 0, total_tokens = 0,
     estimated_cost_usd = None\<rparr>"

record node_result =
  res_node_id :: string
  succeeded :: bool
  outputs :: "envelope dict"
  res_error :: "string option"
  latency_ms :: int
  usage :: llm_usage

text \<open>\<open>NodeExecutionResult.failed\<close>.\<close>

definition failed_result :: "string \<Rightarrow> exc \<Rightarrow> int \<Rightarrow> node_result" where
  "failed_result nid e ms =
     \<lparr>res_node_id = nid, succeeded = False, outputs = [],
      res_error = Some (exc_class_name (exc_cls e) @ '': '' @ exc_msg e),
      latency_ms = ms, usage = no_usage\<rparr>"

text \<open>\<open>NodeExecutionResult(node_id=..., succeeded=True, outputs={slot: artifact}, ...)\<close>.\<close>

definition ok_result :: "string \<Rightarrow> string \<Rightarrow> envelope \<Rightarrow> int \<Rightarrow> llm_usage \<Rightarrow> node_result" where
  "ok_result nid slot a ms u =
     \<lparr>res_node_id = nid, succeeded = True, outputs = [(slot, a)], res_error = None,
      latency_ms = ms, usage = u\<rparr>"

record graph_result =
  final_state :: runtime_state
  wall_latency_ms :: int
  sum_node_latency_ms :: int
  critical_path_latency_ms :: int
  parallel_node_count :: int
  concurrency_speedup :: py_float
  failed_node_count :: int
  skipped_node_count :: int
  res_checkpoint_count :: int

section \<open>Limits and context\<close>

record runtime_limits =
  max_parallel_benchmark_tasks :: int
  max_parallel_nodes_per_task :: int
  max_parallel_llm_calls :: int
  max_parallel_sandboxes :: int

definition default_limits :: runtime_limits where
  "default_limits = \<lparr>max_parallel_benchmark_tasks = 4, max_parallel_nodes_per_task = 4,
     max_parallel_llm_calls = 8, max_parallel_sandboxes = 2\<rparr>"

record run_context =
  ctx_run_id :: string
  ctx_task_id :: string
  limits :: runtime_limits
  ctx_contract_hash :: string
  allow_config_drift :: bool

section \<open>Events\<close>

text \<open>\<open>TelemetryEvent\<close>, without its time stamp.\<close>

record event =
  ev_run_id :: string
  ev_task_id :: "string option"
  ev_graph_id :: string
  event_type :: string
  ev_wave_id :: "int option"
  ev_node_id :: "string option"
  ev_artifact_ids :: "string list"
  ev_latency_ms :: "int option"
  ev_prompt_tokens :: "int option"
  ev_completion_tokens :: "int option"
  ev_estimated_cost_usd :: "py_float option"
  ev_status :: "string option"
  ev_metadata :: "json dict"

definition base_event :: "run_context \<Rightarrow> string \<Rightarrow> string \<Rightarrow> event" where
  "base_event ctx gid ty =
     \<lparr>ev_run_id = ctx_run_id ctx, ev_task_id = Some (ctx_task_id ctx), ev_graph_id = gid,
      event_type = ty, ev_wave_id = None, ev_node_id = None, ev_artifact_ids = [],
      ev_latency_ms = None, ev_prompt_tokens = None, ev_completion_tokens = None,
      ev_estimated_cost_usd = None, ev_status = None, ev_metadata = []\<rparr>"

end
