(* ===== verification/Storage.thy ===== *)
theory Storage
  imports Runtime_State
begin

text \<open>
  What a run keeps on disk: immutable artifacts (\<open>storage/artifacts.py\<close>), one checkpoint
  per task (\<open>runtime/checkpoint.py\<close>) and the append-only event log
  (\<open>storage/events.py\<close>). The file system is a list of files keyed by path; text goes in and
  comes out through pydantic's JSON codecs, which are parameters with a round-trip law
  (\<open>host_ok\<close>). The interface \<open>ArtifactStore\<close> is the locale \<open>artifact_store\<close>,
  interpreted on the file store.
\<close>

section \<open>The world of a run\<close>

text \<open>
  Paths below the run directory: \<open>tasks/T/artifacts/A.json\<close>, its \<open>.json.tmp\<close> sibling,
  \<open>tasks/T/checkpoint.json\<close> and its sibling, the other files of a task
  (\<open>tasks/T/NAME\<close>) and those of the run (\<open>NAME\<close>). Identifiers are taken to be file names (no
  separator, no glob character), so that distinct constructors are distinct paths.
\<close>

datatype path =
    ArtifactFile string string
  | ArtifactTmp string string
  | CheckpointFile string
  | CheckpointTmp string
  | TaskFile string string
  | RunFile string

record world =
  fs :: "(path \<times> string) list"
  log :: "event list"

definition file_at :: "world \<Rightarrow> path \<Rightarrow> string option" where
  "file_at w p = map_of (fs w) p"

record host =
  plat :: platform
  dump_envelope :: "envelope \<Rightarrow> string"
  load_envelope :: "string \<Rightarrow> envelope option"
  dump_state :: "runtime_state \<Rightarrow> string"
  load_state :: "string \<Rightarrow> runtime_state option"

text \<open>
  \<open>model_validate_json(x.model_dump_json())\<close> gives \<open>x\<close> back. A Python set is finite: the
  codec of states is only asked for states whose edge sets are.
\<close>

definition finite_edges :: "runtime_state \<Rightarrow> bool" where
  "finite_edges s \<longleftrightarrow> finite (active_edges s) \<and> finite (inactive_edges s)"

definition host_ok :: "host \<Rightarrow> bool" where
  "host_ok H \<longleftrightarrow> pydantic_ok (pyd (plat H))
     \<and> (\<forall>e. load_envelope H (dump_envelope H e) = Some e)
     \<and> (\<forall>s. finite_edges s \<longrightarrow> load_state H (dump_state H s) = Some s)"

section \<open>File operations\<close>

text \<open>\<open>path.write_text(text)\<close> and \<open>src.replace(dst)\<close>.\<close>

definition write_text :: "path \<Rightarrow> string \<Rightarrow> world \<Rightarrow> world" where
  "write_text p t w = w\<lparr>fs := AList.update p t (fs w)\<rparr>"

definition replace_file :: "path \<Rightarrow> path \<Rightarrow> world \<Rightarrow> world" where
  "replace_file src dst w =
     (case file_at w src of
        None \<Rightarrow> w
      | Some t \<Rightarrow> w\<lparr>fs := AList.update dst t (AList.delete src (fs w))\<rparr>)"

lemma file_at_write [simp]: "file_at (write_text p t w) q = (if q = p then Some t else file_at w q)"
  by (simp add: file_at_def write_text_def update_conv')

lemma file_at_replace:
  "file_at w src = Some t \<Longrightarrow> src \<noteq> dst \<Longrightarrow>
     file_at (replace_file src dst w) q =
       (if q = dst then Some t else if q = src then None else file_at w q)"
  by (simp add: file_at_def replace_file_def update_conv' delete_conv')

lemma log_write [simp]: "log (write_text p t w) = log w"
  by (simp add: write_text_def)

lemma log_replace [simp]: "log (replace_file src dst w) = log w"
  by (simp add: replace_file_def split: option.splits)

text \<open>The write-then-rename step both stores use.\<close>

definition write_via_tmp :: "path \<Rightarrow> path \<Rightarrow> string \<Rightarrow> world \<Rightarrow> world" where
  "write_via_tmp tmp p t w = replace_file tmp p (write_text tmp t w)"

lemma file_at_write_via_tmp [simp]:
  "tmp \<noteq> p \<Longrightarrow> file_at (write_via_tmp tmp p t w) q =
     (if q = p then Some t else if q = tmp then None else file_at w q)"
  by (simp add: write_via_tmp_def file_at_replace)

lemma log_write_via_tmp [simp]: "log (write_via_tmp tmp p t w) = log w"
  by (simp add: write_via_tmp_def)

section \<open>The artifact store\<close>

text \<open>\<open>FileArtifactStore.put\<close>.\<close>

definition put_artifact :: "host \<Rightarrow> envelope \<Rightarrow> (world, unit) io" where
  "put_artifact H a = thn (lift (validate_payload (plat H) a)) (\<lambda>w.
     (let p = ArtifactFile (env_task_id a) (artifact_id a);
          tmp = ArtifactTmp (env_task_id a) (artifact_id a);
          encoded = dump_envelope H a
      in case file_at w p of
           Some old \<Rightarrow>
             if old \<noteq> encoded
             then (Inl (Exc RuntimeErrorC (''Immutable artifact already exists: '' @ artifact_id a)), w)
             else (Inr (), w)
         | None \<Rightarrow> (Inr (), write_via_tmp tmp p encoded w)))"

text \<open>\<open>self.root.glob(f"*/artifacts/{artifact_id}.json")\<close>: the texts that match.\<close>

definition artifact_matches :: "world \<Rightarrow> string \<Rightarrow> string list" where
  "artifact_matches w aid =
     map snd (filter (\<lambda>(p, t). case p of ArtifactFile _ a \<Rightarrow> a = aid | _ \<Rightarrow> False) (fs w))"

text \<open>\<open>FileArtifactStore.get\<close>.\<close>

definition parse_envelope :: "host \<Rightarrow> string \<Rightarrow> envelope res" where
  "parse_envelope H text =
     from_option (Exc ValidationErrorC ''ArtifactEnvelope'') (load_envelope H text)"

definition read_artifact :: "host \<Rightarrow> world \<Rightarrow> string \<Rightarrow> envelope res" where
  "read_artifact H w aid =
     (case artifact_matches w aid of
        [text] \<Rightarrow>
          rbind (parse_envelope H text) (\<lambda>a. rbind (validate_payload (plat H) a) (\<lambda>_. Inr a))
      | _ \<Rightarrow> Inl (key_error aid))"

definition get_artifact :: "host \<Rightarrow> string \<Rightarrow> (world, envelope) io" where
  "get_artifact H aid = (\<lambda>w. (read_artifact H w aid, w))"

text \<open>\<open>FileArtifactStore.list_for_task\<close>: every envelope of the task, by file name.\<close>

definition list_for_task :: "host \<Rightarrow> string \<Rightarrow> (world, envelope list) io" where
  "list_for_task H task = (\<lambda>w.
     (rmap (\<lambda>(name, t). parse_envelope H t)
        (sort_key fst (concat (map (\<lambda>(p, t). case p of
           ArtifactFile tk a \<Rightarrow> if tk = task then [(a @ ''.json'', t)] else [] | _ \<Rightarrow> []) (fs w)))), w))"

text \<open>
  The interface. \<open>stored w i\<close> is what a reader gets for the identifier \<open>i\<close>; \<open>admits\<close>
  says that storing the envelope does not make its identifier ambiguous.
\<close>

locale artifact_store =
  fixes put :: "envelope \<Rightarrow> ('w, unit) io"
    and get :: "string \<Rightarrow> ('w, envelope) io"
    and stored :: "'w \<Rightarrow> string \<Rightarrow> envelope option"
    and invar :: "'w \<Rightarrow> bool"
    and valid :: "envelope \<Rightarrow> bool"
    and admits :: "'w \<Rightarrow> envelope \<Rightarrow> bool"
  assumes put_invalid: "\<not> valid a \<Longrightarrow> \<exists>e. put a w = (Inl e, w)"
    and put_new: "invar w \<Longrightarrow> valid a \<Longrightarrow> admits w a \<Longrightarrow> stored w (artifact_id a) = None \<Longrightarrow>
      \<exists>w'. put a w = (Inr (), w') \<and> invar w' \<and> stored w' = (stored w)(artifact_id a \<mapsto> a)"
    and put_same: "invar w \<Longrightarrow> valid a \<Longrightarrow> admits w a \<Longrightarrow> stored w (artifact_id a) = Some a \<Longrightarrow>
      put a w = (Inr (), w)"
    and put_conflict: "invar w \<Longrightarrow> valid a \<Longrightarrow> admits w a \<Longrightarrow> stored w (artifact_id a) = Some b \<Longrightarrow>
      b \<noteq> a \<Longrightarrow> \<exists>e. put a w = (Inl e, w)"
    and admits_put: "invar w \<Longrightarrow> admits w a \<Longrightarrow> admits w b \<Longrightarrow> env_task_id a = env_task_id b \<Longrightarrow>
      put a w = (Inr (), w') \<Longrightarrow> admits w' b"
    and get_stored: "invar w \<Longrightarrow> stored w i = Some a \<Longrightarrow> get i w = (Inr a, w)"
    and get_missing: "invar w \<Longrightarrow> stored w i = None \<Longrightarrow> \<exists>e. get i w = (Inl e, w)"
begin

lemma put_InrD:
  assumes "invar w" "admits w a" "put a w = (Inr (), w')"
  shows "valid a" "invar w'" "stored w' = (stored w)(artifact_id a \<mapsto> a)"
    "stored w (artifact_id a) \<in> {None, Some a}"
proof -
  show v: "valid a" using put_invalid [of a w] assms by auto
  show "stored w (artifact_id a) \<in> {None, Some a}"
  proof (cases "stored w (artifact_id a)")
    case (Some b)
    then show ?thesis using put_conflict [OF assms(1) v assms(2) Some] assms(3) by auto
  qed simp
  then consider "stored w (artifact_id a) = None" | "stored w (artifact_id a) = Some a" by auto
  then have "invar w' \<and> stored w' = (stored w)(artifact_id a \<mapsto> a)"
  proof cases
    case 1
    then show ?thesis using put_new [OF assms(1) v assms(2)] assms(3) by auto
  next
    case 2
    then show ?thesis using put_same [OF assms(1) v assms(2) 2] assms(1,3) by (auto simp: fun_upd_idem)
  qed
  then show "invar w'" "stored w' = (stored w)(artifact_id a \<mapsto> a)" by auto
qed

lemma put_keeps:
  "invar w \<Longrightarrow> admits w a \<Longrightarrow> put a w = (Inr (), w') \<Longrightarrow> stored w i = Some b \<Longrightarrow> stored w' i = Some b"
  using put_InrD [of w a w'] by auto

text \<open>Storing a batch: all of it is readable afterwards, and nothing stored before changed.\<close>

lemma put_all:
  assumes "for_each put as w = (Inr (), w')" "invar w" "\<forall>a \<in> set as. admits w a \<and> env_task_id a = t"
  shows "invar w' \<and> (\<forall>a \<in> set as. stored w' (artifact_id a) = Some a)
    \<and> (\<forall>i b. stored w i = Some b \<longrightarrow> stored w' i = Some b)
    \<and> (\<forall>b. admits w b \<and> env_task_id b = t \<longrightarrow> admits w' b)"
  using assms
proof (induction "as" arbitrary: w)
  case (Cons a "as")
  then obtain w1 where w1: "put a w = (Inr (), w1)" and rest: "for_each put as w1 = (Inr (), w')"
    by (auto simp: thn_eq_Inr)
  have a: "admits w a" using Cons.prems by simp
  note P = put_InrD [OF Cons.prems(2) a w1]
  have keep: "admits w1 b" if "admits w b" "env_task_id b = t" for b
    using admits_put [OF Cons.prems(2) a that(1) _ w1] that Cons.prems(3) by simp
  then have "\<forall>b \<in> set as. admits w1 b \<and> env_task_id b = t" using Cons.prems(3) by auto
  from Cons.IH [OF rest P(2) this]
  have IH: "invar w'" "\<forall>b \<in> set as. stored w' (artifact_id b) = Some b"
    "\<And>i b. stored w1 i = Some b \<Longrightarrow> stored w' i = Some b"
    "\<And>b. admits w1 b \<and> env_task_id b = t \<Longrightarrow> admits w' b" by auto
  have "stored w1 (artifact_id a) = Some a" using P(3) by simp
  then show ?case
    using IH keep put_keeps [OF Cons.prems(2) a w1] by auto
qed auto

text \<open>Also when the batch stops at an error, what it stored before stays readable.\<close>

lemma put_error: "invar w \<Longrightarrow> admits w a \<Longrightarrow> put a w = (Inl e, w') \<Longrightarrow> w' = w"
  using put_invalid [of a w] put_new [of w a] put_same [of w a] put_conflict [of w a]
  by (metis Inl_Inr_False Pair_inject option.exhaust)

lemma put_all_partial:
  assumes "for_each put as w = (r, w')" "invar w" "\<forall>a \<in> set as. admits w a \<and> env_task_id a = t"
  shows "invar w' \<and> (\<forall>i b. stored w i = Some b \<longrightarrow> stored w' i = Some b)"
  using assms
proof (induction "as" arbitrary: w)
  case (Cons a "as")
  have a: "admits w a" using Cons.prems by simp
  obtain q w1 where w1: "put a w = (q, w1)" by (cases "put a w")
  show ?case
  proof (cases q)
    case (Inl e)
    then have "w1 = w" using put_error [OF Cons.prems(2) a] w1 by simp
    then show ?thesis using Cons.prems(1,2) Inl w1 by (auto simp: thn_def bnd_def)
  next
    case (Inr u)
    then have w1: "put a w = (Inr (), w1)" using w1 by simp
    then have rest: "for_each put as w1 = (r, w')" using Cons.prems(1) by (simp add: thn_InrI)
    note P = put_InrD [OF Cons.prems(2) a w1]
    have "\<forall>b \<in> set as. admits w1 b \<and> env_task_id b = t"
      using admits_put [OF Cons.prems(2) a _ _ w1] Cons.prems(3) by simp
    from Cons.IH [OF rest P(2) this] show ?thesis
      using put_keeps [OF Cons.prems(2) a w1] by blast
  qed
qed auto

text \<open>Identifiers outside the batch are untouched, and success does not depend on the order.\<close>

lemma put_all_other:
  assumes "for_each put as w = (Inr (), w')" "invar w" "\<forall>a \<in> set as. admits w a \<and> env_task_id a = t"
    "i \<notin> artifact_id ` set as"
  shows "stored w' i = stored w i"
  using assms
proof (induction "as" arbitrary: w)
  case (Cons a "as")
  then obtain w1 where w1: "put a w = (Inr (), w1)" and rest: "for_each put as w1 = (Inr (), w')"
    by (auto simp: thn_eq_Inr)
  have a: "admits w a" using Cons.prems by simp
  note P = put_InrD [OF Cons.prems(2) a w1]
  have "\<forall>b \<in> set as. admits w1 b \<and> env_task_id b = t"
    using admits_put [OF Cons.prems(2) a _ _ w1] Cons.prems(3) by simp
  from Cons.IH [OF rest P(2) this] show ?case using P(3) Cons.prems(4) by auto
qed auto

lemma put_all_iff:
  assumes "invar w" "\<forall>a \<in> set as. admits w a \<and> env_task_id a = t"
  shows "(\<exists>w'. for_each put as w = (Inr (), w')) \<longleftrightarrow>
    (\<forall>a \<in> set as. valid a \<and> stored w (artifact_id a) \<in> {None, Some a}) \<and> inj_on artifact_id (set as)"
  using assms
proof (induction "as" arbitrary: w)
  case (Cons a "as")
  have a: "admits w a" using Cons.prems by simp
  let ?ok = "valid a \<and> stored w (artifact_id a) \<in> {None, Some a}"
  have put_ok: "?ok" if "put a w = (Inr (), w1)" for w1
    using put_InrD [OF Cons.prems(1) a that] by blast
  show ?case
  proof (cases ?ok)
    case False
    then have "put a w \<noteq> (Inr (), w1)" for w1 using put_ok by blast
    then show ?thesis using False by (auto simp: thn_eq_Inr)
  next
    case True
    then obtain w1 where w1: "put a w = (Inr (), w1)"
      using put_new [OF Cons.prems(1) _ a] put_same [OF Cons.prems(1) _ a] by blast
    note P = put_InrD [OF Cons.prems(1) a w1]
    have "\<forall>b \<in> set as. admits w1 b \<and> env_task_id b = t"
      using admits_put [OF Cons.prems(1) a _ _ w1] Cons.prems(2) by simp
    note IH = Cons.IH [OF P(2) this]
    have "(\<exists>w'. for_each put (a # as) w = (Inr (), w')) \<longleftrightarrow> (\<exists>w'. for_each put as w1 = (Inr (), w'))"
      using w1 by (simp add: thn_eq_Inr)
    moreover have "stored w1 (artifact_id b) \<in> {None, Some b} \<longleftrightarrow>
        stored w (artifact_id b) \<in> {None, Some b} \<and> (artifact_id b = artifact_id a \<longrightarrow> b = a)" for b
      using P(3,4) by auto
    ultimately show ?thesis using IH True by (auto simp: inj_on_def)
  qed
qed auto

end

section \<open>The file store implements the interface\<close>

definition stored_artifact :: "host \<Rightarrow> world \<Rightarrow> string \<Rightarrow> envelope option" where
  "stored_artifact H w aid = (case read_artifact H w aid of Inl _ \<Rightarrow> None | Inr a \<Rightarrow> Some a)"

text \<open>
  Every artifact file holds the text of a valid envelope with the identifiers of its path,
  no identifier is used by two tasks, and no path occurs twice.
\<close>

definition store_inv :: "host \<Rightarrow> world \<Rightarrow> bool" where
  "store_inv H w \<longleftrightarrow> host_ok H \<and> distinct (map fst (fs w))
     \<and> (\<forall>t i text. file_at w (ArtifactFile t i) = Some text \<longrightarrow>
          (\<exists>a. text = dump_envelope H a \<and> valid_artifact (plat H) a \<and> env_task_id a = t \<and> artifact_id a = i))
     \<and> (\<forall>t t' i. file_at w (ArtifactFile t i) \<noteq> None \<and> file_at w (ArtifactFile t' i) \<noteq> None \<longrightarrow> t = t')"

definition admits_artifact :: "world \<Rightarrow> envelope \<Rightarrow> bool" where
  "admits_artifact w a \<longleftrightarrow>
     (\<forall>t. t \<noteq> env_task_id a \<longrightarrow> file_at w (ArtifactFile t (artifact_id a)) = None)"

lemma store_invD:
  assumes "store_inv H w"
  shows "host_ok H" "distinct (map fst (fs w))"
    and "file_at w (ArtifactFile t i) = Some body \<Longrightarrow>
      \<exists>a. body = dump_envelope H a \<and> valid_artifact (plat H) a \<and> env_task_id a = t \<and> artifact_id a = i"
    and "file_at w (ArtifactFile t i) = Some x \<Longrightarrow> file_at w (ArtifactFile t' i) = Some y \<Longrightarrow> t = t'"
  using assms unfolding store_inv_def by blast+

lemma filter_key:
  "distinct (map fst xs) \<Longrightarrow>
     filter (\<lambda>(p, t). p = q) xs = (case map_of xs q of None \<Rightarrow> [] | Some t \<Rightarrow> [(q, t)])"
proof (induction xs)
  case (Cons x xs)
  then show ?case by (cases x) (auto split: option.splits dest: map_of_SomeD simp: rev_image_eqI)
qed simp

lemma artifact_matches_one:
  assumes inv: "store_inv H w" and at: "file_at w (ArtifactFile t i) = Some body"
  shows "artifact_matches w i = [body]"
proof -
  have same: "t' = t" if "(ArtifactFile t' i, x) \<in> set (fs w)" for t' x
    using that store_invD(4) [OF inv _ at] store_invD(2) [OF inv] by (simp add: file_at_def)
  have "filter (\<lambda>(p, x). case p of ArtifactFile _ a \<Rightarrow> a = i | _ \<Rightarrow> False) (fs w) =
      filter (\<lambda>(p, x). p = ArtifactFile t i) (fs w)"
  proof (rule filter_cong [OF refl], clarify)
    fix p x assume "(p, x) \<in> set (fs w)"
    then have "p = ArtifactFile t' i \<Longrightarrow> t' = t" for t' using same [of t' x] by simp
    then show "(case p of ArtifactFile _ a \<Rightarrow> a = i | _ \<Rightarrow> False) = (p = ArtifactFile t i)"
      by (simp split: path.splits) blast
  qed
  then show ?thesis
    using filter_key [OF store_invD(2) [OF inv], of "ArtifactFile t i"] at
    by (simp add: artifact_matches_def file_at_def)
qed

lemma artifact_matches_none:
  assumes "\<And>t. file_at w (ArtifactFile t i) = None"
  shows "artifact_matches w i = []"
proof -
  have "\<not> (case p of ArtifactFile _ a \<Rightarrow> a = i | _ \<Rightarrow> False)" if "(p, x) \<in> set (fs w)" for p x
  proof -
    have "map_of (fs w) p \<noteq> None" by (metis map_of_eq_None_iff fst_conv imageI that)
    then show ?thesis using assms by (auto simp: file_at_def split: path.splits)
  qed
  then show ?thesis by (auto simp: artifact_matches_def filter_empty_conv)
qed

lemma stored_artifact_at:
  assumes inv: "store_inv H w" and at: "file_at w (ArtifactFile t i) = Some body"
  obtains b where "stored_artifact H w i = Some b" "body = dump_envelope H b" "env_task_id b = t"
    "artifact_id b = i"
proof -
  obtain b where b: "body = dump_envelope H b" "valid_artifact (plat H) b" "env_task_id b = t"
      "artifact_id b = i"
    using store_invD(3) [OF inv at] by blast
  obtain m where "validate_payload (plat H) b = Inr m" using b(2) by (auto simp: valid_artifact_def)
  moreover have "load_envelope H (dump_envelope H b) = Some b"
    using store_invD(1) [OF inv] by (simp add: host_ok_def)
  ultimately have "read_artifact H w i = Inr b"
    using artifact_matches_one [OF inv at] b(1) by (simp add: read_artifact_def parse_envelope_def)
  then show thesis using b by (intro that [of b]) (simp_all add: stored_artifact_def)
qed

lemma stored_artifact_Some:
  assumes inv: "store_inv H w"
  shows "stored_artifact H w i = Some a \<longleftrightarrow>
    artifact_id a = i \<and> file_at w (ArtifactFile (env_task_id a) i) = Some (dump_envelope H a)"
proof
  show "artifact_id a = i \<and> file_at w (ArtifactFile (env_task_id a) i) = Some (dump_envelope H a)"
    if s: "stored_artifact H w i = Some a"
  proof -
    obtain t body where at: "file_at w (ArtifactFile t i) = Some body"
    proof (cases "\<exists>t. file_at w (ArtifactFile t i) \<noteq> None")
      case False
      then have "artifact_matches w i = []" by (intro artifact_matches_none) simp
      then show ?thesis using s by (simp add: stored_artifact_def read_artifact_def)
    qed (use that in auto)
    show ?thesis using stored_artifact_at [OF inv at] s at by auto
  qed
  show "stored_artifact H w i = Some a"
    if "artifact_id a = i \<and> file_at w (ArtifactFile (env_task_id a) i) = Some (dump_envelope H a)"
    using that store_invD(1) [OF inv] by (metis host_ok_def option.inject stored_artifact_at [OF inv])
qed

lemma stored_artifact_None:
  assumes inv: "store_inv H w"
  shows "stored_artifact H w i = None \<longleftrightarrow> (\<forall>t. file_at w (ArtifactFile t i) = None)"
proof
  assume none: "stored_artifact H w i = None"
  show "\<forall>t. file_at w (ArtifactFile t i) = None"
  proof (rule ccontr)
    assume "\<not> (\<forall>t. file_at w (ArtifactFile t i) = None)"
    then obtain t body where at: "file_at w (ArtifactFile t i) = Some body" by auto
    then show False
      using store_invD(3) [OF inv at] none stored_artifact_Some [OF inv, of i] by fastforce
  qed
next
  assume "\<forall>t. file_at w (ArtifactFile t i) = None"
  then show "stored_artifact H w i = None"
    using stored_artifact_Some [OF inv, of i] by (metis option.distinct(1) option.exhaust)
qed

lemma distinct_write_via_tmp:
  "distinct (map fst (fs w)) \<Longrightarrow> distinct (map fst (fs (write_via_tmp tmp p t w)))"
  by (simp add: write_via_tmp_def write_text_def replace_file_def distinct_update distinct_delete
      split: option.splits)

lemma store_inv_write_other:
  assumes "store_inv H w" "\<And>t i. p \<noteq> ArtifactFile t i" "\<And>t i. tmp \<noteq> ArtifactFile t i" "tmp \<noteq> p"
  shows "store_inv H (write_via_tmp tmp p x w)"
proof -
  have "file_at (write_via_tmp tmp p x w) (ArtifactFile t i) = file_at w (ArtifactFile t i)" for t i
    using assms(2) [of t i] assms(3) [of t i] assms(4) by (metis file_at_write_via_tmp)
  then show ?thesis
    using assms(1) distinct_write_via_tmp [of w] unfolding store_inv_def by presburger
qed

lemma stored_artifact_cong:
  assumes "store_inv H w" "store_inv H w'"
    and "\<And>t i. file_at w' (ArtifactFile t i) = file_at w (ArtifactFile t i)"
  shows "stored_artifact H w' = stored_artifact H w"
proof
  fix i
  show "stored_artifact H w' i = stored_artifact H w i"
    using stored_artifact_Some [OF assms(1), of i] stored_artifact_Some [OF assms(2), of i] assms(3)
    by (metis option.exhaust)
qed

definition put_state :: "host \<Rightarrow> envelope \<Rightarrow> world \<Rightarrow> world" where
  "put_state H a w = write_via_tmp (ArtifactTmp (env_task_id a) (artifact_id a))
     (ArtifactFile (env_task_id a) (artifact_id a)) (dump_envelope H a) w"

lemma put_artifact_cases:
  "put_artifact H a w =
     (case validate_payload (plat H) a of
        Inl e \<Rightarrow> (Inl e, w)
      | Inr _ \<Rightarrow>
          (case file_at w (ArtifactFile (env_task_id a) (artifact_id a)) of
             None \<Rightarrow> (Inr (), put_state H a w)
           | Some old \<Rightarrow>
               if old = dump_envelope H a then (Inr (), w)
               else (Inl (Exc RuntimeErrorC (''Immutable artifact already exists: '' @ artifact_id a)), w)))"
  by (simp add: put_artifact_def thn_def bnd_def put_state_def Let_def split: sum.splits option.splits)

lemma put_state_inv:
  assumes inv: "store_inv H w" and v: "valid_artifact (plat H) a" and ad: "admits_artifact w a"
  shows "store_inv H (put_state H a w)"
  unfolding store_inv_def
proof (intro conjI allI impI)
  show "host_ok H" "distinct (map fst (fs (put_state H a w)))"
    using store_invD [OF inv] by (simp_all add: put_state_def distinct_write_via_tmp)
next
  fix t i body assume "file_at (put_state H a w) (ArtifactFile t i) = Some body"
  then show "\<exists>a. body = dump_envelope H a \<and> valid_artifact (plat H) a \<and> env_task_id a = t \<and> artifact_id a = i"
    using store_invD(3) [OF inv] v by (auto simp: put_state_def split: if_splits)
next
  fix t t' i
  assume "file_at (put_state H a w) (ArtifactFile t i) \<noteq> None \<and>
    file_at (put_state H a w) (ArtifactFile t' i) \<noteq> None"
  then show "t = t'"
    using store_invD(4) [OF inv] ad
    by (auto simp: put_state_def admits_artifact_def split: if_splits)
qed

lemma put_state_stored:
  assumes inv: "store_inv H w" and v: "valid_artifact (plat H) a" and ad: "admits_artifact w a"
    and none: "file_at w (ArtifactFile (env_task_id a) (artifact_id a)) = None"
  shows "stored_artifact H (put_state H a w) = (stored_artifact H w)(artifact_id a \<mapsto> a)"
proof
  fix i
  note inv' = put_state_inv [OF inv v ad]
  show "stored_artifact H (put_state H a w) i = ((stored_artifact H w)(artifact_id a \<mapsto> a)) i"
  proof (cases "i = artifact_id a")
    case True
    then show ?thesis using stored_artifact_Some [OF inv', of i a] by (simp add: put_state_def)
  next
    case False
    then have "file_at (put_state H a w) (ArtifactFile t i) = file_at w (ArtifactFile t i)" for t
      by (simp add: put_state_def)
    then show ?thesis
      using False stored_artifact_Some [OF inv', of i] stored_artifact_Some [OF inv, of i]
      by (metis fun_upd_other option.exhaust)
  qed
qed

interpretation file_store:
  artifact_store "put_artifact H" "get_artifact H" "stored_artifact H" "store_inv H"
    "valid_artifact (plat H)" admits_artifact for H
proof
  fix a w assume "\<not> valid_artifact (plat H) a"
  then show "\<exists>e. put_artifact H a w = (Inl e, w)"
    by (auto simp: valid_artifact_def put_artifact_cases split: sum.splits)
next
  fix w a assume A: "store_inv H w" "valid_artifact (plat H) a" "admits_artifact w a"
    "stored_artifact H w (artifact_id a) = None"
  then have none: "file_at w (ArtifactFile (env_task_id a) (artifact_id a)) = None"
    using stored_artifact_None by blast
  then have "put_artifact H a w = (Inr (), put_state H a w)"
    using A(2) by (auto simp: valid_artifact_def put_artifact_cases)
  then show "\<exists>w'. put_artifact H a w = (Inr (), w') \<and> store_inv H w' \<and>
      stored_artifact H w' = (stored_artifact H w)(artifact_id a \<mapsto> a)"
    using put_state_inv [OF A(1-3)] put_state_stored [OF A(1-3) none] by blast
next
  fix w a assume A: "store_inv H w" "valid_artifact (plat H) a" "stored_artifact H w (artifact_id a) = Some a"
  then show "put_artifact H a w = (Inr (), w)"
    using stored_artifact_Some [OF A(1)] by (auto simp: valid_artifact_def put_artifact_cases)
next
  fix w a b assume A: "store_inv H w" "valid_artifact (plat H) a" "admits_artifact w a"
    "stored_artifact H w (artifact_id a) = Some b" "b \<noteq> a"
  have b: "artifact_id b = artifact_id a"
    "file_at w (ArtifactFile (env_task_id b) (artifact_id a)) = Some (dump_envelope H b)"
    using stored_artifact_Some [OF A(1)] A(4) by auto
  then have "env_task_id b = env_task_id a" using A(3) by (auto simp: admits_artifact_def)
  moreover have "dump_envelope H b \<noteq> dump_envelope H a"
    using store_invD(1) [OF A(1)] A(5) by (metis host_ok_def option.inject)
  ultimately show "\<exists>e. put_artifact H a w = (Inl e, w)"
    using A(2) b by (auto simp: valid_artifact_def put_artifact_cases)
next
  fix w a b w' assume A: "admits_artifact w b" "env_task_id a = env_task_id b"
    "put_artifact H a w = (Inr (), w')"
  then show "admits_artifact w' b"
    by (auto simp: put_artifact_cases put_state_def admits_artifact_def split: sum.splits option.splits if_splits)
next
  fix w i a assume "stored_artifact H w i = Some a"
  then show "get_artifact H i w = (Inr a, w)"
    by (auto simp: get_artifact_def stored_artifact_def split: sum.splits)
next
  fix w i assume "stored_artifact H w i = None"
  then show "\<exists>e. get_artifact H i w = (Inl e, w)"
    by (auto simp: get_artifact_def stored_artifact_def split: sum.splits)
qed

section \<open>Checkpoints\<close>

text \<open>\<open>CheckpointStore.save\<close>: write the text next to the checkpoint, then rename.\<close>

definition save_checkpoint :: "host \<Rightarrow> runtime_state \<Rightarrow> (world, unit) io" where
  "save_checkpoint H st =
     update_w (write_via_tmp (CheckpointTmp (task_id st)) (CheckpointFile (task_id st)) (dump_state H st))"

text \<open>\<open>CheckpointStore.load\<close>.\<close>

definition read_checkpoint ::
  "host \<Rightarrow> world \<Rightarrow> string \<Rightarrow> string \<Rightarrow> string \<Rightarrow> bool \<Rightarrow> runtime_state option res" where
  "read_checkpoint H w task ghash chash allow_drift =
     (case file_at w (CheckpointFile task) of
        None \<Rightarrow> Inr None
      | Some t \<Rightarrow>
          rbind (from_option (Exc ValidationErrorC ''RuntimeState'') (load_state H t)) (\<lambda>st.
            let drift = (graph_hash st \<noteq> ghash \<or> contract_hash st \<noteq> chash)
            in if drift \<and> \<not> allow_drift
               then Inl (Exc CheckpointDriftErrorC (''Checkpoint config drift for '' @ task
                      @ ''; use --allow-config-drift explicitly''))
               else Inr (Some st)))"

definition load_checkpoint ::
  "host \<Rightarrow> string \<Rightarrow> string \<Rightarrow> string \<Rightarrow> bool \<Rightarrow> (world, runtime_state option) io" where
  "load_checkpoint H task ghash chash allow_drift =
     (\<lambda>w. (read_checkpoint H w task ghash chash allow_drift, w))"

text \<open>
  The worlds a crash during \<open>save\<close> can leave behind: nothing written yet, any part of the
  temporary file written, or the rename done.
\<close>

definition save_crash :: "host \<Rightarrow> runtime_state \<Rightarrow> world \<Rightarrow> world \<Rightarrow> bool" where
  "save_crash H st w w' \<longleftrightarrow>
     w' = w \<or> (\<exists>n. w' = write_text (CheckpointTmp (task_id st)) (take n (dump_state H st)) w)
     \<or> w' = snd (save_checkpoint H st w)"

lemma file_at_save [simp]:
  "file_at (snd (save_checkpoint H st w)) (CheckpointFile t) =
     (if t = task_id st then Some (dump_state H st) else file_at w (CheckpointFile t))"
  by (simp add: save_checkpoint_def)

lemma read_after_save:
  "host_ok H \<Longrightarrow> finite_edges st \<Longrightarrow>
     read_checkpoint H (snd (save_checkpoint H st w)) (task_id st) (graph_hash st) (contract_hash st) a
     = Inr (Some st)"
  by (simp add: read_checkpoint_def host_ok_def)

lemma read_checkpoint_cong:
  "file_at w' (CheckpointFile t) = file_at w (CheckpointFile t) \<Longrightarrow>
     read_checkpoint H w' t g c a = read_checkpoint H w t g c a"
  by (simp add: read_checkpoint_def)

lemma read_checkpoint_hashes:
  "read_checkpoint H w t g c False = Inr (Some st) \<Longrightarrow> graph_hash st = g \<and> contract_hash st = c"
  by (auto simp: read_checkpoint_def res_simps Let_def split: option.splits if_splits)

section \<open>The event log\<close>

definition append_event :: "event \<Rightarrow> (world, unit) io" where
  "append_event e = update_w (\<lambda>w. w\<lparr>log := log w @ [e]\<rparr>)"

lemma append_event_apply [simp]: "append_event e w = (Inr (), w\<lparr>log := log w @ [e]\<rparr>)"
  by (simp add: append_event_def)

lemma file_at_log [simp]: "file_at (w\<lparr>log := l\<rparr>) p = file_at w p"
  by (simp add: file_at_def)

section \<open>What no operation takes back\<close>

text \<open>A stored artifact keeps its text; the log only grows.\<close>

definition artifacts_le :: "world \<Rightarrow> world \<Rightarrow> bool" where
  "artifacts_le w w' \<longleftrightarrow>
     (\<forall>t i x. file_at w (ArtifactFile t i) = Some x \<longrightarrow> file_at w' (ArtifactFile t i) = Some x)"

definition log_le :: "world \<Rightarrow> world \<Rightarrow> bool" where
  "log_le w w' \<longleftrightarrow> (\<exists>es. log w' = log w @ es)"

interpretation immutable: world_order artifacts_le
  by unfold_locales (auto simp: artifacts_le_def)

interpretation append_only: world_order log_le
  by unfold_locales (auto simp: log_le_def)

lemma put_immutable: "immutable.keeps (put_artifact H a)"
  by (auto simp: immutable.keeps_def put_artifact_cases put_state_def artifacts_le_def
      split: sum.splits option.splits if_splits)

lemma put_append_only: "append_only.keeps (put_artifact H a)"
  by (auto simp: append_only.keeps_def put_artifact_cases put_state_def log_le_def
      split: sum.splits option.splits if_splits)

lemma get_immutable: "immutable.keeps (get_artifact H i)"
  by (auto simp: immutable.keeps_def get_artifact_def immutable.le_refl)

lemma get_append_only: "append_only.keeps (get_artifact H i)"
  by (auto simp: append_only.keeps_def get_artifact_def append_only.le_refl)

lemma save_immutable: "immutable.keeps (save_checkpoint H st)"
  by (auto simp: immutable.keeps_def save_checkpoint_def artifacts_le_def)

lemma save_append_only: "append_only.keeps (save_checkpoint H st)"
  by (auto simp: append_only.keeps_def save_checkpoint_def log_le_def)

lemma load_immutable: "immutable.keeps (load_checkpoint H t g c a)"
  by (auto simp: immutable.keeps_def load_checkpoint_def immutable.le_refl)

lemma load_append_only: "append_only.keeps (load_checkpoint H t g c a)"
  by (auto simp: append_only.keeps_def load_checkpoint_def append_only.le_refl)

lemma append_immutable: "immutable.keeps (append_event e)"
  by (auto simp: immutable.keeps_def artifacts_le_def)

lemma append_append_only: "append_only.keeps (append_event e)"
  by (auto simp: append_only.keeps_def log_le_def)

lemmas storage_keeps [intro] =
  put_immutable put_append_only get_immutable get_append_only save_immutable save_append_only
  load_immutable load_append_only append_immutable append_append_only

text \<open>Neither the log nor a checkpoint matters to the artifact store.\<close>

lemma store_inv_cong:
  assumes "store_inv H w" "distinct (map fst (fs w'))"
    "\<And>t i. file_at w' (ArtifactFile t i) = file_at w (ArtifactFile t i)"
  shows "store_inv H w'"
  using assms unfolding store_inv_def by presburger

lemma store_inv_log [simp]: "store_inv H (w\<lparr>log := l\<rparr>) = store_inv H w"
  by (simp add: store_inv_def)

lemma stored_artifact_log [simp]: "stored_artifact H (w\<lparr>log := l\<rparr>) = stored_artifact H w"
  by (simp add: fun_eq_iff stored_artifact_def read_artifact_def artifact_matches_def)

lemma store_inv_save: "store_inv H w \<Longrightarrow> store_inv H (snd (save_checkpoint H st w))"
  by (simp add: save_checkpoint_def store_inv_write_other)

lemma stored_artifact_save:
  "store_inv H w \<Longrightarrow> stored_artifact H (snd (save_checkpoint H st w)) = stored_artifact H w"
  by (rule stored_artifact_cong [OF _ store_inv_save]) (simp_all add: save_checkpoint_def)

lemma admits_log [simp]: "admits_artifact (w\<lparr>log := l\<rparr>) a = admits_artifact w a"
  by (simp add: admits_artifact_def)

lemma admits_save [simp]: "admits_artifact (snd (save_checkpoint H st w)) a = admits_artifact w a"
  by (simp add: admits_artifact_def save_checkpoint_def)

end
