(* ===== verification/Scheduler.thy ===== *)
theory Scheduler
  imports Storage
begin

text \<open>
  \<open>Scheduler\<close> (\<open>runtime/scheduler.py\<close>): which inputs of a node are resolved, which nodes
  may start, which can never start. A read of \<open>node_status\<close> is a dictionary index and
  raises \<open>KeyError\<close> for a node the state does not know (a checkpoint resumed under
  another graph).
\<close>

section \<open>Resolving inputs\<close>

definition incoming :: "orchestra_graph \<Rightarrow> string \<Rightarrow> string \<Rightarrow> edge_spec list" where
  "incoming g nid slot =
     filter (\<lambda>e. destination_node e = nid \<and> destination_input e = slot) (edges g)"

text \<open>The artifact an edge carries: it must be active and its source must have produced one.\<close>

definition edge_artifact :: "runtime_state \<Rightarrow> edge_spec \<Rightarrow> string option" where
  "edge_artifact st e =
     (if edge_id e \<notin> active_edges st then None
      else (case dget (node_outputs st) (source_node e) of
              None \<Rightarrow> None
            | Some outs \<Rightarrow>
                (case dget outs (source_output e) of
                   None \<Rightarrow> None
                 | Some aid \<Rightarrow> if aid = [] then None else Some aid)))"

fun first_artifact :: "runtime_state \<Rightarrow> edge_spec list \<Rightarrow> string option" where
  "first_artifact st [] = None"
| "first_artifact st (e # es) =
     (case edge_artifact st e of None \<Rightarrow> first_artifact st es | Some aid \<Rightarrow> Some aid)"

text \<open>An initial artifact of the slot's name takes precedence over every edge.\<close>

definition resolve_slot :: "orchestra_graph \<Rightarrow> runtime_state \<Rightarrow> string \<Rightarrow> string \<Rightarrow> string option" where
  "resolve_slot g st nid slot =
     (case dget (initial_artifacts st) slot of
        Some aid \<Rightarrow> Some aid
      | None \<Rightarrow> first_artifact st (incoming g nid slot))"

definition resolve_slots :: "orchestra_graph \<Rightarrow> runtime_state \<Rightarrow> node_spec \<Rightarrow> string \<Rightarrow> string dict" where
  "resolve_slots g st n nid =
     dict_of (concat (map (\<lambda>slot. case resolve_slot g st nid slot of
       None \<Rightarrow> [] | Some aid \<Rightarrow> [(slot, aid)]) (dkeys (input_slots n))))"

definition resolve_input_ids :: "orchestra_graph \<Rightarrow> runtime_state \<Rightarrow> string \<Rightarrow> string dict res" where
  "resolve_input_ids g st nid =
     (case find_node g nid of
        None \<Rightarrow> Inl (Exc StopIterationC [])
      | Some n \<Rightarrow> Inr (resolve_slots g st n nid))"

section \<open>Ready and impossible nodes\<close>

definition node_ready :: "orchestra_graph \<Rightarrow> runtime_state \<Rightarrow> node_spec \<Rightarrow> bool res" where
  "node_ready g st n =
     rbind (dindex (node_status st) (node_id n)) (\<lambda>s.
       if s \<noteq> Pending then Inr False
       else rbind (resolve_input_ids g st (node_id n)) (\<lambda>resolved.
         Inr (set (dkeys resolved) = set (dkeys (input_slots n)))))"

definition find_ready_nodes :: "int \<Rightarrow> orchestra_graph \<Rightarrow> runtime_state \<Rightarrow> string list res" where
  "find_ready_nodes max_parallel g st =
     rbind (rfilter (node_ready g st) (sort_key node_id (nodes g))) (\<lambda>ready.
       Inr (py_prefix max_parallel (map node_id ready)))"

definition dead_status :: "node_status \<Rightarrow> bool" where
  "dead_status s \<longleftrightarrow> s \<in> {Failed, Skipped, Cancelled}"

definition edge_dead :: "runtime_state \<Rightarrow> edge_spec \<Rightarrow> bool res" where
  "edge_dead st e =
     (if edge_id e \<in> inactive_edges st then Inr True
      else rbind (dindex (node_status st) (source_node e)) (\<lambda>s. Inr (dead_status s)))"

definition slot_impossible :: "orchestra_graph \<Rightarrow> runtime_state \<Rightarrow> string \<Rightarrow> string \<Rightarrow> bool res" where
  "slot_impossible g st nid slot =
     (if dget (initial_artifacts st) slot \<noteq> None then Inr False
      else if incoming g nid slot = [] then Inr False
      else rall (edge_dead st) (incoming g nid slot))"

definition node_impossible :: "orchestra_graph \<Rightarrow> runtime_state \<Rightarrow> node_spec \<Rightarrow> bool res" where
  "node_impossible g st n =
     rbind (dindex (node_status st) (node_id n)) (\<lambda>s.
       if s \<noteq> Pending then Inr False
       else rany (slot_impossible g st (node_id n)) (dkeys (input_slots n)))"

definition impossible_nodes :: "orchestra_graph \<Rightarrow> runtime_state \<Rightarrow> string list res" where
  "impossible_nodes g st =
     rbind (rfilter (node_impossible g st) (nodes g)) (\<lambda>ns. Inr (map node_id ns))"

definition can_finalize :: "runtime_state \<Rightarrow> bool" where
  "can_finalize st \<longleftrightarrow> final_output_artifact_id st \<noteq> None"

section \<open>What is resolved\<close>

lemma first_artifact_Some:
  "first_artifact st es = Some aid \<Longrightarrow> \<exists>e \<in> set es. edge_artifact st e = Some aid"
  by (induction es) (auto split: option.splits)

lemma first_artifact_None: "first_artifact st es = None \<longleftrightarrow> (\<forall>e \<in> set es. edge_artifact st e = None)"
  by (induction es) (auto split: option.splits)

lemma edge_artifact_Some:
  "edge_artifact st e = Some aid \<longleftrightarrow>
     edge_id e \<in> active_edges st \<and> aid \<noteq> [] \<and>
     (\<exists>outs. dget (node_outputs st) (source_node e) = Some outs \<and> dget outs (source_output e) = Some aid)"
  by (auto simp: edge_artifact_def split: option.splits)

lemma set_dict_of_keys: "set (dkeys (dict_of kvs)) = set (map fst kvs)"
proof -
  have "set (dkeys (fold (\<lambda>(k, v). dset k v) kvs d)) = set (dkeys d) \<union> set (map fst kvs)" for d
  proof (induction kvs arbitrary: d)
    case (Cons kv kvs)
    show ?case using Cons.IH [of "dset (fst kv) (snd kv) d"] dkeys_dset [of "fst kv" "snd kv" d]
      by (simp add: case_prod_beta)
  qed simp
  then show ?thesis by (simp add: dict_of_def)
qed

lemma dict_of_lookup:
  "\<forall>(k, v) \<in> set kvs. f k = Some v \<Longrightarrow> dget (dict_of kvs) k = (if k \<in> set (map fst kvs) then f k else None)"
proof -
  assume f: "\<forall>(k, v) \<in> set kvs. f k = Some v"
  have "dget (fold (\<lambda>(k, v). dset k v) kvs d) k = (if k \<in> set (map fst kvs) then f k else dget d k)" for d
    using f by (induction kvs arbitrary: d) (auto simp: dget_dset)
  then show ?thesis by (simp add: dict_of_def)
qed

lemma pick_keys:
  "set (map fst (concat (map (\<lambda>s. case f s of None \<Rightarrow> [] | Some a \<Rightarrow> [(s, a)]) ks))) =
     {s \<in> set ks. f s \<noteq> None}"
proof (induction ks)
  case (Cons k ks)
  then show ?case by (cases "f k") auto
qed simp

lemma pick_values:
  "\<forall>(k, v) \<in> set (concat (map (\<lambda>s. case f s of None \<Rightarrow> [] | Some a \<Rightarrow> [(s, a)]) ks)). f k = Some v"
proof (induction ks)
  case (Cons k ks)
  then show ?case by (cases "f k") auto
qed simp

lemma resolve_slots_lookup:
  "dget (resolve_slots g st n nid) slot =
     (if slot \<in> set (dkeys (input_slots n)) then resolve_slot g st nid slot else None)"
proof -
  let ?kvs = "concat (map (\<lambda>slot. case resolve_slot g st nid slot of
       None \<Rightarrow> [] | Some aid \<Rightarrow> [(slot, aid)]) (dkeys (input_slots n)))"
  have f: "\<forall>(k, v) \<in> set ?kvs. resolve_slot g st nid k = Some v"
    by (rule pick_values)
  show ?thesis
    unfolding resolve_slots_def dict_of_lookup [OF f] pick_keys
    by (cases "resolve_slot g st nid slot") simp_all
qed

lemma resolve_slots_keys:
  "set (dkeys (resolve_slots g st n nid)) =
     {s \<in> set (dkeys (input_slots n)). resolve_slot g st nid s \<noteq> None}"
proof -
  have "s \<in> set (dkeys (resolve_slots g st n nid)) \<longleftrightarrow> dget (resolve_slots g st n nid) s \<noteq> None" for s
    by (simp add: map_of_eq_None_iff)
  then show ?thesis unfolding set_eq_iff by (simp add: resolve_slots_lookup)
qed

lemma resolved_all:
  "set (dkeys (resolve_slots g st n nid)) = set (dkeys (input_slots n)) \<longleftrightarrow>
     (\<forall>slot \<in> set (dkeys (input_slots n)). resolve_slot g st nid slot \<noteq> None)"
  unfolding resolve_slots_keys by blast

section \<open>What is selected\<close>

lemma node_ready_True:
  assumes "distinct (node_ids g)" "n \<in> set (nodes g)"
  shows "node_ready g st n = Inr True \<longleftrightarrow>
    dget (node_status st) (node_id n) = Some Pending
    \<and> (\<forall>slot \<in> set (dkeys (input_slots n)). resolve_slot g st (node_id n) slot \<noteq> None)"
  using find_node_distinct [OF assms]
  by (simp add: node_ready_def res_simps resolve_input_ids_def resolved_all del: set_map)

lemma node_ready_total:
  assumes "distinct (node_ids g)" "n \<in> set (nodes g)" "dget (node_status st) (node_id n) \<noteq> None"
  shows "\<exists>b. node_ready g st n = Inr b"
  using find_node_distinct [OF assms(1,2)] assms(3)
  by (auto simp: node_ready_def resolve_input_ids_def dindex_def)

lemma find_ready_nodes_Inr:
  assumes "find_ready_nodes m g st = Inr ready"
  obtains all where "rfilter (node_ready g st) (sort_key node_id (nodes g)) = Inr all"
    "ready = py_prefix m (map node_id all)"
  using assms by (auto simp: find_ready_nodes_def res_simps)

lemma rfilter_sorted: "rfilter p xs = Inr ys \<Longrightarrow> sorted (map f xs) \<Longrightarrow> sorted (map f ys)"
proof (induction xs arbitrary: ys)
  case (Cons x xs)
  then obtain b zs where zs: "rfilter p xs = Inr zs" "ys = (if b then x # zs else zs)"
    by (auto simp: res_simps)
  then show ?case using Cons rfilter_set [OF zs(1)] by auto
qed simp

lemma py_prefix_sorted: "sorted xs \<Longrightarrow> sorted (py_prefix n xs)"
  by (simp add: py_prefix_def sorted_wrt_take)

lemma ready_distinct:
  assumes "distinct (node_ids g)" "find_ready_nodes m g st = Inr ready"
  shows "distinct ready" "sorted ready"
proof -
  obtain all where all: "rfilter (node_ready g st) (sort_key node_id (nodes g)) = Inr all"
    "ready = py_prefix m (map node_id all)"
    using find_ready_nodes_Inr [OF assms(2)] .
  have sd: "sorted (map node_id (sort_key node_id (nodes g)))" by simp
  have ds: "distinct (map node_id (sort_key node_id (nodes g)))"
    using assms(1) by (simp add: node_ids_def distinct_map)
  have sub: "set all \<subseteq> set (nodes g)" using rfilter_set [OF all(1)] by auto
  moreover have "distinct all"
    using rfilter_subseq_distinct [OF all(1)] ds distinct_map by blast
  ultimately have "distinct (map node_id all)"
    using assms(1) by (auto simp: node_ids_def distinct_map intro: inj_on_subset)
  then show "distinct ready" by (simp add: all(2) py_prefix_distinct)
  show "sorted ready" using rfilter_sorted [OF all(1) sd] by (simp add: all(2) py_prefix_sorted)
qed

lemma ready_memberD:
  assumes "distinct (node_ids g)" "find_ready_nodes m g st = Inr ready" "nid \<in> set ready"
  obtains n where "n \<in> set (nodes g)" "node_id n = nid"
    "dget (node_status st) nid = Some Pending"
    "\<forall>slot \<in> set (dkeys (input_slots n)). resolve_slot g st nid slot \<noteq> None"
proof -
  obtain all where all: "rfilter (node_ready g st) (sort_key node_id (nodes g)) = Inr all"
    "ready = py_prefix m (map node_id all)"
    using find_ready_nodes_Inr [OF assms(2)] .
  then obtain n where "n \<in> set all" "node_id n = nid"
    using assms(3) py_prefix_subset [of m "map node_id all"] by auto
  moreover from this have "n \<in> set (nodes g)" "node_ready g st n = Inr True"
    using rfilter_set [OF all(1)] by auto
  ultimately show thesis using node_ready_True [OF assms(1)] that by blast
qed

lemma ready_empty:
  assumes "distinct (node_ids g)" "find_ready_nodes m g st = Inr []" "0 < m" "n \<in> set (nodes g)"
    "dget (node_status st) (node_id n) = Some Pending"
  shows "\<exists>slot \<in> set (dkeys (input_slots n)). resolve_slot g st (node_id n) slot = None"
proof -
  obtain all where all: "rfilter (node_ready g st) (sort_key node_id (nodes g)) = Inr all"
    "[] = py_prefix m (map node_id all)"
    using find_ready_nodes_Inr [OF assms(2)] .
  then have "all = []" using assms(3) by (simp add: py_prefix_def)
  then have "{x \<in> set (nodes g). node_ready g st x = Inr True} = {}"
    using rfilter_set [OF all(1)] by simp
  then have "node_ready g st n \<noteq> Inr True" using assms(4) by blast
  then have "\<not> (\<forall>slot \<in> set (dkeys (input_slots n)). resolve_slot g st (node_id n) slot \<noteq> None)"
    unfolding node_ready_True [OF assms(1,4)] using assms(5) by simp
  then show ?thesis by simp
qed

lemma rany_TrueD: "rany p xs = Inr True \<Longrightarrow> \<exists>x \<in> set xs. p x = Inr True"
  by (induction xs) (auto simp: res_simps split: if_splits)

lemma edge_dead_True:
  "edge_dead st e = Inr True \<Longrightarrow>
     edge_id e \<in> inactive_edges st \<or> (\<exists>s. dget (node_status st) (source_node e) = Some s \<and> dead_status s)"
  by (auto simp: edge_dead_def res_simps split: if_splits)

text \<open>
  An impossible node is pending, and some input of it has incoming edges all of which are
  switched off or come from a node that ended without output.
\<close>

lemma impossible_memberD:
  assumes "impossible_nodes g st = Inr dead" "nid \<in> set dead"
  obtains n slot where "n \<in> set (nodes g)" "node_id n = nid"
    "dget (node_status st) nid = Some Pending" "slot \<in> set (dkeys (input_slots n))"
    "dget (initial_artifacts st) slot = None" "incoming g nid slot \<noteq> []"
    "\<forall>e \<in> set (incoming g nid slot). edge_id e \<in> inactive_edges st \<or>
       (\<exists>s. dget (node_status st) (source_node e) = Some s \<and> dead_status s)"
proof -
  obtain ns where ns: "rfilter (node_impossible g st) (nodes g) = Inr ns" "dead = map node_id ns"
    using assms(1) by (auto simp: impossible_nodes_def res_simps)
  then obtain n where n: "n \<in> set (nodes g)" "node_id n = nid" "node_impossible g st n = Inr True"
    using assms(2) rfilter_set [OF ns(1)] by auto
  then obtain slot where "dget (node_status st) nid = Some Pending" "slot \<in> set (dkeys (input_slots n))"
      "slot_impossible g st nid slot = Inr True"
    by (auto simp: node_impossible_def res_simps split: if_splits dest: rany_TrueD)
  with n show thesis
    by (intro that [of n slot])
      (auto simp: slot_impossible_def split: if_splits dest!: rall_TrueD edge_dead_True)
qed

lemma impossible_pending:
  "impossible_nodes g st = Inr dead \<Longrightarrow> nid \<in> set dead \<Longrightarrow> dget (node_status st) nid = Some Pending"
  by (metis impossible_memberD)

lemma impossible_known:
  "impossible_nodes g st = Inr dead \<Longrightarrow> set dead \<subseteq> set (node_ids g)"
  by (metis (no_types, lifting) image_eqI impossible_memberD list.set_map node_ids_def subsetI)

text \<open>No read fails when the state knows every node and every edge ends at one.\<close>

definition knows_nodes :: "orchestra_graph \<Rightarrow> runtime_state \<Rightarrow> bool" where
  "knows_nodes g st \<longleftrightarrow> set (dkeys (node_status st)) = set (node_ids g)"

lemma knows_lookup:
  "knows_nodes g st \<Longrightarrow> nid \<in> set (node_ids g) \<longleftrightarrow> (\<exists>s. dget (node_status st) nid = Some s)"
  by (metis knows_nodes_def list.set_map map_of_eq_None_iff not_None_eq)

lemma edge_dead_total:
  "knows_nodes g st \<Longrightarrow> source_node e \<in> set (node_ids g) \<Longrightarrow> \<exists>b. edge_dead st e = Inr b"
  by (auto simp: edge_dead_def dindex_def knows_lookup)

lemma rall_total: "(\<And>x. x \<in> set xs \<Longrightarrow> \<exists>b. p x = Inr b) \<Longrightarrow> \<exists>b. rall p xs = Inr b"
  by (induction xs) (auto, metis rbind.simps(2))

lemma rany_total: "(\<And>x. x \<in> set xs \<Longrightarrow> \<exists>b. p x = Inr b) \<Longrightarrow> \<exists>b. rany p xs = Inr b"
  by (induction xs) (auto, metis rbind.simps(2))

lemma rfilter_total: "(\<And>x. x \<in> set xs \<Longrightarrow> \<exists>b. p x = Inr b) \<Longrightarrow> \<exists>ys. rfilter p xs = Inr ys"
  by (induction xs) (auto, metis rbind.simps(2))

lemma impossible_total:
  assumes "knows_nodes g st" "\<forall>e \<in> set (edges g). source_node e \<in> set (node_ids g)"
  shows "\<exists>dead. impossible_nodes g st = Inr dead"
proof -
  have slot: "\<exists>b. slot_impossible g st nid slot = Inr b" for nid slot
    using assms rall_total [of "incoming g nid slot" "edge_dead st"] edge_dead_total [OF assms(1)]
    by (auto simp: slot_impossible_def incoming_def)
  have "\<exists>b. node_impossible g st n = Inr b" if "n \<in> set (nodes g)" for n
    using knows_lookup [OF assms(1), of "node_id n"] that
      rany_total [of "dkeys (input_slots n)" "slot_impossible g st (node_id n)"] slot
    by (auto simp: node_impossible_def dindex_def node_ids_def)
  then obtain ns where "rfilter (node_impossible g st) (nodes g) = Inr ns"
    using rfilter_total by blast
  then show ?thesis by (simp add: impossible_nodes_def)
qed

lemma find_ready_total:
  assumes "distinct (node_ids g)" "knows_nodes g st"
  shows "\<exists>ready. find_ready_nodes m g st = Inr ready"
proof -
  have "\<exists>b. node_ready g st n = Inr b" if "n \<in> set (sort_key node_id (nodes g))" for n
    using node_ready_total [OF assms(1), of n st] that knows_lookup [OF assms(2), of "node_id n"]
    by (auto simp: node_ids_def)
  then obtain ns where "rfilter (node_ready g st) (sort_key node_id (nodes g)) = Inr ns"
    using rfilter_total by blast
  then show ?thesis by (simp add: find_ready_nodes_def)
qed

section \<open>Exactly the impossible and the ready nodes\<close>

lemma rfilter_all: "rfilter p xs = Inr ys \<Longrightarrow> x \<in> set xs \<Longrightarrow> \<exists>b. p x = Inr b"
  by (induction xs arbitrary: ys) (auto simp: res_simps)

lemma rany_FalseD: "rany p xs = Inr False \<Longrightarrow> x \<in> set xs \<Longrightarrow> p x = Inr False"
  by (induction xs) (auto simp: res_simps split: if_splits)

lemma rall_FalseD: "rall p xs = Inr False \<Longrightarrow> \<exists>x \<in> set xs. p x = Inr False"
  by (induction xs) (auto simp: res_simps split: if_splits)

definition edge_is_dead :: "runtime_state \<Rightarrow> edge_spec \<Rightarrow> bool" where
  "edge_is_dead st e \<longleftrightarrow> edge_id e \<in> inactive_edges st
     \<or> (\<exists>s. dget (node_status st) (source_node e) = Some s \<and> dead_status s)"

lemma edge_dead_False: "edge_dead st e = Inr False \<Longrightarrow> \<not> edge_is_dead st e"
  by (auto simp: edge_dead_def edge_is_dead_def res_simps split: if_splits)

lemma impossible_iff:
  assumes "impossible_nodes g st = Inr dead"
  shows "nid \<in> set dead \<longleftrightarrow> (\<exists>n \<in> set (nodes g). node_id n = nid \<and> dget (node_status st) nid = Some Pending
    \<and> (\<exists>slot \<in> set (dkeys (input_slots n)). dget (initial_artifacts st) slot = None
        \<and> incoming g nid slot \<noteq> [] \<and> (\<forall>e \<in> set (incoming g nid slot). edge_is_dead st e)))"
proof
  assume "nid \<in> set dead"
  then show "\<exists>n \<in> set (nodes g). node_id n = nid \<and> dget (node_status st) nid = Some Pending
    \<and> (\<exists>slot \<in> set (dkeys (input_slots n)). dget (initial_artifacts st) slot = None
        \<and> incoming g nid slot \<noteq> [] \<and> (\<forall>e \<in> set (incoming g nid slot). edge_is_dead st e))"
    unfolding edge_is_dead_def by (rule impossible_memberD [OF assms]) blast
next
  assume "\<exists>n \<in> set (nodes g). node_id n = nid \<and> dget (node_status st) nid = Some Pending
    \<and> (\<exists>slot \<in> set (dkeys (input_slots n)). dget (initial_artifacts st) slot = None
        \<and> incoming g nid slot \<noteq> [] \<and> (\<forall>e \<in> set (incoming g nid slot). edge_is_dead st e))"
  then obtain n slot where n: "n \<in> set (nodes g)" "node_id n = nid" "dget (node_status st) nid = Some Pending"
    "slot \<in> set (dkeys (input_slots n))" "dget (initial_artifacts st) slot = None" "incoming g nid slot \<noteq> []"
    and alldead: "\<forall>e \<in> set (incoming g nid slot). edge_is_dead st e" by blast
  obtain ns where ns: "rfilter (node_impossible g st) (nodes g) = Inr ns" "dead = map node_id ns"
    using assms by (auto simp: impossible_nodes_def res_simps)
  obtain b where b: "node_impossible g st n = Inr b" using rfilter_all [OF ns(1) n(1)] by blast
  then have r: "rany (slot_impossible g st nid) (dkeys (input_slots n)) = Inr b"
    using n(2,3) by (simp add: node_impossible_def dindex_def)
  have b
  proof (rule ccontr)
    assume "\<not> b"
    then have "slot_impossible g st nid slot = Inr False" using rany_FalseD [OF _ n(4)] r by simp
    then have "rall (edge_dead st) (incoming g nid slot) = Inr False"
      using n(5,6) by (simp add: slot_impossible_def)
    then obtain e where "e \<in> set (incoming g nid slot)" "edge_dead st e = Inr False" using rall_FalseD by blast
    then show False using alldead edge_dead_False by blast
  qed
  then have "n \<in> set ns" using rfilter_set [OF ns(1)] n(1) b by simp
  then show "nid \<in> set dead" using ns(2) n(2) by auto
qed

lemma ready_complete:
  assumes "distinct (node_ids g)" "find_ready_nodes m g st = Inr ready" "0 \<le> m" "int (length ready) < m"
    and n: "n \<in> set (nodes g)" "dget (node_status st) (node_id n) = Some Pending"
      "\<forall>slot \<in> set (dkeys (input_slots n)). resolve_slot g st (node_id n) slot \<noteq> None"
  shows "node_id n \<in> set ready"
proof -
  obtain all where all: "rfilter (node_ready g st) (sort_key node_id (nodes g)) = Inr all"
    "ready = py_prefix m (map node_id all)"
    using find_ready_nodes_Inr [OF assms(2)] .
  have "ready = map node_id all"
    using assms(3,4) all(2) by (auto simp: py_prefix_def min_def split: if_splits)
  moreover have "n \<in> set all"
    using rfilter_set [OF all(1)] n node_ready_True [OF assms(1) n(1)] by simp
  ultimately show ?thesis by simp
qed

lemma ready_length: "find_ready_nodes m g st = Inr ready \<Longrightarrow> 0 \<le> m \<Longrightarrow> int (length ready) \<le> m"
  using py_prefix_length by (auto elim!: find_ready_nodes_Inr)

end
