(* ===== verification/Committer.thy ===== *)
theory Committer
  imports Scheduler "HOL-Library.Multiset"
begin

text \<open>
  \<open>WaveCommitter.commit_wave\<close> (\<open>runtime/committer.py\<close>): every output of the wave is
  stored first; only then are the results applied, in node order, to a copy of the state.
  An exception in either phase leaves the caller's state as it was.
\<close>

section \<open>Storing the outputs\<close>

definition wave_outputs :: "node_result list \<Rightarrow> envelope list" where
  "wave_outputs results = concat (map (\<lambda>r. if succeeded r then dvalues (outputs r) else []) results)"

text \<open>The body of the first loop: \<open>artifact.validate_payload()\<close> and \<open>put\<close>.\<close>

definition persist_artifact :: "host \<Rightarrow> envelope \<Rightarrow> (world, unit) io" where
  "persist_artifact H a = thn (lift (validate_payload (plat H) a)) (put_artifact H a)"

definition persist_result :: "host \<Rightarrow> node_result \<Rightarrow> (world, unit) io" where
  "persist_result H r =
     (if succeeded r then for_each (persist_artifact H) (dvalues (outputs r)) else ret ())"

definition persist_wave :: "host \<Rightarrow> node_result list \<Rightarrow> (world, unit) io" where
  "persist_wave H results = for_each (persist_result H) results"

section \<open>Applying one result\<close>

record commit =
  c_state :: runtime_state
  c_committed :: "string list"
  c_activated :: "string list"
  c_disabled :: "string list"

text \<open>The first artifact in the final slot freezes the graph.\<close>

definition freeze_slot :: "orchestra_graph \<Rightarrow> string \<times> envelope \<Rightarrow> runtime_state \<Rightarrow> runtime_state" where
  "freeze_slot g sa st =
     (if fst sa = final_output_slot g \<and> \<not> frozen st
      then st\<lparr>final_output_artifact_id := Some (artifact_id (snd sa)), frozen := True\<rparr> else st)"

text \<open>One edge of the inner loop: only conditional edges leaving the node are decided.\<close>

definition decide_edge :: "node_result \<Rightarrow> edge_spec \<Rightarrow> commit \<Rightarrow> commit res" where
  "decide_edge r e c =
     (case condition e of
        None \<Rightarrow> Inr c
      | Some cond \<Rightarrow>
          if source_node e \<noteq> res_node_id r then Inr c
          else
            rbind (case dget (outputs r) (source_output e) of
                     None \<Rightarrow> Inr False | Some a \<Rightarrow> evaluate cond (payload a)) (\<lambda>enabled.
            Inr (if enabled
                 then c\<lparr>c_state := (c_state c)\<lparr>active_edges := insert (edge_id e) (active_edges (c_state c))\<rparr>,
                        c_activated := c_activated c @ [edge_id e]\<rparr>
                 else c\<lparr>c_state := (c_state c)\<lparr>inactive_edges := insert (edge_id e) (inactive_edges (c_state c))\<rparr>,
                        c_disabled := c_disabled c @ [edge_id e]\<rparr>)))"

fun decide_edges :: "node_result \<Rightarrow> edge_spec list \<Rightarrow> commit \<Rightarrow> commit res" where
  "decide_edges r [] c = Inr c"
| "decide_edges r (e # es) c = rbind (decide_edge r e c) (decide_edges r es)"

definition output_ids :: "node_result \<Rightarrow> string dict" where
  "output_ids r = map (\<lambda>(slot, a). (slot, artifact_id a)) (outputs r)"

definition commit_result :: "orchestra_graph \<Rightarrow> node_result \<Rightarrow> commit \<Rightarrow> commit res" where
  "commit_result g r c =
     (let nid = res_node_id r;
          st = (c_state c)\<lparr>node_latencies_ms := dset nid (latency_ms r) (node_latencies_ms (c_state c))\<rparr>
      in if \<not> succeeded r
         then Inr (c\<lparr>c_state := st\<lparr>node_status := dset nid Failed (node_status st)\<rparr>\<rparr>)
         else
           (let st1 = st\<lparr>node_status := dset nid Succeeded (node_status st),
                        node_outputs := dset nid (output_ids r) (node_outputs st)\<rparr>;
                st2 = fold (freeze_slot g) (outputs r) st1
            in decide_edges r (edges g)
                 (c\<lparr>c_state := st2, c_committed := c_committed c @ dvalues (output_ids r)\<rparr>)))"

fun commit_results :: "orchestra_graph \<Rightarrow> node_result list \<Rightarrow> commit \<Rightarrow> commit res" where
  "commit_results g [] c = Inr c"
| "commit_results g (r # rs) c = rbind (commit_result g r c) (commit_results g rs)"

text \<open>\<open>for node_id in impossible_nodes(...): state.node_status[node_id] = SKIPPED\<close>.\<close>

definition skip_nodes :: "string list \<Rightarrow> runtime_state \<Rightarrow> runtime_state" where
  "skip_nodes ids st = st\<lparr>node_status := fold (\<lambda>n d. dset n Skipped d) ids (node_status st)\<rparr>"

definition apply_results ::
  "orchestra_graph \<Rightarrow> runtime_state \<Rightarrow> node_result list \<Rightarrow> commit res" where
  "apply_results g prev results =
     rbind (commit_results g (sort_key res_node_id results)
        \<lparr>c_state = prev, c_committed = [], c_activated = [], c_disabled = []\<rparr>) (\<lambda>c.
     rbind (impossible_nodes g (c_state c)) (\<lambda>dead.
       let st = skip_nodes dead (c_state c) in
       Inr (c\<lparr>c_state := st\<lparr>wave_id := wave_id st + 1, checkpoint_count := checkpoint_count st + 1\<rparr>\<rparr>)))"

definition commit_wave ::
  "host \<Rightarrow> orchestra_graph \<Rightarrow> runtime_state \<Rightarrow> node_result list \<Rightarrow> (world, commit) io" where
  "commit_wave H g prev results =
     thn (persist_wave H results) (lift (apply_results g prev results))"

section \<open>Fields a commit does not touch\<close>

definition same_run :: "runtime_state \<Rightarrow> runtime_state \<Rightarrow> bool" where
  "same_run st st' \<longleftrightarrow> run_id st' = run_id st \<and> task_id st' = task_id st \<and> st_graph_id st' = st_graph_id st
     \<and> graph_hash st' = graph_hash st \<and> contract_hash st' = contract_hash st
     \<and> initial_artifacts st' = initial_artifacts st"

lemma same_run_refl [simp]: "same_run st st"
  by (simp add: same_run_def)

lemma same_run_trans: "same_run a b \<Longrightarrow> same_run b c \<Longrightarrow> same_run a c"
  by (simp add: same_run_def)

text \<open>The edge loop writes the two edge sets and the two lists, nothing else.\<close>

definition core :: "runtime_state \<Rightarrow> runtime_state" where
  "core st = st\<lparr>active_edges := {}, inactive_edges := {}\<rparr>"

lemma decide_edge_core:
  "decide_edge r e c = Inr c' \<Longrightarrow> core (c_state c') = core (c_state c) \<and> c_committed c' = c_committed c"
  by (auto simp: decide_edge_def res_simps core_def split: option.splits if_splits)

lemma decide_edges_core:
  "decide_edges r es c = Inr c' \<Longrightarrow> core (c_state c') = core (c_state c) \<and> c_committed c' = c_committed c"
proof (induction es arbitrary: c)
  case (Cons e es)
  then show ?case using decide_edge_core by (fastforce simp: res_simps)
qed simp

lemma coreD:
  assumes "core a = core b"
  shows "node_status a = node_status b" "node_outputs a = node_outputs b" "frozen a = frozen b"
    "final_output_artifact_id a = final_output_artifact_id b" "same_run b a"
    "wave_id a = wave_id b" "checkpoint_count a = checkpoint_count b"
    "node_latencies_ms a = node_latencies_ms b"
  using assms by (cases a; cases b; simp add: core_def same_run_def)+

section \<open>The effect of one result\<close>

text \<open>The edges a successful result switches on and off.\<close>

definition edge_enabled :: "node_result \<Rightarrow> edge_spec \<Rightarrow> bool" where
  "edge_enabled r e \<longleftrightarrow>
     (\<exists>cond a. condition e = Some cond \<and> dget (outputs r) (source_output e) = Some a
        \<and> evaluate cond (payload a) = Inr True)"

definition decided_by :: "node_result \<Rightarrow> edge_spec \<Rightarrow> bool" where
  "decided_by r e \<longleftrightarrow> source_node e = res_node_id r \<and> condition e \<noteq> None"

lemma decide_edge_eq:
  assumes "decide_edge r e c = Inr c'"
  shows "c' = (if \<not> decided_by r e then c
     else if edge_enabled r e
     then c\<lparr>c_state := (c_state c)\<lparr>active_edges := insert (edge_id e) (active_edges (c_state c))\<rparr>,
            c_activated := c_activated c @ [edge_id e]\<rparr>
     else c\<lparr>c_state := (c_state c)\<lparr>inactive_edges := insert (edge_id e) (inactive_edges (c_state c))\<rparr>,
            c_disabled := c_disabled c @ [edge_id e]\<rparr>)"
proof (cases "condition e")
  case (Some cond)
  note cond = Some
  show ?thesis
  proof (cases "dget (outputs r) (source_output e)")
    case None
    then show ?thesis using assms cond
      by (auto simp: decide_edge_def decided_by_def edge_enabled_def)
  next
    case (Some a)
    then show ?thesis using assms cond
      by (cases "evaluate cond (payload a)") (auto simp: decide_edge_def decided_by_def edge_enabled_def)
  qed
qed (use assms in \<open>simp add: decide_edge_def decided_by_def\<close>)

lemma decide_edge_sets:
  assumes "decide_edge r e c = Inr c'"
  shows "active_edges (c_state c') =
      active_edges (c_state c) \<union> {i. i = edge_id e \<and> decided_by r e \<and> edge_enabled r e}"
    and "inactive_edges (c_state c') =
      inactive_edges (c_state c) \<union> {i. i = edge_id e \<and> decided_by r e \<and> \<not> edge_enabled r e}"
    and "c_activated c' = c_activated c @ (if decided_by r e \<and> edge_enabled r e then [edge_id e] else [])"
    and "c_disabled c' = c_disabled c @ (if decided_by r e \<and> \<not> edge_enabled r e then [edge_id e] else [])"
  unfolding decide_edge_eq [OF assms] by auto

lemma decide_edges_sets:
  assumes "decide_edges r es c = Inr c'"
  shows "active_edges (c_state c') = active_edges (c_state c) \<union>
      edge_id ` {e \<in> set es. decided_by r e \<and> edge_enabled r e}"
    and "inactive_edges (c_state c') = inactive_edges (c_state c) \<union>
      edge_id ` {e \<in> set es. decided_by r e \<and> \<not> edge_enabled r e}"
    and "c_activated c' = c_activated c @ map edge_id (filter (\<lambda>e. decided_by r e \<and> edge_enabled r e) es)"
    and "c_disabled c' = c_disabled c @ map edge_id (filter (\<lambda>e. decided_by r e \<and> \<not> edge_enabled r e) es)"
  using assms
proof (induction es arbitrary: c)
  case (Cons e es)
  {
    case 1
    then obtain c1 where "decide_edge r e c = Inr c1" "decide_edges r es c1 = Inr c'"
      by (auto simp: res_simps)
    then show ?case using Cons.IH(1) [of c1] decide_edge_sets(1) [of r e c c1] by auto
  next
    case 2
    then obtain c1 where "decide_edge r e c = Inr c1" "decide_edges r es c1 = Inr c'"
      by (auto simp: res_simps)
    then show ?case using Cons.IH(2) [of c1] decide_edge_sets(2) [of r e c c1] by auto
  next
    case 3
    then obtain c1 where "decide_edge r e c = Inr c1" "decide_edges r es c1 = Inr c'"
      by (auto simp: res_simps)
    then show ?case using Cons.IH(3) [of c1] decide_edge_sets(3) [of r e c c1] by auto
  next
    case 4
    then obtain c1 where "decide_edge r e c = Inr c1" "decide_edges r es c1 = Inr c'"
      by (auto simp: res_simps)
    then show ?case using Cons.IH(4) [of c1] decide_edge_sets(4) [of r e c c1] by auto
  }
qed simp_all

lemma freeze_fold_frozen: "frozen st \<Longrightarrow> fold (freeze_slot g) kvs st = st"
  by (induction kvs) (simp_all add: freeze_slot_def)

lemma freeze_fold:
  "fold (freeze_slot g) kvs st =
     (if frozen st then st
      else case dget kvs (final_output_slot g) of
        None \<Rightarrow> st
      | Some a \<Rightarrow> st\<lparr>final_output_artifact_id := Some (artifact_id a), frozen := True\<rparr>)"
proof (induction kvs arbitrary: st)
  case (Cons kv kvs)
  show ?case
  proof (cases "fst kv = final_output_slot g \<and> \<not> frozen st")
    case True
    then have "freeze_slot g kv st =
        st\<lparr>final_output_artifact_id := Some (artifact_id (snd kv)), frozen := True\<rparr>"
      by (simp add: freeze_slot_def)
    then show ?thesis using True by (cases kv) (simp add: freeze_fold_frozen)
  next
    case False
    have "freeze_slot g kv st = st"
      unfolding freeze_slot_def using False by (rule if_not_P)
    then show ?thesis using Cons.IH [of st] False by (cases kv) auto
  qed
qed simp

lemma commit_result_status:
  "commit_result g r c = Inr c' \<Longrightarrow>
     node_status (c_state c') =
       dset (res_node_id r) (if succeeded r then Succeeded else Failed) (node_status (c_state c))"
  by (auto simp: commit_result_def Let_def freeze_fold dest!: decide_edges_core coreD(1) [OF conjunct1]
      split: if_splits option.splits)

lemma commit_result_outputs:
  "commit_result g r c = Inr c' \<Longrightarrow>
     node_outputs (c_state c') =
       (if succeeded r then dset (res_node_id r) (output_ids r) (node_outputs (c_state c))
        else node_outputs (c_state c))"
  by (auto simp: commit_result_def Let_def freeze_fold dest!: decide_edges_core coreD(2) [OF conjunct1]
      split: if_splits option.splits)

lemma commit_result_frozen:
  "commit_result g r c = Inr c' \<Longrightarrow>
     frozen (c_state c') = (frozen (c_state c) \<or> succeeded r \<and> dget (outputs r) (final_output_slot g) \<noteq> None)"
  by (auto simp: commit_result_def Let_def freeze_fold dest!: decide_edges_core coreD(3) [OF conjunct1]
      split: if_splits option.splits)

lemma commit_result_final:
  "commit_result g r c = Inr c' \<Longrightarrow>
     final_output_artifact_id (c_state c') =
       (if frozen (c_state c) \<or> \<not> succeeded r then final_output_artifact_id (c_state c)
        else case dget (outputs r) (final_output_slot g) of
          None \<Rightarrow> final_output_artifact_id (c_state c) | Some a \<Rightarrow> Some (artifact_id a))"
  by (auto simp: commit_result_def Let_def freeze_fold dest!: decide_edges_core coreD(4) [OF conjunct1]
      split: if_splits option.splits)

lemma commit_result_same_run:
  "commit_result g r c = Inr c' \<Longrightarrow> same_run (c_state c) (c_state c')"
  by (auto simp: commit_result_def Let_def freeze_fold same_run_def
      dest!: decide_edges_core coreD(5) [OF conjunct1] split: if_splits option.splits)

lemma commit_result_wave:
  "commit_result g r c = Inr c' \<Longrightarrow> wave_id (c_state c') = wave_id (c_state c)"
  by (auto simp: commit_result_def Let_def freeze_fold
      dest!: decide_edges_core coreD(6) [OF conjunct1] split: if_splits option.splits)

lemma commit_result_checkpoints:
  "commit_result g r c = Inr c' \<Longrightarrow> checkpoint_count (c_state c') = checkpoint_count (c_state c)"
  by (auto simp: commit_result_def Let_def freeze_fold
      dest!: decide_edges_core coreD(7) [OF conjunct1] split: if_splits option.splits)

lemma commit_result_edges:
  assumes "commit_result g r c = Inr c'"
  shows "active_edges (c_state c') = active_edges (c_state c) \<union>
      (if succeeded r then edge_id ` {e \<in> set (edges g). decided_by r e \<and> edge_enabled r e} else {})"
    and "inactive_edges (c_state c') = inactive_edges (c_state c) \<union>
      (if succeeded r then edge_id ` {e \<in> set (edges g). decided_by r e \<and> \<not> edge_enabled r e} else {})"
  using assms
  by (auto simp: commit_result_def Let_def freeze_fold decide_edges_sets split: if_splits option.splits)

lemmas commit_result_facts =
  commit_result_status commit_result_outputs commit_result_frozen commit_result_final
  commit_result_same_run commit_result_edges

section \<open>The invariant of the state between waves\<close>

text \<open>
  \<open>knows_nodes\<close>: the status table has the nodes of the graph. Outputs exist exactly for the
  nodes that succeeded. Unconditional edges are active; a conditional edge is decided exactly
  when its source succeeded, and never both ways. The graph is frozen exactly when the final
  artifact is set, which is an output in the final slot, and no other state has one.
\<close>

definition outputs_succeeded :: "runtime_state \<Rightarrow> bool" where
  "outputs_succeeded st \<longleftrightarrow>
     (\<forall>n. dget (node_outputs st) n \<noteq> None \<longleftrightarrow> dget (node_status st) n = Some Succeeded)"

definition edge_decided :: "runtime_state \<Rightarrow> edge_spec \<Rightarrow> bool" where
  "edge_decided st e \<longleftrightarrow> edge_id e \<in> active_edges st \<union> inactive_edges st"

definition edges_decided :: "orchestra_graph \<Rightarrow> runtime_state \<Rightarrow> bool" where
  "edges_decided g st \<longleftrightarrow>
     (\<forall>e \<in> set (edges g). condition e = None \<longrightarrow> edge_id e \<in> active_edges st)
     \<and> (\<forall>e \<in> set (edges g). condition e \<noteq> None \<longrightarrow>
          (edge_decided st e \<longleftrightarrow> dget (node_status st) (source_node e) = Some Succeeded))
     \<and> active_edges st \<inter> inactive_edges st = {}
     \<and> active_edges st \<union> inactive_edges st \<subseteq> set (edge_ids g)"

definition final_slot_of :: "orchestra_graph \<Rightarrow> runtime_state \<Rightarrow> string \<Rightarrow> string option" where
  "final_slot_of g st n =
     (case dget (node_outputs st) n of None \<Rightarrow> None | Some outs \<Rightarrow> dget outs (final_output_slot g))"

definition frozen_final :: "orchestra_graph \<Rightarrow> runtime_state \<Rightarrow> bool" where
  "frozen_final g st \<longleftrightarrow>
     (frozen st \<longleftrightarrow> final_output_artifact_id st \<noteq> None)
     \<and> (\<forall>aid. final_output_artifact_id st = Some aid \<longrightarrow> (\<exists>n. final_slot_of g st n = Some aid))
     \<and> (\<forall>n. final_slot_of g st n \<noteq> None \<longrightarrow> frozen st)"

definition state_inv :: "orchestra_graph \<Rightarrow> runtime_state \<Rightarrow> bool" where
  "state_inv g st \<longleftrightarrow> knows_nodes g st \<and> outputs_succeeded st \<and> edges_decided g st \<and> frozen_final g st"

text \<open>
  The truth of the active edges: given what the store returns, a conditional edge is active
  exactly when the artifact it reads satisfies its condition.
\<close>

definition condition_holds :: "(string \<Rightarrow> envelope option) \<Rightarrow> runtime_state \<Rightarrow> edge_spec \<Rightarrow> bool" where
  "condition_holds look st e \<longleftrightarrow>
     (\<exists>cond outs aid a. condition e = Some cond \<and> dget (node_outputs st) (source_node e) = Some outs
        \<and> dget outs (source_output e) = Some aid \<and> look aid = Some a
        \<and> evaluate cond (payload a) = Inr True)"

definition edges_true :: "orchestra_graph \<Rightarrow> (string \<Rightarrow> envelope option) \<Rightarrow> runtime_state \<Rightarrow> bool" where
  "edges_true g look st \<longleftrightarrow>
     (\<forall>e \<in> set (edges g). condition e \<noteq> None \<longrightarrow>
        (edge_id e \<in> active_edges st \<longleftrightarrow> condition_holds look st e))"

lemma dget_map_snd: "dget (map (\<lambda>(k, v). (k, f v)) d) k = map_option f (dget d k)"
  by (induction d) auto

lemma output_ids_lookup: "dget (output_ids r) slot = map_option artifact_id (dget (outputs r) slot)"
  by (simp add: output_ids_def dget_map_snd)

lemma edge_id_inj:
  "distinct (edge_ids g) \<Longrightarrow> e \<in> set (edges g) \<Longrightarrow> e' \<in> set (edges g) \<Longrightarrow> edge_id e = edge_id e' \<Longrightarrow> e = e'"
  by (auto simp: edge_ids_def distinct_map dest: inj_onD)

lemma commit_result_knows:
  assumes "commit_result g r c = Inr c'" "knows_nodes g (c_state c)" "res_node_id r \<in> set (node_ids g)"
  shows "knows_nodes g (c_state c')"
  using assms(2,3) unfolding knows_nodes_def commit_result_status [OF assms(1)] dkeys_dset by auto

lemma commit_result_outputs_succeeded:
  assumes "commit_result g r c = Inr c'" "outputs_succeeded (c_state c)"
    "dget (node_status (c_state c)) (res_node_id r) \<noteq> Some Succeeded"
  shows "outputs_succeeded (c_state c')"
proof -
  have "dget (node_outputs (c_state c)) (res_node_id r) = None"
    using assms(2,3) by (auto simp: outputs_succeeded_def)
  then show ?thesis
    using assms(2)
    unfolding outputs_succeeded_def commit_result_status [OF assms(1)] commit_result_outputs [OF assms(1)]
    using assms(3) by (simp add: dget_dset)
qed

lemma commit_result_decided:
  assumes c: "commit_result g r c = Inr c'" and d: "edges_decided g (c_state c)"
    and ids: "distinct (edge_ids g)"
    and new: "dget (node_status (c_state c)) (res_node_id r) \<noteq> Some Succeeded"
  shows "edges_decided g (c_state c')"
proof -
  note E = commit_result_edges [OF c]
  note S = commit_result_status [OF c]
  have old: "\<not> edge_decided (c_state c) e" if "e \<in> set (edges g)" "decided_by r e" for e
    using d new that unfolding edges_decided_def decided_by_def by metis
  have on: "edge_id e \<in> edge_id ` {e \<in> set (edges g). P e} \<longleftrightarrow> P e" if "e \<in> set (edges g)" for e P
    using edge_id_inj [OF ids] that by auto
  show ?thesis unfolding edges_decided_def
  proof (intro conjI ballI impI)
    fix e assume "e \<in> set (edges g)" "condition e = None"
    then show "edge_id e \<in> active_edges (c_state c')" using d by (simp add: edges_decided_def E)
  next
    fix e assume e: "e \<in> set (edges g)" "condition e \<noteq> None"
    have "edge_decided (c_state c') e \<longleftrightarrow> edge_decided (c_state c) e \<or> succeeded r \<and> decided_by r e"
      using on [OF e(1)] by (auto simp: edge_decided_def E)
    moreover have "edge_decided (c_state c) e \<longleftrightarrow>
        dget (node_status (c_state c)) (source_node e) = Some Succeeded"
      using d e by (simp add: edges_decided_def)
    ultimately show "edge_decided (c_state c') e \<longleftrightarrow>
        dget (node_status (c_state c')) (source_node e) = Some Succeeded"
      using e(2) new by (auto simp: S dget_dset decided_by_def)
  next
    have "edge_id e \<notin> active_edges (c_state c)" "edge_id e \<notin> inactive_edges (c_state c)"
      if "e \<in> set (edges g)" "decided_by r e" for e
      using old [OF that] by (simp_all add: edge_decided_def)
    moreover have "active_edges (c_state c) \<inter> inactive_edges (c_state c) = {}"
      using d by (simp add: edges_decided_def)
    moreover have "edge_id e \<noteq> edge_id e'"
      if "e \<in> set (edges g)" "e' \<in> set (edges g)" "edge_enabled r e" "\<not> edge_enabled r e'" for e e'
      using edge_id_inj [OF ids that(1,2)] that(3,4) by auto
    ultimately show "active_edges (c_state c') \<inter> inactive_edges (c_state c') = {}"
      unfolding E by (simp split: if_split) blast
  next
    show "active_edges (c_state c') \<union> inactive_edges (c_state c') \<subseteq> set (edge_ids g)"
      using d unfolding E edges_decided_def edge_ids_def by auto
  qed
qed

lemma commit_result_final_slot:
  assumes "commit_result g r c = Inr c'"
  shows "final_slot_of g (c_state c') n =
    (if succeeded r \<and> n = res_node_id r then map_option artifact_id (dget (outputs r) (final_output_slot g))
     else final_slot_of g (c_state c) n)"
  unfolding final_slot_of_def commit_result_outputs [OF assms] by (simp add: dget_dset output_ids_lookup)

lemma commit_result_frozen_final:
  assumes c: "commit_result g r c = Inr c'" and f: "frozen_final g (c_state c)"
    and o: "outputs_succeeded (c_state c)"
    and new: "dget (node_status (c_state c)) (res_node_id r) \<noteq> Some Succeeded"
  shows "frozen_final g (c_state c')"
proof -
  have none: "final_slot_of g (c_state c) (res_node_id r) = None"
    using o new by (auto simp: outputs_succeeded_def final_slot_of_def split: option.splits)
  show ?thesis
  proof (cases "frozen (c_state c) \<or> \<not> succeeded r")
    case True
    then have same: "final_output_artifact_id (c_state c') = final_output_artifact_id (c_state c)"
        "frozen (c_state c') = frozen (c_state c)"
      using commit_result_final [OF c] commit_result_frozen [OF c] by auto
    have "\<exists>n. final_slot_of g (c_state c') n = Some aid"
      if "final_output_artifact_id (c_state c) = Some aid" for aid
    proof -
      have "\<exists>n. final_slot_of g (c_state c) n = Some aid"
        using f that by (simp add: frozen_final_def)
      then obtain n where n: "final_slot_of g (c_state c) n = Some aid" by blast
      then have "n \<noteq> res_node_id r" using none by auto
      then show ?thesis using n commit_result_final_slot [OF c] by metis
    qed
    moreover have "frozen (c_state c')" if "final_slot_of g (c_state c') n \<noteq> None" for n
      using that True f same(2) unfolding commit_result_final_slot [OF c] frozen_final_def
      by (auto split: if_splits)
    ultimately show ?thesis using f same by (auto simp: frozen_final_def)
  next
    case False
    then have nf: "final_output_artifact_id (c_state c) = None" "final_slot_of g (c_state c) n = None" for n
      using f unfolding frozen_final_def by blast+
    show ?thesis
    proof (cases "dget (outputs r) (final_output_slot g)")
      case None
      then show ?thesis
        using False nf unfolding frozen_final_def commit_result_final_slot [OF c]
          commit_result_final [OF c] commit_result_frozen [OF c] by simp
    next
      case (Some a)
      then show ?thesis
        using False nf unfolding frozen_final_def commit_result_final_slot [OF c]
          commit_result_final [OF c] commit_result_frozen [OF c] by simp
    qed
  qed
qed

text \<open>One result keeps the invariant, when its node had not succeeded before.\<close>

lemma commit_result_inv:
  assumes "commit_result g r c = Inr c'" "state_inv g (c_state c)" "distinct (edge_ids g)"
    "res_node_id r \<in> set (node_ids g)"
    "dget (node_status (c_state c)) (res_node_id r) \<noteq> Some Succeeded"
  shows "state_inv g (c_state c')"
  using assms commit_result_knows commit_result_outputs_succeeded commit_result_decided
    commit_result_frozen_final
  unfolding state_inv_def by blast

lemma commit_result_true:
  assumes c: "commit_result g r c = Inr c'" and t: "edges_true g look (c_state c)"
    and d: "edges_decided g (c_state c)"
    and ids: "distinct (edge_ids g)"
    and new: "dget (node_status (c_state c)) (res_node_id r) \<noteq> Some Succeeded"
    and look: "succeeded r \<Longrightarrow> \<forall>a \<in> set (dvalues (outputs r)). look (artifact_id a) = Some a"
  shows "edges_true g look (c_state c')"
  unfolding edges_true_def
proof (intro ballI impI)
  fix e assume e: "e \<in> set (edges g)" "condition e \<noteq> None"
  then obtain cond where cond: "condition e = Some cond" by blast
  have act: "edge_id e \<in> active_edges (c_state c') \<longleftrightarrow>
      edge_id e \<in> active_edges (c_state c) \<or> succeeded r \<and> decided_by r e \<and> edge_enabled r e"
    using edge_id_inj [OF ids e(1)] e(1) unfolding commit_result_edges(1) [OF c] by auto
  show "edge_id e \<in> active_edges (c_state c') \<longleftrightarrow> condition_holds look (c_state c') e"
  proof (cases "succeeded r \<and> source_node e = res_node_id r")
    case True
    then have "edge_id e \<notin> active_edges (c_state c)"
      using d e new unfolding edges_decided_def edge_decided_def by auto
    moreover have "condition_holds look (c_state c') e \<longleftrightarrow> edge_enabled r e"
    proof (cases "dget (outputs r) (source_output e)")
      case None
      then show ?thesis using True
        by (auto simp: condition_holds_def edge_enabled_def commit_result_outputs [OF c] dget_dset
            output_ids_lookup)
    next
      case (Some a)
      then have "look (artifact_id a) = Some a"
        using True look map_of_SomeD [OF Some] by force
      then show ?thesis using True cond Some
        by (simp add: condition_holds_def edge_enabled_def commit_result_outputs [OF c] dget_dset
            output_ids_lookup)
    qed
    ultimately show ?thesis using act True e(2) by (simp add: decided_by_def)
  next
    case False
    then have "condition_holds look (c_state c') e = condition_holds look (c_state c) e"
      by (auto simp: condition_holds_def commit_result_outputs [OF c] dget_dset)
    then show ?thesis using act False t e by (auto simp: decided_by_def edges_true_def)
  qed
qed

section \<open>A whole wave\<close>

text \<open>What a step between two states must respect: nothing decided is taken back.\<close>

definition state_le :: "runtime_state \<Rightarrow> runtime_state \<Rightarrow> bool" where
  "state_le st st' \<longleftrightarrow> same_run st st'
     \<and> active_edges st \<subseteq> active_edges st' \<and> inactive_edges st \<subseteq> inactive_edges st'
     \<and> (\<forall>n outs. dget (node_outputs st) n = Some outs \<longrightarrow> dget (node_outputs st') n = Some outs)
     \<and> (frozen st \<longrightarrow> frozen st' \<and> final_output_artifact_id st' = final_output_artifact_id st)"

lemma state_le_refl [simp]: "state_le st st"
  by (simp add: state_le_def)

lemma state_le_trans: "state_le a b \<Longrightarrow> state_le b c \<Longrightarrow> state_le a c"
  unfolding state_le_def using same_run_trans by (metis subset_trans)

lemma commit_result_le:
  assumes c: "commit_result g r c = Inr c'" and o: "outputs_succeeded (c_state c)"
    and new: "dget (node_status (c_state c)) (res_node_id r) \<noteq> Some Succeeded"
  shows "state_le (c_state c) (c_state c')"
proof -
  have "dget (node_outputs (c_state c)) (res_node_id r) = None"
    using o new unfolding outputs_succeeded_def by metis
  then show ?thesis
    unfolding state_le_def
    using commit_result_same_run [OF c] commit_result_frozen [OF c] commit_result_final [OF c]
    by (auto simp: commit_result_edges [OF c] commit_result_outputs [OF c] dget_dset)
qed

text \<open>The results of a wave: one per node, of nodes that had not succeeded.\<close>

definition wave_of :: "orchestra_graph \<Rightarrow> runtime_state \<Rightarrow> node_result list \<Rightarrow> bool" where
  "wave_of g st rs \<longleftrightarrow> distinct (map res_node_id rs)
     \<and> (\<forall>r \<in> set rs. res_node_id r \<in> set (node_ids g) \<and> dget (node_status st) (res_node_id r) \<noteq> Some Succeeded)"

definition outcome :: "node_result \<Rightarrow> node_status" where
  "outcome r = (if succeeded r then Succeeded else Failed)"

lemma commit_result_status': "commit_result g r c = Inr c' \<Longrightarrow>
   node_status (c_state c') = dset (res_node_id r) (outcome r) (node_status (c_state c))"
  by (simp add: commit_result_status outcome_def)

lemma wave_of_step:
  assumes "wave_of g (c_state c) (r # rs)" "commit_result g r c = Inr c1"
  shows "wave_of g (c_state c1) rs"
  using assms(1) unfolding wave_of_def commit_result_status' [OF assms(2)]
  by (auto simp: dget_dset rev_image_eqI)

lemma commit_results_inv:
  assumes "commit_results g rs c = Inr c'" "state_inv g (c_state c)" "distinct (edge_ids g)"
    "wave_of g (c_state c) rs"
  shows "state_inv g (c_state c') \<and> state_le (c_state c) (c_state c')
    \<and> (edges_true g look (c_state c) \<and>
        (\<forall>r \<in> set rs. succeeded r \<longrightarrow> (\<forall>a \<in> set (dvalues (outputs r)). look (artifact_id a) = Some a))
       \<longrightarrow> edges_true g look (c_state c'))"
  using assms
proof (induction rs arbitrary: c)
  case (Cons r rs)
  then obtain c1 where c1: "commit_result g r c = Inr c1" "commit_results g rs c1 = Inr c'"
    by (auto simp: res_simps)
  have r: "res_node_id r \<in> set (node_ids g)"
      "dget (node_status (c_state c)) (res_node_id r) \<noteq> Some Succeeded"
    using Cons.prems(4) by (simp_all add: wave_of_def)
  have inv: "outputs_succeeded (c_state c)" "edges_decided g (c_state c)"
    using Cons.prems(2) by (simp_all add: state_inv_def)
  note inv1 = commit_result_inv [OF c1(1) Cons.prems(2,3) r]
  note IH = Cons.IH [OF c1(2) inv1 Cons.prems(3) wave_of_step [OF Cons.prems(4) c1(1)]]
  have le: "state_le (c_state c) (c_state c')"
    using IH commit_result_le [OF c1(1) inv(1) r(2)] state_le_trans by blast
  have "edges_true g look (c_state c1)"
    if "edges_true g look (c_state c)"
      "succeeded r \<longrightarrow> (\<forall>a \<in> set (dvalues (outputs r)). look (artifact_id a) = Some a)"
    using commit_result_true [OF c1(1) that(1) inv(2) Cons.prems(3) r(2)] that(2) by blast
  then show ?case using IH le by simp
qed simp

lemma commit_results_status:
  assumes "commit_results g rs c = Inr c'" "distinct (map res_node_id rs)"
  shows "dget (node_status (c_state c')) n =
    (case find (\<lambda>r. res_node_id r = n) rs of
       None \<Rightarrow> dget (node_status (c_state c)) n | Some r \<Rightarrow> Some (outcome r))"
  using assms
proof (induction rs arbitrary: c)
  case (Cons r rs)
  then obtain c1 where c1: "commit_result g r c = Inr c1" "commit_results g rs c1 = Inr c'"
    by (auto simp: res_simps)
  have "find (\<lambda>x. res_node_id x = res_node_id r) rs = None"
    using Cons.prems(2) by (auto simp: find_None_iff rev_image_eqI)
  then show ?case
    using Cons.IH [OF c1(2)] Cons.prems(2)
    by (auto simp: commit_result_status' [OF c1(1)] dget_dset split: option.splits)
qed simp

lemma commit_results_counters:
  "commit_results g rs c = Inr c' \<Longrightarrow>
     wave_id (c_state c') = wave_id (c_state c) \<and> checkpoint_count (c_state c') = checkpoint_count (c_state c)"
proof (induction rs arbitrary: c)
  case (Cons r rs)
  then obtain c1 where c1: "commit_result g r c = Inr c1" "commit_results g rs c1 = Inr c'"
    by (auto simp: res_simps)
  then show ?case
    using Cons.IH [OF c1(2)] commit_result_wave [OF c1(1)] commit_result_checkpoints [OF c1(1)] by simp
qed simp

text \<open>Marking nodes that had produced nothing, as \<open>SKIPPED\<close> or \<open>RUNNING\<close>.\<close>

definition mark :: "node_status \<Rightarrow> string list \<Rightarrow> runtime_state \<Rightarrow> runtime_state" where
  "mark s ids st = st\<lparr>node_status := fold (\<lambda>n d. dset n s d) ids (node_status st)\<rparr>"

lemma skip_mark: "skip_nodes ids st = mark Skipped ids st"
  by (simp add: skip_nodes_def mark_def)

lemma mark_fields [simp]:
  "active_edges (mark s ids st) = active_edges st" "inactive_edges (mark s ids st) = inactive_edges st"
  "node_outputs (mark s ids st) = node_outputs st" "frozen (mark s ids st) = frozen st"
  "final_output_artifact_id (mark s ids st) = final_output_artifact_id st"
  "wave_id (mark s ids st) = wave_id st" "checkpoint_count (mark s ids st) = checkpoint_count st"
  "initial_artifacts (mark s ids st) = initial_artifacts st" "same_run st (mark s ids st)"
  "task_id (mark s ids st) = task_id st" "node_latencies_ms (mark s ids st) = node_latencies_ms st"
  by (simp_all add: mark_def same_run_def)

lemma mark_status: "dget (node_status (mark s ids st)) n = (if n \<in> set ids then Some s else dget (node_status st) n)"
proof -
  have "dget (fold (\<lambda>n d. dset n s d) ids d) n = (if n \<in> set ids then Some s else dget d n)" for d
    by (induction ids arbitrary: d) (auto simp: dget_dset)
  then show ?thesis by (simp add: mark_def)
qed

lemma mark_knows:
  assumes "knows_nodes g st" "set ids \<subseteq> set (node_ids g)"
  shows "knows_nodes g (mark s ids st)"
proof -
  have "set (dkeys (fold (\<lambda>n d. dset n s d) ids d)) = set (dkeys d) \<union> set ids" for d
  proof (induction ids arbitrary: d)
    case (Cons i ids)
    show ?case using Cons.IH [of "dset i s d"] dkeys_dset [of i s d] by simp
  qed simp
  then show ?thesis using assms unfolding knows_nodes_def mark_def by auto
qed

lemma mark_le [simp]: "state_le st (mark s ids st)"
  by (simp add: state_le_def)

lemma mark_inv:
  assumes "state_inv g st" "set ids \<subseteq> set (node_ids g)" "s \<noteq> Succeeded"
    "\<forall>n \<in> set ids. dget (node_status st) n \<noteq> Some Succeeded"
  shows "state_inv g (mark s ids st)"
proof -
  have same: "dget (node_status (mark s ids st)) n = Some Succeeded \<longleftrightarrow> dget (node_status st) n = Some Succeeded" for n
    using assms(3,4) by (simp add: mark_status)
  have "outputs_succeeded (mark s ids st) = outputs_succeeded st"
    by (simp add: outputs_succeeded_def same)
  moreover have "edges_decided g (mark s ids st) = edges_decided g st"
    by (simp add: edges_decided_def edge_decided_def same)
  moreover have "frozen_final g (mark s ids st) = frozen_final g st"
    by (simp add: frozen_final_def final_slot_of_def)
  ultimately show ?thesis
    using assms(1) mark_knows [OF _ assms(2)] by (simp add: state_inv_def)
qed

lemma mark_true [simp]: "edges_true g look (mark s ids st) = edges_true g look st"
  by (simp add: edges_true_def condition_holds_def)

section \<open>The commit of a wave\<close>

lemma bump_le [simp]:
  "state_le st st' \<Longrightarrow> state_le st (st'\<lparr>wave_id := w, checkpoint_count := k\<rparr>)"
  by (simp add: state_le_def same_run_def)

lemma bump_inv [simp]:
  "state_inv g (st\<lparr>wave_id := w, checkpoint_count := k\<rparr>) = state_inv g st"
  by (simp add: state_inv_def knows_nodes_def outputs_succeeded_def edges_decided_def edge_decided_def
      frozen_final_def final_slot_of_def)

lemma bump_true [simp]:
  "edges_true g look (st\<lparr>wave_id := w, checkpoint_count := k\<rparr>) = edges_true g look st"
  by (simp add: edges_true_def condition_holds_def)

lemma sorted_wave: "distinct (map f rs) \<Longrightarrow> distinct (map f (sort_key k rs))"
  by (simp add: distinct_map)

lemma wave_of_sorted: "wave_of g st rs \<Longrightarrow> wave_of g st (sort_key res_node_id rs)"
  using sorted_wave [of res_node_id rs res_node_id] by (simp add: wave_of_def)

lemma apply_resultsE:
  assumes "apply_results g prev rs = Inr c"
  obtains c1 dead where
    "commit_results g (sort_key res_node_id rs)
       \<lparr>c_state = prev, c_committed = [], c_activated = [], c_disabled = []\<rparr> = Inr c1"
    "impossible_nodes g (c_state c1) = Inr dead"
    "c_state c = (mark Skipped dead (c_state c1))\<lparr>wave_id := wave_id (c_state c1) + 1,
       checkpoint_count := checkpoint_count (c_state c1) + 1\<rparr>"
    "c_committed c = c_committed c1" "c_activated c = c_activated c1" "c_disabled c = c_disabled c1"
  using assms by (auto simp: apply_results_def res_simps Let_def skip_mark)

lemma apply_results_inv:
  assumes ap: "apply_results g prev rs = Inr c" and inv: "state_inv g prev"
    and ids: "distinct (edge_ids g)" and rs: "wave_of g prev rs"
  shows "state_inv g (c_state c)" "state_le prev (c_state c)"
    and "edges_true g look prev \<Longrightarrow>
      \<forall>r \<in> set rs. succeeded r \<longrightarrow> (\<forall>a \<in> set (dvalues (outputs r)). look (artifact_id a) = Some a) \<Longrightarrow>
      edges_true g look (c_state c)"
    and "wave_id (c_state c) = wave_id prev + 1"
    and "checkpoint_count (c_state c) = checkpoint_count prev + 1"
proof -
  obtain c1 dead where
    c1: "commit_results g (sort_key res_node_id rs)
       \<lparr>c_state = prev, c_committed = [], c_activated = [], c_disabled = []\<rparr> = Inr c1"
    and dead: "impossible_nodes g (c_state c1) = Inr dead"
    and st: "c_state c = (mark Skipped dead (c_state c1))\<lparr>wave_id := wave_id (c_state c1) + 1,
       checkpoint_count := checkpoint_count (c_state c1) + 1\<rparr>"
    by (rule apply_resultsE [OF ap])
  note C = commit_results_inv [OF c1 _ ids, unfolded runtime_state.simps commit.simps,
      OF inv wave_of_sorted [OF rs]]
  have "state_inv g (mark Skipped dead (c_state c1))"
    using C impossible_pending [OF dead] impossible_known [OF dead] by (intro mark_inv) auto
  then show "state_inv g (c_state c)" by (simp add: st)
  show "state_le prev (c_state c)"
    using C state_le_trans [OF _ mark_le] by (simp add: st)
  show "edges_true g look (c_state c)"
    if "edges_true g look prev"
      "\<forall>r \<in> set rs. succeeded r \<longrightarrow> (\<forall>a \<in> set (dvalues (outputs r)). look (artifact_id a) = Some a)"
    using C that by (simp add: st)
  show "wave_id (c_state c) = wave_id prev + 1" "checkpoint_count (c_state c) = checkpoint_count prev + 1"
    using commit_results_counters [OF c1] by (simp_all add: st)
qed

lemma find_unique: "distinct (map f xs) \<Longrightarrow> x \<in> set xs \<Longrightarrow> find (\<lambda>y. f y = f x) xs = Some x"
  by (induction xs) (auto simp: rev_image_eqI)

text \<open>
  Every node of the wave ends as its result says; another node keeps its status, or is
  skipped when it was pending.
\<close>

lemma apply_results_status:
  assumes ap: "apply_results g prev rs = Inr c" and d: "distinct (map res_node_id rs)"
  shows "r \<in> set rs \<Longrightarrow> dget (node_status (c_state c)) (res_node_id r) = Some (outcome r)"
    and "n \<notin> res_node_id ` set rs \<Longrightarrow>
      dget (node_status (c_state c)) n = dget (node_status prev) n
      \<or> dget (node_status prev) n = Some Pending \<and> dget (node_status (c_state c)) n = Some Skipped"
proof -
  obtain c1 dead where
    c1: "commit_results g (sort_key res_node_id rs)
       \<lparr>c_state = prev, c_committed = [], c_activated = [], c_disabled = []\<rparr> = Inr c1"
    and dead: "impossible_nodes g (c_state c1) = Inr dead"
    and st: "c_state c = (mark Skipped dead (c_state c1))\<lparr>wave_id := wave_id (c_state c1) + 1,
       checkpoint_count := checkpoint_count (c_state c1) + 1\<rparr>"
    by (rule apply_resultsE [OF ap])
  note C = commit_results_status [OF c1 sorted_wave [OF d]]
  show "dget (node_status (c_state c)) (res_node_id r) = Some (outcome r)" if "r \<in> set rs"
  proof -
    have "find (\<lambda>x. res_node_id x = res_node_id r) (sort_key res_node_id rs) = Some r"
      using find_unique [OF sorted_wave [OF d]] that by simp
    then have s: "dget (node_status (c_state c1)) (res_node_id r) = Some (outcome r)"
      using C by simp
    then have "res_node_id r \<notin> set dead"
      using impossible_pending [OF dead] by (auto simp: outcome_def split: if_splits)
    then show ?thesis using s by (simp add: st mark_status)
  qed
  show "dget (node_status (c_state c)) n = dget (node_status prev) n
      \<or> dget (node_status prev) n = Some Pending \<and> dget (node_status (c_state c)) n = Some Skipped"
    if "n \<notin> res_node_id ` set rs"
  proof -
    have "find (\<lambda>r. res_node_id r = n) (sort_key res_node_id rs) = None"
      using that by (auto simp: find_None_iff)
    then have "dget (node_status (c_state c1)) n = dget (node_status prev) n" using C by simp
    then show ?thesis using impossible_pending [OF dead] by (auto simp: st mark_status)
  qed
qed

section \<open>Storing is one batch\<close>

lemma persist_artifact_put: "persist_artifact H a = put_artifact H a"
  by (auto simp: fun_eq_iff persist_artifact_def thn_def bnd_def put_artifact_cases split: sum.splits)

lemma persist_wave_batch: "persist_wave H rs w = for_each (put_artifact H) (wave_outputs rs) w"
proof (induction rs arbitrary: w)
  case (Cons r rs)
  have "persist_artifact H = put_artifact H" by (simp add: fun_eq_iff persist_artifact_put)
  moreover have "persist_wave H rs = for_each (put_artifact H) (wave_outputs rs)"
    using Cons.IH by (simp add: fun_eq_iff)
  ultimately show ?case
    by (simp add: persist_wave_def persist_result_def wave_outputs_def for_each_append thn_def bnd_def)
qed (simp add: persist_wave_def wave_outputs_def)

lemma wave_outputs_set:
  "set (wave_outputs rs) = (\<Union>r \<in> {r \<in> set rs. succeeded r}. set (dvalues (outputs r)))"
  by (auto simp: wave_outputs_def)

text \<open>The outputs of a wave belong to the task and do not collide with another task's.\<close>

definition wave_admitted :: "world \<Rightarrow> string \<Rightarrow> node_result list \<Rightarrow> bool" where
  "wave_admitted w t rs \<longleftrightarrow>
     (\<forall>a \<in> set (wave_outputs rs). admits_artifact w a \<and> env_task_id a = t)"

lemma commit_waveE:
  assumes "commit_wave H g prev rs w = (Inr c, w')"
  obtains "for_each (put_artifact H) (wave_outputs rs) w = (Inr (), w')" "apply_results g prev rs = Inr c"
  using assms by (auto simp: commit_wave_def thn_eq_Inr persist_wave_batch)

text \<open>The results may arrive in any order: the commit sorts them.\<close>

lemma apply_results_perm:
  assumes "mset rs = mset rs'" "distinct (map res_node_id rs)"
  shows "apply_results g prev rs = apply_results g prev rs'"
proof -
  have "inj_on res_node_id (set rs)" using assms(2) by (simp add: distinct_map)
  then have "sort_key res_node_id rs = sort_key res_node_id rs'"
    using assms(1) by (intro sort_key_eq_sort_key)
  then show ?thesis by (simp add: apply_results_def)
qed

lemma commit_wave_perm:
  assumes perm: "mset rs = mset rs'" and d: "distinct (map res_node_id rs)"
    and inv: "store_inv H w" and ok: "wave_admitted w t rs"
    and c: "commit_wave H g prev rs w = (Inr c, w1)"
  shows "\<exists>w2. commit_wave H g prev rs' w = (Inr c, w2) \<and> stored_artifact H w2 = stored_artifact H w1"
proof -
  have same: "set (wave_outputs rs') = set (wave_outputs rs)"
    using mset_eq_setD [OF perm] by (simp add: wave_outputs_set)
  have ok': "\<forall>a \<in> set (wave_outputs rs). admits_artifact w a \<and> env_task_id a = t"
    "\<forall>a \<in> set (wave_outputs rs'). admits_artifact w a \<and> env_task_id a = t"
    using ok same by (auto simp: wave_admitted_def)
  obtain p: "for_each (put_artifact H) (wave_outputs rs) w = (Inr (), w1)"
    and a: "apply_results g prev rs = Inr c"
    by (rule commit_waveE [OF c])
  obtain w2 where p2: "for_each (put_artifact H) (wave_outputs rs') w = (Inr (), w2)"
    using p file_store.put_all_iff [OF inv ok'(1)] file_store.put_all_iff [OF inv ok'(2)] same by auto
  have "commit_wave H g prev rs' w = (Inr c, w2)"
    using p2 a apply_results_perm [OF perm d]
    by (simp add: commit_wave_def thn_def bnd_def persist_wave_batch)
  moreover have "stored_artifact H w2 i = stored_artifact H w1 i" for i
  proof (cases "\<exists>x \<in> set (wave_outputs rs). artifact_id x = i")
    case True
    then show ?thesis
      using file_store.put_all [OF p inv ok'(1)] file_store.put_all [OF p2 inv ok'(2)] same by auto
  next
    case False
    then have "i \<notin> artifact_id ` set (wave_outputs rs)" by auto
    then show ?thesis
      using file_store.put_all_other [OF p inv ok'(1)] file_store.put_all_other [OF p2 inv ok'(2)] same
      by simp
  qed
  ultimately show ?thesis by blast
qed

lemma persist_wave_eq: "persist_wave H rs = for_each (put_artifact H) (wave_outputs rs)"
  by (simp add: fun_eq_iff persist_wave_batch)

lemma persist_immutable: "immutable.keeps (persist_wave H rs)"
  unfolding persist_wave_eq by blast

lemma persist_append_only: "append_only.keeps (persist_wave H rs)"
  unfolding persist_wave_eq by blast

lemma commit_keeps [intro]:
  "immutable.keeps (commit_wave H g prev rs)" "append_only.keeps (commit_wave H g prev rs)"
  unfolding commit_wave_def using persist_immutable persist_append_only by blast+

end
