(* ===== verification/Json_Parse.thy ===== *)
theory Json_Parse
  imports Json
begin

text \<open>
  \<open>json.loads\<close> as the parser of model answers uses it: the scanner of Python's \<open>json\<close>
  package on text of code points below 256. An escape of a code point above 255 and the
  non-finite constants (\<open>NaN\<close>, \<open>Infinity\<close>) have no value in this model; they raise the
  marked exception \<open>unmodelled\<close>, on which no statement rests. The position in an error
  message is left out. The scanner recurses on fuel; \<open>json_loads\<close> supplies two units per
  character, and \<open>json_loads_fuel\<close> shows that this is never too little.
\<close>

section \<open>Scanning\<close>

abbreviation json_error :: "string \<Rightarrow> exc" where
  "json_error m \<equiv> Exc JSONDecodeErrorC m"

definition unmodelled :: exc where
  "unmodelled = Exc (ForeignErrorC ''unmodelled'') []"

definition out_of_fuel :: exc where
  "out_of_fuel = Exc (ForeignErrorC ''fuel'') []"

abbreviation quote :: char where
  "quote \<equiv> CHR 0x22"

abbreviation backslash :: char where
  "backslash \<equiv> CHR 0x5C"

definition json_space :: "char \<Rightarrow> bool" where
  "json_space c \<longleftrightarrow> c \<in> {CHR 0x20, CHR 0x09, CHR 0x0A, CHR 0x0D}"

definition skip_ws :: "string \<Rightarrow> string" where
  "skip_ws s = dropWhile json_space s"

definition hex_value :: "char \<Rightarrow> nat option" where
  "hex_value c = (let n = of_char c :: nat in
     if 48 \<le> n \<and> n \<le> 57 then Some (n - 48)
     else if 65 \<le> n \<and> n \<le> 70 then Some (n - 55)
     else if 97 \<le> n \<and> n \<le> 102 then Some (n - 87)
     else None)"

definition hex4 :: "string \<Rightarrow> (nat \<times> string) option" where
  "hex4 s =
     (if length s < 4 then None
      else (case map hex_value (take 4 s) of
              [Some a, Some b, Some c, Some d] \<Rightarrow> Some (((a * 16 + b) * 16 + c) * 16 + d, drop 4 s)
            | _ \<Rightarrow> None))"

definition simple_escape :: "char \<Rightarrow> char option" where
  "simple_escape c =
     map_of [(quote, quote), (backslash, backslash), (CHR ''/'', CHR ''/''), (CHR ''b'', CHR 0x08),
       (CHR ''f'', CHR 0x0C), (CHR ''n'', CHR 0x0A), (CHR ''r'', CHR 0x0D), (CHR ''t'', CHR 0x09)] c"

definition cons_res :: "char \<Rightarrow> (string \<times> string) res \<Rightarrow> (string \<times> string) res" where
  "cons_res c r = rbind r (\<lambda>(t, rest). Inr (c # t, rest))"

lemma hex4_length: "hex4 s = Some (n, r) \<Longrightarrow> length r < length s"
  by (auto simp: hex4_def split: if_splits list.splits option.splits)

text \<open>The rest of a string literal, after its opening quote.\<close>

function scan_string :: "string \<Rightarrow> (string \<times> string) res" where
  "scan_string [] = Inl (json_error ''Unterminated string starting at'')"
| "scan_string (c # cs) =
     (if c = quote then Inr ([], cs)
      else if c = backslash then
        (case cs of
           [] \<Rightarrow> Inl (json_error ''Unterminated string starting at'')
         | e # r \<Rightarrow>
             if e = CHR ''u'' then
               (case hex4 r of
                  None \<Rightarrow> Inl (json_error (''Invalid '' @ [backslash] @ ''uXXXX escape''))
                | Some (n, r') \<Rightarrow>
                    if n < 256 then cons_res (char_of n) (scan_string r') else Inl unmodelled)
             else
               (case simple_escape e of
                  None \<Rightarrow> Inl (json_error (''Invalid '' @ [backslash] @ ''escape''))
                | Some x \<Rightarrow> cons_res x (scan_string r)))
      else if (of_char c :: nat) < 32 then Inl (json_error ''Invalid control character at'')
      else cons_res c (scan_string cs))"
  by pat_completeness auto
termination
  by (relation "measure length") (auto dest: hex4_length)

text \<open>
  \<open>NUMBER_RE\<close>: an integer, an optional fraction, an optional exponent. An integer of more
  than 4300 digits is refused by \<open>int()\<close>.
\<close>

definition scan_digits :: "string \<Rightarrow> string \<times> string" where
  "scan_digits s = (takeWhile is_digit s, dropWhile is_digit s)"

definition scan_int :: "string \<Rightarrow> (string \<times> string) option" where
  "scan_int s =
     (case s of
        [] \<Rightarrow> None
      | c # cs \<Rightarrow> if c = CHR ''0'' then Some ([c], cs)
          else if is_digit c then Some (scan_digits s) else None)"

definition scan_frac :: "string \<Rightarrow> string option \<times> string" where
  "scan_frac s =
     (case s of
        c # cs \<Rightarrow> (let (ds, r) = scan_digits cs in
          if c = CHR ''.'' \<and> ds \<noteq> [] then (Some ds, r) else (None, s))
      | [] \<Rightarrow> (None, s))"

definition scan_exp :: "string \<Rightarrow> int option \<times> string" where
  "scan_exp s =
     (case s of
        c # cs \<Rightarrow>
          (let (neg, body) = (case cs of
                 x # xs \<Rightarrow> if x = CHR ''-'' then (True, xs) else if x = CHR ''+'' then (False, xs)
                           else (False, cs)
               | [] \<Rightarrow> (False, cs));
               (ds, r) = scan_digits body;
               n = int (digits_value 0 ds)
           in if c \<in> {CHR ''e'', CHR ''E''} \<and> ds \<noteq> [] then (Some (if neg then - n else n), r)
              else (None, s))
      | [] \<Rightarrow> (None, s))"

definition make_number :: "bool \<Rightarrow> string \<Rightarrow> string option \<Rightarrow> int option \<Rightarrow> json res" where
  "make_number neg ip fp ex =
     (if fp = None \<and> ex = None then
        (if 4300 < length ip
         then Inl (value_error ''Exceeds the limit (4300 digits) for integer string conversion'')
         else (let n = int (digits_value 0 ip) in Inr (JInt (if neg then - n else n))))
      else
        (let fd = (case fp of None \<Rightarrow> [] | Some ds \<Rightarrow> ds);
             m = of_nat (digits_value 0 (ip @ fd)) :: rat;
             e = (case ex of None \<Rightarrow> 0 | Some k \<Rightarrow> k) - int (length fd);
             x = m * 10 powi e
         in Inr (JFloat (round53 (if neg then - x else x)))))"

definition scan_number :: "string \<Rightarrow> (json \<times> string) res" where
  "scan_number s =
     (let (neg, body) = (case s of c # cs \<Rightarrow> if c = CHR ''-'' then (True, cs) else (False, s)
                                 | [] \<Rightarrow> (False, s))
      in case scan_int body of
           None \<Rightarrow> Inl (json_error ''Expecting value'')
         | Some (ip, r1) \<Rightarrow>
             (let (fp, r2) = scan_frac r1; (ex, r3) = scan_exp r2
              in rbind (make_number neg ip fp ex) (\<lambda>v. Inr (v, r3))))"

section \<open>Values\<close>

definition starts_nonfinite :: "string \<Rightarrow> bool" where
  "starts_nonfinite s \<longleftrightarrow> starts_with ''NaN'' s \<or> starts_with ''Infinity'' s \<or> starts_with ''-Infinity'' s"

definition expect_key :: "string \<Rightarrow> (string \<times> string) res" where
  "expect_key s =
     (case s of
        c # cs \<Rightarrow>
          if c \<noteq> quote then Inl (json_error ''Expecting property name enclosed in double quotes'')
          else rbind (scan_string cs) (\<lambda>(k, r).
            case skip_ws r of
              d # ds \<Rightarrow> if d = CHR '':'' then Inr (k, skip_ws ds)
                         else Inl (json_error (''Expecting '' @ [CHR 0x27] @ '':'' @ [CHR 0x27] @ '' delimiter''))
            | [] \<Rightarrow> Inl (json_error (''Expecting '' @ [CHR 0x27] @ '':'' @ [CHR 0x27] @ '' delimiter'')))
      | [] \<Rightarrow> Inl (json_error ''Expecting property name enclosed in double quotes''))"

abbreviation comma_error :: exc where
  "comma_error \<equiv> json_error (''Expecting '' @ [CHR 0x27] @ '','' @ [CHR 0x27] @ '' delimiter'')"

text \<open>
  \<open>scan_once\<close>, and the loops of \<open>JSONObject\<close> and \<open>JSONArray\<close> after their opening
  bracket. A repeated key overwrites, as building the dictionary does.
\<close>

fun parse_value :: "nat \<Rightarrow> string \<Rightarrow> (json \<times> string) res"
and parse_members :: "nat \<Rightarrow> json dict \<Rightarrow> string \<Rightarrow> (json \<times> string) res"
and parse_elements :: "nat \<Rightarrow> json list \<Rightarrow> string \<Rightarrow> (json \<times> string) res"
where
  "parse_value 0 s = Inl out_of_fuel"
| "parse_value (Suc f) s =
     (case s of
        [] \<Rightarrow> Inl (json_error ''Expecting value'')
      | c # cs \<Rightarrow>
          if c = quote then rbind (scan_string cs) (\<lambda>(t, r). Inr (JStr t, r))
          else if c = CHR ''{'' then
            (case skip_ws cs of
               d # ds \<Rightarrow> if d = CHR ''}'' then Inr (JObj [], ds) else parse_members f [] (d # ds)
             | [] \<Rightarrow> parse_members f [] [])
          else if c = CHR ''['' then
            (case skip_ws cs of
               d # ds \<Rightarrow> if d = CHR '']'' then Inr (JList [], ds) else parse_elements f [] (d # ds)
             | [] \<Rightarrow> parse_elements f [] [])
          else if starts_with ''null'' s then Inr (JNull, drop 4 s)
          else if starts_with ''true'' s then Inr (JBool True, drop 4 s)
          else if starts_with ''false'' s then Inr (JBool False, drop 5 s)
          else if starts_nonfinite s then Inl unmodelled
          else scan_number s)"
| "parse_members 0 acc s = Inl out_of_fuel"
| "parse_members (Suc f) acc s =
     rbind (expect_key s) (\<lambda>(k, r).
     rbind (parse_value f r) (\<lambda>(v, r1).
       let acc' = dset k v acc in
       case skip_ws r1 of
         d # ds \<Rightarrow> if d = CHR ''}'' then Inr (JObj acc', ds)
                    else if d = CHR '','' then parse_members f acc' (skip_ws ds)
                    else Inl comma_error
       | [] \<Rightarrow> Inl comma_error))"
| "parse_elements 0 acc s = Inl out_of_fuel"
| "parse_elements (Suc f) acc s =
     rbind (parse_value f s) (\<lambda>(v, r1).
       let acc' = acc @ [v] in
       case skip_ws r1 of
         d # ds \<Rightarrow> if d = CHR '']'' then Inr (JList acc', ds)
                    else if d = CHR '','' then parse_elements f acc' (skip_ws ds)
                    else Inl comma_error
       | [] \<Rightarrow> Inl comma_error)"

definition json_loads :: "string \<Rightarrow> json res" where
  "json_loads s =
     rbind (parse_value (2 * length s + 2) (skip_ws s)) (\<lambda>(v, r).
       if skip_ws r = [] then Inr v else Inl (json_error ''Extra data''))"

section \<open>The fuel is enough\<close>

lemma skip_ws_length: "length (skip_ws s) \<le> length s"
  by (simp add: skip_ws_def length_dropWhile_le)

lemma cons_res_Inr: "cons_res c r = Inr (t, rest) \<longleftrightarrow> (\<exists>u. r = Inr (u, rest) \<and> t = c # u)"
  by (cases r) (auto simp: cons_res_def)

lemma scan_string_length: "scan_string s = Inr (t, r) \<Longrightarrow> length r < length s"
proof (induction s arbitrary: t rule: scan_string.induct)
  case (2 c cs)
  show ?case
  proof (cases "c = backslash")
    case True
    then obtain e u where cs: "cs = e # u" using "2.prems" by (auto split: list.splits)
    show ?thesis
    proof (cases "e = CHR ''u''")
      case uni: True
      then obtain n u' where h: "hex4 u = Some (n, u')" "n < 256"
        using "2.prems" True cs by (auto split: option.splits if_splits)
      then obtain t' where "scan_string u' = Inr (t', r)"
        using "2.prems" True cs uni by (auto simp: cons_res_Inr)
      then show ?thesis using "2.IH"(1) [of e u "(n, u')" n u' t'] True cs uni h hex4_length [OF h(1)] by simp
    next
      case False
      then obtain x where x: "simple_escape e = Some x"
        using "2.prems" True cs by (auto split: option.splits)
      then obtain t' where "scan_string u = Inr (t', r)"
        using "2.prems" True cs False by (auto simp: cons_res_Inr)
      then show ?thesis using "2.IH"(2) [of e u x t'] True cs False x by simp
    qed
  next
    case False
    then show ?thesis using "2.prems" "2.IH"(3) by (fastforce simp: cons_res_Inr split: if_splits)
  qed
qed simp

lemma expect_key_length: "expect_key s = Inr (k, r) \<Longrightarrow> length r < length s"
proof -
  assume k: "expect_key s = Inr (k, r)"
  obtain c cs where s: "s = c # cs" using k by (cases s) (simp_all add: expect_key_def)
  have "c = quote" using k s by (simp add: expect_key_def split: if_splits)
  then obtain k' u where ku: "scan_string cs = Inr (k', u)"
    using k s by (cases "scan_string cs") (auto simp: expect_key_def)
  then obtain d ds where d: "skip_ws u = d # ds"
    using k s \<open>c = quote\<close> by (cases "skip_ws u") (simp_all add: expect_key_def)
  have "r = skip_ws ds" using k s \<open>c = quote\<close> ku d by (simp add: expect_key_def split: if_splits)
  then have "length r \<le> length ds" "length ds < length u" "length u < length cs"
    using skip_ws_length [of ds] skip_ws_length [of u] scan_string_length [OF ku] d by simp_all
  then show ?thesis using s by simp
qed

lemma scan_digits_length: "length (snd (scan_digits s)) \<le> length s"
  by (simp add: scan_digits_def length_dropWhile_le)

lemma scan_int_length: "scan_int s = Some (d, r) \<Longrightarrow> length r < length s"
  by (auto simp: scan_int_def scan_digits_def split: list.splits if_splits)
    (metis le_imp_less_Suc length_dropWhile_le)

lemma scan_frac_length: "length (snd (scan_frac s)) \<le> length s"
  using scan_digits_length by (auto simp: scan_frac_def Let_def split: list.splits prod.splits)
    (metis le_SucI snd_conv)

lemma scan_exp_length: "length (snd (scan_exp s)) \<le> length s"
proof (cases s)
  case (Cons c cs)
  have d: "length (dropWhile is_digit cs) \<le> Suc (length cs)"
    by (simp add: le_SucI length_dropWhile_le)
  have "length (dropWhile is_digit xs) \<le> Suc (length cs)" if "cs = x # xs" for x xs
    using that length_dropWhile_le [of is_digit xs] by simp
  then show ?thesis
    using Cons d by (cases cs) (auto simp: scan_exp_def scan_digits_def Let_def)
qed (simp add: scan_exp_def)

lemma scan_number_length: "scan_number s = Inr (v, r) \<Longrightarrow> length r < length s"
proof -
  assume n: "scan_number s = Inr (v, r)"
  define body where "body = (case s of c # cs \<Rightarrow> if c = CHR ''-'' then cs else s | [] \<Rightarrow> s)"
  have le: "length body \<le> length s" by (auto simp: body_def split: list.splits)
  obtain ip r1 where i: "scan_int body = Some (ip, r1)"
    using n by (auto simp: scan_number_def body_def Let_def split: list.splits if_splits option.splits)
  then have "r = snd (scan_exp (snd (scan_frac r1)))"
    using n by (auto simp: scan_number_def body_def Let_def res_simps split: list.splits if_splits
        option.splits prod.splits)
  then have "length r \<le> length r1"
    using scan_exp_length [of "snd (scan_frac r1)"] scan_frac_length [of r1] by simp
  then show ?thesis using scan_int_length [OF i] le by simp
qed

text \<open>The last step of the two loops, shared by both.\<close>

lemma loop_tail_length:
  assumes "(case skip_ws r1 of
         d # ds \<Rightarrow> if d = e then Inr (w, ds) else if d = CHR '','' then k (skip_ws ds) else Inl comma_error
       | [] \<Rightarrow> Inl comma_error) = Inr (v, r)"
    and "\<And>d ds. skip_ws r1 = d # ds \<Longrightarrow> d \<noteq> e \<Longrightarrow> d = CHR '','' \<Longrightarrow> k (skip_ws ds) = Inr (v, r) \<Longrightarrow>
      length r < length (skip_ws ds)"
  shows "length r < length r1"
proof -
  obtain d ds where d: "skip_ws r1 = d # ds" using assms(1) by (cases "skip_ws r1") simp_all
  then have l: "length ds < length r1" using skip_ws_length [of r1] by simp
  consider "r = ds" | "d \<noteq> e" "d = CHR '',''" "k (skip_ws ds) = Inr (v, r)"
    using assms(1) d by (auto split: if_splits)
  then show ?thesis
  proof cases
    case 2
    then show ?thesis using assms(2) [OF d 2] skip_ws_length [of ds] l by simp
  qed (use l in simp)
qed

lemma parse_length:
  "parse_value f s = Inr (v, r) \<Longrightarrow> length r < length s"
  "parse_members f m s = Inr (v, r) \<Longrightarrow> length r < length s"
  "parse_elements f l s = Inr (v, r) \<Longrightarrow> length r < length s"
proof (induction f s and f m s and f l s arbitrary: v r and v r and v r
    rule: parse_value_parse_members_parse_elements.induct)
  case (2 f s)
  show ?case
  proof (cases s)
    case (Cons c cs)
    have sk: "length (skip_ws cs) \<le> length cs" by (rule skip_ws_length)
    consider "c = quote" | "c \<noteq> quote" "c = CHR ''{''" | "c \<noteq> quote" "c \<noteq> CHR ''{''" "c = CHR ''[''"
      | "c \<noteq> quote" "c \<noteq> CHR ''{''" "c \<noteq> CHR ''[''" by blast
    then show ?thesis
    proof cases
      case 1
      then obtain t where "scan_string cs = Inr (t, r)" using "2.prems" Cons by (auto simp: res_simps)
      then show ?thesis using scan_string_length Cons by fastforce
    next
      case c: 2
      show ?thesis
      proof (cases "skip_ws cs")
        case Nil
        then show ?thesis using "2.prems" "2.IH"(1) [OF Cons c Nil] Cons c by auto
      next
        case (Cons d ds)
        show ?thesis
        proof (cases "d = CHR ''}''")
          case True
          then show ?thesis using "2.prems" Cons \<open>s = c # cs\<close> c sk by simp
        next
          case False
          then show ?thesis
            using "2.IH"(2) [OF \<open>s = c # cs\<close> c Cons False, of v r] "2.prems" Cons \<open>s = c # cs\<close> c sk
            by simp
        qed
      qed
    next
      case c: 3
      show ?thesis
      proof (cases "skip_ws cs")
        case Nil
        then show ?thesis using "2.prems" "2.IH"(3) [OF Cons c Nil] Cons c by auto
      next
        case (Cons d ds)
        show ?thesis
        proof (cases "d = CHR '']''")
          case True
          then show ?thesis using "2.prems" Cons \<open>s = c # cs\<close> c sk by simp
        next
          case False
          then show ?thesis
            using "2.IH"(4) [OF \<open>s = c # cs\<close> c Cons False, of v r] "2.prems" Cons \<open>s = c # cs\<close> c sk
            by simp
        qed
      qed
    next
      case 4
      have p: "parse_value (Suc f) s =
          (if starts_with ''null'' s then Inr (JNull, drop 4 s)
           else if starts_with ''true'' s then Inr (JBool True, drop 4 s)
           else if starts_with ''false'' s then Inr (JBool False, drop 5 s)
           else if starts_nonfinite s then Inl unmodelled else scan_number s)"
        unfolding Cons parse_value.simps list.case using 4 by (simp only: if_False)
      have "length (drop n s) < length s" if "0 < n" for n using that Cons by simp
      then show ?thesis
        using "2.prems" scan_number_length [of s v r] unfolding p
        by (simp only: split: if_splits) (auto simp del: drop_Suc)
    qed
  qed (use "2.prems" in simp)
next
  case (4 f acc s)
  then obtain k r0 v1 r1 where k: "expect_key s = Inr (k, r0)" and v1: "parse_value f r0 = Inr (v1, r1)"
    by (auto simp: res_simps)
  have "length r < length r1"
  proof (rule loop_tail_length [where e = "CHR ''}''" and w = "JObj (dset k v1 acc)"
        and k = "parse_members f (dset k v1 acc)"])
    show "length r < length (skip_ws ds)"
      if "skip_ws r1 = d # ds" "d \<noteq> CHR ''}''" "d = CHR '',''"
        "parse_members f (dset k v1 acc) (skip_ws ds) = Inr (v, r)" for d ds
      using "4.IH"(2) [OF refl that(1-3)] that(4) by blast
  qed (use "4.prems" k v1 in \<open>simp add: Let_def\<close>)
  moreover have "length r1 < length r0" by (rule "4.IH"(1) [OF v1])
  ultimately show ?case using expect_key_length [OF k] by simp
next
  case (6 f acc s)
  then obtain v1 r1 where v1: "parse_value f s = Inr (v1, r1)"
    by (auto simp: res_simps)
  have "length r < length r1"
  proof (rule loop_tail_length [where e = "CHR '']''" and w = "JList (acc @ [v1])"
        and k = "parse_elements f (acc @ [v1])"])
    show "length r < length (skip_ws ds)"
      if "skip_ws r1 = d # ds" "d \<noteq> CHR '']''" "d = CHR '',''"
        "parse_elements f (acc @ [v1]) (skip_ws ds) = Inr (v, r)" for d ds
      using "6.IH"(2) [OF refl that(1-3)] that(4) by blast
  qed (use "6.prems" v1 in \<open>simp add: Let_def\<close>)
  then show ?case using "6.IH"(1) [OF v1] by simp
qed simp_all

lemma cons_res_Inl: "cons_res c r = Inl e \<longleftrightarrow> r = Inl e"
  by (cases r) (auto simp: cons_res_def)

lemma scan_string_no_fuel: "scan_string s \<noteq> Inl out_of_fuel"
proof (induction s rule: scan_string.induct)
  case (2 c cs)
  have json: "json_error m \<noteq> out_of_fuel" "unmodelled \<noteq> out_of_fuel" for m
    by (simp_all add: out_of_fuel_def unmodelled_def)
  consider "c = quote" | "c = backslash" "cs = []"
    | e r where "c = backslash" "cs = e # r" "e = CHR ''u''"
    | e r where "c = backslash" "cs = e # r" "e \<noteq> CHR ''u''"
    | "c \<noteq> quote" "c \<noteq> backslash"
    by (metis list.exhaust)
  then show ?case
  proof cases
    case (3 e r)
    show ?thesis
    proof (cases "hex4 r")
      case (Some nr)
      obtain n r' where nr: "nr = (n, r')" by (cases nr)
      have q: "c \<noteq> quote" using 3(1) by simp
      have IH: "n < 256 \<Longrightarrow> scan_string r' \<noteq> Inl out_of_fuel"
        by (rule "2.IH"(1) [OF q 3 Some nr [symmetric]])
      show ?thesis
        unfolding scan_string.simps(2) 3(2) list.case if_not_P [OF q] if_P [OF 3(1)] if_P [OF 3(3)] Some
          option.case nr prod.case
        using IH json by (simp only: cons_res_Inl split: if_split) simp
    qed (use 3 json in simp)
  next
    case (4 e r)
    show ?thesis
    proof (cases "simple_escape e")
      case (Some x)
      have q: "c \<noteq> quote" using 4(1) by simp
      show ?thesis
        unfolding scan_string.simps(2) 4(2) list.case if_not_P [OF q] if_P [OF 4(1)] if_not_P [OF 4(3)] Some
          option.case cons_res_Inl
        by (rule "2.IH"(2) [OF q 4 Some])
    qed (use 4 json in simp)
  next
    case 5
    then show ?thesis using "2.IH"(3) json by (simp add: cons_res_Inl)
  qed (use json in simp_all)
qed (simp add: out_of_fuel_def)

lemma expect_key_no_fuel: "expect_key s \<noteq> Inl out_of_fuel"
proof (cases s)
  case (Cons c cs)
  have json: "json_error m \<noteq> out_of_fuel" for m by (simp add: out_of_fuel_def)
  show ?thesis
  proof (cases "c = quote")
    case True
    show ?thesis
    proof (cases "scan_string cs")
      case (Inl e)
      then show ?thesis using Cons True scan_string_no_fuel [of cs] by (simp add: expect_key_def)
    next
      case (Inr kr)
      then show ?thesis
        using Cons True json by (cases kr; cases "skip_ws (snd kr)") (simp_all add: expect_key_def)
    qed
  qed (use Cons json in \<open>simp add: expect_key_def\<close>)
qed (simp add: expect_key_def out_of_fuel_def)

lemma scan_number_no_fuel: "scan_number s \<noteq> Inl out_of_fuel"
  by (auto simp: scan_number_def make_number_def out_of_fuel_def Let_def split: option.splits prod.splits)

lemma parse_no_fuel:
  "2 * length s < f \<Longrightarrow> parse_value f s \<noteq> Inl out_of_fuel"
  "2 * length s < f \<Longrightarrow> parse_members f m s \<noteq> Inl out_of_fuel"
  "2 * length s + 1 < f \<Longrightarrow> parse_elements f l s \<noteq> Inl out_of_fuel"
proof (induction f s and f m s and f l s rule: parse_value_parse_members_parse_elements.induct)
  case (2 f s)
  show ?case
  proof (cases s)
    case (Cons c cs)
    have sk: "length (skip_ws cs) \<le> length cs" by (rule skip_ws_length)
    consider "c = quote" | "c \<noteq> quote" "c = CHR ''{''" | "c \<noteq> quote" "c \<noteq> CHR ''{''" "c = CHR ''[''"
      | "c \<noteq> quote" "c \<noteq> CHR ''{''" "c \<noteq> CHR ''[''" by blast
    then show ?thesis
    proof cases
      case 1
      then show ?thesis using Cons scan_string_no_fuel [of cs]
        by (cases "scan_string cs") auto
    next
      case c: 2
      show ?thesis
      proof (cases "skip_ws cs")
        case Nil
        then show ?thesis using "2.prems" "2.IH"(1) [OF Cons c Nil] Cons c by auto
      next
        case (Cons d ds)
        have "parse_members f [] (d # ds) \<noteq> Inl out_of_fuel" if "d \<noteq> CHR ''}''"
          by (rule "2.IH"(2) [OF \<open>s = c # cs\<close> c Cons that]) (use "2.prems" \<open>s = c # cs\<close> Cons sk in simp)
        then show ?thesis using Cons \<open>s = c # cs\<close> c by (cases "d = CHR ''}''") simp_all
      qed
    next
      case c: 3
      show ?thesis
      proof (cases "skip_ws cs")
        case Nil
        then show ?thesis using "2.prems" "2.IH"(3) [OF Cons c Nil] Cons c by auto
      next
        case (Cons d ds)
        have "parse_elements f [] (d # ds) \<noteq> Inl out_of_fuel" if "d \<noteq> CHR '']''"
          by (rule "2.IH"(4) [OF \<open>s = c # cs\<close> c Cons that]) (use "2.prems" \<open>s = c # cs\<close> Cons sk in simp)
        then show ?thesis using Cons \<open>s = c # cs\<close> c by (cases "d = CHR '']''") simp_all
      qed
    next
      case 4
      have p: "parse_value (Suc f) s =
          (if starts_with ''null'' s then Inr (JNull, drop 4 s)
           else if starts_with ''true'' s then Inr (JBool True, drop 4 s)
           else if starts_with ''false'' s then Inr (JBool False, drop 5 s)
           else if starts_nonfinite s then Inl unmodelled else scan_number s)"
        unfolding Cons parse_value.simps list.case using 4 by (simp only: if_False)
      have "unmodelled \<noteq> out_of_fuel" by (simp add: unmodelled_def out_of_fuel_def)
      then show ?thesis
        using scan_number_no_fuel [of s] unfolding p by (simp only: split: if_split) simp
    qed
  qed (simp add: out_of_fuel_def)
next
  case (4 f acc s)
  show ?case
  proof (cases "expect_key s")
    case (Inl e)
    then show ?thesis using expect_key_no_fuel [of s] by simp
  next
    case (Inr kr)
    obtain k r0 where kr: "kr = (k, r0)" by (cases kr)
    have l: "length r0 < length s" using expect_key_length Inr kr by blast
    show ?thesis
    proof (cases "parse_value f r0")
      case (Inl e)
      then show ?thesis using "4.IH"(1) "4.prems" l kr Inr by auto
    next
      case v: (Inr vr)
      obtain v r1 where vr: "vr = (v, r1)" by (cases vr)
      have l1: "length r1 < length r0" using parse_length(1) v vr by blast
      show ?thesis
      proof (cases "skip_ws r1")
        case Nil
        then show ?thesis using Inr kr v vr by (simp add: Let_def out_of_fuel_def)
      next
        case (Cons d ds)
        have ld: "length ds < length r1" using skip_ws_length [of r1] Cons by simp
        have "parse_members f (dset k v acc) (skip_ws ds) \<noteq> Inl out_of_fuel"
          if "d \<noteq> CHR ''}''" "d = CHR '',''"
          by (rule "4.IH"(2) [OF refl Cons that])
            (use "4.prems" l l1 ld skip_ws_length [of ds] in simp)
        then show ?thesis
          using Inr kr v vr Cons by (auto simp: Let_def out_of_fuel_def)
      qed
    qed
  qed
next
  case (6 f acc s)
  show ?case
  proof (cases "parse_value f s")
    case (Inl e)
    then show ?thesis using "6.IH"(1) "6.prems" by auto
  next
    case v: (Inr vr)
    obtain v r1 where vr: "vr = (v, r1)" by (cases vr)
    have l1: "length r1 < length s" using parse_length(1) v vr by blast
    show ?thesis
    proof (cases "skip_ws r1")
      case Nil
      then show ?thesis using v vr by (simp add: Let_def out_of_fuel_def)
    next
      case (Cons d ds)
      have ld: "length ds < length r1" using skip_ws_length [of r1] Cons by simp
      have "parse_elements f (acc @ [v]) (skip_ws ds) \<noteq> Inl out_of_fuel"
        if "d \<noteq> CHR '']''" "d = CHR '',''"
        by (rule "6.IH"(2) [OF refl Cons that]) (use "6.prems" l1 ld skip_ws_length [of ds] in simp)
      then show ?thesis
        using v vr Cons by (auto simp: Let_def out_of_fuel_def)
    qed
  qed
qed simp_all

theorem json_loads_fuel: "json_loads s \<noteq> Inl out_of_fuel"
proof (cases "parse_value (2 * length s + 2) (skip_ws s)")
  case (Inl e)
  then show ?thesis
    using parse_no_fuel(1) [of "skip_ws s" "2 * length s + 2"] skip_ws_length [of s]
    by (auto simp: json_loads_def)
qed (auto simp: json_loads_def out_of_fuel_def split: prod.splits)

end
