(* ===== verification/Json_Roundtrip.thy ===== *)
theory Json_Roundtrip
  imports Json_Parse
begin

text \<open>
  Reading back what was written: \<open>json.loads\<close> returns the value whose compact text it is
  given. The canonical text therefore determines the payload up to the order of its keys,
  which is what makes the content hash of an artifact an identity of its payload. How a
  float is written is the parameter \<open>repr\<close>; \<open>reads_back\<close> states that the scanner reads
  \<open>repr x\<close> as \<open>x\<close> (\<open>float(repr(x)) == x\<close>).
\<close>

definition stop :: "string \<Rightarrow> bool" where
  "stop rest \<longleftrightarrow> (case rest of [] \<Rightarrow> True | c # _ \<Rightarrow> c \<in> {CHR '','', CHR '']'', CHR ''}''} \<or> json_space c)"

definition reads_back :: "(py_float \<Rightarrow> string) \<Rightarrow> py_float \<Rightarrow> bool" where
  "reads_back repr x \<longleftrightarrow>
     (\<forall>f rest. stop rest \<longrightarrow> skip_ws (repr x @ rest) = repr x @ rest
        \<and> (case repr x of [] \<Rightarrow> False | c # _ \<Rightarrow> c \<notin> {CHR '']'', CHR ''}''})
        \<and> parse_value (Suc f) (repr x @ rest) = Inr (JFloat x, rest))"

text \<open>Dictionaries have distinct keys, integers at most 4300 digits, floats are read back.\<close>

fun writable :: "(py_float \<Rightarrow> string) \<Rightarrow> json \<Rightarrow> bool" where
  "writable repr (JInt i) = (length (nat_digits (nat \<bar>i\<bar>)) \<le> 4300)"
| "writable repr (JFloat x) = reads_back repr x"
| "writable repr (JList xs) = list_all (writable repr) xs"
| "writable repr (JObj kvs) = (distinct (map fst kvs) \<and> list_all (\<lambda>(k, v). writable repr v) kvs)"
| "writable repr _ = True"

section \<open>Strings\<close>

lemma hex_value_digit: "n < 16 \<Longrightarrow> hex_value (hex_digit n) = Some n"
  by (auto simp: hex_value_def hex_digit_def Let_def)

lemma hex4_low:
  "n < 32 \<Longrightarrow> hex4 ([CHR ''0'', CHR ''0'', hex_digit (n div 16), hex_digit (n mod 16)] @ t) = Some (n, t)"
proof -
  assume n: "n < 32"
  have "hex_value (hex_digit (n div 16)) = Some (n div 16)" "hex_value (hex_digit (n mod 16)) = Some (n mod 16)"
    using n by (simp_all add: hex_value_digit)
  moreover have "hex_value (CHR ''0'') = Some 0" by (simp add: hex_value_def)
  ultimately show ?thesis by (simp add: hex4_def)
qed

lemma char_code: "(of_char c :: nat) = n \<Longrightarrow> (of_char d :: nat) = n \<Longrightarrow> c = d"
  by (metis of_char_eq_iff)

lemma scan_escaped: "scan_string (esc_char c @ t) = cons_res c (scan_string t)"
proof -
  let ?n = "of_char c :: nat"
  have esc: "scan_string (backslash # e # r) = cons_res x (scan_string r)"
    if "simple_escape e = Some x" "e \<noteq> CHR ''u''" for e x r
    using that by simp
  consider "c = quote" | "c = backslash" | "c = CHR 0x0A" | "c = CHR 0x0D" | "c = CHR 0x09"
    | "c = CHR 0x0C" | "c = CHR 0x08"
    | "c \<noteq> quote" "c \<noteq> backslash" "?n \<notin> {8, 9, 10, 12, 13}" "?n < 32"
    | "c \<noteq> quote" "c \<noteq> backslash" "\<not> ?n < 32"
    using char_code [of c 10 "CHR 0x0A"] char_code [of c 13 "CHR 0x0D"] char_code [of c 9 "CHR 0x09"]
      char_code [of c 12 "CHR 0x0C"] char_code [of c 8 "CHR 0x08"] by fastforce
  then show ?thesis
  proof cases
    case 8
    have h: "hex4 (CHR ''0'' # CHR ''0'' # hex_digit (?n div 16) # hex_digit (?n mod 16) # t) = Some (?n, t)"
      using hex4_low [OF 8(4), of t] by simp
    have "esc_char c = backslash # CHR ''u'' # CHR ''0'' # CHR ''0'' # [hex_digit (?n div 16), hex_digit (?n mod 16)]"
      using 8 by (simp add: esc_char_def Let_def)
    then show ?thesis using 8(4) h by simp
  next
    case 9
    then show ?thesis by (simp add: esc_char_def Let_def)
  qed (simp_all add: esc_char_def esc simple_escape_def Let_def)
qed

lemma scan_written: "scan_string (concat (map esc_char s) @ quote # rest) = Inr (s, rest)"
proof (induction s)
  case (Cons c s)
  then show ?case using scan_escaped [of c "concat (map esc_char s) @ quote # rest"]
    by (simp add: cons_res_def)
qed simp

section \<open>Integers\<close>

lemma nat_digits_cons: "\<exists>c cs. nat_digits n = c # cs \<and> is_digit c"
  using nat_digits_nonempty [of n] nat_digits_digits [of n] by (cases "nat_digits n") auto

lemma nat_digits_head: "nat_digits n = c # cs \<Longrightarrow> c = CHR ''0'' \<Longrightarrow> n = 0"
proof (induction n arbitrary: cs rule: nat_digits.induct)
  case (1 n)
  show ?case
  proof (cases "n < 10")
    case True
    then have "digit_value c = n" using 1(2) by (auto simp: nat_digits.simps [of n] digit_value_char)
    then show ?thesis using 1(3) by (simp add: digit_value_def)
  next
    case False
    then obtain ds where "nat_digits (n div 10) = c # ds"
      using 1(2) nat_digits_nonempty [of "n div 10"]
      by (cases "nat_digits (n div 10)") (simp_all add: nat_digits.simps [of n])
    then show ?thesis using 1(1) [OF False] 1(3) False by simp
  qed
qed

lemma stop_facts:
  assumes "stop rest"
  shows "takeWhile is_digit rest = []" "dropWhile is_digit rest = rest"
    "scan_frac rest = (None, rest)" "scan_exp rest = (None, rest)"
  using assms by (auto simp: stop_def json_space_def is_digit_def scan_frac_def scan_exp_def Let_def split: list.splits prod.splits)

lemma scan_digits_written:
  assumes "stop rest"
  shows "scan_digits (nat_digits n @ rest) = (nat_digits n, rest)"
proof -
  have "\<forall>c \<in> set (nat_digits n). is_digit c" using nat_digits_digits [of n] by (simp add: list_all_iff)
  then show ?thesis
    using stop_facts(1,2) [OF assms] by (simp add: scan_digits_def takeWhile_append2 dropWhile_append2)
qed

lemma scan_int_written: "stop rest \<Longrightarrow> scan_int (nat_digits n @ rest) = Some (nat_digits n, rest)"
proof -
  assume st: "stop rest"
  obtain c cs where c: "nat_digits n = c # cs" "is_digit c" using nat_digits_cons by blast
  show ?thesis
  proof (cases "c = CHR ''0''")
    case True
    then have "n = 0" using nat_digits_head [OF c(1)] by simp
    then have "nat_digits n = [CHR ''0'']"
      using char_code [of "char_of (48::nat)" 48 "CHR ''0''"] by (simp add: nat_digits.simps)
    then show ?thesis by (simp add: scan_int_def)
  next
    case False
    then show ?thesis using c scan_digits_written [OF st, of n] by (simp add: scan_int_def)
  qed
qed

lemma digit_not: "is_digit c \<Longrightarrow> c \<notin> {quote, CHR ''{'', CHR ''['', CHR '']'', CHR ''}'', CHR ''n'', CHR ''t'', CHR ''f'',
   CHR ''N'', CHR ''I'', CHR ''-'', CHR 0x20, CHR 0x09, CHR 0x0A, CHR 0x0D}"
  by (auto simp: is_digit_def)

lemma scan_number_written:
  assumes "stop rest" "length (nat_digits (nat \<bar>i\<bar>)) \<le> 4300"
  shows "scan_number (py_str_int i @ rest) = Inr (JInt i, rest)"
proof -
  obtain c cs where c: "nat_digits (nat \<bar>i\<bar>) = c # cs" "is_digit c" using nat_digits_cons by blast
  then have minus: "c \<noteq> CHR ''-''" using digit_not [OF c(2)] by simp
  note written = scan_int_written [OF assms(1), of "nat \<bar>i\<bar>"] stop_facts(3,4) [OF assms(1)]
  note val = nat_digits_value [of "nat \<bar>i\<bar>"]
  show ?thesis
  proof (cases "i < 0")
    case True
    then have "py_str_int i = CHR ''-'' # nat_digits (nat \<bar>i\<bar>)" by (simp add: py_str_int_def)
    then show ?thesis using True assms(2) written val
      by (simp add: scan_number_def make_number_def)
  next
    case False
    then have "py_str_int i = nat_digits (nat \<bar>i\<bar>)" by (simp add: py_str_int_def)
    then show ?thesis using False assms(2) written val minus c(1)
      by (simp add: scan_number_def make_number_def)
  qed
qed

lemma parse_int_written:
  assumes "stop rest" "length (nat_digits (nat \<bar>i\<bar>)) \<le> 4300"
  shows "parse_value (Suc f) (py_str_int i @ rest) = Inr (JInt i, rest)"
proof -
  obtain c cs where c: "nat_digits (nat \<bar>i\<bar>) = c # cs" "is_digit c" using nat_digits_cons by blast
  note nd = digit_not [OF c(2)]
  obtain d ds where d: "py_str_int i @ rest = d # ds" "d \<notin> {quote, CHR ''{'', CHR ''['', CHR ''n'', CHR ''t'', CHR ''f''}"
      "\<not> starts_nonfinite (d # ds)"
  proof (cases "i < 0")
    case True
    then have "py_str_int i @ rest = CHR ''-'' # c # cs @ rest"
      using c(1) by (simp add: py_str_int_def)
    then show ?thesis by (rule that) (use nd in \<open>auto simp: starts_nonfinite_def\<close>)
  next
    case False
    then have "py_str_int i @ rest = c # cs @ rest"
      using c(1) by (simp add: py_str_int_def)
    then show ?thesis by (rule that) (use nd in \<open>auto simp: starts_nonfinite_def\<close>)
  qed
  have "\<not> starts_with ''null'' (d # ds)" "\<not> starts_with ''true'' (d # ds)" "\<not> starts_with ''false'' (d # ds)"
    using d(2) by auto
  then have "parse_value (Suc f) (d # ds) = scan_number (d # ds)"
    using d(2,3) by (simp del: starts_with.simps)
  then show ?thesis using scan_number_written [OF assms] unfolding d(1) by simp
qed

section \<open>Values\<close>

lemma skip_ws_first: "\<not> json_space c \<Longrightarrow> skip_ws (c # cs) = c # cs"
  by (simp add: skip_ws_def)

abbreviation blank :: "string \<Rightarrow> bool" where
  "blank w \<equiv> list_all json_space w"

lemma skip_blank: "blank w \<Longrightarrow> \<not> json_space c \<Longrightarrow> skip_ws (w @ c # cs) = c # cs"
  by (induction w) (simp_all add: skip_ws_def)

lemma stop_blank: "blank w \<Longrightarrow> c \<in> {CHR '','', CHR '']'', CHR ''}''} \<Longrightarrow> stop (w @ c # cs)"
  by (cases w) (auto simp: stop_def json_space_def)

text \<open>
  \<open>spelled repr v t\<close>: the text \<open>t\<close> is a writing of \<open>v\<close>, with any blanks between the
  tokens and any encoding of the strings that the scanner undoes. Every layout of
  \<open>json.dumps\<close> is one.
\<close>

definition spells :: "string \<Rightarrow> string \<Rightarrow> bool" where
  "spells s t \<longleftrightarrow> (\<exists>body. t = quote # body \<and> (\<forall>rest. scan_string (body @ rest) = Inr (s, rest)))"

fun scalar :: "json \<Rightarrow> bool" where
  "scalar (JStr s) = False"
| "scalar (JList xs) = False"
| "scalar (JObj d) = False"
| "scalar v = True"

inductive spelled :: "(py_float \<Rightarrow> string) \<Rightarrow> json \<Rightarrow> string \<Rightarrow> bool"
  and spelled_elements :: "(py_float \<Rightarrow> string) \<Rightarrow> json list \<Rightarrow> string \<Rightarrow> bool"
  and spelled_members :: "(py_float \<Rightarrow> string) \<Rightarrow> json dict \<Rightarrow> string \<Rightarrow> bool"
  for repr where
  spelled_scalar: "scalar v \<Longrightarrow> writable repr v \<Longrightarrow> spelled repr v (dumps repr v)"
| spelled_str: "spells s t \<Longrightarrow> spelled repr (JStr s) t"
| spelled_nil: "blank w \<Longrightarrow> spelled repr (JList []) (''['' @ w @ '']'')"
| spelled_list: "blank w \<Longrightarrow> spelled_elements repr xs t \<Longrightarrow> spelled repr (JList xs) (''['' @ w @ t @ '']'')"
| spelled_empty: "blank w \<Longrightarrow> spelled repr (JObj []) (''{'' @ w @ ''}'')"
| spelled_obj: "blank w \<Longrightarrow> spelled_members repr d t \<Longrightarrow> distinct (dkeys d) \<Longrightarrow>
    spelled repr (JObj d) (''{'' @ w @ t @ ''}'')"
| spelled_last: "spelled repr v t \<Longrightarrow> blank w \<Longrightarrow> spelled_elements repr [v] (t @ w)"
| spelled_more: "spelled repr v t \<Longrightarrow> blank w1 \<Longrightarrow> blank w2 \<Longrightarrow> spelled_elements repr vs ts \<Longrightarrow>
    spelled_elements repr (v # vs) (t @ w1 @ '','' @ w2 @ ts)"
| spelled_last_pair: "spells k kt \<Longrightarrow> blank w1 \<Longrightarrow> blank w2 \<Longrightarrow> spelled repr v t \<Longrightarrow> blank w3 \<Longrightarrow>
    spelled_members repr [(k, v)] (kt @ w1 @ '':'' @ w2 @ t @ w3)"
| spelled_more_pairs: "spells k kt \<Longrightarrow> blank w1 \<Longrightarrow> blank w2 \<Longrightarrow> spelled repr v t \<Longrightarrow> blank w3 \<Longrightarrow>
    blank w4 \<Longrightarrow> spelled_members repr d ts \<Longrightarrow>
    spelled_members repr ((k, v) # d) (kt @ w1 @ '':'' @ w2 @ t @ w3 @ '','' @ w4 @ ts)"

text \<open>A writing starts with a character that is not a space and closes nothing.\<close>

definition opens :: "string \<Rightarrow> bool" where
  "opens t \<longleftrightarrow> (case t of [] \<Rightarrow> False | c # cs \<Rightarrow> \<not> json_space c \<and> c \<notin> {CHR '']'', CHR ''}''})"

lemma opens_append: "opens t \<Longrightarrow> opens (t @ u)"
  by (auto simp: opens_def split: list.splits)

lemma skip_opens: "blank w \<Longrightarrow> opens t \<Longrightarrow> skip_ws (w @ t @ rest) = t @ rest"
  by (cases t) (simp_all add: opens_def skip_blank)

lemma spells_opens: "spells s t \<Longrightarrow> opens t"
  by (auto simp: spells_def opens_def json_space_def)

lemma expect_key_spelled: "spells k kt \<Longrightarrow> blank w1 \<Longrightarrow> blank w2 \<Longrightarrow> opens t \<Longrightarrow>
    expect_key (kt @ w1 @ '':'' @ w2 @ t @ rest) = Inr (k, t @ rest)"
  using skip_blank [of w1 "CHR '':''" "w2 @ t @ rest"] skip_opens [of w2 t rest]
  by (auto simp: spells_def expect_key_def json_space_def)

lemma dumps_scalar:
  assumes "scalar v" "writable repr v"
  shows "opens (dumps repr v)"
    and "stop rest \<Longrightarrow> parse_value (Suc f) (dumps repr v @ rest) = Inr (v, rest)"
proof -
  have "opens (dumps repr v) \<and> (stop rest \<longrightarrow> parse_value (Suc f) (dumps repr v @ rest) = Inr (v, rest))"
  proof (cases v)
    case (JInt i)
    obtain c cs where c: "nat_digits (nat \<bar>i\<bar>) = c # cs" "is_digit c" using nat_digits_cons by blast
    have "opens (py_str_int i)"
      using digit_not [OF c(2)] c(1) by (cases "i < 0") (simp_all add: py_str_int_def opens_def json_space_def)
    then show ?thesis using JInt assms(2) parse_int_written by simp
  next
    case (JFloat x)
    have R: "stop rest \<Longrightarrow> skip_ws (repr x @ rest) = repr x @ rest
        \<and> (case repr x of [] \<Rightarrow> False | c # _ \<Rightarrow> c \<notin> {CHR '']'', CHR ''}''})
        \<and> parse_value (Suc f) (repr x @ rest) = Inr (JFloat x, rest)" for f rest
      using JFloat assms(2) by (simp add: reads_back_def)
    have "skip_ws (repr x) = repr x" "repr x \<noteq> []" using R [of "[]"] by (auto simp: stop_def)
    then have "\<not> json_space (hd (repr x))" by (simp add: skip_ws_def dropWhile_eq_self_iff)
    moreover obtain c cs where "repr x = c # cs" "c \<notin> {CHR '']'', CHR ''}''}"
      using R [of "[]"] by (cases "repr x") (simp_all add: stop_def del: parse_value.simps)
    ultimately have "opens (repr x)" by (simp add: opens_def)
    then show ?thesis using JFloat R by simp
  next
    case (JBool b)
    then show ?thesis by (cases b) (simp_all add: opens_def json_space_def)
  qed (use assms in \<open>simp_all add: opens_def json_space_def\<close>)
  then show "opens (dumps repr v)"
    "stop rest \<Longrightarrow> parse_value (Suc f) (dumps repr v @ rest) = Inr (v, rest)" by simp_all
qed

text \<open>The loops of the scanner on the two kinds of sequences.\<close>

lemma elements_step:
  assumes "parse_value f (t @ w @ c # rest) = Inr (v, w @ c # rest)" "blank w" "c \<in> {CHR '','', CHR '']''}"
  shows "parse_elements (Suc f) acc (t @ w @ c # rest)
    = (if c = CHR '']'' then Inr (JList (acc @ [v]), rest) else parse_elements f (acc @ [v]) (skip_ws rest))"
  using assms skip_blank [of w c rest] by (auto simp: json_space_def)

lemma members_step:
  assumes "expect_key s = Inr (k, t @ w @ c # rest)" "parse_value f (t @ w @ c # rest) = Inr (v, w @ c # rest)"
    and "blank w" "c \<in> {CHR '','', CHR ''}''}"
  shows "parse_members (Suc f) acc s
    = (if c = CHR ''}'' then Inr (JObj (dset k v acc), rest) else parse_members f (dset k v acc) (skip_ws rest))"
  using assms skip_blank [of w c rest] by (auto simp: json_space_def)

lemma spelled_parse:
  "spelled repr v t \<Longrightarrow> opens t
     \<and> (\<forall>rest f. stop rest \<longrightarrow> 2 * length t < f \<longrightarrow> parse_value f (t @ rest) = Inr (v, rest))"
  and "spelled_elements repr xs t' \<Longrightarrow> opens t'
     \<and> (\<forall>acc rest f. 2 * length t' + 1 < f \<longrightarrow>
          parse_elements f acc (t' @ CHR '']'' # rest) = Inr (JList (acc @ xs), rest))"
  and "spelled_members repr d t'' \<Longrightarrow> opens t''
     \<and> (\<forall>acc rest f. distinct (dkeys (acc @ d)) \<longrightarrow> 2 * length t'' + 1 < f \<longrightarrow>
          parse_members f acc (t'' @ CHR ''}'' # rest) = Inr (JObj (acc @ d), rest))"
proof (induction rule: spelled_spelled_elements_spelled_members.inducts)
  case (spelled_scalar v)
  have "parse_value f (dumps repr v @ rest) = Inr (v, rest)"
    if "stop rest" "2 * length (dumps repr v) < f" for rest f
    using dumps_scalar(2) [OF spelled_scalar that(1)] that(2) by (cases f) simp_all
  then show ?case using dumps_scalar(1) [OF spelled_scalar] by blast
next
  case (spelled_str s t)
  then obtain body where b: "t = quote # body" "\<And>rest. scan_string (body @ rest) = Inr (s, rest)"
    unfolding spells_def by blast
  have "parse_value f (t @ rest) = Inr (JStr s, rest)" if "2 * length t < f" for rest f
    using b that by (cases f) simp_all
  then show ?case using spells_opens [OF spelled_str] by blast
next
  case (spelled_nil w)
  have "parse_value f ((''['' @ w @ '']'') @ rest) = Inr (JList [], rest)"
    if "2 * length (''['' @ w @ '']'') < f" for rest f
    using that skip_blank [OF spelled_nil, of "CHR '']''" rest] by (cases f) (simp_all add: json_space_def)
  then show ?case by (simp add: opens_def json_space_def)
next
  case (spelled_list w xs t)
  have "parse_value f ((''['' @ w @ t @ '']'') @ rest) = Inr (JList xs, rest)"
    if f: "2 * length (''['' @ w @ t @ '']'') < f" for rest f
  proof -
    obtain f' where f': "f = Suc f'" using f by (cases f) auto
    obtain c cs where t: "t = c # cs" "c \<noteq> CHR '']''"
      using spelled_list.IH by (auto simp: opens_def split: list.splits)
    have "skip_ws (w @ t @ CHR '']'' # rest) = t @ CHR '']'' # rest"
      using spelled_list skip_opens by blast
    moreover have "parse_elements f' [] (t @ CHR '']'' # rest) = Inr (JList xs, rest)"
      using spelled_list.IH f f' by simp
    ultimately show ?thesis using t f' by simp
  qed
  then show ?case by (simp add: opens_def json_space_def)
next
  case (spelled_empty w)
  have "parse_value f ((''{'' @ w @ ''}'') @ rest) = Inr (JObj [], rest)"
    if "2 * length (''{'' @ w @ ''}'') < f" for rest f
    using that skip_blank [OF spelled_empty, of "CHR ''}''" rest] by (cases f) (simp_all add: json_space_def)
  then show ?case by (simp add: opens_def json_space_def)
next
  case (spelled_obj w d t)
  have "parse_value f ((''{'' @ w @ t @ ''}'') @ rest) = Inr (JObj d, rest)"
    if f: "2 * length (''{'' @ w @ t @ ''}'') < f" for rest f
  proof -
    obtain f' where f': "f = Suc f'" using f by (cases f) auto
    obtain c cs where t: "t = c # cs" "c \<noteq> CHR ''}''"
      using spelled_obj.IH by (auto simp: opens_def split: list.splits)
    have "skip_ws (w @ t @ CHR ''}'' # rest) = t @ CHR ''}'' # rest"
      using spelled_obj skip_opens by blast
    moreover have "parse_members f' [] (t @ CHR ''}'' # rest) = Inr (JObj d, rest)"
      using spelled_obj f f' by simp
    ultimately show ?thesis using t f' by simp
  qed
  then show ?case by (simp add: opens_def json_space_def)
next
  case (spelled_last v t w)
  have "parse_elements f acc ((t @ w) @ CHR '']'' # rest) = Inr (JList (acc @ [v]), rest)"
    if f: "2 * length (t @ w) + 1 < f" for acc rest f
  proof -
    obtain f' where f': "f = Suc f'" using f by (cases f) auto
    have "parse_value f' (t @ w @ CHR '']'' # rest) = Inr (v, w @ CHR '']'' # rest)"
      using spelled_last.IH stop_blank [OF spelled_last.hyps] f f' by simp
    from elements_step [OF this spelled_last.hyps] show ?thesis by (simp add: f')
  qed
  then show ?case using spelled_last.IH opens_append by blast
next
  case (spelled_more v t w1 w2 vs ts)
  have "parse_elements f acc ((t @ w1 @ '','' @ w2 @ ts) @ CHR '']'' # rest) = Inr (JList (acc @ v # vs), rest)"
    if f: "2 * length (t @ w1 @ '','' @ w2 @ ts) + 1 < f" for acc rest f
  proof -
    obtain f' where f': "f = Suc f'" using f by (cases f) auto
    let ?r = "w2 @ ts @ CHR '']'' # rest"
    have "parse_value f' (t @ w1 @ CHR '','' # ?r) = Inr (v, w1 @ CHR '','' # ?r)"
      using spelled_more.IH stop_blank [OF spelled_more.hyps(1)] f f' by simp
    from elements_step [OF this spelled_more.hyps(1)]
    have "parse_elements f acc (t @ w1 @ CHR '','' # ?r) = parse_elements f' (acc @ [v]) (skip_ws ?r)"
      by (simp add: f')
    also have "skip_ws ?r = ts @ CHR '']'' # rest"
      using skip_opens [OF spelled_more.hyps(2)] spelled_more.IH by blast
    also have "parse_elements f' (acc @ [v]) (ts @ CHR '']'' # rest) = Inr (JList ((acc @ [v]) @ vs), rest)"
      using spelled_more.IH f f' by simp
    finally show ?thesis by simp
  qed
  then show ?case using spelled_more.IH opens_append by blast
next
  case (spelled_last_pair k kt w1 w2 v t w3)
  have "parse_members f acc ((kt @ w1 @ '':'' @ w2 @ t @ w3) @ CHR ''}'' # rest) = Inr (JObj (acc @ [(k, v)]), rest)"
    if d: "distinct (dkeys (acc @ [(k, v)]))" and f: "2 * length (kt @ w1 @ '':'' @ w2 @ t @ w3) + 1 < f" for acc rest f
  proof -
    obtain f' where f': "f = Suc f'" using f by (cases f) auto
    have new: "dset k v acc = acc @ [(k, v)]" by (rule dset_new) (use d in auto)
    have key: "expect_key (kt @ w1 @ '':'' @ w2 @ t @ w3 @ CHR ''}'' # rest) = Inr (k, t @ w3 @ CHR ''}'' # rest)"
      using expect_key_spelled spelled_last_pair by blast
    have "parse_value f' (t @ w3 @ CHR ''}'' # rest) = Inr (v, w3 @ CHR ''}'' # rest)"
      using spelled_last_pair.IH stop_blank [OF spelled_last_pair.hyps(4)] f f' by simp
    from members_step [OF key this spelled_last_pair.hyps(4)] show ?thesis by (simp add: f' new)
  qed
  then show ?case using opens_append spells_opens [OF spelled_last_pair.hyps(1)] by blast
next
  case (spelled_more_pairs k kt w1 w2 v t w3 w4 d ts)
  have "parse_members f acc ((kt @ w1 @ '':'' @ w2 @ t @ w3 @ '','' @ w4 @ ts) @ CHR ''}'' # rest)
      = Inr (JObj (acc @ (k, v) # d), rest)"
    if d: "distinct (dkeys (acc @ (k, v) # d))"
      and f: "2 * length (kt @ w1 @ '':'' @ w2 @ t @ w3 @ '','' @ w4 @ ts) + 1 < f" for acc rest f
  proof -
    obtain f' where f': "f = Suc f'" using f by (cases f) auto
    let ?r = "w4 @ ts @ CHR ''}'' # rest"
    have new: "dset k v acc = acc @ [(k, v)]" by (rule dset_new) (use d in auto)
    have key: "expect_key (kt @ w1 @ '':'' @ w2 @ t @ w3 @ CHR '','' # ?r) = Inr (k, t @ w3 @ CHR '','' # ?r)"
      using expect_key_spelled spelled_more_pairs by blast
    have "parse_value f' (t @ w3 @ CHR '','' # ?r) = Inr (v, w3 @ CHR '','' # ?r)"
      using spelled_more_pairs.IH stop_blank [OF spelled_more_pairs.hyps(4)] f f' by simp
    from members_step [OF key this spelled_more_pairs.hyps(4)]
    have "parse_members f acc (kt @ w1 @ '':'' @ w2 @ t @ w3 @ CHR '','' # ?r)
        = parse_members f' (acc @ [(k, v)]) (skip_ws ?r)" by (simp add: f' new)
    also have "skip_ws ?r = ts @ CHR ''}'' # rest"
      using skip_opens [OF spelled_more_pairs.hyps(5)] spelled_more_pairs.IH by blast
    also have "parse_members f' (acc @ [(k, v)]) (ts @ CHR ''}'' # rest) = Inr (JObj ((acc @ [(k, v)]) @ d), rest)"
      using spelled_more_pairs.IH f f' d by simp
    finally show ?thesis by simp
  qed
  then show ?case using opens_append spells_opens [OF spelled_more_pairs.hyps(1)] by blast
qed

theorem json_loads_spelled: "spelled repr v t \<Longrightarrow> json_loads t = Inr v"
proof -
  assume "spelled repr v t"
  note P = spelled_parse(1) [OF this]
  then have "stop [] \<longrightarrow> 2 * length t < 2 * length t + 2 \<longrightarrow> parse_value (2 * length t + 2) (t @ []) = Inr (v, [])"
    by blast
  then have "opens t" "parse_value (2 * length t + 2) t = Inr (v, [])"
    using P by (simp_all add: stop_def del: parse_value.simps)
  then show ?thesis using skip_opens [of "[]" t "[]"] by (simp add: json_loads_def skip_ws_def)
qed

section \<open>Writers\<close>

lemma join_cons: "ys \<noteq> [] \<Longrightarrow> join sep (y # ys) = y @ sep @ join sep ys"
  by (cases ys) auto

lemma spelled_join:
  assumes "\<And>x. x \<in> set xs \<Longrightarrow> spelled repr x (g x)" "xs \<noteq> []" "blank w1" "blank w2" "blank w3"
  shows "spelled_elements repr xs (join (w1 @ '','' @ w2) (map g xs) @ w3)"
  using assms(1,2)
proof (induction xs)
  case (Cons x xs)
  then show ?case
    using spelled_last [of repr x "g x" w3] spelled_more [of repr x "g x" w1 w2 xs] assms(3-5)
    by (cases xs) simp_all
qed simp

lemma spelled_join_pairs:
  assumes "\<And>k v. (k, v) \<in> set d \<Longrightarrow> spelled repr v (g v)" "\<And>k. spells k (enc k)" "d \<noteq> []"
    and "blank w1" "blank w2" "blank w3" "blank w4" "blank w5"
  shows "spelled_members repr d
    (join (w3 @ '','' @ w4) (map (\<lambda>(k, v). enc k @ (w1 @ '':'' @ w2) @ g v) d) @ w5)"
  using assms(1,3)
proof (induction d)
  case (Cons kv d)
  obtain k v where kv: "kv = (k, v)" by (cases kv)
  have v: "spelled repr v (g v)" using Cons.prems(1) [of k v] kv by simp
  show ?case
  proof (cases d)
    case Nil
    then show ?thesis using spelled_last_pair [OF assms(2) [of k] assms(4,5) v assms(8)] kv by simp
  next
    case (Cons kv' d')
    then have "spelled_members repr d
        (join (w3 @ '','' @ w4) (map (\<lambda>(k, v). enc k @ (w1 @ '':'' @ w2) @ g v) d) @ w5)"
      by (intro Cons.IH) (use Cons.prems(1) Cons in auto)
    from spelled_more_pairs [OF assms(2) [of k] assms(4,5) v assms(6,7) this] show ?thesis
      using kv join_cons [of "map (\<lambda>(k, v). enc k @ (w1 @ '':'' @ w2) @ g v) d"] Cons by simp
  qed
qed simp

lemma spells_json_string: "spells s (json_string s)"
  using scan_written [of s] by (simp add: spells_def json_string_def)

lemma dumps_spelled: "writable repr v \<Longrightarrow> spelled repr v (dumps repr v)"
proof (induction v)
  case (JStr s)
  then show ?case using spelled_str [OF spells_json_string] by simp
next
  case (JList xs)
  show ?case
  proof (cases "xs = []")
    case False
    have "spelled_elements repr xs (join ([] @ '','' @ []) (map (dumps repr) xs) @ [])"
      by (rule spelled_join) (use JList False in \<open>auto simp: list_all_iff\<close>)
    then show ?thesis using spelled_list [of "[]"] by simp
  qed (use spelled_nil [of "[]"] in simp)
next
  case (JObj d)
  show ?case
  proof (cases "d = []")
    case False
    have "spelled repr v (dumps repr v)" if "(k, v) \<in> set d" for k v
      using JObj.IH [OF that, of v] JObj.prems that by (auto simp: list_all_iff)
    then have "spelled_members repr d
        (join ([] @ '','' @ []) (map (\<lambda>(k, v). json_string k @ ([] @ '':'' @ []) @ dumps repr v) d) @ [])"
      by (intro spelled_join_pairs spells_json_string) (use False in auto)
    then show ?thesis using spelled_obj [of "[]"] JObj.prems by simp
  qed (use spelled_empty [of "[]"] in simp)
qed (simp_all only: spelled_scalar scalar.simps)

theorem json_loads_dumps: "writable repr v \<Longrightarrow> json_loads (dumps repr v) = Inr v"
  using json_loads_spelled dumps_spelled by blast

text \<open>Sorting the keys keeps a value writable, so the canonical text determines it.\<close>

lemma distinct_map_sort: "distinct (map f xs) \<Longrightarrow> distinct (map f (sort_key k xs))"
  by (simp add: distinct_map)

lemma writable_sort_keys: "writable repr v \<Longrightarrow> writable repr (sort_keys v)"
proof (induction v)
  case (JObj kvs)
  have "distinct (map fst (map (\<lambda>(k, v). (k, sort_keys v)) kvs))"
    using JObj.prems by (simp add: comp_def case_prod_beta')
  then have "distinct (map fst (sort_key fst (map (\<lambda>(k, v). (k, sort_keys v)) kvs)))"
    by (rule distinct_map_sort)
  moreover have "writable repr (sort_keys v)" if "(k, v) \<in> set kvs" for k v
    using JObj.IH [OF that, of v] JObj.prems that by (auto simp: list_all_iff)
  ultimately show ?case by (auto simp: list_all_iff)
qed (auto simp: list_all_iff)

theorem canonical_json_reads:
  "writable repr v \<Longrightarrow> json_loads (canonical_json repr v) = Inr (sort_keys v)"
  by (simp add: canonical_json_def json_loads_dumps writable_sort_keys)

theorem canonical_json_inj:
  assumes "writable repr a" "writable repr b"
  shows "canonical_json repr a = canonical_json repr b \<longleftrightarrow> sort_keys a = sort_keys b"
  using canonical_json_reads [OF assms(1)] canonical_json_reads [OF assms(2)]
  by (metis canonical_json_def sum.inject(2))

end
