(* ===== verification/Prompts.thy ===== *)
theory Prompts
  imports Artifacts Json_Roundtrip
begin

text \<open>
  What is sent to a model and what is read from its answer: \<open>render_contract\<close>
  (\<open>prompts/render.py\<close>), \<open>parse_output\<close> (\<open>prompts/parsers.py\<close>) and the stricter
  \<open>extract_code\<close> (\<open>harness/code_extract.py\<close>). The two modules share one regular
  expression, three backquotes, an optional \<open>python\<close> or \<open>py\<close> in any case, \<open>\s*\n\<close>, a
  shortest body and three backquotes; its matcher is written out and shown sound.
\<close>

section \<open>Code blocks\<close>

definition fence :: string where
  "fence = [CHR 0x60, CHR 0x60, CHR 0x60]"

text \<open>\<open>(?:python|py)?\<close> under \<open>IGNORECASE\<close>: how many characters it takes.\<close>

definition language_length :: "string \<Rightarrow> nat" where
  "language_length s =
     (if starts_with ''python'' (map ascii_lower (take 6 s)) then 6
      else if starts_with ''py'' (map ascii_lower (take 2 s)) then 2 else 0)"

text \<open>
  \<open>\s*\n\<close>: the greedy run of spaces gives back up to its last newline. A fence is not made
  of spaces, so a shorter run never helps the rest of the pattern.
\<close>

definition after_newline :: "string \<Rightarrow> string option" where
  "after_newline s =
     (let ws = takeWhile is_space s in
      if newline \<in> set ws
      then Some (rev (takeWhile (\<lambda>c. c \<noteq> newline) (rev ws)) @ dropWhile is_space s)
      else None)"

text \<open>\<open>(.*?)\<close> followed by a fence: the text before the first fence and the text after it.\<close>

fun split_fence :: "string \<Rightarrow> (string \<times> string) option" where
  "split_fence [] = None"
| "split_fence (c # cs) =
     (if starts_with fence (c # cs) then Some ([], drop 3 (c # cs))
      else map_option (\<lambda>(body, rest). (c # body, rest)) (split_fence cs))"

definition match_block :: "string \<Rightarrow> (string \<times> string) option" where
  "match_block s =
     (if \<not> starts_with fence s then None
      else (let r = drop 3 s in
            case after_newline (drop (language_length r) r) of
              None \<Rightarrow> None | Some body \<Rightarrow> split_fence body))"

lemma split_fence_length: "split_fence s = Some (b, r) \<Longrightarrow> length r < length s"
  by (induction s arbitrary: b) (auto split: if_splits)

lemma after_newline_length: "after_newline s = Some t \<Longrightarrow> length t < length s"
proof -
  assume a: "after_newline s = Some t"
  let ?ws = "takeWhile is_space s"
  have n: "newline \<in> set ?ws" using a by (simp add: after_newline_def Let_def split: if_splits)
  have t: "t = rev (takeWhile (\<lambda>c. c \<noteq> newline) (rev ?ws)) @ dropWhile is_space s"
    using a n by (simp add: after_newline_def Let_def)
  have "takeWhile (\<lambda>c. c \<noteq> newline) (rev ?ws) \<noteq> rev ?ws"
    using n by (metis (full_types) set_rev takeWhile_eq_all_conv)
  then have "length (takeWhile (\<lambda>c. c \<noteq> newline) (rev ?ws)) < length ?ws"
    by (metis append_eq_conv_conj le_neq_implies_less length_rev length_takeWhile_le take_all_iff
        takeWhile_dropWhile_id order_refl)
  moreover have "length s = length ?ws + length (dropWhile is_space s)"
    by (metis length_append takeWhile_dropWhile_id)
  ultimately show ?thesis using t by simp
qed

lemma match_block_length: "match_block s = Some (b, r) \<Longrightarrow> length r < length s"
  by (auto simp: match_block_def Let_def split: if_splits option.splits
      dest!: split_fence_length after_newline_length)

text \<open>\<open>_CODE_BLOCK.findall(text)\<close>: leftmost matches that do not overlap.\<close>

function find_blocks :: "string \<Rightarrow> string list" where
  "find_blocks [] = []"
| "find_blocks (c # cs) =
     (case match_block (c # cs) of
        Some (body, rest) \<Rightarrow> body # find_blocks rest
      | None \<Rightarrow> find_blocks cs)"
  by pat_completeness auto
termination
  by (relation "measure length") (auto dest: match_block_length)

section \<open>The parser of model answers\<close>

definition code_of :: "string \<Rightarrow> string \<Rightarrow> code_artifact" where
  "code_of code source =
     \<lparr>co_schema_version = ''1.0'', co_language = ''python'', co_code = code,
      co_source_node = source, co_explanation = None\<rparr>"

text \<open>\<open>text[start : end + 1]\<close> between the first opening and the last closing brace.\<close>

definition json_slice :: "string \<Rightarrow> string res" where
  "json_slice s =
     (let start = find_char CHR ''{'' s; stop = rfind_char CHR ''}'' s in
      if start < 0 \<or> stop \<le> start then Inl (value_error ''No JSON object found'')
      else Inr (take (nat (stop + 1 - start)) (drop (nat start) s)))"

definition parse_output :: "platform \<Rightarrow> string \<Rightarrow> string \<Rightarrow> string \<Rightarrow> string \<Rightarrow> payload_model res" where
  "parse_output P parser_id body output_schema src =
     (if dget payload_schemas output_schema = None then Inl (key_error output_schema)
      else if parser_id = ''python_code''
      then (let blocks = find_blocks body in
            Inr (MCode (code_of (py_strip (if blocks = [] then body else last blocks)) src)))
      else rbind (json_slice body) (\<lambda>slice.
           rbind (json_loads slice) (\<lambda>v.
           model_validate P output_schema v)))"

text \<open>\<open>extract_code\<close> refuses an answer with a dangling fence.\<close>

definition extract_code :: "string \<Rightarrow> string res" where
  "extract_code body =
     (let matches = find_blocks body; stripped = py_strip body in
      if matches \<noteq> [] then Inr (py_strip (last matches))
      else if starts_with fence stripped \<or> ends_with fence stripped
      then Inl (value_error ''Malformed code block'')
      else Inr stripped)"

section \<open>Rendering a contract\<close>

text \<open>\<open>json.dumps(v, ensure_ascii=False, indent=2)\<close>.\<close>

definition indent_line :: "nat \<Rightarrow> string" where
  "indent_line n = newline # replicate (2 * n) CHR '' ''"

fun dumps_indent :: "(py_float \<Rightarrow> string) \<Rightarrow> nat \<Rightarrow> json \<Rightarrow> string" where
  "dumps_indent repr n (JList xs) =
     (if xs = [] then ''[]''
      else ''['' @ indent_line (n + 1)
           @ join ('','' @ indent_line (n + 1)) (map (dumps_indent repr (n + 1)) xs)
           @ indent_line n @ '']'')"
| "dumps_indent repr n (JObj kvs) =
     (if kvs = [] then ''{}''
      else ''{'' @ indent_line (n + 1)
           @ join ('','' @ indent_line (n + 1))
               (map (\<lambda>(k, v). json_string k @ '': '' @ dumps_indent repr (n + 1) v) kvs)
           @ indent_line n @ ''}'')"
| "dumps_indent repr n v = dumps repr v"

record message =
  msg_role :: string
  msg_content :: string

definition artifacts_payload :: "envelope dict \<Rightarrow> json" where
  "artifacts_payload inputs =
     JObj (map (\<lambda>(slot, a). (slot,
       JObj [(''artifact_type'', JStr (artifact_type a)), (''payload'', payload a)]))
       (sort_key fst inputs))"

definition render_contract :: "platform \<Rightarrow> agent_contract \<Rightarrow> envelope dict \<Rightarrow> message list" where
  "render_contract P c inputs =
     (let serialized = dumps_indent (float_repr P) 0 (artifacts_payload inputs) in
      [\<lparr>msg_role = ''system'', msg_content = ct_system_prompt c\<rparr>,
       \<lparr>msg_role = ''user'',
        msg_content = py_replace ''{artifacts_json}'' serialized (ct_user_prompt c)\<rparr>])"

section \<open>What the parser returns\<close>

lemma split_fence_sound:
  "split_fence s = Some (b, r) \<Longrightarrow> s = b @ fence @ r \<and> (\<forall>x y. b @ fence = x @ fence @ y \<longrightarrow> y = [])"
proof (induction s arbitrary: b r)
  case (Cons c s)
  show ?case
  proof (cases "starts_with fence (c # s)")
    case True
    then obtain t where t: "c # s = fence @ t" by (auto simp: starts_with_iff)
    have "y = []" if "fence = x @ fence @ y" for x y
      using arg_cong [OF that, of length] by simp
    moreover have "b = []" "r = t" using Cons.prems True t by (auto simp: fence_def)
    ultimately show ?thesis using t by simp
  next
    case False
    then obtain b' where b: "split_fence s = Some (b', r)" "b = c # b'"
      using Cons.prems by (auto simp del: starts_with.simps)
    note IH = Cons.IH [OF b(1)]
    have "y = []" if "b @ fence = x @ fence @ y" for x y
    proof (cases x)
      case Nil
      then have "c # s = fence @ y @ r" using that b(2) IH by simp
      then show ?thesis using False by (metis starts_with_iff)
    next
      case (Cons z zs)
      then have "b' @ fence = zs @ fence @ y" using that b(2) by simp
      then show ?thesis using IH by blast
    qed
    then show ?thesis using IH b(2) by simp
  qed
qed simp

lemma starts_append: "starts_with p (p @ t)"
  by (simp add: starts_with_iff)

text \<open>A body without a backquote ends at the first fence after it.\<close>

lemma split_fence_plain:
  "CHR 0x60 \<notin> set b \<Longrightarrow> split_fence (b @ fence @ r) = Some (b, r)"
proof (induction b)
  case Nil
  then show ?case by (simp add: fence_def)
next
  case (Cons c b)
  then have "\<not> starts_with fence ((c # b) @ fence @ r)" by (simp add: fence_def)
  then show ?case using Cons by (simp del: starts_with.simps)
qed

lemma find_blocks_plain:
  "CHR 0x60 \<notin> set pre \<Longrightarrow> find_blocks (pre @ s) = find_blocks s"
proof (induction pre)
  case (Cons c pre)
  then have "match_block (c # pre @ s) = None" by (simp add: match_block_def fence_def)
  then show ?case using Cons by simp
qed simp

text \<open>Stripping does not see the spaces the pattern took off the front of the body.\<close>

lemma strip_after_newline: "after_newline s = Some t \<Longrightarrow> py_strip t = py_strip s"
proof -
  assume a: "after_newline s = Some t"
  let ?ws = "takeWhile is_space s"
  have t: "t = rev (takeWhile (\<lambda>c. c \<noteq> newline) (rev ?ws)) @ dropWhile is_space s"
    using a by (simp add: after_newline_def Let_def split: if_splits)
  have "\<forall>c \<in> set (rev (takeWhile (\<lambda>c. c \<noteq> newline) (rev ?ws))). is_space c"
    by (metis set_rev set_takeWhileD)
  then have "dropWhile is_space t = dropWhile is_space s"
    unfolding t using dropWhile_append2 dropWhile_idem by metis
  then show ?thesis by (simp add: py_strip_def)
qed

text \<open>One fenced block in an answer without other backquotes.\<close>

lemma find_one_block:
  assumes "CHR 0x60 \<notin> set pre" "CHR 0x60 \<notin> set code" "CHR 0x60 \<notin> set post"
    and lang: "lang \<in> {''python'', ''py'', ''Python'', ''''}"
  obtains body where "find_blocks (pre @ fence @ lang @ newline # code @ fence @ post) = [body]"
    "py_strip body = py_strip code"
proof -
  let ?t = "newline # code @ fence @ post"
  obtain body where b: "after_newline ?t = Some (body @ fence @ post)" "py_strip body = py_strip code"
      "CHR 0x60 \<notin> set body"
  proof -
    let ?ws = "takeWhile is_space (newline # code)" and ?rest = "dropWhile is_space (newline # code)"
    let ?keep = "rev (takeWhile (\<lambda>c. c \<noteq> newline) (rev ?ws))"
    have sp: "is_space newline" "\<not> is_space CHR 0x60" by (simp_all add: is_space_def newline_def)
    have tw: "takeWhile is_space ?t = ?ws" "dropWhile is_space ?t = ?rest @ fence @ post"
    proof -
      have "takeWhile is_space (xs @ fence @ post) = takeWhile is_space xs
          \<and> dropWhile is_space (xs @ fence @ post) = dropWhile is_space xs @ fence @ post" for xs
        using sp(2) by (induction xs) (simp_all add: fence_def)
      from this [of "newline # code"] show "takeWhile is_space ?t = ?ws"
        "dropWhile is_space ?t = ?rest @ fence @ post" by auto
    qed
    have "newline \<in> set ?ws" using sp by simp
    then have a: "after_newline ?t = Some ((?keep @ ?rest) @ fence @ post)"
      "after_newline (newline # code) = Some (?keep @ ?rest)"
      unfolding after_newline_def tw by (simp_all add: Let_def)
    have "py_strip (newline # code) = py_strip code" using sp(1) by (simp add: py_strip_def)
    moreover have "set ?keep \<subseteq> set (newline # code)" "set ?rest \<subseteq> set (newline # code)"
      using set_takeWhileD [of _ "\<lambda>c. c \<noteq> newline" "rev ?ws"]
        set_takeWhileD [of _ is_space "newline # code"] set_dropWhileD [of _ is_space "newline # code"]
      unfolding set_rev by blast+
    then have "CHR 0x60 \<notin> set (?keep @ ?rest)"
      using assms(2) by (auto simp: newline_def)
    ultimately show thesis using that [OF a(1)] strip_after_newline [OF a(2)] by simp
  qed
  have "char_of (112::nat) = CHR ''p''" by (rule char_code [of _ 112]) simp_all
  then have "language_length (lang @ ?t) = length lang"
    using lang by (auto simp: language_length_def ascii_lower_def newline_def)
  then have "match_block (fence @ lang @ ?t) = Some (body, post)"
    using b split_fence_plain [OF b(3), of post] by (simp add: match_block_def fence_def)
  moreover have "find_blocks post = []" using find_blocks_plain [OF assms(3), of "[]"] by simp
  ultimately have "find_blocks (fence @ lang @ ?t) = [body]"
    by (simp add: fence_def)
  then show thesis using that b(2) find_blocks_plain [OF assms(1)] by simp
qed

lemma parse_code_answer:
  assumes "CHR 0x60 \<notin> set pre" "CHR 0x60 \<notin> set code" "CHR 0x60 \<notin> set post"
    "lang \<in> {''python'', ''py'', ''Python'', ''''}" "dget payload_schemas schema \<noteq> None"
  shows "parse_output P ''python_code'' (pre @ fence @ lang @ newline # code @ fence @ post) schema src
    = Inr (MCode (code_of (py_strip code) src))"
proof -
  obtain body where "find_blocks (pre @ fence @ lang @ newline # code @ fence @ post) = [body]"
    "py_strip body = py_strip code"
    using find_one_block [OF assms(1-4)] .
  then show ?thesis using assms(5) by (auto simp: parse_output_def)
qed

text \<open>A JSON object between other text is cut out exactly when the text has no brace.\<close>

lemma json_slice_exact:
  assumes "CHR ''{'' \<notin> set pre" "CHR ''}'' \<notin> set post"
  shows "json_slice (pre @ (CHR ''{'' # mid @ ''}'') @ post) = Inr (CHR ''{'' # mid @ ''}'')"
proof -
  let ?s = "pre @ (CHR ''{'' # mid @ ''}'') @ post"
  have "takeWhile (\<lambda>x. x \<noteq> CHR ''{'') ?s = pre"
    using assms(1) by (subst takeWhile_append2) auto
  then have s: "find_char CHR ''{'' ?s = int (length pre)" by (simp add: find_char_def)
  have "takeWhile (\<lambda>x. x \<noteq> CHR ''}'') (rev ?s) = rev post"
    using assms(2) by simp (subst takeWhile_append2, auto)
  then have e: "rfind_char CHR ''}'' ?s = int (length pre) + int (length mid) + 1"
    by (simp add: rfind_char_def)
  show ?thesis unfolding json_slice_def s e by (simp add: Let_def nat_add_distrib)
qed

lemma spelled_braces: "spelled repr (JObj kvs) t \<Longrightarrow> \<exists>mid. t = CHR ''{'' # mid @ ''}''"
  by (erule spelled.cases) auto

lemma model_dump_object: "\<exists>kvs. model_dump m = JObj kvs"
  by (cases m) (simp_all add: dump_problem_def dump_algorithm_plan_def dump_edge_case_def
      dump_combined_plan_def dump_code_def dump_failure_def dump_repair_input_def dump_repair_def
      dump_harness_result_def dump_final_code_def)

text \<open>Any writing of a model is found in an answer and read, whatever its layout.\<close>

lemma parse_json_spelled:
  assumes "pydantic_ok (pyd P)" "wf_model m" "spelled repr (model_dump m) t"
    and "CHR ''{'' \<notin> set pre" "CHR ''}'' \<notin> set post" "pid \<noteq> ''python_code''"
  shows "parse_output P pid (pre @ t @ post) (type_name m) src = Inr m"
proof -
  obtain kvs where k: "model_dump m = JObj kvs" using model_dump_object by blast
  obtain mid where mid: "t = CHR ''{'' # mid @ ''}''"
    using spelled_braces assms(3) k by metis
  have "json_slice (pre @ t @ post) = Inr t"
    unfolding mid by (rule json_slice_exact [OF assms(4,5)])
  then show ?thesis
    using assms(6) json_loads_spelled [OF assms(3)] validate_class_dump [OF assms(1,2)] type_name_registered [of m]
    by (simp add: parse_output_def model_validate_def)
qed

lemma parse_json_answer:
  assumes "pydantic_ok (pyd P)" "wf_model m" "writable repr (model_dump m)"
    and "CHR ''{'' \<notin> set pre" "CHR ''}'' \<notin> set post" "pid \<noteq> ''python_code''"
  shows "parse_output P pid (pre @ dumps repr (model_dump m) @ post) (type_name m) src = Inr m"
  by (rule parse_json_spelled [OF assms(1,2) dumps_spelled [OF assms(3)] assms(4-6)])

text \<open>What the parser returns from a JSON answer has the declared schema.\<close>

lemma parse_output_type:
  "parse_output P pid body schema src = Inr m \<Longrightarrow> pid \<noteq> ''python_code'' \<Longrightarrow> type_name m = schema"
  by (auto simp: parse_output_def model_validate_def res_simps split: if_splits dest: validate_class_type)

end
