(* ===== verification/Executors.thy ===== *)
theory Executors
  imports Prompts Runtime_State "HOL-Library.Product_Lexorder"
begin

text \<open>
  The node executors (\<open>executors/\<close>). What they call outside the program is gathered in the
  record \<open>services\<close>: the model client, the sandbox, CPython's \<open>compile\<close>, the parser of
  dates, and per node the clock, the random suffix and the time stamp. A call that raises,
  a time limit that expires included, answers \<open>Inl\<close>. Each executor is one definition per
  \<open>execute\<close> method; \<open>execute_safely\<close> is the registry, which turns \<open>ValueError\<close>,
  \<open>KeyError\<close> and \<open>TimeoutError\<close> into a failed result and lets everything else through.

  The locale \<open>node_executor\<close> states what the runtime relies on; it is interpreted on the
  four executors and on the registry.
\<close>

section \<open>What the executors call\<close>

record llm_request =
  rq_messages :: "message list"
  rq_model :: string
  rq_temperature :: py_float
  rq_max_tokens :: int
  rq_timeout_seconds :: py_float
  rq_metadata :: "string dict"

record llm_response =
  rs_text :: string
  rs_model :: string
  rs_latency_ms :: int
  rs_usage :: llm_usage
  rs_request_id :: "string option"

text \<open>\<open>AgentVisibleLCBTask\<close>: what a sandbox may see, without private tests.\<close>

record visible_task =
  vt_question_id :: string
  vt_question_title :: string
  vt_question_content :: string
  vt_platform :: string
  vt_contest_date :: string
  vt_starter_code :: string
  vt_difficulty :: string
  vt_public_test_cases :: "public_example list"
  vt_function_name :: "string option"
  vt_metadata_public :: "json dict"

record test_result =
  tr_index :: int
  tr_passed :: bool
  tr_timed_out :: bool
  tr_runtime_error :: "string option"
  tr_actual_output :: "string option"

record sandbox_result =
  sb_compiled :: bool
  sb_passed_count :: int
  sb_total_count :: int
  sb_runtime_errors :: int
  sb_timeouts :: int
  sb_stderr_summary :: "string option"
  sb_results :: "test_result list"
  sb_duration_ms :: int
  sb_worker_metadata :: "json dict"

record services =
  generate :: "llm_request \<Rightarrow> llm_response res"
  evaluate_public :: "visible_task \<Rightarrow> string \<Rightarrow> py_float \<Rightarrow> sandbox_result res"
  py_compile :: "string \<Rightarrow> (string \<times> string) option res"
  parse_datetime :: "string \<Rightarrow> string option"
  elapsed_ms :: "string \<Rightarrow> int"
  stamp_for :: "string \<Rightarrow> stamp"

section \<open>Shared steps\<close>

text \<open>\<open>inputs[slot]\<close> and the validation of its payload as a class.\<close>

definition validate_as ::
  "(pydantic \<Rightarrow> json \<Rightarrow> 'a option) \<Rightarrow> string \<Rightarrow> platform \<Rightarrow> envelope \<Rightarrow> 'a res" where
  "validate_as validate cls P a =
     from_option (Exc ValidationErrorC (validation_message (pyd P) cls (payload a)))
       (validate (pyd P) (payload a))"

definition read_as ::
  "(pydantic \<Rightarrow> json \<Rightarrow> 'a option) \<Rightarrow> string \<Rightarrow> platform \<Rightarrow> envelope dict \<Rightarrow> string \<Rightarrow> 'a res" where
  "read_as validate cls P inputs slot = rbind (dindex inputs slot) (validate_as validate cls P)"

abbreviation "read_problem \<equiv> read_as validate_problem ''ProblemArtifact''"
abbreviation "read_plan \<equiv> read_as validate_algorithm_plan ''AlgorithmPlanArtifact''"
abbreviation "read_edge_cases \<equiv> read_as validate_edge_case ''EdgeCaseArtifact''"
abbreviation "read_code \<equiv> read_as validate_code ''CodeArtifact''"
abbreviation "read_repair \<equiv> read_as validate_repair ''RepairArtifact''"
abbreviation "read_result \<equiv> read_as validate_harness_result ''PublicHarnessResultArtifact''"

text \<open>\<open>next(iter(node.output_slots))\<close> in a coroutine: \<open>StopIteration\<close> becomes \<open>RuntimeError\<close>.\<close>

definition first_output :: "node_spec \<Rightarrow> string res" where
  "first_output n =
     (case output_slots n of
        [] \<Rightarrow> Inl (Exc RuntimeErrorC ''coroutine raised StopIteration'')
      | (slot, _) # _ \<Rightarrow> Inr slot)"

text \<open>The common tail: the artifact, and the successful result that carries it.\<close>

definition finish ::
  "platform \<Rightarrow> services \<Rightarrow> run_context \<Rightarrow> node_spec \<Rightarrow> envelope dict \<Rightarrow> llm_usage \<Rightarrow> string \<Rightarrow> payload_model
     \<Rightarrow> node_result" where
  "finish P S ctx n inputs u slot m =
     ok_result (node_id n) slot
       (create_artifact P (stamp_for S (node_id n)) m (node_id n) (ctx_task_id ctx)
          (map artifact_id (dvalues inputs)))
       (elapsed_ms S (node_id n)) u"

text \<open>\<open>a or b\<close> on an optional number: \<open>None\<close> and \<open>0.0\<close> are both false.\<close>

definition or_else :: "py_float option \<Rightarrow> py_float \<Rightarrow> py_float" where
  "or_else a b = (case a of None \<Rightarrow> b | Some x \<Rightarrow> if x = 0 then b else x)"

section \<open>Transforms\<close>

text \<open>\<open>list(dict.fromkeys(xs))\<close>.\<close>

definition from_keys :: "string list \<Rightarrow> string list" where
  "from_keys xs = dkeys (dict_of (map (\<lambda>x. (x, ())) xs))"

definition merge_plans :: "algorithm_plan_artifact \<Rightarrow> edge_case_artifact \<Rightarrow> combined_plan_artifact" where
  "merge_plans plan edge =
     \<lparr>cp_schema_version = ''1.0'',
      cp_problem_summary = al_problem_summary plan,
      cp_algorithm = al_algorithm plan,
      cp_correctness_argument = al_correctness_argument plan,
      cp_time_complexity = al_time_complexity plan,
      cp_space_complexity = al_space_complexity plan,
      cp_data_structures = al_data_structures plan,
      cp_edge_cases = from_keys (al_edge_cases plan @ ec_edge_cases edge),
      cp_implementation_risks = from_keys (ec_overflow_risks edge @ ec_indexing_risks edge
        @ ec_interface_concerns edge @ ec_likely_failure_modes edge)\<rparr>"

definition transform_payload ::
  "platform \<Rightarrow> node_spec \<Rightarrow> string \<Rightarrow> envelope dict \<Rightarrow> payload_model res" where
  "transform_payload P n t inputs =
     (if t = ''merge_analysis_artifacts'' then
        rbind (read_plan P inputs ''plan'') (\<lambda>plan.
        rbind (read_edge_cases P inputs ''edge_cases'') (\<lambda>edge.
          Inr (MCombinedPlan (merge_plans plan edge))))
      else if t = ''freeze_code'' then
        rbind (dindex inputs ''code'') (\<lambda>a.
        rbind (validate_as validate_code ''CodeArtifact'' P a) (\<lambda>c.
          Inr (MFinalCode \<lparr>fc_schema_version = ''1.0'', fc_language = ''python'',
            fc_code = co_code c, fc_source_artifact_id = artifact_id a\<rparr>)))
      else if t = ''identity_code'' then
        rbind (read_code P inputs ''code'') (\<lambda>c. Inr (MCode (c\<lparr>co_source_node := node_id n\<rparr>)))
      else if t = ''repair_to_code'' then
        rbind (read_repair P inputs ''repair'') (\<lambda>r.
          Inr (MCode (code_of (re_revised_code r) (node_id n))))
      else Inl (value_error (''Unknown transform: '' @ t)))"

text \<open>\<open>TransformExecutor.execute\<close>.\<close>

definition transform_execute ::
  "platform \<Rightarrow> services \<Rightarrow> run_context \<Rightarrow> string \<Rightarrow> node_spec \<Rightarrow> envelope dict \<Rightarrow> node_result res" where
  "transform_execute P S ctx t n inputs =
     rbind (transform_payload P n t inputs) (\<lambda>m.
     rbind (first_output n) (\<lambda>slot.
       Inr (finish P S ctx n inputs no_usage slot m)))"

section \<open>The selector\<close>

text \<open>\<open>_rank\<close>; tuples compare lexicographically.\<close>

definition rank_of :: "harness_result_artifact \<Rightarrow> py_float \<times> int \<times> int \<times> int \<times> int" where
  "rank_of r = (hr_pass_ratio r, if hr_compile_success r then 1 else 0,
     - hr_runtime_errors r, - hr_timeouts r, - hr_duration_ms r)"

definition select_code ::
  "harness_result_artifact \<Rightarrow> harness_result_artifact \<Rightarrow> string" where
  "select_code initial repaired =
     (if rank_of repaired > rank_of initial then ''repaired_code'' else ''initial_code'')"

definition selector_payload ::
  "platform \<Rightarrow> node_spec \<Rightarrow> string \<Rightarrow> envelope dict \<Rightarrow> payload_model res" where
  "selector_payload P n sid inputs =
     (if sid \<noteq> ''deterministic_code_selector''
      then Inl (value_error (''Unknown selector: '' @ sid))
      else
        rbind (read_result P inputs ''initial_result'') (\<lambda>initial.
        rbind (read_result P inputs ''repaired_result'') (\<lambda>repaired.
        rbind (read_code P inputs (select_code initial repaired)) (\<lambda>c.
          Inr (MCode (c\<lparr>co_source_node := node_id n\<rparr>))))))"

text \<open>\<open>SelectorExecutor.execute\<close>.\<close>

definition selector_execute ::
  "platform \<Rightarrow> services \<Rightarrow> run_context \<Rightarrow> string \<Rightarrow> node_spec \<Rightarrow> envelope dict \<Rightarrow> node_result res" where
  "selector_execute P S ctx sid n inputs =
     rbind (selector_payload P n sid inputs) (\<lambda>m.
     rbind (first_output n) (\<lambda>slot.
       Inr (finish P S ctx n inputs no_usage slot m)))"

section \<open>The harness\<close>

definition visible_of :: "problem_artifact \<Rightarrow> string \<Rightarrow> visible_task" where
  "visible_of p date =
     \<lparr>vt_question_id = pr_question_id p, vt_question_title = pr_title p,
      vt_question_content = pr_statement p, vt_platform = pr_platform p, vt_contest_date = date,
      vt_starter_code = pr_starter_code p, vt_difficulty = pr_difficulty p,
      vt_public_test_cases = pr_public_examples p, vt_function_name = pr_function_name p,
      vt_metadata_public = []\<rparr>"

text \<open>The \<open>try: compile ... except SyntaxError ... else: sandbox\<close> statement.\<close>

definition run_code ::
  "services \<Rightarrow> py_float \<Rightarrow> node_spec \<Rightarrow> problem_artifact \<Rightarrow> string \<Rightarrow> sandbox_result res" where
  "run_code S default_timeout n problem code =
     rbind (py_compile S code) (\<lambda>outcome.
       case outcome of
         Some (m, line) \<Rightarrow>
           Inr \<lparr>sb_compiled = False, sb_passed_count = 0,
             sb_total_count = int (length (pr_public_examples problem)), sb_runtime_errors = 0,
             sb_timeouts = 0, sb_stderr_summary = Some (m @ '' at line '' @ line), sb_results = [],
             sb_duration_ms = 0, sb_worker_metadata = []\<rparr>
       | None \<Rightarrow>
           (let text_date = (if pr_contest_date problem = [] then ''1970-01-01T00:00:00''
                             else pr_contest_date problem) in
            rbind (from_option (Exc ValidationErrorC ''AgentVisibleLCBTask'') (parse_datetime S text_date)) (\<lambda>date.
              evaluate_public S (visible_of problem date) code
                (or_else (timeout_seconds n) default_timeout))))"

text \<open>\<open>xs[i]\<close>: a negative index counts from the end, an index out of range raises.\<close>

definition py_index :: "'a list \<Rightarrow> int \<Rightarrow> 'a res" where
  "py_index xs i =
     (let k = (if i < 0 then i + int (length xs) else i) in
      if 0 \<le> k \<and> k < int (length xs) then Inr (xs ! nat k)
      else Inl (Exc IndexErrorC ''list index out of range''))"

definition failure_of :: "sandbox_result \<Rightarrow> test_result option \<Rightarrow> public_example option \<Rightarrow> failure_artifact" where
  "failure_of r failed ex =
     \<lparr>vf_schema_version = ''1.0'',
      vf_compile_error = (if sb_compiled r then None else sb_stderr_summary r),
      vf_exception_type = None,
      vf_timeout = (0 < sb_timeouts r),
      vf_public_input = map_option ex_input ex,
      vf_expected_public_output = map_option ex_output ex,
      vf_actual_public_output = (case failed of None \<Rightarrow> None | Some t \<Rightarrow> tr_actual_output t),
      vf_failed_public_test_index = map_option tr_index failed,
      vf_errors = (case sb_stderr_summary r of
          Some m \<Rightarrow> if m \<noteq> [] then [m]
                    else if 0 < sb_total_count r then [] else [''No public tests available'']
        | None \<Rightarrow> if 0 < sb_total_count r then [] else [''No public tests available''])\<rparr>"

definition harness_passed :: "sandbox_result \<Rightarrow> bool" where
  "harness_passed r \<longleftrightarrow> 0 < sb_total_count r \<and> sb_compiled r \<and> sb_passed_count r = sb_total_count r
     \<and> sb_runtime_errors r = 0 \<and> sb_timeouts r = 0"

definition harness_ratio :: "sandbox_result \<Rightarrow> py_float" where
  "harness_ratio r = (if sb_total_count r \<noteq> 0 then py_truediv (sb_passed_count r) (sb_total_count r) else 0)"

definition harness_report :: "problem_artifact \<Rightarrow> sandbox_result \<Rightarrow> harness_result_artifact res" where
  "harness_report problem r =
     (let failed = find (\<lambda>t. \<not> tr_passed t) (sb_results r) in
      rbind (case failed of None \<Rightarrow> Inr None
             | Some t \<Rightarrow> rbind (py_index (pr_public_examples problem) (tr_index t)) (\<lambda>e. Inr (Some e))) (\<lambda>ex.
        Inr \<lparr>hr_schema_version = ''1.0'',
          hr_harness_available = (0 < sb_total_count r),
          hr_passed = harness_passed r,
          hr_pass_ratio = harness_ratio r,
          hr_compile_success = sb_compiled r,
          hr_runtime_errors = sb_runtime_errors r,
          hr_timeouts = sb_timeouts r,
          hr_duration_ms = sb_duration_ms r,
          hr_failure_summary = failure_of r failed ex\<rparr>))"

text \<open>\<open>HarnessNodeExecutor.execute\<close>.\<close>

definition harness_execute ::
  "platform \<Rightarrow> services \<Rightarrow> py_float \<Rightarrow> run_context \<Rightarrow> node_spec \<Rightarrow> envelope dict \<Rightarrow> node_result res" where
  "harness_execute P S default_timeout ctx n inputs =
     rbind (read_problem P inputs ''problem'') (\<lambda>problem.
     rbind (read_code P inputs ''code'') (\<lambda>code.
     rbind (run_code S default_timeout n problem (co_code code)) (\<lambda>r.
     rbind (harness_report problem r) (\<lambda>report.
     rbind (first_output n) (\<lambda>slot.
       Inr (finish P S ctx n inputs no_usage slot (MHarnessResult report)))))))"

section \<open>Agents\<close>

definition agent_request :: "platform \<Rightarrow> run_context \<Rightarrow> agent_contract \<Rightarrow> node_spec \<Rightarrow> envelope dict \<Rightarrow> llm_request" where
  "agent_request P ctx c n inputs =
     \<lparr>rq_messages = render_contract P c inputs, rq_model = ct_model c,
      rq_temperature = ct_temperature c, rq_max_tokens = ct_max_tokens c,
      rq_timeout_seconds = or_else (timeout_seconds n) (ct_timeout_seconds c),
      rq_metadata = [(''run_id'', ctx_run_id ctx), (''task_id'', ctx_task_id ctx),
        (''node_id'', node_id n), (''contract_id'', ct_id c)]\<rparr>"

text \<open>The check of the parsed answer against the single output slot.\<close>

definition agent_slot :: "node_spec \<Rightarrow> payload_model \<Rightarrow> string res" where
  "agent_slot n parsed =
     (case output_slots n of
        [(slot, expected)] \<Rightarrow>
          if type_name parsed \<noteq> expected
          then Inl (value_error (''Parser produced '' @ type_name parsed @ '', expected '' @ expected))
          else Inr slot
      | _ \<Rightarrow> Inl (value_error ''Stage 1 agent nodes must declare exactly one output slot''))"

text \<open>\<open>AgentNodeExecutor.execute\<close>.\<close>

definition agent_execute ::
  "platform \<Rightarrow> services \<Rightarrow> agent_contract dict \<Rightarrow> run_context \<Rightarrow> string \<Rightarrow> node_spec \<Rightarrow> envelope dict \<Rightarrow> node_result res" where
  "agent_execute P S cs ctx cid n inputs =
     rbind (dindex cs cid) (\<lambda>c.
       if ct_allowed_tools c \<noteq> []
       then Inl (value_error ''Stage 1 agent contracts may not use arbitrary tools'')
       else
         rbind (generate S (agent_request P ctx c n inputs)) (\<lambda>response.
         rbind (parse_output P (ct_parser_id c) (rs_text response) (ct_output_schema c) (node_id n)) (\<lambda>parsed.
         rbind (agent_slot n parsed) (\<lambda>slot.
           Inr (finish P S ctx n inputs (rs_usage response) slot parsed)))))"

section \<open>The registry\<close>

record executors =
  ex_contracts :: "agent_contract dict"
  ex_harness_timeout :: py_float

definition dispatch ::
  "platform \<Rightarrow> services \<Rightarrow> executors \<Rightarrow> run_context \<Rightarrow> node_spec \<Rightarrow> envelope dict \<Rightarrow> node_result res" where
  "dispatch P S X ctx n inputs =
     (case node_kind n of
        AgentNode cid \<Rightarrow> agent_execute P S (ex_contracts X) ctx cid n inputs
      | HarnessNode _ \<Rightarrow> harness_execute P S (ex_harness_timeout X) ctx n inputs
      | TransformNode t \<Rightarrow> transform_execute P S ctx t n inputs
      | SelectorNode sid \<Rightarrow> selector_execute P S ctx sid n inputs)"

definition caught :: "exc \<Rightarrow> bool" where
  "caught e \<longleftrightarrow> is_value_error (exc_cls e) \<or> exc_cls e \<in> {KeyErrorC, TimeoutErrorC}"

text \<open>\<open>NodeExecutorRegistry.execute_safely\<close>.\<close>

definition execute_safely ::
  "platform \<Rightarrow> services \<Rightarrow> executors \<Rightarrow> run_context \<Rightarrow> node_spec \<Rightarrow> envelope dict \<Rightarrow> node_result res" where
  "execute_safely P S X ctx n inputs =
     (case dispatch P S X ctx n inputs of
        Inr r \<Rightarrow> Inr r
      | Inl e \<Rightarrow> if caught e then Inr (failed_result (node_id n) e (elapsed_ms S (node_id n))) else Inl e)"

text \<open>\<open>AgentNodeExecutor.execute_safely\<close>, the same guard around one executor.\<close>

definition agent_execute_safely ::
  "platform \<Rightarrow> services \<Rightarrow> agent_contract dict \<Rightarrow> run_context \<Rightarrow> string \<Rightarrow> node_spec \<Rightarrow> envelope dict \<Rightarrow> node_result res" where
  "agent_execute_safely P S cs ctx cid n inputs =
     (case agent_execute P S cs ctx cid n inputs of
        Inr r \<Rightarrow> Inr r
      | Inl e \<Rightarrow> if caught e then Inr (failed_result (node_id n) e (elapsed_ms S (node_id n))) else Inl e)"

section \<open>What a result looks like\<close>

text \<open>The identifier \<open>create_artifact\<close> gives to the output of a node.\<close>

definition artifact_name :: "string \<Rightarrow> (string \<Rightarrow> stamp) \<Rightarrow> string \<Rightarrow> string" where
  "artifact_name task stamps nid = task @ ''-'' @ nid @ ''-'' @ uuid_hex (stamps nid)"

text \<open>
  A successful result carries one artifact, in the node's first output slot, valid, of the
  task and produced by the node from the artifacts it was given; a failed one carries none.
\<close>

definition produced ::
  "platform \<Rightarrow> string \<Rightarrow> (string \<Rightarrow> stamp) \<Rightarrow> node_spec \<Rightarrow> envelope dict \<Rightarrow> node_result \<Rightarrow> bool" where
  "produced P task stamps n inputs r \<longleftrightarrow> res_node_id r = node_id n
     \<and> (\<not> succeeded r \<longrightarrow> outputs r = [])
     \<and> (succeeded r \<longrightarrow> (\<exists>slot ty rest a. output_slots n = (slot, ty) # rest \<and> outputs r = [(slot, a)]
          \<and> valid_artifact P a \<and> env_task_id a = task \<and> producer_node_id a = node_id n
          \<and> artifact_id a = artifact_name task stamps (node_id n)
          \<and> parent_artifact_ids a = map artifact_id (dvalues inputs)))"

lemma first_output_Inr: "first_output n = Inr slot \<longleftrightarrow> (\<exists>ty rest. output_slots n = (slot, ty) # rest)"
  by (auto simp: first_output_def split: list.splits)

lemma agent_slot_Inr: "agent_slot n m = Inr slot \<longleftrightarrow> output_slots n = [(slot, type_name m)]"
  by (auto simp: agent_slot_def split: list.splits if_splits)

lemma finish_produced:
  "pydantic_ok (pyd P) \<Longrightarrow> wf_model m \<Longrightarrow> output_slots n = (slot, ty) # rest \<Longrightarrow>
     produced P (ctx_task_id ctx) (stamp_for S) n inputs (finish P S ctx n inputs u slot m)"
  by (simp add: produced_def finish_def ok_result_def valid_create artifact_name_def)

lemma failed_produced: "produced P task stamps n inputs (failed_result (node_id n) e ms)"
  by (simp add: produced_def failed_result_def)

text \<open>What a class validates satisfies the literals it declares.\<close>

lemma validate_example_wf: "validate_example P v = Some e \<Longrightarrow> wf_example e"
  by (auto simp: validate_example_def wf_example_def req_def opt_def as_lit_def bind_eq_Some_conv
      split: option.splits json.splits if_splits)

lemma those_set: "those xs = Some ys \<Longrightarrow> y \<in> set ys \<Longrightarrow> Some y \<in> set xs"
  by (induction xs arbitrary: ys) (auto split: option.splits)

lemma validate_code_wf: "validate_code P v = Some c \<Longrightarrow> wf_code c"
  by (auto simp: validate_code_def wf_code_def opt_def as_lit_def bind_eq_Some_conv
      split: option.splits json.splits if_splits)

lemma validate_final_code_wf: "validate_final_code P v = Some c \<Longrightarrow> wf_final_code c"
  by (auto simp: validate_final_code_def wf_final_code_def opt_def as_lit_def bind_eq_Some_conv
      split: option.splits json.splits if_splits)

lemma validate_problem_wf:
  assumes "validate_problem P v = Some p"
  shows "wf_problem p"
proof -
  obtain d where d: "opt d ''public_examples'' (as_list (validate_example P)) [] = Some (pr_public_examples p)"
    using assms by (auto simp: validate_problem_def bind_eq_Some_conv)
  have "wf_example e" if "e \<in> set (pr_public_examples p)" for e
    using d that validate_example_wf
    by (auto simp: opt_def as_list_def split: option.splits json.splits dest!: those_set)
  then show ?thesis by (simp add: wf_problem_def list_all_iff)
qed

lemma validate_repair_input_wf: "validate_repair_input P v = Some r \<Longrightarrow> wf_repair_input r"
proof -
  assume r: "validate_repair_input P v = Some r"
  then obtain x where "validate_problem P x = Some (ri_problem r)"
    by (auto simp: validate_repair_input_def req_def bind_eq_Some_conv split: option.splits)
  then show ?thesis by (simp add: wf_repair_input_def validate_problem_wf)
qed

lemma validate_class_wf: "validate_class P name v = Some m \<Longrightarrow> wf_model m"
  by (auto simp: validate_class_def split: if_splits
      dest: validate_code_wf validate_problem_wf validate_repair_input_wf validate_final_code_wf)

lemma read_as_Inr:
  "read_as v c P inputs slot = Inr x \<longleftrightarrow> (\<exists>a. dget inputs slot = Some a \<and> v (pyd P) (payload a) = Some x)"
  by (auto simp: read_as_def validate_as_def res_simps)

lemma transform_payload_wf: "transform_payload P n t inputs = Inr m \<Longrightarrow> wf_model m"
  by (auto simp: transform_payload_def read_as_Inr res_simps code_of_def wf_code_def wf_final_code_def
      validate_as_def split: if_splits dest!: validate_code_wf)

lemma selector_payload_wf: "selector_payload P n sid inputs = Inr m \<Longrightarrow> wf_model m"
  by (auto simp: selector_payload_def read_as_Inr res_simps wf_code_def split: if_splits
      dest!: validate_code_wf)

lemma parse_output_wf: "parse_output P pid body schema src = Inr m \<Longrightarrow> wf_model m"
  by (auto simp: parse_output_def model_validate_def res_simps code_of_def wf_code_def Let_def
      split: if_splits dest: validate_class_wf)

text \<open>The contract, and its consequence for a caller that catches exceptions.\<close>

locale node_executor =
  fixes P :: platform and task :: string and stamps :: "string \<Rightarrow> stamp"
    and run :: "node_spec \<Rightarrow> envelope dict \<Rightarrow> node_result res"
  assumes run_produced: "pydantic_ok (pyd P) \<Longrightarrow> run n inputs = Inr r \<Longrightarrow> produced P task stamps n inputs r"
begin

lemma run_id: "pydantic_ok (pyd P) \<Longrightarrow> run n inputs = Inr r \<Longrightarrow> res_node_id r = node_id n"
  using run_produced by (auto simp: produced_def)

lemma run_outputs:
  "pydantic_ok (pyd P) \<Longrightarrow> run n inputs = Inr r \<Longrightarrow> a \<in> set (dvalues (outputs r)) \<Longrightarrow>
     valid_artifact P a \<and> env_task_id a = task \<and> producer_node_id a = node_id n
     \<and> artifact_id a = artifact_name task stamps (node_id n)"
  using run_produced [of n inputs r] by (cases "succeeded r") (auto simp: produced_def)

lemma run_slot:
  "pydantic_ok (pyd P) \<Longrightarrow> run n inputs = Inr r \<Longrightarrow> succeeded r \<Longrightarrow>
     \<exists>slot a. outputs r = [(slot, a)] \<and> slot \<in> set (dkeys (output_slots n))"
  using run_produced [of n inputs r] by (auto simp: produced_def)

text \<open>Catching some exceptions keeps the contract.\<close>

lemma caught_produced:
  assumes "pydantic_ok (pyd P)"
    and "(case run n inputs of Inr r \<Rightarrow> Inr r
      | Inl e \<Rightarrow> if p e then Inr (failed_result (node_id n) e ms) else Inl e) = Inr r"
  shows "produced P task stamps n inputs r"
  using assms run_produced failed_produced by (auto split: sum.splits if_splits)

end

interpretation transform: node_executor P "ctx_task_id ctx" "stamp_for S" "transform_execute P S ctx t" for P S ctx t
  by unfold_locales
    (auto simp: transform_execute_def res_simps first_output_Inr intro!: finish_produced transform_payload_wf)

interpretation selector: node_executor P "ctx_task_id ctx" "stamp_for S" "selector_execute P S ctx sid" for P S ctx sid
  by unfold_locales
    (auto simp: selector_execute_def res_simps first_output_Inr intro!: finish_produced selector_payload_wf)

interpretation harness: node_executor P "ctx_task_id ctx" "stamp_for S" "harness_execute P S dt ctx" for P S dt ctx
  by unfold_locales
    (auto simp: harness_execute_def res_simps first_output_Inr intro!: finish_produced)

interpretation agent: node_executor P "ctx_task_id ctx" "stamp_for S" "agent_execute P S cs ctx cid" for P S cs ctx cid
  by unfold_locales
    (auto simp: agent_execute_def res_simps agent_slot_Inr split: if_splits
      intro!: finish_produced parse_output_wf)

interpretation safe_agent: node_executor P "ctx_task_id ctx" "stamp_for S" "agent_execute_safely P S cs ctx cid" for P S cs ctx cid
  by unfold_locales (rule agent.caught_produced, simp_all add: agent_execute_safely_def)

text \<open>On an agent node the registry is the guarded agent executor.\<close>

lemma execute_safely_agent:
  "node_kind n = AgentNode cid \<Longrightarrow> execute_safely P S X ctx n inputs = agent_execute_safely P S (ex_contracts X) ctx cid n inputs"
  by (simp add: execute_safely_def agent_execute_safely_def dispatch_def)

interpretation dispatched: node_executor P "ctx_task_id ctx" "stamp_for S" "dispatch P S X ctx" for P S X ctx
proof
  fix n inputs r assume "pydantic_ok (pyd P)" "dispatch P S X ctx n inputs = Inr r"
  then show "produced P (ctx_task_id ctx) (stamp_for S) n inputs r"
    using transform.run_produced selector.run_produced harness.run_produced agent.run_produced
    by (cases "node_kind n") (auto simp: dispatch_def)
qed

interpretation registry: node_executor P "ctx_task_id ctx" "stamp_for S" "execute_safely P S X ctx" for P S X ctx
proof
  fix n inputs r assume "pydantic_ok (pyd P)" "execute_safely P S X ctx n inputs = Inr r"
  then show "produced P (ctx_task_id ctx) (stamp_for S) n inputs r"
    using dispatched.caught_produced [where p = caught and ms = "elapsed_ms S (node_id n)"]
    by (simp add: execute_safely_def)
qed

section \<open>What the executors compute\<close>

lemma from_keys_fold:
  "distinct (dkeys d) \<Longrightarrow> dkeys (fold (\<lambda>(k, v). dset k v) (map (\<lambda>x. (x, ())) xs) d)
     = dkeys d @ from_keys (filter (\<lambda>x. x \<notin> set (dkeys d)) xs)"
proof (induction "length xs" arbitrary: xs d rule: less_induct)
  case less
  show ?case
  proof (cases xs)
    case (Cons x ys)
    show ?thesis
    proof (cases "x \<in> set (dkeys d)")
      case True
      have same: "dkeys (dset x () d) = dkeys d" using True by (induction d) auto
      then have "distinct (dkeys (dset x () d))" using less.prems by simp
      then show ?thesis using less.hyps [of ys "dset x () d"] Cons True same by simp
    next
      case False
      have new: "dset x () d = d @ [(x, ())]" by (rule dset_new [OF False])
      have dist: "distinct (dkeys (d @ [(x, ())]))" using less.prems False by simp
      have one: "dkeys (fold (\<lambda>(k, v). dset k v) (map (\<lambda>x. (x, ())) zs) [(x, ())])
          = x # from_keys (filter (\<lambda>z. z \<noteq> x) zs)" if "length zs < length xs" for zs
        using less.hyps [of zs "[(x, ())]"] that by simp
      have "length (filter (\<lambda>z. z \<notin> set (dkeys d)) ys) < length xs"
        using Cons length_filter_le [of "\<lambda>z. z \<notin> set (dkeys d)" ys] by (simp add: less_Suc_eq_le)
      from one [OF this] have "from_keys (filter (\<lambda>z. z \<notin> set (dkeys d)) xs) =
          x # from_keys (filter (\<lambda>z. z \<noteq> x) (filter (\<lambda>z. z \<notin> set (dkeys d)) ys))"
        using Cons False by (simp add: from_keys_def dict_of_def del: filter_filter)
      moreover have "filter (\<lambda>z. z \<notin> set (dkeys (d @ [(x, ())]))) ys = filter (\<lambda>z. z \<noteq> x) (filter (\<lambda>z. z \<notin> set (dkeys d)) ys)"
        by (auto intro: filter_cong)
      ultimately show ?thesis
        using less.hyps [of ys "d @ [(x, ())]"] Cons dist new by simp
    qed
  qed (simp add: from_keys_def dict_of_def)
qed

lemma from_keys_simps [simp]:
  "from_keys [] = []"
  "from_keys (x # xs) = x # from_keys (filter (\<lambda>y. y \<noteq> x) xs)"
  using from_keys_fold [of "[(x, ())]" xs] by (simp_all add: from_keys_def dict_of_def)

lemma from_keys_set: "set (from_keys xs) = set xs"
proof (induction "length xs" arbitrary: xs rule: less_induct)
  case less
  then show ?case
    by (cases xs) (auto simp: less_Suc_eq_le)
qed

lemma from_keys_distinct: "distinct (from_keys xs)"
proof (induction "length xs" arbitrary: xs rule: less_induct)
  case less
  then show ?case
    by (cases xs) (auto simp: from_keys_set less_Suc_eq_le)
qed

lemma from_keys_append: "distinct xs \<Longrightarrow> \<exists>rest. from_keys (xs @ ys) = xs @ rest"
proof (induction xs arbitrary: ys)
  case (Cons x xs)
  have "filter (\<lambda>y. y \<noteq> x) xs = xs" using Cons.prems by (auto simp: filter_id_conv)
  then show ?case using Cons by simp
qed simp

lemma harness_report_fields:
  assumes "harness_report problem r = Inr h"
  shows "hr_passed h = harness_passed r" "hr_pass_ratio h = harness_ratio r"
    "hr_harness_available h = (0 < sb_total_count r)" "hr_compile_success h = sb_compiled r"
    "hr_runtime_errors h = sb_runtime_errors r" "hr_timeouts h = sb_timeouts r"
  using assms by (auto simp: harness_report_def res_simps Let_def)

lemma harness_report_verdict:
  assumes "harness_report problem r = Inr h" "0 \<le> sb_passed_count r" "sb_passed_count r \<le> sb_total_count r"
  shows "(hr_passed h \<longleftrightarrow> 0 < sb_total_count r \<and> sb_compiled r \<and> sb_passed_count r = sb_total_count r
      \<and> sb_runtime_errors r = 0 \<and> sb_timeouts r = 0)
    \<and> 0 \<le> hr_pass_ratio h \<and> hr_pass_ratio h \<le> 1 \<and> (hr_passed h \<longrightarrow> hr_pass_ratio h = 1)
    \<and> (sb_total_count r = 0 \<longrightarrow> \<not> hr_passed h \<and> hr_pass_ratio h = 0 \<and> \<not> hr_harness_available h)"
proof (cases "sb_total_count r = 0")
  case True
  then show ?thesis
    by (simp add: harness_report_fields [OF assms(1)] harness_passed_def harness_ratio_def)
next
  case False
  then have "0 < sb_total_count r" using assms(2,3) by simp
  then show ?thesis
    using py_truediv_unit [of "sb_total_count r" "sb_passed_count r"] assms(2,3) py_truediv_same [of "sb_total_count r"]
    by (simp add: harness_report_fields [OF assms(1)] harness_passed_def harness_ratio_def)
qed

text \<open>The failure summary shows the first failing test, and only public data.\<close>

lemma py_index_Inr: "py_index xs i = Inr x \<Longrightarrow> x \<in> set xs"
  by (auto simp: py_index_def Let_def split: if_splits)

lemma harness_report_shows:
  assumes "harness_report problem r = Inr h" "vf_public_input (hr_failure_summary h) = Some i"
  shows "\<exists>e \<in> set (pr_public_examples problem). ex_input e = i
    \<and> vf_expected_public_output (hr_failure_summary h) = Some (ex_output e)"
  using assms py_index_Inr
  by (fastforce simp: harness_report_def res_simps Let_def failure_of_def split: option.splits)

lemma harness_report_total:
  "\<forall>t \<in> set (sb_results r). 0 \<le> tr_index t \<and> tr_index t < int (length (pr_public_examples problem)) \<Longrightarrow>
     \<exists>h. harness_report problem r = Inr h"
  by (auto simp: harness_report_def py_index_def Let_def find_Some_iff split: option.splits)

text \<open>What the registry lets through is none of the three classes it catches.\<close>

lemma execute_safely_Inl:
  "execute_safely P S X ctx n inputs = Inl e \<longleftrightarrow> dispatch P S X ctx n inputs = Inl e \<and> \<not> caught e"
  by (auto simp: execute_safely_def split: sum.splits if_splits)

lemma execute_safely_failed:
  "execute_safely P S X ctx n inputs = Inr r \<Longrightarrow> \<not> succeeded r \<Longrightarrow>
     (\<exists>e. dispatch P S X ctx n inputs = Inl e \<and> caught e \<and> r = failed_result (node_id n) e (elapsed_ms S (node_id n)))
     \<or> dispatch P S X ctx n inputs = Inr r"
  by (auto simp: execute_safely_def split: sum.splits if_splits)

end
