(* ===== verification/Graph_Dump.thy ===== *)
theory Graph_Dump
  imports Artifacts
begin

text \<open>
  \<open>model_dump(mode="json")\<close> of a graph and its content hash (\<open>ir/graph.py\<close>): the fields in
  declaration order, those of the base class first.
\<close>

fun operator_name :: "operator \<Rightarrow> string" where
  "operator_name Equals = ''equals''"
| "operator_name NotEquals = ''not_equals''"
| "operator_name GreaterThan = ''greater_than''"
| "operator_name LessThan = ''less_than''"
| "operator_name IsTrue = ''is_true''"
| "operator_name IsFalse = ''is_false''"

definition dump_condition :: "edge_condition \<Rightarrow> json" where
  "dump_condition c = JObj [
     (''source_field'', JStr (source_field c)),
     (''operator'', JStr (operator_name (operator c))),
     (''value'', cond_value c)]"

definition dump_edge :: "edge_spec \<Rightarrow> json" where
  "dump_edge e = JObj [
     (''edge_id'', JStr (edge_id e)),
     (''source_node'', JStr (source_node e)),
     (''source_output'', JStr (source_output e)),
     (''destination_node'', JStr (destination_node e)),
     (''destination_input'', JStr (destination_input e)),
     (''payload_policy'', JStr ''full''),
     (''condition'', dump_opt dump_condition (condition e))]"

definition dump_slots :: "string dict \<Rightarrow> json" where
  "dump_slots d = JObj (map (\<lambda>(k, v). (k, JStr v)) d)"

fun kind_name :: "node_kind \<Rightarrow> string" where
  "kind_name (AgentNode _) = ''agent''"
| "kind_name (HarnessNode _) = ''harness''"
| "kind_name (TransformNode _) = ''transform''"
| "kind_name (SelectorNode _) = ''selector''"

fun kind_fields :: "node_kind \<Rightarrow> json dict" where
  "kind_fields (AgentNode c) = [(''contract_id'', JStr c)]"
| "kind_fields (HarnessNode h) = [(''harness_id'', JStr h), (''visibility'', JStr ''public'')]"
| "kind_fields (TransformNode t) = [(''transform_id'', JStr t)]"
| "kind_fields (SelectorNode s) = [(''selector_id'', JStr s)]"

definition dump_node :: "node_spec \<Rightarrow> json" where
  "dump_node n = JObj ([
     (''node_id'', JStr (node_id n)),
     (''node_kind'', JStr (kind_name (node_kind n))),
     (''input_slots'', dump_slots (input_slots n)),
     (''output_slots'', dump_slots (output_slots n)),
     (''timeout_seconds'', dump_opt JFloat (timeout_seconds n))] @ kind_fields (node_kind n))"

definition dump_graph :: "orchestra_graph \<Rightarrow> json" where
  "dump_graph g = JObj [
     (''graph_id'', JStr (graph_id g)),
     (''version'', JStr (version g)),
     (''nodes'', JList (map dump_node (nodes g))),
     (''edges'', JList (map dump_edge (edges g))),
     (''initial_artifact_slots'', dump_slots (initial_artifact_slots g)),
     (''final_output_slot'', JStr (final_output_slot g)),
     (''metadata'', JObj (metadata g))]"

text \<open>\<open>OrchestraGraph.canonical_json\<close> and \<open>content_hash\<close>.\<close>

definition graph_text :: "platform \<Rightarrow> orchestra_graph \<Rightarrow> string" where
  "graph_text P g = canonical_json (float_repr P) (dump_graph g)"

definition graph_digest :: "platform \<Rightarrow> orchestra_graph \<Rightarrow> string" where
  "graph_digest P g = sha256_hex P (graph_text P g)"

end
