(* ===== verification/Runtime.thy ===== *)
theory Runtime
  imports Committer Executors Graph_Dump
begin

text \<open>
  \<open>NativeAsyncRuntime.execute\<close> (\<open>runtime/native_async.py\<close>). A turn of the \<open>while\<close> loop is
  \<open>wave_step\<close>, which ends the loop (\<open>Done\<close>), continues it (\<open>More\<close>) or raises; the loop
  terminates because every turn that continues takes at least one node out of \<open>PENDING\<close>.
  The nodes of a wave run as concurrent tasks of a \<open>TaskGroup\<close>; they touch neither the store
  nor the log, so their results do not depend on how they interleave, and an exception in
  one of them leaves the group.
\<close>

record runtime =
  rt_host :: host
  rt_services :: services
  rt_executors :: executors
  rt_wall_ms :: int

section \<open>Starting and resuming\<close>

definition emit :: "run_context \<Rightarrow> orchestra_graph \<Rightarrow> string \<Rightarrow> (event \<Rightarrow> event) \<Rightarrow> (world, unit) io" where
  "emit ctx g ty f = append_event (f (base_event ctx (graph_id g) ty))"

definition initial_state :: "platform \<Rightarrow> orchestra_graph \<Rightarrow> envelope dict \<Rightarrow> run_context \<Rightarrow> runtime_state" where
  "initial_state P g bundle ctx =
     \<lparr>run_id = ctx_run_id ctx, task_id = ctx_task_id ctx, st_graph_id = graph_id g,
      graph_hash = graph_digest P g, contract_hash = ctx_contract_hash ctx,
      node_status = dict_of (map (\<lambda>n. (node_id n, Pending)) (nodes g)),
      node_outputs = [],
      initial_artifacts = map (\<lambda>(slot, a). (slot, artifact_id a)) bundle,
      active_edges = edge_id ` set (filter (\<lambda>e. condition e = None) (edges g)),
      inactive_edges = {}, final_output_artifact_id = None, frozen = False,
      wave_id = 0, checkpoint_count = 0, node_latencies_ms = []\<rparr>"

text \<open>The artifacts a resumed state refers to.\<close>

definition referenced_ids :: "runtime_state \<Rightarrow> string list" where
  "referenced_ids st =
     dvalues (initial_artifacts st) @ concat (map dvalues (dvalues (node_outputs st)))"

definition start_state ::
  "runtime \<Rightarrow> orchestra_graph \<Rightarrow> envelope dict \<Rightarrow> run_context \<Rightarrow> (world, runtime_state) io" where
  "start_state R g bundle ctx =
     (let H = rt_host R in
      bnd (load_checkpoint H (ctx_task_id ctx) (graph_digest (plat H) g) (ctx_contract_hash ctx)
             (allow_config_drift ctx)) (\<lambda>saved.
        case saved of
          None \<Rightarrow> thn (for_each (put_artifact H) (dvalues bundle))
                     (ret (initial_state (plat H) g bundle ctx))
        | Some st \<Rightarrow> thn (for_each (\<lambda>aid. bnd (get_artifact H aid) (\<lambda>_. ret ())) (referenced_ids st))
                       (ret st)))"

section \<open>One turn of the loop\<close>

datatype turn = Done runtime_state | More runtime_state

text \<open>Nodes that can never start are skipped first.\<close>

definition skip_impossible ::
  "orchestra_graph \<Rightarrow> run_context \<Rightarrow> runtime_state \<Rightarrow> (world, runtime_state) io" where
  "skip_impossible g ctx st =
     bnd (lift (impossible_nodes g st)) (\<lambda>dead.
     thn (for_each (\<lambda>nid. emit ctx g ''NODE_SKIPPED''
            (\<lambda>e. e\<lparr>ev_wave_id := Some (wave_id st), ev_node_id := Some nid\<rparr>)) dead)
         (ret (skip_nodes dead st)))"

text \<open>\<open>_load_inputs\<close>.\<close>

definition load_inputs ::
  "host \<Rightarrow> orchestra_graph \<Rightarrow> runtime_state \<Rightarrow> string \<Rightarrow> (world, envelope dict) io" where
  "load_inputs H g st nid =
     bnd (lift (resolve_input_ids g st nid)) (\<lambda>ids.
       collect (\<lambda>(slot, aid). bnd (get_artifact H aid) (\<lambda>a. ret (slot, a))) ids)"

text \<open>The loop over the ready nodes: mark, load, announce.\<close>

fun prepare ::
  "host \<Rightarrow> orchestra_graph \<Rightarrow> run_context \<Rightarrow> string list \<Rightarrow> runtime_state \<Rightarrow> envelope dict dict
     \<Rightarrow> (world, runtime_state \<times> envelope dict dict) io" where
  "prepare H g ctx [] st inputs = ret (st, inputs)"
| "prepare H g ctx (nid # nids) st inputs =
     (let st' = st\<lparr>node_status := dset nid Running (node_status st)\<rparr>;
          here = (\<lambda>e. e\<lparr>ev_wave_id := Some (wave_id st), ev_node_id := Some nid\<rparr>) in
      bnd (load_inputs H g st' nid) (\<lambda>loaded.
      thn (emit ctx g ''NODE_READY'' here)
      (thn (emit ctx g ''NODE_STARTED'' here)
           (prepare H g ctx nids st' (dset nid loaded inputs)))))"

text \<open>
  The \<open>TaskGroup\<close>: all results, or the group's exception when a task let one through.
\<close>

definition group_error :: "exc \<Rightarrow> exc" where
  "group_error e = Exc (ForeignErrorC ''ExceptionGroup'') ''unhandled errors in a TaskGroup''"

definition run_node :: "runtime \<Rightarrow> orchestra_graph \<Rightarrow> run_context \<Rightarrow> envelope dict dict \<Rightarrow> string \<Rightarrow> node_result res" where
  "run_node R g ctx inputs nid =
     rbind (dindex (node_map g) nid) (\<lambda>n.
     rbind (dindex inputs nid) (\<lambda>loaded.
       execute_safely (plat (rt_host R)) (rt_services R) (rt_executors R) ctx n loaded))"

definition run_wave :: "runtime \<Rightarrow> orchestra_graph \<Rightarrow> run_context \<Rightarrow> envelope dict dict \<Rightarrow> string list \<Rightarrow> node_result list res" where
  "run_wave R g ctx inputs ready =
     (case rmap (run_node R g ctx inputs) ready of
        Inl e \<Rightarrow> Inl (group_error e) | Inr results \<Rightarrow> Inr results)"

text \<open>The events of a committed wave.\<close>

definition report_result ::
  "orchestra_graph \<Rightarrow> run_context \<Rightarrow> int \<Rightarrow> node_result \<Rightarrow> (world, unit) io" where
  "report_result g ctx wave r =
     thn (emit ctx g (if succeeded r then ''NODE_COMPLETED'' else ''NODE_FAILED'')
       (\<lambda>e. e\<lparr>ev_wave_id := Some wave, ev_node_id := Some (res_node_id r),
              ev_artifact_ids := map artifact_id (dvalues (outputs r)),
              ev_latency_ms := Some (latency_ms r),
              ev_prompt_tokens := Some (prompt_tokens (usage r)),
              ev_completion_tokens := Some (completion_tokens (usage r)),
              ev_estimated_cost_usd := estimated_cost_usd (usage r),
              ev_status := Some (if succeeded r then ''succeeded'' else ''failed''),
              ev_metadata := (case res_error r of
                  Some m \<Rightarrow> if m = [] then [] else [(''error'', JStr m)] | None \<Rightarrow> [])\<rparr>))
     (for_each (\<lambda>a. emit ctx g ''ARTIFACT_COMMITTED''
        (\<lambda>e. e\<lparr>ev_wave_id := Some wave, ev_node_id := Some (res_node_id r),
               ev_artifact_ids := [artifact_id a]\<rparr>)) (dvalues (outputs r)))"

definition report_edges ::
  "orchestra_graph \<Rightarrow> run_context \<Rightarrow> int \<Rightarrow> string \<Rightarrow> string list \<Rightarrow> (world, unit) io" where
  "report_edges g ctx wave ty ids =
     for_each (\<lambda>i. emit ctx g ty (\<lambda>e. e\<lparr>ev_wave_id := Some wave, ev_metadata := [(''edge_id'', JStr i)]\<rparr>)) ids"

definition report_commit ::
  "host \<Rightarrow> orchestra_graph \<Rightarrow> run_context \<Rightarrow> node_result list \<Rightarrow> commit \<Rightarrow> (world, unit) io" where
  "report_commit H g ctx results c =
     (let wave = wave_id (c_state c) - 1 in
      thn (for_each (report_result g ctx wave) results)
      (thn (report_edges g ctx wave ''CONDITIONAL_EDGE_ACTIVATED'' (c_activated c))
      (thn (report_edges g ctx wave ''CONDITIONAL_EDGE_DISABLED'' (c_disabled c))
      (thn (save_checkpoint H (c_state c))
      (thn (emit ctx g ''WAVE_COMMITTED''
              (\<lambda>e. e\<lparr>ev_wave_id := Some wave, ev_artifact_ids := c_committed c\<rparr>))
           (emit ctx g ''CHECKPOINT_SAVED'' (\<lambda>e. e\<lparr>ev_wave_id := Some wave\<rparr>)))))))"

definition status_report :: "runtime_state \<Rightarrow> string" where
  "status_report st = join '', '' (map (\<lambda>(n, s).
     CHR 0x27 # n @ CHR 0x27 # '': '' @ CHR 0x27 # status_value s @ [CHR 0x27]) (node_status st))"

definition run_ready ::
  "runtime \<Rightarrow> orchestra_graph \<Rightarrow> run_context \<Rightarrow> runtime_state \<Rightarrow> string list \<Rightarrow> (world, turn) io" where
  "run_ready R g ctx st ready =
     (let H = rt_host R in
      thn (emit ctx g ''WAVE_STARTED'' (\<lambda>e. e\<lparr>ev_wave_id := Some (wave_id st),
             ev_metadata := [(''ready_nodes'', JList (map JStr ready))]\<rparr>))
      (bnd (prepare H g ctx ready st []) (\<lambda>(st1, inputs).
       bnd (lift (run_wave R g ctx inputs ready)) (\<lambda>results.
       bnd (commit_wave H g st1 results) (\<lambda>c.
       thn (report_commit H g ctx results c)
           (ret (More (c_state c))))))))"

definition wave_step :: "runtime \<Rightarrow> orchestra_graph \<Rightarrow> run_context \<Rightarrow> runtime_state \<Rightarrow> (world, turn) io" where
  "wave_step R g ctx st =
     bnd (skip_impossible g ctx st) (\<lambda>st1.
     bnd (lift (find_ready_nodes (max_parallel_nodes_per_task (limits ctx)) g st1)) (\<lambda>ready.
       if ready = [] then
         (if can_finalize st1 then ret (Done (st1\<lparr>frozen := True\<rparr>))
          else throw (Exc GraphDeadlockErrorC
                 (''No ready nodes and no final output: {'' @ status_report st1 @ ''}'')))
       else run_ready R g ctx st1 ready))"

section \<open>The loop ends\<close>

definition pending_nodes :: "runtime_state \<Rightarrow> string set" where
  "pending_nodes st = {n. dget (node_status st) n = Some Pending}"

lemma finite_pending [simp]: "finite (pending_nodes st)"
proof -
  have "pending_nodes st \<subseteq> dom (map_of (node_status st))" by (auto simp: pending_nodes_def)
  then show ?thesis by (rule finite_subset) (rule finite_dom_map_of)
qed

lemma commit_results_pending:
  "commit_results g rs c = Inr c' \<Longrightarrow> pending_nodes (c_state c') \<subseteq> pending_nodes (c_state c)"
proof (induction rs arbitrary: c)
  case (Cons r rs)
  then obtain c1 where c1: "commit_result g r c = Inr c1" "commit_results g rs c1 = Inr c'"
    by (auto simp: res_simps)
  have "pending_nodes (c_state c1) \<subseteq> pending_nodes (c_state c)"
    unfolding pending_nodes_def commit_result_status' [OF c1(1)] by (auto simp: dget_dset outcome_def split: if_splits)
  then show ?case using Cons.IH [OF c1(2)] by blast
qed simp

lemma mark_pending: "s \<noteq> Pending \<Longrightarrow> pending_nodes (mark s ids st) = pending_nodes st - set ids"
  by (auto simp: pending_nodes_def mark_status)

lemma apply_results_pending:
  assumes "apply_results g prev rs = Inr c"
  shows "pending_nodes (c_state c) \<subseteq> pending_nodes prev"
proof -
  obtain c1 dead where
    c1: "commit_results g (sort_key res_node_id rs)
       \<lparr>c_state = prev, c_committed = [], c_activated = [], c_disabled = []\<rparr> = Inr c1"
    and st: "c_state c = (mark Skipped dead (c_state c1))\<lparr>wave_id := wave_id (c_state c1) + 1,
       checkpoint_count := checkpoint_count (c_state c1) + 1\<rparr>"
    by (rule apply_resultsE [OF assms])
  have "pending_nodes (c_state c) \<subseteq> pending_nodes (c_state c1)"
    using mark_pending [of Skipped dead "c_state c1"] by (simp add: st pending_nodes_def)
  then show ?thesis using commit_results_pending [OF c1] by simp
qed

lemma prepare_state:
  "prepare H g ctx nids st inputs w = (Inr (st', inputs'), w') \<Longrightarrow> st' = mark Running nids st"
proof (induction nids arbitrary: st inputs w)
  case (Cons nid nids)
  let ?st = "st\<lparr>node_status := dset nid Running (node_status st)\<rparr>"
  obtain loaded w1 where "prepare H g ctx nids ?st (dset nid loaded inputs) w1 = (Inr (st', inputs'), w')"
    using Cons.prems by (auto simp: Let_def bnd_eq_Inr thn_eq_Inr)
  then have "st' = mark Running nids ?st" by (rule Cons.IH)
  then show ?case by (simp add: mark_def)
qed (simp add: mark_def)

lemma ready_pending:
  assumes "find_ready_nodes m g st = Inr ready"
  shows "set ready \<subseteq> pending_nodes st"
proof -
  obtain all where all: "rfilter (node_ready g st) (sort_key node_id (nodes g)) = Inr all"
    "ready = py_prefix m (map node_id all)"
    using find_ready_nodes_Inr [OF assms] .
  have "dget (node_status st) (node_id n) = Some Pending" if "n \<in> set all" for n
    using that rfilter_set [OF all(1)] by (auto simp: node_ready_def res_simps split: if_splits)
  then show ?thesis using py_prefix_subset [of m "map node_id all"] by (auto simp: all(2) pending_nodes_def)
qed

text \<open>What a turn that continues went through.\<close>

lemma wave_step_MoreE:
  assumes "wave_step R g ctx st w = (Inr (More st'), w')"
  obtains dead ready inputs results c w0 w1 w2 w3 w4 where
    "impossible_nodes g st = Inr dead"
    "find_ready_nodes (max_parallel_nodes_per_task (limits ctx)) g (mark Skipped dead st) = Inr ready"
    "ready \<noteq> []"
    "skip_impossible g ctx st w = (Inr (mark Skipped dead st), w0)"
    "emit ctx g ''WAVE_STARTED'' (\<lambda>e. e\<lparr>ev_wave_id := Some (wave_id st),
       ev_metadata := [(''ready_nodes'', JList (map JStr ready))]\<rparr>) w0 = (Inr (), w1)"
    "prepare (rt_host R) g ctx ready (mark Skipped dead st) [] w1
       = (Inr (mark Running ready (mark Skipped dead st), inputs), w2)"
    "run_wave R g ctx inputs ready = Inr results"
    "commit_wave (rt_host R) g (mark Running ready (mark Skipped dead st)) results w2 = (Inr c, w3)"
    "report_commit (rt_host R) g ctx results c w3 = (Inr (), w')"
    "st' = c_state c"
proof -
  obtain st1 w0 where sk: "skip_impossible g ctx st w = (Inr st1, w0)"
    and r1: "bnd (lift (find_ready_nodes (max_parallel_nodes_per_task (limits ctx)) g st1)) (\<lambda>ready.
       if ready = [] then
         (if can_finalize st1 then ret (Done (st1\<lparr>frozen := True\<rparr>))
          else throw (Exc GraphDeadlockErrorC
                 (''No ready nodes and no final output: {'' @ status_report st1 @ ''}'')))
       else run_ready R g ctx st1 ready) w0 = (Inr (More st'), w')"
    using assms by (auto simp: wave_step_def bnd_eq_Inr)
  obtain dead where dead: "impossible_nodes g st = Inr dead" "st1 = mark Skipped dead st"
    using sk by (auto simp: skip_impossible_def io_simps skip_mark)
  obtain ready where ready: "find_ready_nodes (max_parallel_nodes_per_task (limits ctx)) g st1 = Inr ready"
      "ready \<noteq> []" "run_ready R g ctx st1 ready w0 = (Inr (More st'), w')"
    using r1 by (auto simp: bnd_eq_Inr split: if_splits)
  obtain w1 where w1: "emit ctx g ''WAVE_STARTED'' (\<lambda>e. e\<lparr>ev_wave_id := Some (wave_id st1),
       ev_metadata := [(''ready_nodes'', JList (map JStr ready))]\<rparr>) w0 = (Inr (), w1)"
    by (simp add: emit_def)
  obtain st2 inputs w2 results c w3 where
    p: "prepare (rt_host R) g ctx ready st1 [] w1 = (Inr (st2, inputs), w2)"
    and rest: "run_wave R g ctx inputs ready = Inr results"
      "commit_wave (rt_host R) g st2 results w2 = (Inr c, w3)"
      "report_commit (rt_host R) g ctx results c w3 = (Inr (), w')" "st' = c_state c"
    using ready(3) w1 by (auto simp: run_ready_def Let_def bnd_eq_Inr thn_eq_Inr)
  have "st2 = mark Running ready st1" by (rule prepare_state [OF p])
  then show thesis using that [of dead ready w0 w1 inputs w2 results c w3] dead ready sk w1 p rest by simp
qed

lemma wave_step_pending:
  assumes "wave_step R g ctx st w = (Inr (More st'), w')"
  shows "pending_nodes st' \<subset> pending_nodes st"
proof -
  obtain dead ready inputs results c w0 w1 w2 w3 w4 where
    ready: "find_ready_nodes (max_parallel_nodes_per_task (limits ctx)) g (mark Skipped dead st) = Inr ready"
      "ready \<noteq> []"
    and cw: "commit_wave (rt_host R) g (mark Running ready (mark Skipped dead st)) results w2 = (Inr c, w3)"
    and st': "st' = c_state c"
    by (rule wave_step_MoreE [OF assms])
  have "apply_results g (mark Running ready (mark Skipped dead st)) results = Inr c"
    by (rule commit_waveE [OF cw])
  from apply_results_pending [OF this]
  have "pending_nodes st' \<subseteq> pending_nodes (mark Skipped dead st) - set ready"
    using mark_pending [of Running ready "mark Skipped dead st"] st' by simp
  moreover have "pending_nodes (mark Skipped dead st) \<subseteq> pending_nodes st"
    by (simp add: mark_pending)
  moreover obtain n where "n \<in> set ready" using ready(2) by (cases ready) auto
  moreover from this have "n \<in> pending_nodes (mark Skipped dead st)"
    using ready_pending [OF ready(1)] by (rule rev_subsetD)
  ultimately have "pending_nodes st' \<subseteq> pending_nodes st" "n \<in> pending_nodes st" "n \<notin> pending_nodes st'"
    by (meson Diff_iff subset_iff)+
  then show ?thesis by blast
qed

text \<open>\<open>while not state.frozen\<close>.\<close>

function run_loop :: "runtime \<Rightarrow> orchestra_graph \<Rightarrow> run_context \<Rightarrow> runtime_state \<Rightarrow> world \<Rightarrow> runtime_state res \<times> world" where
  "run_loop R g ctx st w =
     (if frozen st then (Inr st, w)
      else case wave_step R g ctx st w of
             (Inl e, w') \<Rightarrow> (Inl e, w')
           | (Inr (Done st'), w') \<Rightarrow> (Inr st', w')
           | (Inr (More st'), w') \<Rightarrow> run_loop R g ctx st' w')"
  by pat_completeness auto
termination
  by (relation "measure (\<lambda>(R, g, ctx, st, w). card (pending_nodes st))")
    (simp_all add: psubset_card_mono wave_step_pending [OF sym])

declare run_loop.simps [simp del]

section \<open>The result\<close>

definition latency_of :: "runtime_state \<Rightarrow> string \<Rightarrow> int" where
  "latency_of st n = (case dget (node_latencies_ms st) n of None \<Rightarrow> 0 | Some l \<Rightarrow> l)"

definition longest_of :: "int dict \<Rightarrow> string \<Rightarrow> int" where
  "longest_of longest n = (case dget longest n of None \<Rightarrow> 0 | Some l \<Rightarrow> l)"

text \<open>\<open>max(xs, default=0)\<close>.\<close>

definition max_default :: "int list \<Rightarrow> int" where
  "max_default xs = (case xs of [] \<Rightarrow> 0 | x # xs' \<Rightarrow> foldl max x xs')"

definition path_step :: "orchestra_graph \<Rightarrow> runtime_state \<Rightarrow> string \<Rightarrow> int dict \<Rightarrow> int dict" where
  "path_step g st n longest =
     dset n (latency_of st n + max_default (map (\<lambda>e. longest_of longest (source_node e))
       (filter (\<lambda>e. destination_node e = n) (edges g)))) longest"

definition longest_paths :: "compiled_graph \<Rightarrow> runtime_state \<Rightarrow> int dict" where
  "longest_paths cg st = fold (path_step (graph cg) st) (concat (waves cg)) []"

definition count_status :: "node_status \<Rightarrow> runtime_state \<Rightarrow> int" where
  "count_status s st = int (length (filter (\<lambda>x. x = s) (dvalues (node_status st))))"

text \<open>\<open>_result\<close>.\<close>

definition make_result :: "compiled_graph \<Rightarrow> runtime_state \<Rightarrow> int \<Rightarrow> graph_result" where
  "make_result cg st wall =
     (let total = sum_list (dvalues (node_latencies_ms st)) in
      \<lparr>final_state = st, wall_latency_ms = wall, sum_node_latency_ms = total,
       critical_path_latency_ms = max_default (dvalues (longest_paths cg st)),
       parallel_node_count = int (sum_list (map length (filter (\<lambda>w. 1 < length w) (waves cg)))),
       concurrency_speedup = (if wall \<noteq> 0 then py_truediv total wall else 1),
       failed_node_count = count_status Failed st, skipped_node_count = count_status Skipped st,
       res_checkpoint_count = checkpoint_count st\<rparr>)"

section \<open>The entry point\<close>

definition execute ::
  "runtime \<Rightarrow> compiled_graph \<Rightarrow> envelope dict \<Rightarrow> run_context \<Rightarrow> (world, graph_result) io" where
  "execute R cg bundle ctx =
     bnd (start_state R (graph cg) bundle ctx) (\<lambda>st.
       if frozen st then ret (make_result cg st (rt_wall_ms R))
       else
         bnd (run_loop R (graph cg) ctx st) (\<lambda>st'.
         thn (if frozen st' then emit ctx (graph cg) ''FINAL_OUTPUT_FROZEN'' (\<lambda>e. e) else ret ())
             (ret (make_result cg st' (rt_wall_ms R)))))"

end
