(* ===== verification/Runtime_Props.thy ===== *)
theory Runtime_Props
  imports Runtime
begin

text \<open>
  What a run never does, whatever the executors answer and whether it returns or raises:
  rewrite a stored artifact, drop an event from the log, or touch a file of another task.
\<close>

section \<open>What is never taken back\<close>

lemma emit_keeps [intro]:
  "immutable.keeps (emit ctx g ty f)" "append_only.keeps (emit ctx g ty f)"
  unfolding emit_def by blast+

lemma load_inputs_keeps [intro]:
  "immutable.keeps (load_inputs H g st n)" "append_only.keeps (load_inputs H g st n)"
  unfolding load_inputs_def by (auto simp: case_prod_beta')

lemma prepare_keeps [intro]:
  "immutable.keeps (prepare H g ctx ns st inputs)" "append_only.keeps (prepare H g ctx ns st inputs)"
proof (induction ns arbitrary: st inputs)
  case (Cons n ns)
  {
    case 1
    show ?case unfolding prepare.simps Let_def
      by (intro immutable.keeps_bnd immutable.keeps_thn load_inputs_keeps emit_keeps Cons.IH)
  next
    case 2
    show ?case unfolding prepare.simps Let_def
      by (intro append_only.keeps_bnd append_only.keeps_thn load_inputs_keeps emit_keeps Cons.IH)
  }
qed auto

lemma skip_keeps [intro]:
  "immutable.keeps (skip_impossible g ctx st)" "append_only.keeps (skip_impossible g ctx st)"
  unfolding skip_impossible_def by blast+

lemma report_keeps [intro]:
  "immutable.keeps (report_result g ctx wv r)" "append_only.keeps (report_result g ctx wv r)"
  "immutable.keeps (report_edges g ctx wv ty ids)" "append_only.keeps (report_edges g ctx wv ty ids)"
  unfolding report_result_def report_edges_def by blast+

lemma report_commit_keeps [intro]:
  "immutable.keeps (report_commit H g ctx rs c)" "append_only.keeps (report_commit H g ctx rs c)"
  unfolding report_commit_def Let_def by blast+

lemma run_ready_keeps [intro]:
  "immutable.keeps (run_ready R g ctx st ready)" "append_only.keeps (run_ready R g ctx st ready)"
  unfolding run_ready_def Let_def case_prod_beta' by blast+

lemma wave_step_keeps [intro]:
  "immutable.keeps (wave_step R g ctx st)" "append_only.keeps (wave_step R g ctx st)"
  unfolding wave_step_def by (intro immutable.keeps_bnd append_only.keeps_bnd; auto)+

lemma start_keeps [intro]:
  "immutable.keeps (start_state R g b ctx)" "append_only.keeps (start_state R g b ctx)"
  unfolding start_state_def Let_def
  by (intro immutable.keeps_bnd append_only.keeps_bnd; auto split: option.splits)+

text \<open>A relation every turn keeps is kept by the whole loop.\<close>

lemma loop_relates:
  assumes le_refl: "\<And>w. le w w" and le_trans: "\<And>a b c. le a b \<Longrightarrow> le b c \<Longrightarrow> le a c"
    and step: "\<And>st w. frozen st = False \<Longrightarrow> I st w \<Longrightarrow> le w (snd (wave_step R g ctx st w))"
    and inv: "\<And>st w st' w'. I st w \<Longrightarrow> wave_step R g ctx st w = (Inr (More st'), w') \<Longrightarrow> I st' w'"
  shows "I st w \<Longrightarrow> le w (snd (run_loop R g ctx st w))"
proof (induction R\<equiv>R g\<equiv>g ctx\<equiv>ctx st w rule: run_loop.induct)
  case (1 st w)
  show ?case
  proof (cases "frozen st")
    case True
    then show ?thesis by (simp add: run_loop.simps le_refl)
  next
    case False
    obtain r w' where r: "wave_step R g ctx st w = (r, w')" by (cases "wave_step R g ctx st w")
    have le: "le w w'" using step [OF _ "1.prems"] False r by simp
    show ?thesis
    proof (cases r)
      case (Inl e)
      then show ?thesis using r False le by (simp add: run_loop.simps [of _ _ _ st w])
    next
      case (Inr t)
      show ?thesis
      proof (cases t)
        case (Done st')
        then show ?thesis using r Inr False le by (simp add: run_loop.simps [of _ _ _ st w])
      next
        case (More st')
        have "wave_step R g ctx st w = (Inr (More st'), w')" using r Inr More by simp
        from inv [OF "1.prems" this] have "le w' (snd (run_loop R g ctx st' w'))"
          using "1.hyps" [OF False r [symmetric] Inr More] by blast
        then show ?thesis using r Inr More False le le_trans
          by (simp add: run_loop.simps [of _ _ _ st w])
      qed
    qed
  qed
qed

lemma run_loop_keeps [intro]:
  "immutable.keeps (run_loop R g ctx st)" "append_only.keeps (run_loop R g ctx st)"
proof -
  have "artifacts_le w (snd (run_loop R g ctx st w))" for w
    by (rule loop_relates [where I = "\<lambda>_ _. True"])
      (auto intro: immutable.le_refl immutable.le_trans immutable.keeps_snd)
  then show "immutable.keeps (run_loop R g ctx st)" by (auto simp: immutable.keeps_def) (metis snd_conv)
  have "log_le w (snd (run_loop R g ctx st w))" for w
    by (rule loop_relates [where I = "\<lambda>_ _. True"])
      (auto intro: append_only.le_refl append_only.le_trans append_only.keeps_snd)
  then show "append_only.keeps (run_loop R g ctx st)" by (auto simp: append_only.keeps_def) (metis snd_conv)
qed

lemma execute_keeps:
  "immutable.keeps (execute R cg bundle ctx)" "append_only.keeps (execute R cg bundle ctx)"
  unfolding execute_def by (intro immutable.keeps_bnd append_only.keeps_bnd; auto)+

section \<open>A run touches the files of its own task only\<close>

fun path_task :: "path \<Rightarrow> string option" where
  "path_task (ArtifactFile t _) = Some t"
| "path_task (ArtifactTmp t _) = Some t"
| "path_task (CheckpointFile t) = Some t"
| "path_task (CheckpointTmp t) = Some t"
| "path_task (TaskFile t _) = Some t"
| "path_task (RunFile _) = None"

text \<open>The artifacts a run adds carry its task's name in their identifiers.\<close>

definition named_for :: "string \<Rightarrow> string \<Rightarrow> bool" where
  "named_for task i \<longleftrightarrow> (\<exists>n u. i = task @ ''-'' @ n @ ''-'' @ u)"

definition new_names :: "string \<Rightarrow> world \<Rightarrow> world \<Rightarrow> bool" where
  "new_names task w w' \<longleftrightarrow> (\<forall>i. file_at w' (ArtifactFile task i) \<noteq> None \<longrightarrow>
     file_at w (ArtifactFile task i) \<noteq> None \<or> named_for task i)"

definition others_same :: "string \<Rightarrow> world \<Rightarrow> world \<Rightarrow> bool" where
  "others_same task w w' \<longleftrightarrow> (\<forall>p. path_task p \<noteq> Some task \<longrightarrow> file_at w' p = file_at w p) \<and> new_names task w w'"

interpretation isolated: world_order "others_same task" for task
  by unfold_locales (simp_all add: others_same_def new_names_def del: not_None_eq, blast)

lemma put_isolated [intro]:
  "env_task_id a = task \<Longrightarrow> named_for task (artifact_id a) \<Longrightarrow> isolated.keeps task (put_artifact H a)"
  by (auto simp: isolated.keeps_def put_artifact_cases put_state_def others_same_def new_names_def
      split: sum.splits option.splits if_splits)

lemma get_isolated [intro]: "isolated.keeps task (get_artifact H i)"
  by (auto simp: isolated.keeps_def get_artifact_def isolated.le_refl)

lemma save_isolated [intro]: "task_id st = task \<Longrightarrow> isolated.keeps task (save_checkpoint H st)"
  by (auto simp: isolated.keeps_def save_checkpoint_def others_same_def new_names_def)

lemma load_isolated [intro]: "isolated.keeps task (load_checkpoint H t g c a)"
  by (auto simp: isolated.keeps_def load_checkpoint_def isolated.le_refl)

lemma emit_isolated [intro]: "isolated.keeps task (emit ctx g ty f)"
  by (auto simp: isolated.keeps_def emit_def others_same_def new_names_def)

lemma load_inputs_isolated [intro]: "isolated.keeps task (load_inputs H g st n)"
  unfolding load_inputs_def by (auto simp: case_prod_beta')

lemma prepare_isolated [intro]: "isolated.keeps task (prepare H g ctx ns st inputs)"
proof (induction ns arbitrary: st inputs)
  case (Cons n ns)
  show ?case unfolding prepare.simps Let_def
    by (intro isolated.keeps_bnd isolated.keeps_thn load_inputs_isolated emit_isolated Cons.IH)
qed auto

lemma skip_isolated [intro]: "isolated.keeps task (skip_impossible g ctx st)"
  unfolding skip_impossible_def by blast

lemma report_isolated [intro]:
  "isolated.keeps task (report_result g ctx wv r)" "isolated.keeps task (report_edges g ctx wv ty ids)"
  unfolding report_result_def report_edges_def by blast+

lemma report_commit_isolated [intro]:
  "task_id (c_state c) = task \<Longrightarrow> isolated.keeps task (report_commit H g ctx rs c)"
  unfolding report_commit_def Let_def by blast

end
