(* ===== verification/Run_Invariant.thy ===== *)
theory Run_Invariant
  imports Runtime_Props
begin

text \<open>
  The invariant of a run between two waves, over the state and the world together:
  the store is consistent, the state satisfies \<open>state_inv\<close>, every status is one of the
  four a wave can leave behind, every artifact the state refers to is stored, and the
  active conditional edges are those whose condition holds for the stored payload.
\<close>

section \<open>What the steps around a commit leave alone\<close>

definition same_artifacts :: "world \<Rightarrow> world \<Rightarrow> bool" where
  "same_artifacts w w' \<longleftrightarrow>
     (\<forall>t i. file_at w' (ArtifactFile t i) = file_at w (ArtifactFile t i))
     \<and> (distinct (map fst (fs w)) \<longrightarrow> distinct (map fst (fs w')))"

interpretation quiet: world_order same_artifacts
  by unfold_locales (auto simp: same_artifacts_def)

lemma get_quiet [intro]: "quiet.keeps (get_artifact H i)"
  by (auto simp: quiet.keeps_def get_artifact_def quiet.le_refl)

lemma save_quiet [intro]: "quiet.keeps (save_checkpoint H st)"
  by (auto simp: quiet.keeps_def save_checkpoint_def same_artifacts_def distinct_write_via_tmp)

lemma emit_quiet [intro]: "quiet.keeps (emit ctx g ty f)"
  by (auto simp: quiet.keeps_def emit_def same_artifacts_def)

lemma load_inputs_quiet [intro]: "quiet.keeps (load_inputs H g st n)"
  unfolding load_inputs_def by (auto simp: case_prod_beta')

lemma prepare_quiet [intro]: "quiet.keeps (prepare H g ctx ns st inputs)"
proof (induction ns arbitrary: st inputs)
  case (Cons n ns)
  show ?case unfolding prepare.simps Let_def
    by (intro quiet.keeps_bnd quiet.keeps_thn load_inputs_quiet emit_quiet Cons.IH)
qed auto

lemma skip_quiet [intro]: "quiet.keeps (skip_impossible g ctx st)"
  unfolding skip_impossible_def by blast

lemma report_quiet [intro]:
  "quiet.keeps (report_result g ctx wv r)" "quiet.keeps (report_edges g ctx wv ty ids)"
  unfolding report_result_def report_edges_def by blast+

lemma report_commit_quiet [intro]: "quiet.keeps (report_commit H g ctx rs c)"
  unfolding report_commit_def Let_def by blast

lemma same_artifacts_store:
  assumes "same_artifacts w w'" "store_inv H w"
  shows "store_inv H w'" "stored_artifact H w' = stored_artifact H w"
proof -
  show inv: "store_inv H w'"
    by (rule store_inv_cong [OF assms(2)])
      (use assms(1) store_invD(2) [OF assms(2)] in \<open>simp_all add: same_artifacts_def\<close>)
  show "stored_artifact H w' = stored_artifact H w"
    by (rule stored_artifact_cong [OF assms(2) inv]) (use assms(1) in \<open>simp add: same_artifacts_def\<close>)
qed

section \<open>The invariant\<close>

text \<open>Between waves no node is \<open>READY\<close>, \<open>RUNNING\<close> or \<open>CANCELLED\<close>.\<close>

definition settled :: "runtime_state \<Rightarrow> bool" where
  "settled st \<longleftrightarrow> (\<forall>n s. dget (node_status st) n = Some s \<longrightarrow> s \<in> {Pending, Succeeded, Failed, Skipped})"

text \<open>No artifact of another task carries an identifier this run may choose.\<close>

definition ids_free :: "string \<Rightarrow> orchestra_graph \<Rightarrow> world \<Rightarrow> bool" where
  "ids_free task g w \<longleftrightarrow> (\<forall>t n u. t \<noteq> task \<longrightarrow> n \<in> set (node_ids g) \<longrightarrow>
     file_at w (ArtifactFile t (task @ ''-'' @ n @ ''-'' @ u)) = None)"

text \<open>The output of a node that succeeded: one artifact, in its first slot, stored and its own.\<close>

definition output_stored :: "host \<Rightarrow> orchestra_graph \<Rightarrow> world \<Rightarrow> string \<Rightarrow> string \<Rightarrow> string dict \<Rightarrow> bool" where
  "output_stored H g w task n outs \<longleftrightarrow>
     (\<exists>nd slot ty rest a. nd \<in> set (nodes g) \<and> node_id nd = n \<and> output_slots nd = (slot, ty) # rest
        \<and> outs = [(slot, artifact_id a)] \<and> stored_artifact H w (artifact_id a) = Some a
        \<and> env_task_id a = task \<and> producer_node_id a = n
        \<and> (\<exists>u. artifact_id a = task @ ''-'' @ n @ ''-'' @ u))"

definition run_core :: "host \<Rightarrow> orchestra_graph \<Rightarrow> string \<Rightarrow> runtime_state \<Rightarrow> world \<Rightarrow> bool" where
  "run_core H g task st w \<longleftrightarrow>
     store_inv H w \<and> state_inv g st \<and> task_id st = task \<and> ids_free task g w
     \<and> distinct (dkeys (node_outputs st))
     \<and> (\<forall>n outs. dget (node_outputs st) n = Some outs \<longrightarrow> output_stored H g w task n outs)
     \<and> (\<forall>aid \<in> set (dvalues (initial_artifacts st)). stored_artifact H w aid \<noteq> None)
     \<and> edges_true g (stored_artifact H w) st"

definition run_inv :: "host \<Rightarrow> orchestra_graph \<Rightarrow> string \<Rightarrow> runtime_state \<Rightarrow> world \<Rightarrow> bool" where
  "run_inv H g task st w \<longleftrightarrow> run_core H g task st w \<and> settled st"

lemma run_core_quiet:
  assumes "run_core H g task st w" "same_artifacts w w'"
  shows "run_core H g task st w'"
proof -
  have "store_inv H w" using assms(1) by (simp add: run_core_def)
  note S = same_artifacts_store [OF assms(2) this]
  have "ids_free task g w'"
    using assms by (simp add: run_core_def ids_free_def same_artifacts_def)
  then show ?thesis using assms(1) S by (simp add: run_core_def output_stored_def)
qed

lemma run_core_mark:
  assumes "run_core H g task st w" "set ids \<subseteq> set (node_ids g)" "s \<noteq> Succeeded"
    "\<forall>n \<in> set ids. dget (node_status st) n \<noteq> Some Succeeded"
  shows "run_core H g task (mark s ids st) w"
  using assms(1) mark_inv [OF _ assms(2-4)] by (simp add: run_core_def)

lemma settled_mark:
  "settled st \<Longrightarrow> s \<in> {Pending, Succeeded, Failed, Skipped} \<Longrightarrow> settled (mark s ids st)"
  by (simp add: settled_def mark_status)


section \<open>The results of a wave\<close>

lemma rmap_nth: "rmap f xs = Inr ys \<Longrightarrow> list_all2 (\<lambda>x y. f x = Inr y) xs ys"
  by (induction xs arbitrary: ys) (auto simp: res_simps)

lemma run_node_produced:
  assumes "distinct (node_ids g)" "pydantic_ok (pyd (plat (rt_host R)))" "run_node R g ctx inputs nid = Inr r"
  obtains n loaded where "n \<in> set (nodes g)" "node_id n = nid" "dget inputs nid = Some loaded"
    "execute_safely (plat (rt_host R)) (rt_services R) (rt_executors R) ctx n loaded = Inr r"
    "produced (plat (rt_host R)) (ctx_task_id ctx) (stamp_for (rt_services R)) n loaded r" "res_node_id r = nid"
proof -
  obtain n loaded where n: "dget (node_map g) nid = Some n" "dget inputs nid = Some loaded"
    "execute_safely (plat (rt_host R)) (rt_services R) (rt_executors R) ctx n loaded = Inr r"
    using assms(3) by (auto simp: run_node_def res_simps)
  have p: "produced (plat (rt_host R)) (ctx_task_id ctx) (stamp_for (rt_services R)) n loaded r"
    by (rule registry.run_produced [OF assms(2) n(3)])
  have "n \<in> set (nodes g)" "node_id n = nid" using node_map_SomeD [OF assms(1) n(1)] by simp_all
  then show thesis using that [of n loaded] n p by (simp add: produced_def)
qed

lemma run_wave_produced:
  assumes "distinct (node_ids g)" "pydantic_ok (pyd (plat (rt_host R)))" "run_wave R g ctx inputs ready = Inr rs"
  shows "map res_node_id rs = ready"
    and "r \<in> set rs \<Longrightarrow> \<exists>n loaded. n \<in> set (nodes g) \<and> node_id n = res_node_id r
      \<and> dget inputs (res_node_id r) = Some loaded
      \<and> execute_safely (plat (rt_host R)) (rt_services R) (rt_executors R) ctx n loaded = Inr r
      \<and> produced (plat (rt_host R)) (ctx_task_id ctx) (stamp_for (rt_services R)) n loaded r"
proof -
  have all: "list_all2 (\<lambda>x y. run_node R g ctx inputs x = Inr y) ready rs"
    using assms(3) by (auto simp: run_wave_def split: sum.splits intro: rmap_nth)
  have id: "res_node_id r = nid" if "run_node R g ctx inputs nid = Inr r" for nid r
    by (rule run_node_produced [OF assms(1,2) that])
  show "map res_node_id rs = ready"
    using all by (induction rule: list_all2_induct) (simp_all add: id)
  show "\<exists>n loaded. n \<in> set (nodes g) \<and> node_id n = res_node_id r
      \<and> dget inputs (res_node_id r) = Some loaded
      \<and> execute_safely (plat (rt_host R)) (rt_services R) (rt_executors R) ctx n loaded = Inr r
      \<and> produced (plat (rt_host R)) (ctx_task_id ctx) (stamp_for (rt_services R)) n loaded r" if "r \<in> set rs"
  proof -
    obtain nid where nid: "run_node R g ctx inputs nid = Inr r"
      using all \<open>r \<in> set rs\<close> by (auto simp: list_all2_conv_all_nth in_set_conv_nth)
    obtain n loaded where "n \<in> set (nodes g)" "node_id n = nid" "dget inputs nid = Some loaded"
      "execute_safely (plat (rt_host R)) (rt_services R) (rt_executors R) ctx n loaded = Inr r"
      "produced (plat (rt_host R)) (ctx_task_id ctx) (stamp_for (rt_services R)) n loaded r" "res_node_id r = nid"
      by (rule run_node_produced [OF assms(1,2) nid])
    then show ?thesis by (intro exI [of _ n] exI [of _ loaded]) simp
  qed
qed

text \<open>The artifacts of a wave may be stored: they belong to the task and nobody else has their names.\<close>

definition wave_results :: "host \<Rightarrow> orchestra_graph \<Rightarrow> string \<Rightarrow> node_result list \<Rightarrow> bool" where
  "wave_results H g task rs \<longleftrightarrow> distinct (map res_node_id rs)
     \<and> (\<forall>r \<in> set rs. \<exists>n loaded stamps. n \<in> set (nodes g) \<and> node_id n = res_node_id r
          \<and> produced (plat H) task stamps n loaded r)"

lemma wave_results_run:
  assumes "distinct (node_ids g)" "pydantic_ok (pyd (plat (rt_host R)))"
    "run_wave R g ctx inputs ready = Inr rs" "distinct ready"
  shows "wave_results (rt_host R) g (ctx_task_id ctx) rs"
  using run_wave_produced [OF assms(1-3)] assms(4) unfolding wave_results_def by metis

lemma wave_results_outputs:
  assumes "wave_results H g task rs" "r \<in> set rs" "succeeded r"
  obtains nd slot ty rest a where "nd \<in> set (nodes g)" "node_id nd = res_node_id r"
    "output_slots nd = (slot, ty) # rest" "outputs r = [(slot, a)]" "valid_artifact (plat H) a"
    "env_task_id a = task" "producer_node_id a = res_node_id r"
    "\<exists>u. artifact_id a = task @ ''-'' @ res_node_id r @ ''-'' @ u"
proof -
  obtain n loaded stamps where n: "n \<in> set (nodes g)" "node_id n = res_node_id r" "produced (plat H) task stamps n loaded r"
    using assms(1,2) unfolding wave_results_def by blast
  then obtain slot ty rest a where "output_slots n = (slot, ty) # rest" "outputs r = [(slot, a)]"
    "valid_artifact (plat H) a" "env_task_id a = task" "producer_node_id a = node_id n"
    "\<exists>u. artifact_id a = task @ ''-'' @ node_id n @ ''-'' @ u"
    using assms(3) unfolding produced_def artifact_name_def by blast
  then show thesis using that [of n slot ty rest a] n by simp
qed

lemma wave_results_nodes: "wave_results H g task rs \<Longrightarrow> r \<in> set rs \<Longrightarrow> res_node_id r \<in> set (node_ids g)"
  unfolding wave_results_def node_ids_def by (metis imageI list.set_map)

lemma wave_results_admitted:
  assumes "wave_results H g task rs" "ids_free task g w"
  shows "wave_admitted w task rs"
  unfolding wave_admitted_def
proof
  fix a assume "a \<in> set (wave_outputs rs)"
  then obtain r where r: "r \<in> set rs" "succeeded r" "a \<in> set (dvalues (outputs r))"
    by (auto simp: wave_outputs_set)
  obtain nd slot ty rest b where "outputs r = [(slot, b)]" "env_task_id b = task"
    "\<exists>u. artifact_id b = task @ ''-'' @ res_node_id r @ ''-'' @ u"
    by (rule wave_results_outputs [OF assms(1) r(1,2)])
  then show "admits_artifact w a \<and> env_task_id a = task"
    using r(3) assms(2) wave_results_nodes [OF assms(1) r(1)]
    by (auto simp: admits_artifact_def ids_free_def)
qed

lemma wave_results_named:
  assumes "wave_results H g task rs" "a \<in> set (wave_outputs rs)"
  shows "env_task_id a = task" "named_for task (artifact_id a)"
proof -
  obtain r where r: "r \<in> set rs" "succeeded r" "a \<in> set (dvalues (outputs r))"
    using assms(2) by (auto simp: wave_outputs_set)
  obtain nd slot ty rest b where b: "outputs r = [(slot, b)]" "env_task_id b = task"
    "\<exists>u. artifact_id b = task @ ''-'' @ res_node_id r @ ''-'' @ u"
    by (rule wave_results_outputs [OF assms(1) r(1,2)])
  have "a = b" using r(3) b(1) by simp
  then show "env_task_id a = task" "named_for task (artifact_id a)" using b(2,3) unfolding named_for_def by blast+
qed

section \<open>A commit keeps the invariant\<close>

lemma find_SomeD: "find P xs = Some x \<Longrightarrow> x \<in> set xs \<and> P x"
  by (induction xs) (auto split: if_splits)

lemma commit_results_outputs:
  assumes "commit_results g rs c = Inr c'" "distinct (map res_node_id rs)"
  shows "dget (node_outputs (c_state c')) n =
    (case find (\<lambda>r. res_node_id r = n \<and> succeeded r) rs of
       None \<Rightarrow> dget (node_outputs (c_state c)) n | Some r \<Rightarrow> Some (output_ids r))"
    and "distinct (dkeys (node_outputs (c_state c))) \<Longrightarrow> distinct (dkeys (node_outputs (c_state c')))"
  using assms
proof (induction rs arbitrary: c)
  case (Cons r rs)
  {
    case 1
    then obtain c1 where c1: "commit_result g r c = Inr c1" "commit_results g rs c1 = Inr c'"
      by (auto simp: res_simps)
    have "find (\<lambda>x. res_node_id x = res_node_id r \<and> succeeded x) rs = None"
      using 1(2) by (auto simp: find_None_iff rev_image_eqI)
    then show ?case using Cons.IH(1) [OF c1(2)] 1(2)
      by (auto simp: commit_result_outputs [OF c1(1)] dget_dset split: option.splits)
  next
    case 2
    then obtain c1 where c1: "commit_result g r c = Inr c1" "commit_results g rs c1 = Inr c'"
      by (auto simp: res_simps)
    show ?case using Cons.IH(2) [OF _ c1(2)] 2
      by (simp add: commit_result_outputs [OF c1(1)] distinct_update)
  }
qed simp_all

lemma apply_results_outputs:
  assumes ap: "apply_results g prev rs = Inr c" and d: "distinct (map res_node_id rs)"
    and out: "dget (node_outputs (c_state c)) n = Some outs"
  shows "dget (node_outputs prev) n = Some outs
    \<or> (\<exists>r \<in> set rs. res_node_id r = n \<and> succeeded r \<and> outs = output_ids r)"
proof -
  obtain c1 dead where
    c1: "commit_results g (sort_key res_node_id rs)
       \<lparr>c_state = prev, c_committed = [], c_activated = [], c_disabled = []\<rparr> = Inr c1"
    and st: "c_state c = (mark Skipped dead (c_state c1))\<lparr>wave_id := wave_id (c_state c1) + 1,
       checkpoint_count := checkpoint_count (c_state c1) + 1\<rparr>"
    by (rule apply_resultsE [OF ap])
  note O = commit_results_outputs(1) [OF c1 sorted_wave [OF d], of n]
  show ?thesis
  proof (cases "find (\<lambda>r. res_node_id r = n \<and> succeeded r) (sort_key res_node_id rs)")
    case None
    then show ?thesis using out O by (simp add: st)
  next
    case (Some r)
    then show ?thesis using out O find_SomeD [OF Some] by (auto simp: st)
  qed
qed

lemma apply_results_distinct:
  assumes ap: "apply_results g prev rs = Inr c" and d: "distinct (map res_node_id rs)"
    "distinct (dkeys (node_outputs prev))"
  shows "distinct (dkeys (node_outputs (c_state c)))"
proof -
  obtain c1 dead where
    c1: "commit_results g (sort_key res_node_id rs)
       \<lparr>c_state = prev, c_committed = [], c_activated = [], c_disabled = []\<rparr> = Inr c1"
    and st: "c_state c = (mark Skipped dead (c_state c1))\<lparr>wave_id := wave_id (c_state c1) + 1,
       checkpoint_count := checkpoint_count (c_state c1) + 1\<rparr>"
    by (rule apply_resultsE [OF ap])
  show ?thesis using commit_results_outputs(2) [OF c1 sorted_wave [OF d(1)]] d(2) by (simp add: st)
qed

lemma edges_true_mono:
  assumes "edges_true g look st" "\<And>i a. look i = Some a \<Longrightarrow> look' i = Some a"
    "\<And>n outs slot aid. dget (node_outputs st) n = Some outs \<Longrightarrow> dget outs slot = Some aid \<Longrightarrow> look aid \<noteq> None"
  shows "edges_true g look' st"
proof -
  have "condition_holds look' st e = condition_holds look st e" for e
    unfolding condition_holds_def using assms(2,3) by (metis option.exhaust option.inject)
  then show ?thesis using assms(1) by (simp add: edges_true_def)
qed

lemma commit_run_core:
  assumes core: "run_core H g task prev w" and cw: "commit_wave H g prev rs w = (Inr c, w')"
    and rs: "wave_results H g task rs" and new: "\<forall>r \<in> set rs. dget (node_status prev) (res_node_id r) \<noteq> Some Succeeded"
    and ids: "distinct (edge_ids g)"
  shows "run_core H g task (c_state c) w'"
proof -
  obtain put: "for_each (put_artifact H) (wave_outputs rs) w = (Inr (), w')"
    and ap: "apply_results g prev rs = Inr c" by (rule commit_waveE [OF cw])
  have inv: "store_inv H w" "state_inv g prev" "ids_free task g w" "task_id prev = task"
    "distinct (dkeys (node_outputs prev))" "edges_true g (stored_artifact H w) prev"
    using core by (simp_all add: run_core_def)
  have outs: "output_stored H g w task n outs" if "dget (node_outputs prev) n = Some outs" for n outs
    using core that by (simp add: run_core_def)
  have adm: "\<forall>a \<in> set (wave_outputs rs). admits_artifact w a \<and> env_task_id a = task"
    using wave_results_admitted [OF rs inv(3)] by (simp add: wave_admitted_def)
  note P = file_store.put_all [OF put inv(1) adm]
  have look: "\<And>i a. stored_artifact H w i = Some a \<Longrightarrow> stored_artifact H w' i = Some a" using P by blast
  have d: "distinct (map res_node_id rs)" using rs by (simp add: wave_results_def)
  have wave: "wave_of g prev rs"
    using d new wave_results_nodes [OF rs] by (simp add: wave_of_def)
  note A = apply_results_inv [OF ap inv(2) ids wave]
  have stored: "\<forall>r \<in> set rs. succeeded r \<longrightarrow>
      (\<forall>a \<in> set (dvalues (outputs r)). stored_artifact H w' (artifact_id a) = Some a)"
    using P wave_outputs_set [of rs] by blast
  have known: "stored_artifact H w aid \<noteq> None"
    if "dget (node_outputs prev) n = Some outs" "dget outs slot = Some aid" for n outs slot aid
    using outs [OF that(1)] that(2) by (auto simp: output_stored_def split: if_splits)
  have "edges_true g (stored_artifact H w') (c_state c)"
    by (rule A(3) [OF edges_true_mono [OF inv(6) look known] stored])
  moreover have "ids_free task g w'"
  proof -
    have "isolated.keeps task (for_each (put_artifact H) (wave_outputs rs))"
      by (intro isolated.keeps_for_each put_isolated wave_results_named [OF rs])
    then have "others_same task w w'" using put by (rule isolated.keepsD)
    then show ?thesis using inv(3) by (simp add: ids_free_def others_same_def)
  qed
  moreover have "output_stored H g w' task n outs" if "dget (node_outputs (c_state c)) n = Some outs" for n outs
    using apply_results_outputs [OF ap d that]
  proof
    assume "dget (node_outputs prev) n = Some outs"
    from outs [OF this] show ?thesis unfolding output_stored_def using look by blast
  next
    assume "\<exists>r \<in> set rs. res_node_id r = n \<and> succeeded r \<and> outs = output_ids r"
    then obtain r where r: "r \<in> set rs" "res_node_id r = n" "succeeded r" "outs = output_ids r" by blast
    obtain nd slot ty rest a where a: "nd \<in> set (nodes g)" "node_id nd = res_node_id r"
      "output_slots nd = (slot, ty) # rest" "outputs r = [(slot, a)]" "valid_artifact (plat H) a"
      "env_task_id a = task" "producer_node_id a = res_node_id r"
      "\<exists>u. artifact_id a = task @ ''-'' @ res_node_id r @ ''-'' @ u"
      by (rule wave_results_outputs [OF rs r(1,3)])
    have "stored_artifact H w' (artifact_id a) = Some a" using bspec [OF stored r(1)] r(3) a(4) by simp
    then show ?thesis using a r(2,4) unfolding output_stored_def
      by (intro exI [of _ nd] exI [of _ slot] exI [of _ ty] exI [of _ rest] exI [of _ a])
        (simp add: output_ids_def)
  qed
  moreover have "same_run prev (c_state c)" using A(2) by (simp add: state_le_def)
  ultimately show ?thesis
    using A(1) P inv(4) core look apply_results_distinct [OF ap d inv(5)]
    unfolding run_core_def same_run_def by fastforce
qed

lemma commit_settled:
  assumes ap: "apply_results g prev rs = Inr c" and d: "distinct (map res_node_id rs)"
    and s: "\<forall>n s. n \<notin> res_node_id ` set rs \<longrightarrow> dget (node_status prev) n = Some s \<longrightarrow>
      s \<in> {Pending, Succeeded, Failed, Skipped}"
  shows "settled (c_state c)"
  unfolding settled_def
proof (intro allI impI)
  fix n s assume n: "dget (node_status (c_state c)) n = Some s"
  show "s \<in> {Pending, Succeeded, Failed, Skipped}"
  proof (cases "n \<in> res_node_id ` set rs")
    case True
    then show ?thesis using n apply_results_status(1) [OF ap d] by (auto simp: outcome_def split: if_splits)
  next
    case False
    then consider "dget (node_status prev) n = Some s" | "s = Skipped"
      using n apply_results_status(2) [OF ap d False] by fastforce
    then show ?thesis using s False by cases blast+
  qed
qed

section \<open>The checkpoint of a wave\<close>

text \<open>The events after \<open>save\<close> leave the checkpoint as it was written.\<close>

lemma emit_file [simp]: "file_at (snd (emit ctx g ty f w)) p = file_at w p"
  by (simp add: emit_def)

lemma report_commit_checkpoint:
  assumes "report_commit H g ctx rs c w = (Inr (), w')"
  shows "file_at w' (CheckpointFile (task_id (c_state c))) = Some (dump_state H (c_state c))"
proof -
  obtain w1 w2 where w: "save_checkpoint H (c_state c) w1 = (Inr (), w2)"
      "thn (emit ctx g ''WAVE_COMMITTED'' (\<lambda>e. e\<lparr>ev_wave_id := Some (wave_id (c_state c) - 1), ev_artifact_ids := c_committed c\<rparr>))
           (emit ctx g ''CHECKPOINT_SAVED'' (\<lambda>e. e\<lparr>ev_wave_id := Some (wave_id (c_state c) - 1)\<rparr>)) w2 = (Inr (), w')"
    using assms by (auto simp: report_commit_def Let_def thn_eq_Inr)
  have "file_at w' p = file_at w2 p" for p
    using w(2) by (auto simp: thn_eq_Inr emit_def)
  moreover have "w2 = snd (save_checkpoint H (c_state c) w1)" using w(1) by simp
  ultimately show ?thesis by simp
qed

section \<open>A turn keeps the invariant\<close>

lemma ready_known: "find_ready_nodes m g st = Inr ready \<Longrightarrow> state_inv g st \<Longrightarrow> set ready \<subseteq> set (node_ids g)"
  using ready_pending [of m g st ready] knows_lookup [of g st]
  by (fastforce simp: pending_nodes_def state_inv_def)

lemma wave_step_inv:
  assumes inv: "run_inv (rt_host R) g (ctx_task_id ctx) st w" and ids: "distinct (node_ids g)" "distinct (edge_ids g)"
    and step: "wave_step R g ctx st w = (Inr (More st'), w')"
  shows "run_inv (rt_host R) g (ctx_task_id ctx) st' w'"
    and "file_at w' (CheckpointFile (ctx_task_id ctx)) = Some (dump_state (rt_host R) st')"
    and "wave_id st' = wave_id st + 1" "checkpoint_count st' = checkpoint_count st + 1"
    and "state_le st st'"
proof -
  let ?H = "rt_host R" and ?t = "ctx_task_id ctx"
  obtain dead ready inputs results c w0 w1 w2 w3 w4 where
    dead: "impossible_nodes g st = Inr dead"
    and ready: "find_ready_nodes (max_parallel_nodes_per_task (limits ctx)) g (mark Skipped dead st) = Inr ready"
    and sk: "skip_impossible g ctx st w = (Inr (mark Skipped dead st), w0)"
    and em: "emit ctx g ''WAVE_STARTED'' (\<lambda>e. e\<lparr>ev_wave_id := Some (wave_id st),
       ev_metadata := [(''ready_nodes'', JList (map JStr ready))]\<rparr>) w0 = (Inr (), w1)"
    and pr: "prepare ?H g ctx ready (mark Skipped dead st) [] w1
       = (Inr (mark Running ready (mark Skipped dead st), inputs), w2)"
    and rs: "run_wave R g ctx inputs ready = Inr results"
    and cw: "commit_wave ?H g (mark Running ready (mark Skipped dead st)) results w2 = (Inr c, w3)"
    and rp: "report_commit ?H g ctx results c w3 = (Inr (), w')" and st': "st' = c_state c"
    by (rule wave_step_MoreE [OF step])
  let ?s1 = "mark Skipped dead st" and ?s2 = "mark Running ready (mark Skipped dead st)"
  have core: "run_core ?H g ?t st w" and settled: "settled st" using inv by (simp_all add: run_inv_def)
  have pyd: "pydantic_ok (pyd (plat ?H))"
    using core by (simp add: run_core_def store_inv_def host_ok_def)
  have "run_core ?H g ?t ?s1 w"
    using impossible_pending [OF dead] impossible_known [OF dead] by (intro run_core_mark [OF core]) auto
  moreover have "same_artifacts w w2"
    using quiet.keepsD [OF skip_quiet sk] quiet.keepsD [OF emit_quiet em] quiet.keepsD [OF prepare_quiet pr]
      quiet.le_trans by blast
  ultimately have c1: "run_core ?H g ?t ?s1 w2" using run_core_quiet by blast
  have s1: "state_inv g ?s1" using c1 by (simp add: run_core_def)
  have pend: "set ready \<subseteq> pending_nodes ?s1" by (rule ready_pending [OF ready])
  then have "run_core ?H g ?t ?s2 w2"
    using ready_known [OF ready s1] by (intro run_core_mark [OF c1]) (auto simp: pending_nodes_def)
  note c2 = this
  have res: "map res_node_id results = ready" by (rule run_wave_produced(1) [OF ids(1) pyd rs])
  have wr: "wave_results ?H g ?t results"
    by (rule wave_results_run [OF ids(1) pyd rs ready_distinct(1) [OF ids(1) ready]])
  have nodes: "res_node_id ` set results = set ready" using res by (metis list.set_map)
  then have running: "dget (node_status ?s2) (res_node_id r) = Some Running" if "r \<in> set results" for r
    using that by (auto simp: mark_status)
  obtain put: "for_each (put_artifact ?H) (wave_outputs results) w2 = (Inr (), w3)"
    and ap: "apply_results g ?s2 results = Inr c" by (rule commit_waveE [OF cw])
  have "run_core ?H g ?t (c_state c) w3"
    by (rule commit_run_core [OF c2 cw wr _ ids(2)]) (simp add: running)
  moreover have "same_artifacts w3 w'" by (rule quiet.keepsD [OF report_commit_quiet rp])
  ultimately have c3: "run_core ?H g ?t st' w'" using run_core_quiet st' by blast
  have "settled st'" unfolding st'
  proof (rule commit_settled [OF ap])
    show "distinct (map res_node_id results)" using wr by (simp add: wave_results_def)
    show "\<forall>n s. n \<notin> res_node_id ` set results \<longrightarrow> dget (node_status ?s2) n = Some s \<longrightarrow>
        s \<in> {Pending, Succeeded, Failed, Skipped}"
      using settled_mark [OF settled, of Skipped dead] unfolding nodes settled_def
      by (simp add: mark_status [of Running])
  qed
  then show "run_inv ?H g ?t st' w'" using c3 by (simp add: run_inv_def)
  have "wave_of g ?s2 results"
    using wr running wave_results_nodes [OF wr] by (simp add: wave_of_def wave_results_def)
  moreover have "state_inv g ?s2" using c2 by (simp add: run_core_def)
  ultimately have A: "state_le ?s2 st'" "wave_id st' = wave_id st + 1" "checkpoint_count st' = checkpoint_count st + 1"
    using apply_results_inv [OF ap _ ids(2)] st' by simp_all
  show "wave_id st' = wave_id st + 1" "checkpoint_count st' = checkpoint_count st + 1" using A by simp_all
  have "state_le st ?s2" using state_le_trans mark_le by blast
  then show "state_le st st'" using A(1) state_le_trans by blast
  have "task_id st' = ?t" using c3 by (simp add: run_core_def)
  then show "file_at w' (CheckpointFile ?t) = Some (dump_state ?H st')"
    using report_commit_checkpoint [OF rp] st' by simp
qed

end
