(* ===== verification/Run_Correct.thy ===== *)
theory Run_Correct
  imports Run_Invariant
begin

text \<open>
  Runs from the first wave to the last: the state a run starts from satisfies the
  invariant, a run that returns is frozen with its final artifact in the store, a run that
  stops anywhere leaves a world it can be resumed from, and a run resumed after a committed
  wave does what the uninterrupted run does.
\<close>

section \<open>What any part of a run, finished or not, does to the store\<close>

definition world_le :: "host \<Rightarrow> string \<Rightarrow> orchestra_graph \<Rightarrow> world \<Rightarrow> world \<Rightarrow> bool" where
  "world_le H task g w w' \<longleftrightarrow> (store_inv H w \<and> ids_free task g w \<longrightarrow>
     store_inv H w' \<and> ids_free task g w'
     \<and> (\<forall>i a. stored_artifact H w i = Some a \<longrightarrow> stored_artifact H w' i = Some a))"

interpretation growing: world_order "world_le H task g" for H task g
  by unfold_locales (auto simp: world_le_def)

lemma quiet_growing: "same_artifacts w w' \<Longrightarrow> world_le H task g w w'"
  using same_artifacts_store [of w w' H] by (auto simp: world_le_def ids_free_def same_artifacts_def)

lemma quiet_keeps_growing: "quiet.keeps m \<Longrightarrow> growing.keeps H task g m"
  unfolding quiet.keeps_def growing.keeps_def using quiet_growing by blast

lemma put_all_growing:
  assumes "for_each (put_artifact H) as w = (r, w')" "\<forall>a \<in> set as. admits_artifact w a \<and> env_task_id a = task"
    and named: "\<forall>a \<in> set as. named_for task (artifact_id a)"
  shows "world_le H task g w w'"
  unfolding world_le_def
proof
  assume w: "store_inv H w \<and> ids_free task g w"
  have "isolated.keeps task (for_each (put_artifact H) as)"
    by (intro isolated.keeps_for_each put_isolated) (use assms(2) named in blast)+
  then have "others_same task w w'" using assms(1) by (rule isolated.keepsD)
  then have "ids_free task g w'" using w by (simp add: ids_free_def others_same_def)
  then show "store_inv H w' \<and> ids_free task g w'
     \<and> (\<forall>i a. stored_artifact H w i = Some a \<longrightarrow> stored_artifact H w' i = Some a)"
    using file_store.put_all_partial [OF assms(1) _ assms(2)] w by blast
qed

lemma run_core_grows:
  assumes "run_core H g task st w" "world_le H task g w w'"
  shows "run_core H g task st w'"
proof -
  have w: "store_inv H w" "ids_free task g w" using assms(1) by (simp_all add: run_core_def)
  then have w': "store_inv H w'" "ids_free task g w'"
    and look: "\<And>i a. stored_artifact H w i = Some a \<Longrightarrow> stored_artifact H w' i = Some a"
    using assms(2) by (auto simp: world_le_def)
  have outs: "output_stored H g w task n outs" if "dget (node_outputs st) n = Some outs" for n outs
    using assms(1) that by (simp add: run_core_def)
  have "edges_true g (stored_artifact H w') st"
  proof (rule edges_true_mono)
    show "edges_true g (stored_artifact H w) st" using assms(1) by (simp add: run_core_def)
    show "stored_artifact H w aid \<noteq> None"
      if "dget (node_outputs st) n = Some outs" "dget outs slot = Some aid" for n outs slot aid
      using outs [OF that(1)] that(2) by (auto simp: output_stored_def split: if_splits)
  qed (rule look)
  moreover have "output_stored H g w' task n outs" if "dget (node_outputs st) n = Some outs" for n outs
    using outs [OF that] look unfolding output_stored_def by blast
  moreover have "stored_artifact H w' aid \<noteq> None" if "aid \<in> set (dvalues (initial_artifacts st))" for aid
    using assms(1) that look unfolding run_core_def by (metis option.exhaust option.distinct(1))
  ultimately show ?thesis using assms(1) w' by (simp add: run_core_def)
qed

lemma run_inv_grows: "run_inv H g task st w \<Longrightarrow> world_le H task g w w' \<Longrightarrow> run_inv H g task st w'"
  using run_core_grows [of H g task st w w'] by (simp add: run_inv_def)

lemma commit_growing:
  assumes "wave_results H g task rs" "commit_wave H g prev rs w = (r, w')"
  shows "world_le H task g w w'"
proof (cases "ids_free task g w")
  case True
  obtain q where "for_each (put_artifact H) (wave_outputs rs) w = (q, w')"
    using assms(2) by (auto simp: commit_wave_def thn_def bnd_def persist_wave_batch split: prod.splits sum.splits)
  then show ?thesis
    using wave_results_admitted [OF assms(1) True] wave_results_named [OF assms(1)]
    by (intro put_all_growing) (auto simp: wave_admitted_def)
qed (simp add: world_le_def)

lemma commit_keeps_growing: "wave_results H g task rs \<Longrightarrow> growing.keeps H task g (commit_wave H g prev rs)"
  unfolding growing.keeps_def using commit_growing by blast

section \<open>A turn of the loop, whatever its outcome\<close>

text \<open>What a turn needs of the program and the graph.\<close>

definition sound_setup :: "runtime \<Rightarrow> orchestra_graph \<Rightarrow> bool" where
  "sound_setup R g \<longleftrightarrow> pydantic_ok (pyd (plat (rt_host R))) \<and> distinct (node_ids g) \<and> distinct (edge_ids g)"

lemma run_ready_growing:
  assumes "sound_setup R g" "distinct ready"
  shows "growing.keeps (rt_host R) (ctx_task_id ctx) g (run_ready R g ctx st ready)"
proof -
  have tail: "growing.keeps (rt_host R) (ctx_task_id ctx) g
      (bnd (lift (run_wave R g ctx inputs ready)) (\<lambda>results.
       bnd (commit_wave (rt_host R) g st1 results) (\<lambda>c.
       thn (report_commit (rt_host R) g ctx results c) (ret (More (c_state c))))))" for st1 inputs
  proof (rule growing.keeps_bnd_lift)
    fix results assume rs: "run_wave R g ctx inputs ready = Inr results"
    have "wave_results (rt_host R) g (ctx_task_id ctx) results"
      by (rule wave_results_run [OF _ _ rs assms(2)]) (use assms(1) in \<open>simp_all add: sound_setup_def\<close>)
    then show "growing.keeps (rt_host R) (ctx_task_id ctx) g (bnd (commit_wave (rt_host R) g st1 results) (\<lambda>c.
       thn (report_commit (rt_host R) g ctx results c) (ret (More (c_state c)))))"
      by (intro growing.keeps_bnd growing.keeps_thn commit_keeps_growing
          quiet_keeps_growing [OF report_commit_quiet] growing.keeps_ret)
  qed
  show ?thesis unfolding run_ready_def Let_def case_prod_beta'
    by (rule growing.keeps_thn [OF quiet_keeps_growing [OF emit_quiet]],
        rule growing.keeps_bnd [OF quiet_keeps_growing [OF prepare_quiet] tail])
qed

lemma wave_step_growing:
  assumes "sound_setup R g"
  shows "growing.keeps (rt_host R) (ctx_task_id ctx) g (wave_step R g ctx st)"
  unfolding wave_step_def
proof (rule growing.keeps_bnd [OF quiet_keeps_growing [OF skip_quiet]], rule growing.keeps_bnd_lift)
  fix st1 ready
  assume "find_ready_nodes (max_parallel_nodes_per_task (limits ctx)) g st1 = Inr ready"
  then have "distinct ready" using assms by (auto simp: sound_setup_def intro: ready_distinct(1))
  from run_ready_growing [OF assms this]
  show "growing.keeps (rt_host R) (ctx_task_id ctx) g (if ready = [] then
         (if can_finalize st1 then ret (Done (st1\<lparr>frozen := True\<rparr>))
          else throw (Exc GraphDeadlockErrorC
                 (''No ready nodes and no final output: {'' @ status_report st1 @ ''}'')))
       else run_ready R g ctx st1 ready)" by auto
qed

text \<open>The branch that finalizes without a ready node is never taken between waves.\<close>

lemma wave_step_not_Done:
  assumes "state_inv g st" "\<not> frozen st"
  shows "wave_step R g ctx st w \<noteq> (Inr (Done st'), w')"
proof
  assume "wave_step R g ctx st w = (Inr (Done st'), w')"
  then obtain dead where "can_finalize (mark Skipped dead st)"
    by (auto simp: wave_step_def skip_impossible_def io_simps skip_mark run_ready_def Let_def
        split: if_splits)
  then show False using assms by (simp add: can_finalize_def state_inv_def frozen_final_def)
qed


section \<open>The loop\<close>

lemma run_loop_final:
  assumes "sound_setup R g" "run_inv (rt_host R) g (ctx_task_id ctx) st w"
    "run_loop R g ctx st w = (Inr st', w')"
  shows "run_inv (rt_host R) g (ctx_task_id ctx) st' w' \<and> frozen st' \<and> state_le st st'"
  using assms(2,3)
proof (induction R\<equiv>R g\<equiv>g ctx\<equiv>ctx st w rule: run_loop.induct)
  case (1 st w)
  have ids: "distinct (node_ids g)" "distinct (edge_ids g)" using assms(1) by (simp_all add: sound_setup_def)
  show ?case
  proof (cases "frozen st")
    case True
    then show ?thesis using "1.prems" by (simp add: run_loop.simps)
  next
    case False
    obtain r w1 where r: "wave_step R g ctx st w = (r, w1)" by (cases "wave_step R g ctx st w")
    have "state_inv g st" using "1.prems"(1) by (simp add: run_inv_def run_core_def)
    note nd = wave_step_not_Done [OF this False]
    obtain st1 where st1: "r = Inr (More st1)"
      using "1.prems"(2) r False nd by (cases r) (auto simp: run_loop.simps [of _ _ _ st w] split: turn.splits)
    have step: "wave_step R g ctx st w = (Inr (More st1), w1)" using r st1 by simp
    have rest: "run_loop R g ctx st1 w1 = (Inr st', w')"
      using "1.prems"(2) step False by (simp add: run_loop.simps [of _ _ _ st w])
    note W = wave_step_inv [OF "1.prems"(1) ids step]
    show ?thesis
      using "1.hyps" [OF False r [symmetric] st1 refl W(1) rest] W(5) state_le_trans by blast
  qed
qed

section \<open>Checkpoints on the way\<close>

definition same_checkpoints :: "world \<Rightarrow> world \<Rightarrow> bool" where
  "same_checkpoints w w' \<longleftrightarrow> (\<forall>t. file_at w' (CheckpointFile t) = file_at w (CheckpointFile t))"

interpretation saved: world_view same_checkpoints "\<lambda>w t. file_at w (CheckpointFile t)"
  by unfold_locales (auto simp: same_checkpoints_def fun_eq_iff)

lemma get_saved [intro]: "saved.keeps (get_artifact H i)"
  by (auto simp: saved.keeps_def get_artifact_def saved.le_refl)

lemma put_saved [intro]: "saved.keeps (put_artifact H a)"
  by (auto simp: saved.keeps_def put_artifact_cases put_state_def same_checkpoints_def
      split: sum.splits option.splits if_splits)

lemma emit_saved [intro]: "saved.keeps (emit ctx g ty f)"
  by (auto simp: saved.keeps_def emit_def same_checkpoints_def)

lemma load_saved [intro]: "saved.keeps (load_checkpoint H t g c a)"
  by (auto simp: saved.keeps_def load_checkpoint_def saved.le_refl)

lemma load_inputs_saved [intro]: "saved.keeps (load_inputs H g st n)"
  unfolding load_inputs_def by (auto simp: case_prod_beta')

lemma prepare_saved [intro]: "saved.keeps (prepare H g ctx ns st inputs)"
proof (induction ns arbitrary: st inputs)
  case (Cons n ns)
  show ?case unfolding prepare.simps Let_def
    by (intro saved.keeps_bnd saved.keeps_thn load_inputs_saved emit_saved Cons.IH)
qed auto

lemma skip_saved [intro]: "saved.keeps (skip_impossible g ctx st)"
  unfolding skip_impossible_def by blast

lemma commit_saved [intro]: "saved.keeps (commit_wave H g prev rs)"
  unfolding commit_wave_def persist_wave_eq by blast

text \<open>Writing events and checkpoints does not raise, so a turn that raises has not saved.\<close>

definition never_raises :: "('w, 'a) io \<Rightarrow> bool" where
  "never_raises m \<longleftrightarrow> (\<forall>w. \<exists>x w'. m w = (Inr x, w'))"

lemma never_raises_ret [intro]: "never_raises (ret x)"
  by (simp add: never_raises_def)

lemma never_raises_thn [intro]: "never_raises m \<Longrightarrow> never_raises k \<Longrightarrow> never_raises (thn m k)"
  unfolding never_raises_def by (metis thn_InrI)

lemma never_raises_each [intro]: "(\<And>x. never_raises (f x)) \<Longrightarrow> never_raises (for_each f xs)"
  by (induction xs) auto

lemma emit_never_raises [intro]: "never_raises (emit ctx g ty f)"
  by (simp add: never_raises_def emit_def)

lemma save_never_raises [intro]: "never_raises (save_checkpoint H st)"
  by (simp add: never_raises_def save_checkpoint_def)

lemma report_never_raises [intro]:
  "never_raises (report_result g ctx wv r)" "never_raises (report_edges g ctx wv ty ids)"
  "never_raises (report_commit H g ctx rs c)"
  unfolding report_commit_def report_result_def report_edges_def Let_def by blast+

context world_order begin

definition keeps_raising :: "('w, 'a) io \<Rightarrow> bool" where
  "keeps_raising m \<longleftrightarrow> (\<forall>w e w'. m w = (Inl e, w') \<longrightarrow> le w w')"

lemma raisingD: "keeps_raising m \<Longrightarrow> m w = (Inl e, w') \<Longrightarrow> le w w'"
  by (simp add: keeps_raising_def)

lemma raising_keeps: "keeps m \<Longrightarrow> keeps_raising m"
  by (simp add: keeps_raising_def keeps_def)

lemma raising_never: "never_raises m \<Longrightarrow> keeps_raising m"
  by (auto simp: keeps_raising_def never_raises_def) (metis Inl_Inr_False Pair_inject)

lemma raising_bnd: "keeps m \<Longrightarrow> (\<And>x. keeps_raising (f x)) \<Longrightarrow> keeps_raising (bnd m f)"
  by (auto simp: keeps_raising_def keeps_def bnd_def split: prod.splits sum.splits) (blast intro: le_trans)+

lemma raising_thn: "keeps m \<Longrightarrow> keeps_raising k \<Longrightarrow> keeps_raising (thn m k)"
  by (simp add: thn_def raising_bnd)

end

lemma run_ready_raising: "saved.keeps_raising (run_ready R g ctx st ready)"
  unfolding run_ready_def Let_def case_prod_beta'
  by (intro saved.raising_thn [OF emit_saved] saved.raising_bnd saved.keeps_lift prepare_saved commit_saved
      saved.raising_never never_raises_thn report_never_raises never_raises_ret)

lemma wave_step_raising: "saved.keeps_raising (wave_step R g ctx st)"
  unfolding wave_step_def
proof (rule saved.raising_bnd [OF skip_saved], rule saved.raising_bnd [OF saved.keeps_lift])
  fix st1 ready
  show "saved.keeps_raising (if ready = [] then
         (if can_finalize st1 then ret (Done (st1\<lparr>frozen := True\<rparr>))
          else throw (Exc GraphDeadlockErrorC
                 (''No ready nodes and no final output: {'' @ status_report st1 @ ''}'')))
       else run_ready R g ctx st1 ready)"
    by (auto intro: run_ready_raising saved.raising_keeps)
qed


section \<open>A world a run can be resumed in\<close>

text \<open>The checkpoint, if there is one, was written by a state that satisfies the invariant.\<close>

definition resumable :: "host \<Rightarrow> orchestra_graph \<Rightarrow> string \<Rightarrow> world \<Rightarrow> bool" where
  "resumable H g task w \<longleftrightarrow> store_inv H w \<and> ids_free task g w
     \<and> (\<forall>t. file_at w (CheckpointFile task) = Some t \<longrightarrow> (\<exists>st. t = dump_state H st \<and> run_inv H g task st w))"

lemma run_inv_finite: "run_inv H g task st w \<Longrightarrow> finite_edges st"
proof -
  assume "run_inv H g task st w"
  then have "active_edges st \<union> inactive_edges st \<subseteq> set (edge_ids g)"
    by (simp add: run_inv_def run_core_def state_inv_def edges_decided_def)
  then show ?thesis unfolding finite_edges_def by (metis List.finite_set finite_Un finite_subset)
qed

lemma resumable_same:
  assumes "resumable H g task w" "same_checkpoints w w'" "world_le H task g w w'"
  shows "resumable H g task w'"
proof -
  have "store_inv H w" "ids_free task g w" using assms(1) by (simp_all add: resumable_def)
  then have w': "store_inv H w'" "ids_free task g w'" using assms(3) by (simp_all add: world_le_def)
  have "\<exists>st. t = dump_state H st \<and> run_inv H g task st w'" if "file_at w' (CheckpointFile task) = Some t" for t
  proof -
    have "file_at w (CheckpointFile task) = Some t" using that assms(2) by (simp add: same_checkpoints_def)
    then obtain st where "t = dump_state H st" "run_inv H g task st w" using assms(1) by (auto simp: resumable_def)
    then show ?thesis using run_inv_grows [OF _ assms(3)] by blast
  qed
  then show ?thesis using w' by (simp add: resumable_def)
qed

lemma wave_step_resumable:
  assumes "sound_setup R g" "run_inv (rt_host R) g (ctx_task_id ctx) st w" "\<not> frozen st"
    "resumable (rt_host R) g (ctx_task_id ctx) w"
  shows "resumable (rt_host R) g (ctx_task_id ctx) (snd (wave_step R g ctx st w))"
proof -
  have ids: "distinct (node_ids g)" "distinct (edge_ids g)" using assms(1) by (simp_all add: sound_setup_def)
  obtain r w' where r: "wave_step R g ctx st w = (r, w')" by (cases "wave_step R g ctx st w")
  have grow: "world_le (rt_host R) (ctx_task_id ctx) g w w'"
    by (rule growing.keepsD [OF wave_step_growing [OF assms(1)] r])
  have "state_inv g st" using assms(2) by (simp add: run_inv_def run_core_def)
  note nd = wave_step_not_Done [OF this assms(3), of R ctx w]
  consider e where "r = Inl e" | st' where "r = Inr (More st')"
    using r nd by (cases r) (auto, metis turn.exhaust)
  then show ?thesis
  proof cases
    case 1
    then have "same_checkpoints w w'" using r saved.raisingD [OF wave_step_raising] by blast
    then show ?thesis using resumable_same [OF assms(4) _ grow] r by simp
  next
    case 2
    then have step: "wave_step R g ctx st w = (Inr (More st'), w')" using r by simp
    note W = wave_step_inv [OF assms(2) ids step]
    have "store_inv (rt_host R) w'" "ids_free (ctx_task_id ctx) g w'"
      using W(1) by (simp_all add: run_inv_def run_core_def)
    then show ?thesis using r W(1,2) unfolding resumable_def by auto
  qed
qed

lemma run_loop_resumable:
  assumes "sound_setup R g" "run_inv (rt_host R) g (ctx_task_id ctx) st w"
    "resumable (rt_host R) g (ctx_task_id ctx) w"
  shows "resumable (rt_host R) g (ctx_task_id ctx) (snd (run_loop R g ctx st w))"
proof -
  let ?le = "\<lambda>w w'. resumable (rt_host R) g (ctx_task_id ctx) w \<longrightarrow> resumable (rt_host R) g (ctx_task_id ctx) w'"
  have ids: "distinct (node_ids g)" "distinct (edge_ids g)" using assms(1) by (simp_all add: sound_setup_def)
  have "?le w (snd (run_loop R g ctx st w))"
    by (rule loop_relates [where le = ?le and I = "run_inv (rt_host R) g (ctx_task_id ctx)", OF _ _ _ _ assms(2)])
      (use wave_step_resumable [OF assms(1)] wave_step_inv(1) [OF _ ids] in blast)+
  then show ?thesis using assms(3) by blast
qed

section \<open>The first state\<close>

definition bundle_ok :: "string \<Rightarrow> world \<Rightarrow> envelope dict \<Rightarrow> bool" where
  "bundle_ok task w bundle \<longleftrightarrow>
     (\<forall>a \<in> set (dvalues bundle). admits_artifact w a \<and> env_task_id a = task \<and> named_for task (artifact_id a))"

lemma conditional_not_active:
  assumes "distinct (edge_ids g)" "e \<in> set (edges g)" "condition e \<noteq> None"
  shows "edge_id e \<notin> edge_id ` set (filter (\<lambda>e. condition e = None) (edges g))"
proof
  assume "edge_id e \<in> edge_id ` set (filter (\<lambda>e. condition e = None) (edges g))"
  then obtain e' where e': "e' \<in> set (edges g)" "condition e' = None" "edge_id e = edge_id e'" by auto
  then have "e = e'" by (intro edge_id_inj [OF assms(1,2)])
  then show False using assms(3) e'(2) by simp
qed

lemma initial_state_inv:
  assumes "distinct (node_ids g)" "distinct (edge_ids g)"
  shows "state_inv g (initial_state P g bundle ctx)"
proof -
  let ?st = "initial_state P g bundle ctx"
  have ns: "node_status ?st = map (\<lambda>n. (node_id n, Pending)) (nodes g)"
    using assms(1) by (simp add: initial_state_def dict_of_distinct node_ids_def comp_def)
  have "knows_nodes g ?st" by (simp add: knows_nodes_def ns node_ids_def image_image)
  moreover have no: "dget (node_status ?st) n \<noteq> Some Succeeded" for n
    by (auto simp: ns dest: map_of_SomeD)
  have out: "node_outputs ?st = []" by (simp add: initial_state_def)
  have "outputs_succeeded ?st" using no by (simp add: outputs_succeeded_def out)
  moreover have "edges_decided g ?st"
    unfolding edges_decided_def
  proof (intro conjI ballI impI)
    fix e assume e: "e \<in> set (edges g)" "condition e \<noteq> None"
    have "\<not> edge_decided ?st e"
      using conditional_not_active [OF assms(2) e] by (simp add: edge_decided_def initial_state_def)
    then show "edge_decided ?st e = (dget (node_status ?st) (source_node e) = Some Succeeded)"
      using no by simp
  qed (auto simp: initial_state_def edge_ids_def)
  moreover have "frozen_final g ?st"
    by (simp add: frozen_final_def final_slot_of_def initial_state_def)
  ultimately show ?thesis by (simp add: state_inv_def)
qed

lemma initial_run_inv:
  assumes "distinct (node_ids g)" "distinct (edge_ids g)"
    and put: "for_each (put_artifact H) (dvalues bundle) w = (Inr (), w')"
    and w: "store_inv H w" "ids_free (ctx_task_id ctx) g w" "bundle_ok (ctx_task_id ctx) w bundle"
  shows "run_inv H g (ctx_task_id ctx) (initial_state P g bundle ctx) w'"
proof -
  let ?st = "initial_state P g bundle ctx"
  have adm: "\<forall>a \<in> set (dvalues bundle). admits_artifact w a \<and> env_task_id a = ctx_task_id ctx"
    using w(3) by (simp add: bundle_ok_def)
  note P = file_store.put_all [OF put w(1) adm]
  have "world_le H (ctx_task_id ctx) g w w'" by (rule put_all_growing [OF put adm]) (use w(3) in \<open>simp add: bundle_ok_def\<close>)
  then have w': "store_inv H w'" "ids_free (ctx_task_id ctx) g w'" using w by (simp_all add: world_le_def)
  have ns: "node_status ?st = map (\<lambda>n. (node_id n, Pending)) (nodes g)"
    using assms(1) by (simp add: initial_state_def dict_of_distinct node_ids_def comp_def)
  have "settled ?st" by (auto simp: settled_def ns dest: map_of_SomeD)
  moreover have "edges_true g (stored_artifact H w') ?st"
  proof -
    have "edge_id e \<notin> active_edges ?st" if "e \<in> set (edges g)" "condition e \<noteq> None" for e
      using conditional_not_active [OF assms(2) that] by (simp add: initial_state_def)
    moreover have "\<not> condition_holds (stored_artifact H w') ?st e" for e
      by (simp add: condition_holds_def initial_state_def)
    ultimately show ?thesis by (simp add: edges_true_def)
  qed
  moreover have "\<forall>aid \<in> set (dvalues (initial_artifacts ?st)). stored_artifact H w' aid \<noteq> None"
    using P by (auto simp: initial_state_def)
  ultimately show ?thesis
    using initial_state_inv [OF assms(1,2)] w'
    by (simp add: run_inv_def run_core_def) (simp add: initial_state_def)
qed

text \<open>Starting, fresh or from a checkpoint, gives a state that satisfies the invariant.\<close>

lemma check_refs_same:
  "for_each (\<lambda>aid. bnd (get_artifact H aid) (\<lambda>_. ret ())) ids w = (r, w') \<Longrightarrow> w' = w"
proof (induction ids arbitrary: w)
  case (Cons i ids)
  then show ?case by (auto simp: thn_def bnd_def get_artifact_def split: sum.splits)
qed simp

lemma start_state_cases:
  assumes "start_state R g bundle ctx w = (r, w')"
    and "resumable (rt_host R) g (ctx_task_id ctx) w"
  shows "(file_at w (CheckpointFile (ctx_task_id ctx)) = None
      \<and> (\<exists>q. for_each (put_artifact (rt_host R)) (dvalues bundle) w = (q, w')
         \<and> (\<forall>st. r = Inr st \<longrightarrow> q = Inr () \<and> st = initial_state (plat (rt_host R)) g bundle ctx)))
    \<or> (w' = w \<and> (\<forall>st. r = Inr st \<longrightarrow> file_at w (CheckpointFile (ctx_task_id ctx)) = Some (dump_state (rt_host R) st)
         \<and> run_inv (rt_host R) g (ctx_task_id ctx) st w))"
proof (cases "file_at w (CheckpointFile (ctx_task_id ctx))")
  case None
  then show ?thesis using assms(1)
    by (auto simp: start_state_def Let_def load_checkpoint_def read_checkpoint_def thn_def bnd_def
        split: prod.splits sum.splits)
next
  case (Some t)
  let ?H = "rt_host R"
  obtain st where st: "t = dump_state ?H st" "run_inv ?H g (ctx_task_id ctx) st w"
    using assms(2) Some by (auto simp: resumable_def)
  have "host_ok ?H" using assms(2) by (simp add: resumable_def store_inv_def)
  then have ld: "load_state ?H t = Some st" using st run_inv_finite by (simp add: host_ok_def)
  let ?rd = "read_checkpoint ?H w (ctx_task_id ctx) (graph_digest (plat ?H) g) (ctx_contract_hash ctx) (allow_config_drift ctx)"
  have rd: "?rd = Inr (Some st) \<or> (\<exists>e. ?rd = Inl e)"
    by (simp add: read_checkpoint_def Some ld Let_def)
  let ?refs = "for_each (\<lambda>aid. bnd (get_artifact ?H aid) (\<lambda>_. ret ())) (referenced_ids st)"
  obtain q v where q: "?refs w = (q, v)" by (cases "?refs w")
  then have "v = w" by (rule check_refs_same)
  then have "w' = w \<and> (\<forall>s. r = Inr s \<longrightarrow> s = st)"
    using assms(1) rd q
    by (auto simp: start_state_def Let_def load_checkpoint_def thn_def bnd_def split: sum.splits)
  then show ?thesis using Some st by auto
qed

lemma start_state_inv:
  assumes "start_state R g bundle ctx w = (Inr st, w')" "sound_setup R g"
    "resumable (rt_host R) g (ctx_task_id ctx) w" "bundle_ok (ctx_task_id ctx) w bundle"
  shows "run_inv (rt_host R) g (ctx_task_id ctx) st w'"
proof -
  have w: "store_inv (rt_host R) w" "ids_free (ctx_task_id ctx) g w"
    using assms(3) by (simp_all add: resumable_def)
  have ids: "distinct (node_ids g)" "distinct (edge_ids g)" using assms(2) by (simp_all add: sound_setup_def)
  show ?thesis using start_state_cases [OF assms(1,3)] initial_run_inv [OF ids _ w assms(4)] by auto
qed

lemma start_state_resumable:
  assumes "start_state R g bundle ctx w = (r, w')"
    "resumable (rt_host R) g (ctx_task_id ctx) w" "bundle_ok (ctx_task_id ctx) w bundle"
  shows "resumable (rt_host R) g (ctx_task_id ctx) w'"
proof -
  have adm: "\<forall>a \<in> set (dvalues bundle). admits_artifact w a \<and> env_task_id a = ctx_task_id ctx"
    using assms(3) by (simp add: bundle_ok_def)
  have keep: "saved.keeps (for_each (put_artifact (rt_host R)) (dvalues bundle))" by blast
  show ?thesis using start_state_cases [OF assms(1,2)]
  proof
    assume "file_at w (CheckpointFile (ctx_task_id ctx)) = None
      \<and> (\<exists>q. for_each (put_artifact (rt_host R)) (dvalues bundle) w = (q, w')
         \<and> (\<forall>st. r = Inr st \<longrightarrow> q = Inr () \<and> st = initial_state (plat (rt_host R)) g bundle ctx))"
    then obtain q where q: "for_each (put_artifact (rt_host R)) (dvalues bundle) w = (q, w')" by blast
    show ?thesis
      by (rule resumable_same [OF assms(2) saved.keepsD [OF keep q] put_all_growing [OF q adm]])
        (use assms(3) in \<open>simp add: bundle_ok_def\<close>)
  next
    assume "w' = w \<and> (\<forall>st. r = Inr st \<longrightarrow> file_at w (CheckpointFile (ctx_task_id ctx)) = Some (dump_state (rt_host R) st)
         \<and> run_inv (rt_host R) g (ctx_task_id ctx) st w)"
    then show ?thesis using assms(2) by simp
  qed
qed


section \<open>Whole runs\<close>

lemma execute_resumable:
  assumes "sound_setup R (graph cg)" "resumable (rt_host R) (graph cg) (ctx_task_id ctx) w"
    "bundle_ok (ctx_task_id ctx) w bundle"
  shows "resumable (rt_host R) (graph cg) (ctx_task_id ctx) (snd (execute R cg bundle ctx w))"
proof -
  let ?g = "graph cg"
  obtain r w1 where r: "start_state R ?g bundle ctx w = (r, w1)" by (cases "start_state R ?g bundle ctx w")
  have w1: "resumable (rt_host R) ?g (ctx_task_id ctx) w1" by (rule start_state_resumable [OF r assms(2,3)])
  show ?thesis
  proof (cases r)
    case (Inl e)
    then show ?thesis using r w1 by (simp add: execute_def bnd_def)
  next
    case (Inr st)
    then have st: "start_state R ?g bundle ctx w = (Inr st, w1)" using r by simp
    note inv = start_state_inv [OF st assms(1-3)]
    obtain q w2 where q: "run_loop R ?g ctx st w1 = (q, w2)" by (cases "run_loop R ?g ctx st w1")
    have w2: "resumable (rt_host R) ?g (ctx_task_id ctx) w2"
      using run_loop_resumable [OF assms(1) inv w1] q by simp
    have log: "resumable (rt_host R) ?g (ctx_task_id ctx) (snd (emit ctx ?g ty f w2))" for ty f
      by (rule resumable_same [OF w2 saved.keeps_snd [OF emit_saved] quiet_growing [OF quiet.keeps_snd [OF emit_quiet]]])
    show ?thesis
    proof (cases "frozen st")
      case True
      then show ?thesis using st w1 by (simp add: execute_def bnd_def)
    next
      case False
      then show ?thesis using st q w2 log [of "''FINAL_OUTPUT_FROZEN''" "\<lambda>e. e"]
        by (auto simp: execute_def bnd_def thn_def emit_def split: sum.splits)
    qed
  qed
qed

lemma execute_returns:
  assumes "execute R cg bundle ctx w = (Inr res, w')" "sound_setup R (graph cg)"
    "resumable (rt_host R) (graph cg) (ctx_task_id ctx) w" "bundle_ok (ctx_task_id ctx) w bundle"
  shows "frozen (final_state res)" "run_inv (rt_host R) (graph cg) (ctx_task_id ctx) (final_state res) w'"
proof -
  let ?g = "graph cg"
  obtain st w1 where st: "start_state R ?g bundle ctx w = (Inr st, w1)"
    and rest: "(if frozen st then ret (make_result cg st (rt_wall_ms R))
       else bnd (run_loop R ?g ctx st) (\<lambda>st'.
         thn (if frozen st' then emit ctx ?g ''FINAL_OUTPUT_FROZEN'' (\<lambda>e. e) else ret ())
             (ret (make_result cg st' (rt_wall_ms R))))) w1 = (Inr res, w')"
    using assms(1) by (auto simp: execute_def bnd_eq_Inr)
  note inv = start_state_inv [OF st assms(2-4)]
  have fs: "final_state (make_result cg s m) = s" for s m by (simp add: make_result_def Let_def)
  have "frozen (final_state res) \<and> run_inv (rt_host R) ?g (ctx_task_id ctx) (final_state res) w'"
  proof (cases "frozen st")
    case True
    then show ?thesis using rest inv fs by auto
  next
    case False
    then obtain st' w2 where st': "run_loop R ?g ctx st w1 = (Inr st', w2)"
      and tail: "thn (if frozen st' then emit ctx ?g ''FINAL_OUTPUT_FROZEN'' (\<lambda>e. e) else ret ())
             (ret (make_result cg st' (rt_wall_ms R))) w2 = (Inr res, w')"
      using rest by (auto simp: bnd_eq_Inr)
    note L = run_loop_final [OF assms(2) inv st']
    have "w' = snd (emit ctx ?g ''FINAL_OUTPUT_FROZEN'' (\<lambda>e. e) w2)" "final_state res = st'"
      using tail L fs by (auto simp: thn_eq_Inr)
    moreover have "same_artifacts w2 (snd (emit ctx ?g ''FINAL_OUTPUT_FROZEN'' (\<lambda>e. e) w2))"
      by (rule quiet.keeps_snd [OF emit_quiet])
    ultimately show ?thesis using L run_inv_grows [OF _ quiet_growing] by blast
  qed
  then show "frozen (final_state res)" "run_inv (rt_host R) ?g (ctx_task_id ctx) (final_state res) w'"
    by blast+
qed

text \<open>A frozen state that satisfies the invariant has its final artifact in the store.\<close>

lemma frozen_final_artifact:
  assumes "run_inv H g task st w" "frozen st"
  obtains a nd ty rest where "final_output_artifact_id st = Some (artifact_id a)"
    "stored_artifact H w (artifact_id a) = Some a" "env_task_id a = task"
    "nd \<in> set (nodes g)" "producer_node_id a = node_id nd" "output_slots nd = (final_output_slot g, ty) # rest"
    "dget (node_status st) (node_id nd) = Some Succeeded"
proof -
  have inv: "state_inv g st" and out: "\<And>n outs. dget (node_outputs st) n = Some outs \<Longrightarrow> output_stored H g w task n outs"
    using assms(1) by (simp_all add: run_inv_def run_core_def)
  obtain aid where aid: "final_output_artifact_id st = Some aid"
    using inv assms(2) by (auto simp: state_inv_def frozen_final_def)
  then obtain n outs where n: "dget (node_outputs st) n = Some outs" "dget outs (final_output_slot g) = Some aid"
    using inv by (fastforce simp: state_inv_def frozen_final_def final_slot_of_def split: option.splits)
  then have "dget (node_status st) n = Some Succeeded"
    using inv by (auto simp: state_inv_def outputs_succeeded_def)
  then show thesis using out [OF n(1)] n(2) aid that
    by (auto simp: output_stored_def split: if_splits)
qed

section \<open>Restarting\<close>

text \<open>The turns a run has completed: the reachable pairs of state and world.\<close>

inductive waves_done :: "runtime \<Rightarrow> orchestra_graph \<Rightarrow> run_context \<Rightarrow> runtime_state \<Rightarrow> world \<Rightarrow> runtime_state \<Rightarrow> world \<Rightarrow> bool"
  for R g ctx st w where
  no_wave: "waves_done R g ctx st w st w"
| one_more: "waves_done R g ctx st w st1 w1 \<Longrightarrow> \<not> frozen st1 \<Longrightarrow>
    wave_step R g ctx st1 w1 = (Inr (More st2), w2) \<Longrightarrow> waves_done R g ctx st w st2 w2"

inductive_cases waves_doneE: "waves_done R g ctx st w st' w'"

lemma waves_done_loop:
  "waves_done R g ctx st w st' w' \<Longrightarrow> run_loop R g ctx st w = run_loop R g ctx st' w'"
  by (induction rule: waves_done.induct) (simp_all add: run_loop.simps)

lemma waves_done_inv:
  assumes "waves_done R g ctx st w st' w'" "sound_setup R g" "run_inv (rt_host R) g (ctx_task_id ctx) st w"
  shows "run_inv (rt_host R) g (ctx_task_id ctx) st' w' \<and> state_le st st'
    \<and> (st' = st \<and> w' = w \<or> file_at w' (CheckpointFile (ctx_task_id ctx)) = Some (dump_state (rt_host R) st'))"
  using assms(1)
proof (induction rule: waves_done.induct)
  case no_wave
  then show ?case using assms(3) by simp
next
  case (one_more st1 w1 st2 w2)
  have ids: "distinct (node_ids g)" "distinct (edge_ids g)" using assms(2) by (simp_all add: sound_setup_def)
  have inv: "run_inv (rt_host R) g (ctx_task_id ctx) st1 w1" using one_more.IH by blast
  note W = wave_step_inv [OF inv ids one_more.hyps(3)]
  show ?case using W one_more.IH state_le_trans by blast
qed

lemma referenced_stored:
  assumes "run_inv H g task st w" "aid \<in> set (referenced_ids st)"
  shows "stored_artifact H w aid \<noteq> None"
proof -
  have core: "run_core H g task st w" using assms(1) by (simp add: run_inv_def)
  consider "aid \<in> set (dvalues (initial_artifacts st))"
    | n outs where "(n, outs) \<in> set (node_outputs st)" "aid \<in> set (dvalues outs)"
    using assms(2) by (force simp: referenced_ids_def)
  then show ?thesis
  proof cases
    case 1
    then show ?thesis using core unfolding run_core_def by blast
  next
    case 2
    then have "dget (node_outputs st) n = Some outs"
      using core by (intro map_of_is_SomeI) (simp_all add: run_core_def)
    then have "output_stored H g w task n outs" using core by (simp add: run_core_def)
    then show ?thesis using 2(2) by (auto simp: output_stored_def)
  qed
qed

lemma check_refs_ok:
  "\<forall>aid \<in> set ids. stored_artifact H w aid \<noteq> None \<Longrightarrow>
     for_each (\<lambda>aid. bnd (get_artifact H aid) (\<lambda>_. ret ())) ids w = (Inr (), w)"
proof (induction ids)
  case (Cons i ids)
  then obtain a where "read_artifact H w i = Inr a"
    by (auto simp: stored_artifact_def split: sum.splits)
  then show ?case using Cons by (simp add: thn_def bnd_def get_artifact_def)
qed simp

definition config_ok :: "runtime \<Rightarrow> orchestra_graph \<Rightarrow> run_context \<Rightarrow> runtime_state \<Rightarrow> bool" where
  "config_ok R g ctx st \<longleftrightarrow> allow_config_drift ctx
     \<or> graph_hash st = graph_digest (plat (rt_host R)) g \<and> contract_hash st = ctx_contract_hash ctx"

lemma start_state_config:
  assumes "start_state R g bundle ctx w = (Inr st, w')"
  shows "config_ok R g ctx st"
proof -
  let ?rd = "read_checkpoint (rt_host R) w (ctx_task_id ctx) (graph_digest (plat (rt_host R)) g)
    (ctx_contract_hash ctx) (allow_config_drift ctx)"
  obtain saved_st where sv: "?rd = Inr saved_st"
    and st: "case saved_st of None \<Rightarrow> st = initial_state (plat (rt_host R)) g bundle ctx | Some s \<Rightarrow> st = s"
    using assms by (auto simp: start_state_def Let_def load_checkpoint_def thn_def bnd_def
        split: sum.splits option.splits prod.splits)
  show ?thesis
  proof (cases saved_st)
    case None
    then show ?thesis using st by (simp add: config_ok_def initial_state_def)
  next
    case (Some s)
    then show ?thesis using sv st
      by (auto simp: config_ok_def read_checkpoint_def res_simps Let_def split: option.splits if_splits)
  qed
qed

lemma restart_state:
  assumes "run_inv (rt_host R) g (ctx_task_id ctx) st w" "config_ok R g ctx st"
    "file_at w (CheckpointFile (ctx_task_id ctx)) = Some (dump_state (rt_host R) st)"
  shows "start_state R g bundle ctx w = (Inr st, w)"
proof -
  let ?H = "rt_host R"
  have "host_ok ?H" using assms(1) by (simp add: run_inv_def run_core_def store_inv_def)
  then have ld: "load_state ?H (dump_state ?H st) = Some st"
    using run_inv_finite [OF assms(1)] by (simp add: host_ok_def)
  then have rd: "read_checkpoint ?H w (ctx_task_id ctx) (graph_digest (plat ?H) g) (ctx_contract_hash ctx)
      (allow_config_drift ctx) = Inr (Some st)"
    using assms(2,3) by (auto simp: read_checkpoint_def config_ok_def Let_def)
  have "for_each (\<lambda>aid. bnd (get_artifact ?H aid) (\<lambda>_. ret ())) (referenced_ids st) w = (Inr (), w)"
    using referenced_stored [OF assms(1)] by (intro check_refs_ok) blast
  then show ?thesis using rd
    by (simp add: start_state_def Let_def load_checkpoint_def thn_def bnd_def)
qed

lemma restart_continues:
  assumes "start_state R (graph cg) bundle ctx w = (Inr st, w1)" "sound_setup R (graph cg)"
    "resumable (rt_host R) (graph cg) (ctx_task_id ctx) w" "bundle_ok (ctx_task_id ctx) w bundle"
    and waves: "waves_done R (graph cg) ctx st w1 st' w'" "(st', w') \<noteq> (st, w1)" and going: "\<not> frozen st'"
  shows "start_state R (graph cg) bundle' ctx w' = (Inr st', w')"
    and "execute R cg bundle' ctx w' = execute R cg bundle ctx w"
proof -
  note inv = start_state_inv [OF assms(1-4)]
  note W = waves_done_inv [OF waves(1) assms(2) inv]
  have "config_ok R (graph cg) ctx st'"
    using start_state_config [OF assms(1)] W by (auto simp: config_ok_def state_le_def same_run_def)
  then show s: "start_state R (graph cg) bundle' ctx w' = (Inr st', w')"
    using W waves(2) by (intro restart_state) auto
  have "\<not> frozen st" using W going by (auto simp: state_le_def)
  then show "execute R cg bundle' ctx w' = execute R cg bundle ctx w"
    using s assms(1) going waves_done_loop [OF waves(1)] by (simp add: execute_def bnd_def)
qed


section \<open>Isolation\<close>

context world_order begin

lemma keeps_bnd_post:
  assumes "keeps m" "\<And>w x w'. m w = (Inr x, w') \<Longrightarrow> keeps (f x)"
  shows "keeps (bnd m f)"
  unfolding keeps_def
proof (intro allI impI)
  fix w r w' assume b: "bnd m f w = (r, w')"
  obtain q w1 where q: "m w = (q, w1)" by (cases "m w")
  have le: "le w w1" by (rule keepsD [OF assms(1) q])
  show "le w w'"
  proof (cases q)
    case (Inl e)
    then show ?thesis using b q le by (simp add: bnd_def)
  next
    case (Inr x)
    then have "f x w1 = (r, w')" "m w = (Inr x, w1)" using b q by (simp_all add: bnd_def)
    then show ?thesis using keepsD [OF assms(2)] le le_trans by blast
  qed
qed

end

lemma commit_results_task: "commit_results g rs c = Inr c' \<Longrightarrow> task_id (c_state c') = task_id (c_state c)"
proof (induction rs arbitrary: c)
  case (Cons r rs)
  then obtain c1 where c1: "commit_result g r c = Inr c1" "commit_results g rs c1 = Inr c'"
    by (auto simp: res_simps)
  then show ?case using Cons.IH [OF c1(2)] commit_result_same_run [OF c1(1)] by (simp add: same_run_def)
qed simp

lemma commit_wave_task: "commit_wave H g prev rs w = (Inr c, w') \<Longrightarrow> task_id (c_state c) = task_id prev"
  by (auto elim!: commit_waveE apply_resultsE dest: commit_results_task)

lemma commit_isolated: "wave_results H g task rs \<Longrightarrow> isolated.keeps task (commit_wave H g prev rs)"
proof -
  assume rs: "wave_results H g task rs"
  note wave_results_named [OF rs]
  then show ?thesis unfolding commit_wave_def persist_wave_eq by blast
qed

lemma run_ready_isolated:
  assumes "sound_setup R g" "distinct ready" "task_id st = ctx_task_id ctx"
  shows "isolated.keeps (ctx_task_id ctx) (run_ready R g ctx st ready)"
proof -
  have tail: "isolated.keeps (ctx_task_id ctx)
      (bnd (lift (run_wave R g ctx inputs ready)) (\<lambda>results.
       bnd (commit_wave (rt_host R) g st1 results) (\<lambda>c.
       thn (report_commit (rt_host R) g ctx results c) (ret (More (c_state c))))))"
    if "task_id st1 = ctx_task_id ctx" for st1 inputs
  proof (rule isolated.keeps_bnd_lift)
    fix results assume rs: "run_wave R g ctx inputs ready = Inr results"
    have wr: "wave_results (rt_host R) g (ctx_task_id ctx) results"
      by (rule wave_results_run [OF _ _ rs assms(2)]) (use assms(1) in \<open>simp_all add: sound_setup_def\<close>)
    show "isolated.keeps (ctx_task_id ctx) (bnd (commit_wave (rt_host R) g st1 results) (\<lambda>c.
       thn (report_commit (rt_host R) g ctx results c) (ret (More (c_state c)))))"
      by (rule isolated.keeps_bnd_post [OF commit_isolated [OF wr]])
        (intro isolated.keeps_thn isolated.keeps_ret report_commit_isolated, simp add: commit_wave_task that)
  qed
  show ?thesis unfolding run_ready_def Let_def case_prod_beta'
  proof (rule isolated.keeps_thn [OF emit_isolated], rule isolated.keeps_bnd_post [OF prepare_isolated])
    fix w x w' assume "prepare (rt_host R) g ctx ready st [] w = (Inr x, w')"
    then have "fst x = mark Running ready st" by (cases x) (auto dest: prepare_state)
    then have "task_id (fst x) = ctx_task_id ctx" using assms(3) by simp
    then show "isolated.keeps (ctx_task_id ctx) (bnd (lift (run_wave R g ctx (snd x) ready)) (\<lambda>results.
       bnd (commit_wave (rt_host R) g (fst x) results) (\<lambda>c.
       thn (report_commit (rt_host R) g ctx results c) (ret (More (c_state c))))))"
      by (rule tail)
  qed
qed

lemma wave_step_isolated:
  assumes "sound_setup R g" "task_id st = ctx_task_id ctx"
  shows "isolated.keeps (ctx_task_id ctx) (wave_step R g ctx st)"
  unfolding wave_step_def
proof (rule isolated.keeps_bnd_post [OF skip_isolated], rule isolated.keeps_bnd_lift)
  fix w st1 w' ready
  assume "skip_impossible g ctx st w = (Inr st1, w')"
  then have t: "task_id st1 = ctx_task_id ctx"
    using assms(2) by (auto simp: skip_impossible_def io_simps skip_mark)
  assume "find_ready_nodes (max_parallel_nodes_per_task (limits ctx)) g st1 = Inr ready"
  then have "distinct ready" using assms by (auto simp: sound_setup_def intro: ready_distinct(1))
  from run_ready_isolated [OF assms(1) this t]
  show "isolated.keeps (ctx_task_id ctx) (if ready = [] then
         (if can_finalize st1 then ret (Done (st1\<lparr>frozen := True\<rparr>))
          else throw (Exc GraphDeadlockErrorC
                 (''No ready nodes and no final output: {'' @ status_report st1 @ ''}'')))
       else run_ready R g ctx st1 ready)" by auto
qed

lemma run_loop_isolated:
  assumes "sound_setup R g" "run_inv (rt_host R) g (ctx_task_id ctx) st w"
  shows "others_same (ctx_task_id ctx) w (snd (run_loop R g ctx st w))"
proof -
  have ids: "distinct (node_ids g)" "distinct (edge_ids g)" using assms(1) by (simp_all add: sound_setup_def)
  show ?thesis
  proof (rule loop_relates [where le = "others_same (ctx_task_id ctx)"
        and I = "run_inv (rt_host R) g (ctx_task_id ctx)", OF _ _ _ _ assms(2)])
    show "others_same (ctx_task_id ctx) w (snd (wave_step R g ctx st w))"
      if "run_inv (rt_host R) g (ctx_task_id ctx) st w" for st w
      using that isolated.keeps_snd [OF wave_step_isolated [OF assms(1)]]
      by (simp add: run_inv_def run_core_def)
  qed (use isolated.le_refl isolated.le_trans wave_step_inv(1) [OF _ ids] in blast)+
qed

lemma execute_isolated:
  assumes "sound_setup R (graph cg)" "resumable (rt_host R) (graph cg) (ctx_task_id ctx) w"
    "bundle_ok (ctx_task_id ctx) w bundle"
  shows "others_same (ctx_task_id ctx) w (snd (execute R cg bundle ctx w))"
proof -
  let ?g = "graph cg"
  have "isolated.keeps (ctx_task_id ctx) (for_each (put_artifact (rt_host R)) (dvalues bundle))"
    by (intro isolated.keeps_for_each put_isolated) (use assms(3) in \<open>unfold bundle_ok_def, blast\<close>)+
  then have start: "isolated.keeps (ctx_task_id ctx) (start_state R ?g bundle ctx)"
    unfolding start_state_def Let_def
    by (intro isolated.keeps_bnd load_isolated) (auto split: option.splits)
  obtain r w1 where r: "start_state R ?g bundle ctx w = (r, w1)" by (cases "start_state R ?g bundle ctx w")
  have w1: "others_same (ctx_task_id ctx) w w1" by (rule isolated.keepsD [OF start r])
  show ?thesis
  proof (cases "\<exists>st. r = Inr st \<and> \<not> frozen st")
    case False
    then show ?thesis using r w1 by (auto simp: execute_def bnd_def split: sum.splits)
  next
    case True
    then obtain st where st: "start_state R ?g bundle ctx w = (Inr st, w1)" "\<not> frozen st" using r by auto
    obtain q w2 where q: "run_loop R ?g ctx st w1 = (q, w2)" by (cases "run_loop R ?g ctx st w1")
    have "others_same (ctx_task_id ctx) w1 w2"
      using run_loop_isolated [OF assms(1) start_state_inv [OF st(1) assms]] q by simp
    then have w2: "others_same (ctx_task_id ctx) w w2" using w1 isolated.le_trans by blast
    have "others_same (ctx_task_id ctx) w (snd (emit ctx ?g ty f w2))" for ty f
      using isolated.le_trans [OF w2] isolated.keeps_snd [OF emit_isolated] by blast
    then show ?thesis using st q w2
      by (auto simp: execute_def bnd_def thn_def emit_def split: sum.splits)
  qed
qed

text \<open>Every completed wave takes a node out of \<open>PENDING\<close>, which bounds their number.\<close>

lemma waves_done_count:
  assumes "waves_done R g ctx st w st' w'" "sound_setup R g" "run_inv (rt_host R) g (ctx_task_id ctx) st w"
  shows "checkpoint_count st' + int (card (pending_nodes st')) \<le> checkpoint_count st + int (card (pending_nodes st))
    \<and> wave_id st' - wave_id st = checkpoint_count st' - checkpoint_count st \<and> checkpoint_count st \<le> checkpoint_count st'"
  using assms(1)
proof (induction rule: waves_done.induct)
  case (one_more st1 w1 st2 w2)
  have ids: "distinct (node_ids g)" "distinct (edge_ids g)" using assms(2) by (simp_all add: sound_setup_def)
  have inv: "run_inv (rt_host R) g (ctx_task_id ctx) st1 w1"
    using waves_done_inv [OF one_more.hyps(1) assms(2,3)] by blast
  note W = wave_step_inv [OF inv ids one_more.hyps(3)]
  have "card (pending_nodes st2) < card (pending_nodes st1)"
    by (rule psubset_card_mono [OF finite_pending wave_step_pending [OF one_more.hyps(3)]])
  then show ?case using W(3,4) one_more.IH by simp
qed simp

end
