(* ===== verification/Py_Values.thy ===== *)
theory Py_Values
  imports Json_Parse
begin

text \<open>
  The operations of Python's built-in types that the adapters, the sandboxes and the
  command line apply to values read from JSON: truth, \<open>str\<close> and \<open>repr\<close>, \<open>int\<close>, item access and
  \<open>dict.get\<close> with their errors, upper and lower case, slices from the end, and the layouts of
  \<open>json.dumps\<close> beside the compact one.
\<close>

section \<open>Errors\<close>

abbreviation type_error :: "string \<Rightarrow> exc" where
  "type_error m \<equiv> Exc TypeErrorC m"

abbreviation attribute_error :: "string \<Rightarrow> exc" where
  "attribute_error m \<equiv> Exc (ForeignErrorC ''AttributeError'') m"

abbreviation file_not_found :: "string \<Rightarrow> exc" where
  "file_not_found m \<equiv> Exc FileNotFoundErrorC m"

text \<open>\<open>type(v).__name__\<close>.\<close>

fun py_type_name :: "json \<Rightarrow> string" where
  "py_type_name JNull = ''NoneType''"
| "py_type_name (JBool b) = ''bool''"
| "py_type_name (JInt i) = ''int''"
| "py_type_name (JFloat x) = ''float''"
| "py_type_name (JStr s) = ''str''"
| "py_type_name (JList xs) = ''list''"
| "py_type_name (JObj d) = ''dict''"

section \<open>Truth\<close>

fun py_truthy :: "json \<Rightarrow> bool" where
  "py_truthy JNull = False"
| "py_truthy (JBool b) = b"
| "py_truthy (JInt i) = (i \<noteq> 0)"
| "py_truthy (JFloat x) = (x \<noteq> 0)"
| "py_truthy (JStr s) = (s \<noteq> [])"
| "py_truthy (JList xs) = (xs \<noteq> [])"
| "py_truthy (JObj d) = (d \<noteq> [])"

text \<open>\<open>a or b\<close>.\<close>

definition py_or :: "json \<Rightarrow> json \<Rightarrow> json" where
  "py_or a b = (if py_truthy a then a else b)"

section \<open>Case and slices\<close>

text \<open>
  \<open>str.lower\<close> and \<open>str.upper\<close>. The sharp s becomes two letters; the two letters whose upper
  case lies above code point 255 are kept, which no comparison with an ASCII name notices.
\<close>

definition lower_char :: "char \<Rightarrow> char" where
  "lower_char c = (let n = of_char c :: nat in
     if (65 \<le> n \<and> n \<le> 90) \<or> (192 \<le> n \<and> n \<le> 222 \<and> n \<noteq> 215) then char_of (n + 32) else c)"

definition upper_char :: "char \<Rightarrow> string" where
  "upper_char c = (let n = of_char c :: nat in
     if n = 223 then ''SS''
     else if (97 \<le> n \<and> n \<le> 122) \<or> (224 \<le> n \<and> n \<le> 254 \<and> n \<noteq> 247) then [char_of (n - 32)]
     else [c])"

definition py_lower :: "string \<Rightarrow> string" where
  "py_lower s = map lower_char s"

definition py_upper :: "string \<Rightarrow> string" where
  "py_upper s = concat (map upper_char s)"

text \<open>\<open>xs[-n:]\<close> for a positive \<open>n\<close>.\<close>

definition py_suffix :: "nat \<Rightarrow> 'a list \<Rightarrow> 'a list" where
  "py_suffix n xs = drop (length xs - n) xs"

lemma py_suffix_length: "length (py_suffix n xs) \<le> n"
  by (simp add: py_suffix_def)

lemma py_suffix_short: "length xs \<le> n \<Longrightarrow> py_suffix n xs = xs"
  by (simp add: py_suffix_def)

text \<open>\<open>s.strip(c)\<close> and \<open>s.rstrip(c)\<close> on one character.\<close>

definition rstrip_char :: "char \<Rightarrow> string \<Rightarrow> string" where
  "rstrip_char c s = rev (dropWhile (\<lambda>x. x = c) (rev s))"

definition strip_char :: "char \<Rightarrow> string \<Rightarrow> string" where
  "strip_char c s = rstrip_char c (dropWhile (\<lambda>x. x = c) s)"

section \<open>Text of a value\<close>

definition hex2 :: "char \<Rightarrow> string" where
  "hex2 c = (let n = of_char c :: nat in [hex_digit (n div 16), hex_digit (n mod 16)])"

text \<open>One character of \<open>repr(s)\<close>, for the quote in use.\<close>

definition repr_char :: "char \<Rightarrow> char \<Rightarrow> string" where
  "repr_char q c = (let n = of_char c :: nat in
     if c = q \<or> c = CHR 0x5C then [CHR 0x5C, c]
     else if n = 9 then [CHR 0x5C, CHR ''t'']
     else if n = 10 then [CHR 0x5C, CHR ''n'']
     else if n = 13 then [CHR 0x5C, CHR ''r'']
     else if n < 32 \<or> (127 \<le> n \<and> n \<le> 160) \<or> n = 173 then CHR 0x5C # CHR ''x'' # hex2 c
     else [c])"

definition repr_string :: "string \<Rightarrow> string" where
  "repr_string s =
     (let q = (if CHR 0x27 \<in> set s \<and> CHR 0x22 \<notin> set s then CHR 0x22 else CHR 0x27)
      in q # concat (map (repr_char q) s) @ [q])"

fun py_repr :: "(py_float \<Rightarrow> string) \<Rightarrow> json \<Rightarrow> string" where
  "py_repr fr JNull = ''None''"
| "py_repr fr (JBool b) = (if b then ''True'' else ''False'')"
| "py_repr fr (JInt i) = py_str_int i"
| "py_repr fr (JFloat x) = fr x"
| "py_repr fr (JStr s) = repr_string s"
| "py_repr fr (JList xs) = ''['' @ join '', '' (map (py_repr fr) xs) @ '']''"
| "py_repr fr (JObj d) =
     ''{'' @ join '', '' (map (\<lambda>(k, v). repr_string k @ '': '' @ py_repr fr v) d) @ ''}''"

text \<open>\<open>str(v)\<close>.\<close>

definition py_str :: "(py_float \<Rightarrow> string) \<Rightarrow> json \<Rightarrow> string" where
  "py_str fr v = (case v of JStr s \<Rightarrow> s | _ \<Rightarrow> py_repr fr v)"

lemma py_str_JStr [simp]: "py_str fr (JStr s) = s"
  by (simp add: py_str_def)

section \<open>Numbers\<close>

text \<open>The digits of an integer literal, single underscores between digits allowed.\<close>

fun int_body :: "bool \<Rightarrow> string \<Rightarrow> string option" where
  "int_body after [] = (if after then Some [] else None)"
| "int_body after (c # cs) =
     (if is_digit c then map_option (Cons c) (int_body True cs)
      else if c = CHR ''_'' \<and> after then int_body False cs
      else None)"

text \<open>More than 4300 digits are refused.\<close>

definition decimal :: "string \<Rightarrow> int option" where
  "decimal ds = (if length ds \<le> 4300 then Some (int (digits_value 0 ds)) else None)"

definition int_of_text :: "string \<Rightarrow> int option" where
  "int_of_text s =
     (case py_strip s of
        [] \<Rightarrow> None
      | c # cs \<Rightarrow>
          if c = CHR ''-'' then map_option uminus (Option.bind (int_body False cs) decimal)
          else if c = CHR ''+'' then Option.bind (int_body False cs) decimal
          else Option.bind (int_body False (c # cs)) decimal)"

text \<open>\<open>int(v)\<close>.\<close>

fun py_int :: "json \<Rightarrow> int res" where
  "py_int (JBool b) = Inr (if b then 1 else 0)"
| "py_int (JInt i) = Inr i"
| "py_int (JFloat x) = Inr (fl_int x)"
| "py_int (JStr s) =
     from_option (value_error (''invalid literal for int() with base 10: '' @ repr_string s)) (int_of_text s)"
| "py_int v = Inl (type_error (''int() argument must be a string, a bytes-like object or a real number, not ''
     @ CHR 0x27 # py_type_name v @ [CHR 0x27]))"

section \<open>Access\<close>

text \<open>\<open>v[k]\<close> for a string \<open>k\<close>.\<close>

fun py_item :: "json \<Rightarrow> string \<Rightarrow> json res" where
  "py_item (JObj d) k = dindex d k"
| "py_item (JList xs) k = Inl (type_error ''list indices must be integers or slices, not str'')"
| "py_item (JStr s) k = Inl (type_error (''string indices must be integers, not '' @ CHR 0x27 # ''str'' @ [CHR 0x27]))"
| "py_item v k = Inl (type_error (CHR 0x27 # py_type_name v @ CHR 0x27 # '' object is not subscriptable''))"

text \<open>\<open>v.get(k, dflt)\<close>.\<close>

fun py_get :: "json \<Rightarrow> string \<Rightarrow> json \<Rightarrow> json res" where
  "py_get (JObj d) k dflt = Inr (case dget d k of None \<Rightarrow> dflt | Some v \<Rightarrow> v)"
| "py_get v k dflt =
     Inl (attribute_error (CHR 0x27 # py_type_name v @ CHR 0x27 # '' object has no attribute '' @ CHR 0x27 # ''get'' @ [CHR 0x27]))"

text \<open>\<open>for x in v\<close>.\<close>

fun py_iter :: "json \<Rightarrow> json list res" where
  "py_iter (JList xs) = Inr xs"
| "py_iter (JObj d) = Inr (map JStr (dkeys d))"
| "py_iter (JStr s) = Inr (map (\<lambda>c. JStr [c]) s)"
| "py_iter v = Inl (type_error (CHR 0x27 # py_type_name v @ CHR 0x27 # '' object is not iterable''))"

lemma py_item_Inr [res_simps]: "py_item v k = Inr x \<longleftrightarrow> (\<exists>d. v = JObj d \<and> dget d k = Some x)"
  by (cases v) (auto simp: dindex_def res_simps)

section \<open>Layouts of JSON text\<close>

text \<open>\<open>json.dumps\<close> escapes everything outside printable ASCII by default.\<close>

definition esc_ascii :: "char \<Rightarrow> string" where
  "esc_ascii c = (let n = of_char c :: nat in
     if n < 127 then esc_char c else CHR 0x5C # ''u00'' @ hex2 c)"

definition ascii_json_string :: "string \<Rightarrow> string" where
  "ascii_json_string s = CHR 0x22 # concat (map esc_ascii s) @ [CHR 0x22]"

text \<open>\<open>dumps_with enc comma colon\<close>: the string encoder and the two separators.\<close>

fun dumps_with ::
  "(string \<Rightarrow> string) \<Rightarrow> string \<Rightarrow> string \<Rightarrow> (py_float \<Rightarrow> string) \<Rightarrow> json \<Rightarrow> string" where
  "dumps_with enc comma colon fr JNull = ''null''"
| "dumps_with enc comma colon fr (JBool b) = (if b then ''true'' else ''false'')"
| "dumps_with enc comma colon fr (JInt i) = py_str_int i"
| "dumps_with enc comma colon fr (JFloat x) = fr x"
| "dumps_with enc comma colon fr (JStr s) = enc s"
| "dumps_with enc comma colon fr (JList xs) =
     ''['' @ join comma (map (dumps_with enc comma colon fr) xs) @ '']''"
| "dumps_with enc comma colon fr (JObj d) =
     ''{'' @ join comma (map (\<lambda>(k, v). enc k @ colon @ dumps_with enc comma colon fr v) d) @ ''}''"

text \<open>\<open>json.dumps(v)\<close>, and \<open>json.dumps(v, sort_keys=True, separators=(",", ":"))\<close>.\<close>

definition dumps_plain :: "(py_float \<Rightarrow> string) \<Rightarrow> json \<Rightarrow> string" where
  "dumps_plain fr v = dumps_with ascii_json_string '', '' '': '' fr v"

definition dumps_sorted :: "(py_float \<Rightarrow> string) \<Rightarrow> json \<Rightarrow> string" where
  "dumps_sorted fr v = dumps_with ascii_json_string '','' '':'' fr (sort_keys v)"

text \<open>\<open>json.dumps(v, indent=2)\<close>: one element per line, empty containers on one line.\<close>

definition indent_line :: "nat \<Rightarrow> string" where
  "indent_line n = newline # replicate (2 * n) CHR '' ''"

fun dumps_indent :: "(string \<Rightarrow> string) \<Rightarrow> (py_float \<Rightarrow> string) \<Rightarrow> nat \<Rightarrow> json \<Rightarrow> string" where
  "dumps_indent enc fr n (JList xs) =
     (if xs = [] then ''[]''
      else ''['' @ indent_line (Suc n) @ join ('','' @ indent_line (Suc n)) (map (dumps_indent enc fr (Suc n)) xs)
        @ indent_line n @ '']'')"
| "dumps_indent enc fr n (JObj d) =
     (if d = [] then ''{}''
      else ''{'' @ indent_line (Suc n)
        @ join ('','' @ indent_line (Suc n)) (map (\<lambda>(k, v). enc k @ '': '' @ dumps_indent enc fr (Suc n) v) d)
        @ indent_line n @ ''}'')"
| "dumps_indent enc fr n v = dumps_with enc '','' '': '' fr v"

lemma dumps_with_compact: "dumps_with json_string '','' '':'' fr v = dumps fr v"
proof (induction v)
  case (JObj d)
  then have "map (\<lambda>(k, v). json_string k @ CHR '':'' # dumps_with json_string '','' '':'' fr v) d
      = map (\<lambda>(k, v). json_string k @ CHR '':'' # dumps fr v) d"
    by (intro map_cong) (fastforce split: prod.splits)+
  then show ?case by (simp del: map_eq_conv)
next
  case (JList xs)
  then have "map (dumps_with json_string '','' '':'' fr) xs = map (dumps fr) xs" by simp
  then show ?case by (simp del: map_eq_conv)
qed simp_all

end
