(* ===== verification/Sandbox.thy ===== *)
theory Sandbox
  imports Executors Py_Values
begin

text \<open>
  The sandboxes behind the harness executor: the interface \<open>SandboxBackend\<close>
  (\<open>sandbox/base.py\<close>), the mock (\<open>sandbox/mock.py\<close>) and the Docker sandbox
  (\<open>sandbox/docker.py\<close>). The locale \<open>sandbox_backend\<close> states what the harness relies on: the
  total is the number of public tests, the rows of the report are numbered from zero and are
  not more than the tests, and the counts are those of the rows. It is interpreted on both
  sandboxes; the official one follows in \<open>Official_Sandbox\<close>. What a container does with a
  command is the parameter \<open>container\<close>.
\<close>

section \<open>The interface\<close>

definition count_rows :: "(test_result \<Rightarrow> bool) \<Rightarrow> test_result list \<Rightarrow> int" where
  "count_rows p rows = int (length (filter p rows))"

definition report_ok :: "visible_task \<Rightarrow> sandbox_result \<Rightarrow> bool" where
  "report_ok t r \<longleftrightarrow>
     sb_total_count r = int (length (vt_public_test_cases t))
     \<and> map tr_index (sb_results r) = map int [0..<length (sb_results r)]
     \<and> length (sb_results r) \<le> length (vt_public_test_cases t)
     \<and> sb_passed_count r = count_rows tr_passed (sb_results r)
     \<and> 0 \<le> sb_runtime_errors r \<and> 0 \<le> sb_timeouts r"

lemma count_rows_bounds: "0 \<le> count_rows p rows" "count_rows p rows \<le> int (length rows)"
  by (simp_all add: count_rows_def)

lemma count_rows_all: "count_rows p rows = int (length rows) \<longleftrightarrow> (\<forall>x \<in> set rows. p x)"
proof -
  have "length (filter p rows) = length rows \<longleftrightarrow> filter p rows = rows"
    by (metis length_filter_less nat_neq_iff filter_True filter_id_conv)
  then show ?thesis by (simp add: count_rows_def filter_id_conv)
qed

locale sandbox_backend =
  fixes evaluate_tests :: "visible_task \<Rightarrow> string \<Rightarrow> py_float \<Rightarrow> sandbox_result res"
  assumes reports: "evaluate_tests t code limit = Inr r \<Longrightarrow> report_ok t r"
begin

lemma passed_bounds:
  assumes "evaluate_tests t code limit = Inr r"
  shows "0 \<le> sb_passed_count r" "sb_passed_count r \<le> sb_total_count r"
proof -
  have R: "report_ok t r" by (rule reports [OF assms])
  then show "0 \<le> sb_passed_count r" by (simp add: report_ok_def count_rows_bounds)
  have "count_rows tr_passed (sb_results r) \<le> int (length (sb_results r))" by (rule count_rows_bounds)
  then show "sb_passed_count r \<le> sb_total_count r" using R by (simp add: report_ok_def)
qed

text \<open>A verdict of the harness stands for a passed row of every public test.\<close>

lemma verdict:
  assumes "evaluate_tests t code limit = Inr r" "harness_passed r"
  shows "vt_public_test_cases t \<noteq> [] \<and> length (sb_results r) = length (vt_public_test_cases t)
    \<and> (\<forall>row \<in> set (sb_results r). tr_passed row)"
proof -
  have R: "report_ok t r" by (rule reports [OF assms(1)])
  have "count_rows tr_passed (sb_results r) = int (length (vt_public_test_cases t))"
    using R assms(2) by (simp add: report_ok_def harness_passed_def)
  moreover have "count_rows tr_passed (sb_results r) \<le> int (length (sb_results r))" by (rule count_rows_bounds)
  ultimately have "length (sb_results r) = length (vt_public_test_cases t)"
    "count_rows tr_passed (sb_results r) = int (length (sb_results r))"
    using R by (simp_all add: report_ok_def)
  moreover have "vt_public_test_cases t \<noteq> []"
    using R assms(2) by (auto simp: report_ok_def harness_passed_def)
  ultimately show ?thesis using count_rows_all [of tr_passed "sb_results r"] by blast
qed

lemma row_index:
  assumes "evaluate_tests t code limit = Inr r" "row \<in> set (sb_results r)"
  shows "0 \<le> tr_index row \<and> tr_index row < int (length (vt_public_test_cases t))"
proof -
  have R: "report_ok t r" by (rule reports [OF assms(1)])
  have "tr_index row \<in> set (map tr_index (sb_results r))" using assms(2) by simp
  also have "\<dots> = int ` {0..<length (sb_results r)}" using R by (simp add: report_ok_def)
  finally show ?thesis using R by (auto simp: report_ok_def)
qed

text \<open>The index of a failed row is in range: the harness report is always made.\<close>

lemma report_made:
  assumes "evaluate_tests t code limit = Inr r" "vt_public_test_cases t = pr_public_examples p"
  shows "\<exists>report. harness_report p r = Inr report"
proof (cases "find (\<lambda>row. \<not> tr_passed row) (sb_results r)")
  case None
  then show ?thesis by (simp add: harness_report_def)
next
  case (Some row)
  then have "row \<in> set (sb_results r)" by (auto simp: find_Some_iff)
  from row_index [OF assms(1) this] Some assms(2) show ?thesis
    by (simp add: harness_report_def py_index_def Let_def)
qed

lemma ratio_bounds:
  assumes "evaluate_tests t code limit = Inr r"
  shows "0 \<le> harness_ratio r \<and> harness_ratio r \<le> 1"
  using passed_bounds [OF assms] py_truediv_unit [of "sb_total_count r" "sb_passed_count r"]
  by (auto simp: harness_ratio_def)

end

section \<open>The mock\<close>

text \<open>\<open>[VisibleTestResult(index=i, ...) for i, x in enumerate(xs)]\<close>.\<close>

definition numbered :: "(int \<Rightarrow> 'a \<Rightarrow> test_result) \<Rightarrow> 'a list \<Rightarrow> test_result list" where
  "numbered f xs = map (\<lambda>(i, x). f (int i) x) (enumerate 0 xs)"

lemma numbered_length [simp]: "length (numbered f xs) = length xs"
  by (simp add: numbered_def)

lemma numbered_index:
  assumes "\<And>i x. tr_index (f i x) = i"
  shows "map tr_index (numbered f xs) = map int [0..<length xs]"
  by (rule nth_equalityI) (simp_all add: numbered_def assms nth_enumerate_eq)

definition mock_correct :: "string \<Rightarrow> bool" where
  "mock_correct code \<longleftrightarrow> contains ''CORRECT_SOLUTION'' code \<or> contains ''print(input())'' code"

definition mock_row :: "string \<Rightarrow> int \<Rightarrow> public_example \<Rightarrow> test_result" where
  "mock_row code i ex =
     \<lparr>tr_index = i, tr_passed = mock_correct code, tr_timed_out = False, tr_runtime_error = None,
      tr_actual_output = Some (if mock_correct code then ex_output ex else ''wrong'')\<rparr>"

definition mock_report :: "py_float \<Rightarrow> visible_task \<Rightarrow> string \<Rightarrow> sandbox_result" where
  "mock_report delay t code =
     (let rows = numbered (mock_row code) (vt_public_test_cases t) in
      \<lparr>sb_compiled = (\<not> contains ''SYNTAX_ERROR'' code),
       sb_passed_count = count_rows tr_passed rows,
       sb_total_count = int (length rows),
       sb_runtime_errors = (if contains ''RUNTIME_ERROR'' code then 1 else 0),
       sb_timeouts = (if contains ''TIMEOUT'' code then 1 else 0),
       sb_stderr_summary = None,
       sb_results = rows,
       sb_duration_ms = fl_int (fl_mult delay 1000),
       sb_worker_metadata = []\<rparr>)"

text \<open>
  The two counters of the mock. A call adds itself on entry and takes itself off in the
  \<open>finally\<close> clause; calls of concurrent tasks overlap between the two.
\<close>

record mock_sandbox =
  delay_seconds :: py_float
  active :: int
  max_active :: int

definition mock_enter :: "mock_sandbox \<Rightarrow> mock_sandbox" where
  "mock_enter s = (let n = active s + 1 in s\<lparr>active := n, max_active := max (max_active s) n\<rparr>)"

definition mock_leave :: "mock_sandbox \<Rightarrow> mock_sandbox" where
  "mock_leave s = s\<lparr>active := active s - 1\<rparr>"

definition mock_evaluate_public ::
  "visible_task \<Rightarrow> string \<Rightarrow> py_float \<Rightarrow> (mock_sandbox, sandbox_result) io" where
  "mock_evaluate_public t code limit =
     thn (update_w mock_enter)
     (bnd (\<lambda>s. (Inr (mock_report (delay_seconds s) t code), s)) (\<lambda>r.
      thn (update_w mock_leave) (ret r)))"

lemma mock_evaluate_public_apply:
  "mock_evaluate_public t code limit s =
     (Inr (mock_report (delay_seconds s) t code), s\<lparr>max_active := max (max_active s) (active s + 1)\<rparr>)"
  by (simp add: mock_evaluate_public_def thn_def bnd_def mock_enter_def mock_leave_def Let_def)

interpretation mock: sandbox_backend "\<lambda>t code limit. Inr (mock_report delay t code)" for delay
proof
  fix t code limit r
  assume r: "Inr (mock_report delay t code) = (Inr r :: sandbox_result res)"
  show "report_ok t r"
    using r by (auto simp: report_ok_def mock_report_def Let_def numbered_index mock_row_def)
qed

text \<open>A solution the mock accepts passes every test; with a public test the verdict is a pass.\<close>

lemma mock_row_passed: "row \<in> set (numbered (mock_row code) xs) \<Longrightarrow> tr_passed row \<longleftrightarrow> mock_correct code"
  by (auto simp: numbered_def mock_row_def)

lemma mock_verdict:
  assumes "\<not> contains ''SYNTAX_ERROR'' code" "\<not> contains ''RUNTIME_ERROR'' code" "\<not> contains ''TIMEOUT'' code"
  shows "harness_passed (mock_report delay t code) \<longleftrightarrow> vt_public_test_cases t \<noteq> [] \<and> mock_correct code"
proof -
  let ?rows = "numbered (mock_row code) (vt_public_test_cases t)"
  have "count_rows tr_passed ?rows = int (length ?rows) \<longleftrightarrow> ?rows = [] \<or> mock_correct code"
    unfolding count_rows_all using mock_row_passed [of _ code "vt_public_test_cases t"]
    by (metis list.set_intros(1) neq_Nil_conv empty_iff empty_set)
  moreover have "?rows = [] \<longleftrightarrow> vt_public_test_cases t = []"
    by (metis length_0_conv numbered_length)
  ultimately show ?thesis using assms by (auto simp: harness_passed_def mock_report_def Let_def)
qed

section \<open>Docker\<close>

record docker_sandbox =
  image :: string
  docker_timeout_seconds :: py_float
  memory_mb :: int

text \<open>The constructor; \<open>available\<close> is \<open>shutil.which("docker") is not None\<close>.\<close>

definition docker_init :: "bool \<Rightarrow> string \<Rightarrow> py_float \<Rightarrow> int \<Rightarrow> docker_sandbox res" where
  "docker_init available img seconds megabytes =
     (if \<not> available
      then Inl (Exc (ForeignErrorC ''DockerUnavailableError'') ''docker executable is unavailable'')
      else Inr \<lparr>image = img, docker_timeout_seconds = seconds, memory_mb = megabytes\<rparr>)"

text \<open>\<open>DockerSandbox._command\<close>.\<close>

definition docker_command :: "docker_sandbox \<Rightarrow> string \<Rightarrow> string list \<Rightarrow> string list" where
  "docker_command D workdir command =
     [''docker'', ''run'', ''--rm'', ''--network'', ''none'', ''--read-only'', ''--tmpfs'',
      ''/tmp:rw,noexec,nosuid,size=64m'', ''--cpus'', ''1'', ''--memory'',
      py_str_int (memory_mb D) @ ''m'', ''--pids-limit'', ''64'', ''--env'',
      ''PYTHONIOENCODING=utf-8'', ''--mount'',
      ''type=bind,src='' @ workdir @ '',dst=/work,readonly'', image D] @ command"

text \<open>
  What a process does with an argument vector, the file it is given, its standard input and
  its time limit: it ends with a return code and its two outputs, or the limit expires.
\<close>

datatype proc_end = Ended int string string | Expired

record docker_host =
  container :: "string list \<Rightarrow> string \<Rightarrow> string \<Rightarrow> py_float \<Rightarrow> proc_end res"
  temp_dir :: string
  docker_ms :: int

text \<open>\<open>DockerSandbox._run\<close>: return code, outputs, and whether the time limit expired.\<close>

definition docker_run ::
  "docker_sandbox \<Rightarrow> docker_host \<Rightarrow> string \<Rightarrow> string \<Rightarrow> string list \<Rightarrow> py_float
     \<Rightarrow> (int option \<times> string \<times> string \<times> bool) res" where
  "docker_run D S code stdin command limit =
     rbind (container S (docker_command D (temp_dir S) command) code stdin limit) (\<lambda>e.
       Inr (case e of Ended rc out err \<Rightarrow> (Some rc, out, err, False)
            | Expired \<Rightarrow> (None, [], ''timeout'', True)))"

definition docker_row :: "int \<Rightarrow> public_example \<Rightarrow> int option \<times> string \<times> string \<times> bool \<Rightarrow> test_result" where
  "docker_row i ex = (\<lambda>(rc, out, err, timed_out).
     \<lparr>tr_index = i,
      tr_passed = (rc = Some 0 \<and> py_strip out = py_strip (ex_output ex)),
      tr_timed_out = timed_out,
      tr_runtime_error = (if rc \<noteq> Some 0 \<and> rc \<noteq> None then Some (py_suffix 1000 err) else None),
      tr_actual_output = Some (py_suffix 2000 out)\<rparr>)"

text \<open>The loop over the public tests.\<close>

fun docker_rows ::
  "docker_sandbox \<Rightarrow> docker_host \<Rightarrow> string \<Rightarrow> py_float \<Rightarrow> int \<Rightarrow> public_example list \<Rightarrow> test_result list res" where
  "docker_rows D S code limit i [] = Inr []"
| "docker_rows D S code limit i (ex # exs) =
     rbind (docker_run D S code (ex_input ex) [''python'', ''/work/solution.py''] limit) (\<lambda>e.
     rbind (docker_rows D S code limit (i + 1) exs) (\<lambda>rows.
       Inr (docker_row i ex e # rows)))"

text \<open>\<open>DockerSandbox.evaluate_public\<close>.\<close>

definition docker_evaluate_public ::
  "docker_sandbox \<Rightarrow> docker_host \<Rightarrow> visible_task \<Rightarrow> string \<Rightarrow> py_float \<Rightarrow> sandbox_result res" where
  "docker_evaluate_public D S t code limit =
     (if \<exists>ex \<in> set (vt_public_test_cases t). ex_testtype ex = ''functional'' then
        Inl (Exc NotImplementedErrorC
          ''Functional-style Docker execution requires the pinned official checker image'')
      else
        rbind (docker_run D S code [] [''python'', ''-m'', ''py_compile'', ''/work/solution.py''] limit)
          (\<lambda>(rc, out, err, timed_out).
           if rc \<noteq> Some 0 \<or> timed_out then
             Inr \<lparr>sb_compiled = False, sb_passed_count = 0,
               sb_total_count = int (length (vt_public_test_cases t)), sb_runtime_errors = 1,
               sb_timeouts = (if timed_out then 1 else 0),
               sb_stderr_summary = Some (py_suffix 1000 err), sb_results = [],
               sb_duration_ms = docker_ms S, sb_worker_metadata = []\<rparr>
           else
             rbind (docker_rows D S code limit 0 (vt_public_test_cases t)) (\<lambda>rows.
               Inr \<lparr>sb_compiled = True, sb_passed_count = count_rows tr_passed rows,
                 sb_total_count = int (length rows),
                 sb_runtime_errors = count_rows (\<lambda>row. tr_runtime_error row \<noteq> None) rows,
                 sb_timeouts = count_rows tr_timed_out rows, sb_stderr_summary = None,
                 sb_results = rows, sb_duration_ms = docker_ms S, sb_worker_metadata = []\<rparr>)))"

lemma docker_rows_index:
  "docker_rows D S code limit i exs = Inr rows \<Longrightarrow>
     length rows = length exs \<and> map tr_index rows = map (\<lambda>k. i + int k) [0..<length exs]"
proof (induction exs arbitrary: i rows)
  case (Cons ex exs)
  then obtain e rows' where e: "docker_rows D S code limit (i + 1) exs = Inr rows'"
    "rows = docker_row i ex e # rows'" by (auto simp: res_simps)
  have "map (\<lambda>k. i + int k) [0..<Suc (length exs)] = i # map (\<lambda>k. i + 1 + int k) [0..<length exs]"
    by (subst upt_conv_Cons) (simp_all add: map_Suc_upt [symmetric] del: upt_Suc)
  with Cons.IH [OF e(1)] e(2) show ?case by (simp add: docker_row_def split: prod.splits)
qed simp

interpretation docker: sandbox_backend "docker_evaluate_public D S" for D S
proof
  fix t code limit r
  assume "docker_evaluate_public D S t code limit = Inr r"
  then show "report_ok t r"
    using docker_rows_index [of D S code limit 0 "vt_public_test_cases t"] 
    by (auto simp: docker_evaluate_public_def res_simps report_ok_def count_rows_def split: if_splits)
qed

text \<open>A row that passed ended in time, without an error, and printed the expected output.\<close>

lemma docker_row_passed:
  assumes "docker_run D S code stdin command limit = Inr e" "tr_passed (docker_row i ex e)"
  shows "\<not> tr_timed_out (docker_row i ex e) \<and> tr_runtime_error (docker_row i ex e) = None
    \<and> (\<exists>out err. e = (Some 0, out, err, False) \<and> py_strip out = py_strip (ex_output ex))"
proof -
  obtain x where x: "e = (case x of Ended rc out err \<Rightarrow> (Some rc, out, err, False) | Expired \<Rightarrow> (None, [], ''timeout'', True))"
    using assms(1) by (auto simp: docker_run_def res_simps)
  show ?thesis using assms(2) by (cases x) (auto simp: x docker_row_def)
qed

text \<open>No functional test ever reaches a container.\<close>

lemma docker_functional:
  assumes "ex \<in> set (vt_public_test_cases t)" "ex_testtype ex = ''functional''"
  shows "docker_evaluate_public D S t code limit = Inl (Exc NotImplementedErrorC
    ''Functional-style Docker execution requires the pinned official checker image'')"
  using assms by (auto simp: docker_evaluate_public_def)

end
