(* ===== verification/Worker.thy ===== *)
theory Worker
  imports Sandbox
begin

text \<open>
  The worker process that runs the official checker (\<open>sandbox/lcb_worker.py\<close>) and the
  requests it reads (\<open>sandbox/lcb_protocol.py\<close>). The process has an environment, resource
  limits, an identity and a module path; \<open>security_setup\<close> changes all of them before the
  checker sees the code. The checker itself is third-party: \<open>check_correctness\<close> is a
  parameter that is given the process it runs in, so that what it can see is part of the
  statements.
\<close>

section \<open>Requests and results\<close>

record sandbox_limits =
  lim_memory_mb :: int
  lim_max_processes :: int
  lim_max_open_files :: int
  lim_max_file_size_mb :: int

definition default_sandbox_limits :: sandbox_limits where
  "default_sandbox_limits = \<lparr>lim_memory_mb = 2048, lim_max_processes = 32,
     lim_max_open_files = 128, lim_max_file_size_mb = 16\<rparr>"

record worker_test =
  wt_input :: string
  wt_output :: string
  wt_testtype :: string

text \<open>\<open>WorkerTestCase.model_validate(test.model_dump())\<close>: the same three fields.\<close>

definition worker_test_of :: "public_example \<Rightarrow> worker_test" where
  "worker_test_of ex = \<lparr>wt_input = ex_input ex, wt_output = ex_output ex, wt_testtype = ex_testtype ex\<rparr>"

record base_request =
  req_code :: string
  req_timeout :: py_float
  req_repository :: string
  req_processes :: int
  req_limits :: sandbox_limits

record public_request = base_request +
  req_task :: visible_task

record final_request = base_request +
  req_question_id :: string
  req_tests :: "worker_test list"
  req_function_name :: "string option"

record final_result =
  fin_passed :: bool
  fin_pass_at_1 :: py_float
  fin_metadata :: "json dict"

section \<open>The process\<close>

datatype rlimit_kind = RLIMIT_AS | RLIMIT_NPROC | RLIMIT_NOFILE | RLIMIT_FSIZE

record process =
  environ :: "string dict"
  rlimits :: "rlimit_kind \<Rightarrow> int \<times> int"
  euid :: int
  egid :: int
  groups :: "int list"
  sys_path :: "string list"

definition rlim_infinity :: int where
  "rlim_infinity = - 1"

record worker_host =
  nobody_uid :: int
  nobody_gid :: int
  resolve_path :: "string \<Rightarrow> string"
  compile_code :: "string \<Rightarrow> (string \<times> string) option res"
  check_correctness :: "process \<Rightarrow> string dict \<Rightarrow> string \<Rightarrow> int \<Rightarrow> (json list \<times> json dict) res"
  checker_ms :: int
  worker_repr :: "py_float \<Rightarrow> string"

section \<open>Secrets in the environment\<close>

definition sensitive_suffixes :: "string list" where
  "sensitive_suffixes = [''_KEY'', ''_TOKEN'', ''_SECRET'', ''_PASSWORD'']"

definition sensitive_exact_names :: "string list" where
  "sensitive_exact_names =
     [''API_KEY'', ''SECRET'', ''PASSWORD'', ''TOKEN'', ''ACCESS_TOKEN'', ''REFRESH_TOKEN'']"

definition is_sensitive_environment_name :: "string \<Rightarrow> bool" where
  "is_sensitive_environment_name name \<longleftrightarrow>
     (let upper = py_upper name in
      upper \<in> set sensitive_exact_names \<or> (\<exists>s \<in> set sensitive_suffixes. ends_with s upper))"

text \<open>\<open>redact_environment\<close>: the names it removed, sorted, and the environment without them.\<close>

definition redact_environment :: "process \<Rightarrow> string list \<times> process" where
  "redact_environment p =
     (let redacted = filter is_sensitive_environment_name (dkeys (environ p))
      in (sort redacted, p\<lparr>environ := fold AList.delete redacted (environ p)\<rparr>))"

lemma delete_key_set: "fst ` set (AList.delete k d) = fst ` set d - {k}"
  by (induction d) auto

lemma fold_delete_keys: "fst ` set (fold AList.delete ks d) = fst ` set d - set ks"
proof (induction ks arbitrary: d)
  case (Cons k ks)
  have "fst ` set (fold AList.delete (k # ks) d) = fst ` set d - {k} - set ks"
    by (simp add: Cons.IH delete_key_set)
  then show ?case by (simp add: Diff_insert2 [of _ k "set ks"])
qed simp

lemma fold_delete_get: "k \<notin> set ks \<Longrightarrow> dget (fold AList.delete ks d) k = dget d k"
  by (induction ks arbitrary: d) (auto simp: delete_conv')

lemma redact_removes:
  "name \<in> set (dkeys (environ (snd (redact_environment p)))) \<Longrightarrow> \<not> is_sensitive_environment_name name"
  by (simp add: redact_environment_def Let_def fold_delete_keys)

lemma redact_keeps:
  "\<not> is_sensitive_environment_name name \<Longrightarrow>
     dget (environ (snd (redact_environment p))) name = dget (environ p) name"
  by (simp add: redact_environment_def Let_def fold_delete_get)

lemma redact_reports:
  "set (fst (redact_environment p)) = {n \<in> set (dkeys (environ p)). is_sensitive_environment_name n}"
  by (auto simp: redact_environment_def Let_def)

section \<open>Limits and identity\<close>

text \<open>
  \<open>_set_limit\<close>. The limits of a configuration are taken to be non-negative; \<open>setrlimit\<close>
  accepts any pair that does not exceed the hard limit.
\<close>

definition set_limit :: "rlimit_kind \<Rightarrow> int \<Rightarrow> process \<Rightarrow> process" where
  "set_limit kind requested p =
     (let hard = snd (rlimits p kind);
          effective = (if hard = rlim_infinity then requested else min requested hard)
      in p\<lparr>rlimits := (rlimits p)(kind := (effective, effective))\<rparr>)"

definition requested_limit :: "sandbox_limits \<Rightarrow> rlimit_kind \<Rightarrow> int" where
  "requested_limit l kind =
     (case kind of
        RLIMIT_AS \<Rightarrow> lim_memory_mb l * 1024 * 1024
      | RLIMIT_NPROC \<Rightarrow> lim_max_processes l
      | RLIMIT_NOFILE \<Rightarrow> lim_max_open_files l
      | RLIMIT_FSIZE \<Rightarrow> lim_max_file_size_mb l * 1024 * 1024)"

text \<open>\<open>apply_resource_limits\<close>: the limits it observes afterwards, and the process.\<close>

definition apply_resource_limits :: "sandbox_limits \<Rightarrow> process \<Rightarrow> json \<times> process" where
  "apply_resource_limits l p =
     (let p' = fold (\<lambda>kind. set_limit kind (requested_limit l kind))
            [RLIMIT_AS, RLIMIT_NPROC, RLIMIT_NOFILE, RLIMIT_FSIZE] p
      in (JObj [(''memory_bytes'', JInt (fst (rlimits p' RLIMIT_AS))),
                (''max_processes'', JInt (fst (rlimits p' RLIMIT_NPROC))),
                (''max_open_files'', JInt (fst (rlimits p' RLIMIT_NOFILE))),
                (''max_file_size_bytes'', JInt (fst (rlimits p' RLIMIT_FSIZE)))], p'))"

definition drop_privileges :: "worker_host \<Rightarrow> process \<Rightarrow> json \<times> process" where
  "drop_privileges W p =
     (let p' = (if euid p = 0 then p\<lparr>groups := [], egid := nobody_gid W, euid := nobody_uid W\<rparr> else p)
      in (JObj [(''uid'', JInt (euid p')), (''gid'', JInt (egid p'))], p'))"

lemma limits_applied:
  "rlimits (snd (apply_resource_limits l p)) kind =
     (let e = (if snd (rlimits p kind) = rlim_infinity then requested_limit l kind
               else min (requested_limit l kind) (snd (rlimits p kind))) in (e, e))"
  by (cases kind) (simp_all add: apply_resource_limits_def set_limit_def Let_def)

lemma limits_environ: "environ (snd (apply_resource_limits l p)) = environ p"
  "euid (snd (apply_resource_limits l p)) = euid p"
  by (simp_all add: apply_resource_limits_def set_limit_def Let_def)

section \<open>The setup\<close>

definition add_path :: "string \<Rightarrow> process \<Rightarrow> process" where
  "add_path repo p = (if repo \<in> set (sys_path p) then p else p\<lparr>sys_path := repo # sys_path p\<rparr>)"

text \<open>
  \<open>_security_setup\<close>. The entries of the metadata are evaluated in their order, so the names
  are read before the identity changes.
\<close>

definition security_setup :: "worker_host \<Rightarrow> 'a base_request_scheme \<Rightarrow> (process, json dict) io" where
  "security_setup W rq p =
     (if req_processes rq \<noteq> 1
      then (Inl (value_error ''Official LCB worker requires num_process_evaluate=1''), p)
      else
        let (redacted, p1) = redact_environment p;
            (observed, p2) = apply_resource_limits (req_limits rq) p1;
            p3 = add_path (resolve_path W (req_repository rq)) p2;
            present = filter is_sensitive_environment_name (dkeys (environ p3));
            (identity, p4) = drop_privileges W p3
        in (Inr [(''redacted_environment_names'', JList (map JStr redacted)),
                 (''sensitive_env_present'', JList (map JStr present)),
                 (''resource_limits'', observed),
                 (''num_process_evaluate'', JInt 1),
                 (''worker_identity'', identity)], p4))"

text \<open>What holds of the process the checker runs in.\<close>

definition confined :: "worker_host \<Rightarrow> sandbox_limits \<Rightarrow> process \<Rightarrow> process \<Rightarrow> bool" where
  "confined W l before p \<longleftrightarrow>
     (\<forall>name \<in> set (dkeys (environ p)). \<not> is_sensitive_environment_name name)
     \<and> (\<forall>name. \<not> is_sensitive_environment_name name \<longrightarrow> dget (environ p) name = dget (environ before) name)
     \<and> (\<forall>kind. fst (rlimits p kind) = snd (rlimits p kind) \<and> snd (rlimits p kind) \<le> requested_limit l kind
          \<and> (snd (rlimits before kind) \<noteq> rlim_infinity \<longrightarrow> snd (rlimits p kind) \<le> snd (rlimits before kind)))
     \<and> (euid p = 0 \<longrightarrow> nobody_uid W = 0)"

lemma security_setup_confined:
  assumes "security_setup W rq p = (Inr meta, p')"
  shows "confined W (req_limits rq) p p'"
proof -
  let ?p1 = "snd (redact_environment p)"
  let ?p2 = "snd (apply_resource_limits (req_limits rq) ?p1)"
  let ?p3 = "add_path (resolve_path W (req_repository rq)) ?p2"
  have p': "p' = snd (drop_privileges W ?p3)"
    using assms by (auto simp: security_setup_def Let_def split: prod.splits if_splits)
  have env: "environ p' = environ ?p1"
    by (simp add: p' drop_privileges_def add_path_def limits_environ Let_def)
  have lim: "rlimits p' = rlimits ?p2"
    by (simp add: p' drop_privileges_def add_path_def Let_def)
  have "rlimits ?p1 = rlimits p" by (simp add: redact_environment_def Let_def)
  then have "rlimits p' kind =
     (let e = (if snd (rlimits p kind) = rlim_infinity then requested_limit (req_limits rq) kind
               else min (requested_limit (req_limits rq) kind) (snd (rlimits p kind))) in (e, e))" for kind
    by (simp add: lim limits_applied)
  then have "fst (rlimits p' kind) = snd (rlimits p' kind)
      \<and> snd (rlimits p' kind) \<le> requested_limit (req_limits rq) kind
      \<and> (snd (rlimits p kind) \<noteq> rlim_infinity \<longrightarrow> snd (rlimits p' kind) \<le> snd (rlimits p kind))" for kind
    by (simp add: Let_def)
  moreover have "euid p' = 0 \<longrightarrow> nobody_uid W = 0"
    by (simp add: p' drop_privileges_def Let_def)
  ultimately show ?thesis
    using redact_removes [of _ p] redact_keeps [of _ p] by (simp add: confined_def env)
qed

lemma security_setup_metadata:
  assumes "security_setup W rq p = (Inr meta, p')"
  shows "dget meta ''sensitive_env_present'' = Some (JList [])"
proof -
  let ?p1 = "snd (redact_environment p)"
  have "filter is_sensitive_environment_name (dkeys (environ ?p1)) = []"
    using redact_removes [of _ p] by (simp add: filter_empty_conv)
  moreover have "environ (add_path r (snd (apply_resource_limits l ?p1))) = environ ?p1" for r l
    by (simp add: add_path_def limits_environ)
  ultimately show ?thesis
    using assms by (simp add: security_setup_def Let_def case_prod_unfold split: if_splits) auto
qed

section \<open>The checker's answer\<close>

definition checker_sample :: "(py_float \<Rightarrow> string) \<Rightarrow> worker_test list \<Rightarrow> string option \<Rightarrow> string dict" where
  "checker_sample fr tests fn =
     [(''input_output'', dumps_plain fr (JObj [
        (''inputs'', JList (map (\<lambda>t. JStr (wt_input t)) tests)),
        (''outputs'', JList (map (\<lambda>t. JStr (wt_output t)) tests)),
        (''fn_name'', dump_opt JStr fn)]))]"

definition checker_timeout :: "'a base_request_scheme \<Rightarrow> int" where
  "checker_timeout rq = max 1 (fl_int (req_timeout rq))"

definition counts_as_pass :: "json \<Rightarrow> bool" where
  "counts_as_pass v \<longleftrightarrow> v = JBool True \<or> py_eq v (JInt 1)"

text \<open>\<open>value in {-1, -3}\<close>: a list or a dictionary cannot be looked up in a set.\<close>

definition is_timeout_code :: "json \<Rightarrow> bool res" where
  "is_timeout_code v =
     (case v of
        JList xs \<Rightarrow> Inl (type_error (''unhashable type: '' @ CHR 0x27 # ''list'' @ [CHR 0x27]))
      | JObj d \<Rightarrow> Inl (type_error (''unhashable type: '' @ CHR 0x27 # ''dict'' @ [CHR 0x27]))
      | _ \<Rightarrow> Inr (py_eq v (JInt (- 1)) \<or> py_eq v (JInt (- 3))))"

definition meta_get :: "json dict \<Rightarrow> string \<Rightarrow> json" where
  "meta_get d k = (case dget d k of None \<Rightarrow> JNull | Some v \<Rightarrow> v)"

definition error_text :: "(py_float \<Rightarrow> string) \<Rightarrow> json dict \<Rightarrow> string" where
  "error_text fr d = py_str fr (py_or (meta_get d ''error'') (meta_get d ''error_message''))"

definition visible_row :: "(py_float \<Rightarrow> string) \<Rightarrow> json dict \<Rightarrow> int \<Rightarrow> json \<Rightarrow> test_result res" where
  "visible_row fr d i v =
     rbind (is_timeout_code v) (\<lambda>timed_out.
       Inr \<lparr>tr_index = i, tr_passed = counts_as_pass v, tr_timed_out = timed_out,
         tr_runtime_error = (if py_eq v (JInt (- 4)) then Some (error_text fr d) else None),
         tr_actual_output =
           (if \<not> counts_as_pass v \<and> meta_get d ''output'' \<noteq> JNull
            then Some (py_str fr (meta_get d ''output'')) else None)\<rparr>)"

definition visible_rows :: "(py_float \<Rightarrow> string) \<Rightarrow> json dict \<Rightarrow> json list \<Rightarrow> test_result list res" where
  "visible_rows fr d vs = rmap (\<lambda>(i, v). visible_row fr d (int i) v) (enumerate 0 vs)"

lemma visible_rows_index:
  assumes "visible_rows fr d vs = Inr rows"
  shows "length rows = length vs" "map tr_index rows = map int [0..<length vs]"
proof -
  show L: "length rows = length vs" using rmap_length [OF assms [unfolded visible_rows_def]] by simp
  have "map tr_index rows = map (\<lambda>(i, v). int i) xs"
    if "rmap (\<lambda>(i, v). visible_row fr d (int i) v) xs = Inr rows" for xs rows
    using that by (induction xs arbitrary: rows) (auto simp: res_simps visible_row_def)
  from this [OF assms [unfolded visible_rows_def]]
  have "map tr_index rows = map (\<lambda>(i, v). int i) (enumerate 0 vs)" .
  also have "\<dots> = map int [0..<length vs]"
    by (rule nth_equalityI) (simp_all add: nth_enumerate_eq)
  finally show "map tr_index rows = map int [0..<length vs]" .
qed

section \<open>Public evaluation\<close>

definition worker_failure :: "visible_task \<Rightarrow> string \<Rightarrow> json dict \<Rightarrow> sandbox_result" where
  "worker_failure t message meta =
     \<lparr>sb_compiled = False, sb_passed_count = 0,
      sb_total_count = int (length (vt_public_test_cases t)), sb_runtime_errors = 0, sb_timeouts = 0,
      sb_stderr_summary = Some message, sb_results = [], sb_duration_ms = 0, sb_worker_metadata = meta\<rparr>"

definition worker_report ::
  "(py_float \<Rightarrow> string) \<Rightarrow> worker_test list \<Rightarrow> json dict \<Rightarrow> json dict \<Rightarrow> int \<Rightarrow> test_result list \<Rightarrow> sandbox_result" where
  "worker_report fr tests d meta ms rows =
     \<lparr>sb_compiled = True, sb_passed_count = count_rows tr_passed rows,
      sb_total_count = int (length tests),
      sb_runtime_errors = count_rows (\<lambda>row. tr_runtime_error row \<noteq> None) rows,
      sb_timeouts = count_rows tr_timed_out rows,
      sb_stderr_summary =
        (if \<exists>row \<in> set rows. tr_runtime_error row \<notin> {None, Some []} \<or> tr_timed_out row
         then Some (error_text fr d) else None),
      sb_results = rows, sb_duration_ms = ms,
      sb_worker_metadata = dset ''checker_error_message'' (meta_get d ''error_message'')
        (dset ''checker_error_code'' (meta_get d ''error_code'') meta)\<rparr>"

text \<open>\<open>evaluate_public\<close> of the worker: the part after the setup, and the whole.\<close>

definition compile_error :: "worker_host \<Rightarrow> string \<Rightarrow> string option res" where
  "compile_error W code = rbind (compile_code W code) (\<lambda>outcome.
     Inr (map_option (\<lambda>(m, line). m @ '' at line '' @ line) outcome))"

lemma compile_error_None: "compile_error W code = Inr None \<longleftrightarrow> compile_code W code = Inr None"
  by (auto simp: compile_error_def res_simps)

definition public_outcome :: "worker_host \<Rightarrow> public_request \<Rightarrow> json dict \<Rightarrow> process \<Rightarrow> sandbox_result res" where
  "public_outcome W rq meta p =
     (let t = req_task rq; tests = map worker_test_of (vt_public_test_cases t) in
      rbind (compile_error W (req_code rq)) (\<lambda>outcome.
        case outcome of
          Some message \<Rightarrow> Inr (worker_failure t message meta)
        | None \<Rightarrow>
            rbind (check_correctness W p (checker_sample (worker_repr W) tests (vt_function_name t))
                     (req_code rq) (checker_timeout rq)) (\<lambda>(vs, d).
            rbind (visible_rows (worker_repr W) d vs) (\<lambda>rows.
              Inr (worker_report (worker_repr W) tests d meta (checker_ms W) rows)))))"

definition worker_public :: "worker_host \<Rightarrow> public_request \<Rightarrow> (process, sandbox_result) io" where
  "worker_public W rq =
     bnd (security_setup W rq) (\<lambda>meta p.
       (public_outcome W rq
          (dset ''public_test_count'' (JInt (int (length (vt_public_test_cases (req_task rq))))) meta) p, p))"

section \<open>Private evaluation\<close>

definition all_pass :: "json list \<Rightarrow> bool" where
  "all_pass vs \<longleftrightarrow> vs \<noteq> [] \<and> list_all counts_as_pass vs"

definition final_result_of :: "bool \<Rightarrow> json dict \<Rightarrow> final_result" where
  "final_result_of passed meta =
     \<lparr>fin_passed = passed, fin_pass_at_1 = (if passed then 1 else 0), fin_metadata = meta\<rparr>"

text \<open>\<open>evaluate_private_final\<close>.\<close>

definition private_outcome :: "worker_host \<Rightarrow> final_request \<Rightarrow> json dict \<Rightarrow> process \<Rightarrow> final_result res" where
  "private_outcome W rq meta p =
     rbind (compile_error W (req_code rq)) (\<lambda>outcome.
       case outcome of
         Some _ \<Rightarrow> Inr (final_result_of False meta)
       | None \<Rightarrow>
         rbind (check_correctness W p (checker_sample (worker_repr W) (req_tests rq) (req_function_name rq))
                  (req_code rq) (checker_timeout rq)) (\<lambda>(vs, d).
           Inr (final_result_of (all_pass vs) meta)))"

definition worker_private :: "worker_host \<Rightarrow> final_request \<Rightarrow> (process, final_result) io" where
  "worker_private W rq = bnd (security_setup W rq) (\<lambda>meta p. (private_outcome W rq meta p, p))"

section \<open>What the worker guarantees\<close>

text \<open>
  The documented contract of the checker: at most one value per test (it may stop at the
  first failure).
\<close>

definition checker_ok :: "worker_host \<Rightarrow> bool" where
  "checker_ok W \<longleftrightarrow> (\<forall>p tests fn code limit vs d.
     check_correctness W p (checker_sample (worker_repr W) tests fn) code limit = Inr (vs, d)
       \<longrightarrow> length vs \<le> length tests)"

lemma public_outcome_report:
  assumes "checker_ok W" "public_outcome W rq meta p = Inr r"
  shows "report_ok (req_task rq) r"
proof -
  let ?t = "req_task rq"
  let ?tests = "map worker_test_of (vt_public_test_cases ?t)"
  consider message where "r = worker_failure ?t message meta"
    | vs d rows where
      "check_correctness W p (checker_sample (worker_repr W) ?tests (vt_function_name ?t))
         (req_code rq) (checker_timeout rq) = Inr (vs, d)"
      "visible_rows (worker_repr W) d vs = Inr rows"
      "r = worker_report (worker_repr W) ?tests d meta (checker_ms W) rows"
    using assms(2) unfolding public_outcome_def Let_def
    by (auto simp: res_simps split: option.splits)
  then show ?thesis
  proof cases
    case 1
    then show ?thesis by (simp add: report_ok_def worker_failure_def count_rows_def)
  next
    case 2
    have "length vs \<le> length (vt_public_test_cases ?t)"
      using assms(1) 2(1) unfolding checker_ok_def by fastforce
    then show ?thesis using visible_rows_index [OF 2(2)]
      by (simp add: 2(3) report_ok_def worker_report_def count_rows_bounds)
  qed
qed

lemma worker_public_report:
  "checker_ok W \<Longrightarrow> worker_public W rq p = (Inr r, p') \<Longrightarrow> report_ok (req_task rq) r"
  by (auto simp: worker_public_def bnd_eq_Inr intro: public_outcome_report)

text \<open>Two checkers that agree on confined processes give the same results: no code runs earlier.\<close>

definition same_host :: "worker_host \<Rightarrow> worker_host \<Rightarrow> bool" where
  "same_host W W' \<longleftrightarrow> (\<exists>C. W' = W\<lparr>check_correctness := C\<rparr>)"

lemma same_host_setup:
  assumes "same_host W W'"
  shows "security_setup W' rq p = security_setup W rq p"
  using assms by (auto simp: same_host_def security_setup_def drop_privileges_def cong: if_cong)

lemma worker_confined:
  assumes "\<And>q. confined W (req_limits rq) p q \<Longrightarrow> check_correctness W' q = check_correctness W q"
    and "same_host W W'"
  shows "worker_private W' rq p = worker_private W rq p"
proof -
  have "private_outcome W' rq meta q = private_outcome W rq meta q"
    if "security_setup W rq p = (Inr meta, q)" for meta q
    using assms(1) [OF security_setup_confined [OF that]] assms(2)
    by (auto simp: same_host_def private_outcome_def compile_error_def cong: option.case_cong)
  then show ?thesis
    by (auto simp: worker_private_def bnd_def same_host_setup [OF assms(2)] split: prod.splits sum.splits)
qed

text \<open>
  What a private result says: one bit, and the metadata of the setup, which knows nothing of
  the tests.
\<close>

lemma worker_private_result:
  assumes "worker_private W rq p = (Inr r, p')"
  shows "\<exists>passed meta. r = final_result_of passed meta \<and> security_setup W rq p = (Inr meta, p')"
proof -
  obtain meta where m: "security_setup W rq p = (Inr meta, p')" "private_outcome W rq meta p' = Inr r"
    using assms by (auto simp: worker_private_def bnd_eq_Inr)
  from m(2) have "\<exists>passed. r = final_result_of passed meta"
    by (auto simp: private_outcome_def res_simps split: option.splits)
  then show ?thesis using m(1) by blast
qed

lemma worker_private_verdict:
  assumes "worker_private W rq p = (Inr r, p')"
  shows "fin_passed r \<longleftrightarrow> compile_code W (req_code rq) = Inr None
    \<and> (\<exists>vs d. check_correctness W p' (checker_sample (worker_repr W) (req_tests rq) (req_function_name rq))
          (req_code rq) (checker_timeout rq) = Inr (vs, d) \<and> all_pass vs)"
proof -
  obtain meta where "private_outcome W rq meta p' = Inr r"
    using assms by (auto simp: worker_private_def bnd_eq_Inr)
  then show ?thesis
    by (cases "compile_error W (req_code rq) = Inr None")
      (auto simp: private_outcome_def res_simps final_result_of_def compile_error_None split: option.splits)
qed

lemma security_setup_request:
  assumes "req_processes rq = req_processes rq'" "req_limits rq = req_limits rq'" "req_repository rq = req_repository rq'"
  shows "security_setup W rq p = security_setup W rq' p"
  using assms by (simp add: security_setup_def)

text \<open>Two submissions judged alike against different hidden tests leave the same result.\<close>

lemma worker_private_leaks_one_bit:
  assumes "worker_private W rq p = (Inr r, q)" "worker_private W rq' p = (Inr r', q')"
    and "req_processes rq = req_processes rq'" "req_limits rq = req_limits rq'" "req_repository rq = req_repository rq'"
    and "fin_passed r = fin_passed r'"
  shows "r = r' \<and> q = q'"
proof -
  obtain b m where 1: "r = final_result_of b m" "security_setup W rq p = (Inr m, q)"
    using worker_private_result [OF assms(1)] by blast
  obtain b' m' where 2: "r' = final_result_of b' m'" "security_setup W rq' p = (Inr m', q')"
    using worker_private_result [OF assms(2)] by blast
  have "security_setup W rq p = security_setup W rq' p" by (rule security_setup_request [OF assms(3-5)])
  then show ?thesis using 1 2 assms(6) by (simp add: final_result_of_def)
qed

section \<open>The entry point\<close>

text \<open>How requests are read from JSON and results are written is pydantic's part.\<close>

record worker_codec =
  decode_public :: "json \<Rightarrow> public_request option"
  decode_final :: "json \<Rightarrow> final_request option"
  encode_report :: "sandbox_result \<Rightarrow> string"
  encode_final :: "final_result \<Rightarrow> string"

text \<open>
  \<open>main\<close>: the return code, and the text written to the result path. An exception that leaves
  \<open>main\<close> ends the process.
\<close>

definition worker_main ::
  "worker_host \<Rightarrow> worker_codec \<Rightarrow> string list \<Rightarrow> string \<Rightarrow> (process, int \<times> string option) io" where
  "worker_main W K argv request =
     (if length argv \<noteq> 3 then ret (2, None)
      else
        bnd (lift (json_loads request)) (\<lambda>raw.
        bnd (lift (py_item raw ''mode'')) (\<lambda>mode.
          if mode = JStr ''public'' then
            bnd (lift (from_option (Exc ValidationErrorC ''PublicWorkerRequest'') (decode_public K raw))) (\<lambda>rq.
            bnd (worker_public W rq) (\<lambda>r. ret (0, Some (encode_report K r))))
          else if mode = JStr ''private_final'' then
            bnd (lift (from_option (Exc ValidationErrorC ''PrivateFinalWorkerRequest'') (decode_final K raw))) (\<lambda>rq.
            bnd (worker_private W rq) (\<lambda>r. ret (0, Some (encode_final K r))))
          else throw (value_error (py_repr (worker_repr W) mode @ '' is not a valid WorkerMode'')))))"

end
