(* ===== verification/Official_Sandbox.thy ===== *)
theory Official_Sandbox
  imports Worker
begin

text \<open>
  The parent side of the official checker (\<open>sandbox/lcb_official.py\<close>): the time limit of a
  worker, the environment and limits it is started with, and the two backends that build a
  request, launch a worker and read its result. Launching is the parameter \<open>launch\<close>; the last
  section takes the worker of \<open>Worker\<close> for it and shows that the backend then answers what the
  worker computes, and keeps the contract \<open>sandbox_backend\<close>.
\<close>

section \<open>The time limit\<close>

definition compute_worker_wall_timeout :: "py_float \<Rightarrow> int \<Rightarrow> py_float \<Rightarrow> py_float \<Rightarrow> py_float" where
  "compute_worker_wall_timeout per_test test_count grace max_wall =
     (let calculated = fl_mult (fl_add per_test 1) (of_int (max 1 test_count));
          calculated = fl_add calculated grace
      in min max_wall calculated)"

lemma wall_timeout_bound: "compute_worker_wall_timeout per_test n grace max_wall \<le> max_wall"
  by (simp add: compute_worker_wall_timeout_def Let_def)

lemma wall_timeout_mono:
  assumes "n \<le> m" "0 \<le> per_test"
  shows "compute_worker_wall_timeout per_test n grace max_wall
    \<le> compute_worker_wall_timeout per_test m grace max_wall"
proof -
  have "0 \<le> fl_add per_test 1"
    unfolding fl_add_def using round53_mono [of 0 "per_test + 1"] assms(2) by simp
  then have "fl_add per_test 1 * of_int (max 1 n) \<le> fl_add per_test 1 * of_int (max 1 m)"
    using assms(1) by (intro mult_left_mono) auto
  then have "fl_mult (fl_add per_test 1) (of_int (max 1 n)) \<le> fl_mult (fl_add per_test 1) (of_int (max 1 m))"
    unfolding fl_mult_def by (rule round53_mono)
  then have "fl_add (fl_mult (fl_add per_test 1) (of_int (max 1 n))) grace
      \<le> fl_add (fl_mult (fl_add per_test 1) (of_int (max 1 m))) grace"
    unfolding fl_add_def [of _ grace] by (intro round53_mono) simp
  then show ?thesis by (simp add: compute_worker_wall_timeout_def Let_def min.coboundedI2 min.mono)
qed

section \<open>The runner\<close>

record runner =
  rn_repository :: string
  rn_limits :: sandbox_limits
  rn_grace :: py_float
  rn_max_wall :: py_float

text \<open>\<open>OfficialLCBProcessRunner.__init__\<close>; \<open>has_checkout\<close> looks for the checkout on disk.\<close>

definition runner_init ::
  "(string \<Rightarrow> string) \<Rightarrow> (string \<Rightarrow> bool) \<Rightarrow> string \<Rightarrow> sandbox_limits \<Rightarrow> py_float \<Rightarrow> py_float \<Rightarrow> runner res" where
  "runner_init resolve has_checkout repo l grace max_wall =
     (let path = resolve repo in
      if \<not> has_checkout path
      then Inl (Exc SandboxUnavailableC (''LiveCodeBench checkout unavailable: '' @ path))
      else Inr \<lparr>rn_repository = path, rn_limits = l, rn_grace = grace, rn_max_wall = max_wall\<rparr>)"

definition wall_timeout :: "runner \<Rightarrow> py_float \<Rightarrow> int \<Rightarrow> py_float" where
  "wall_timeout R per_test n = compute_worker_wall_timeout per_test n (rn_grace R) (rn_max_wall R)"

definition allowed_names :: "string list" where
  "allowed_names = [''PATH'', ''LANG'', ''LC_ALL'', ''PYTHONIOENCODING'']"

definition fixed_environment :: "string dict" where
  "fixed_environment =
     [(''PYTHONDONTWRITEBYTECODE'', ''1''), (''OPENBLAS_NUM_THREADS'', ''1''), (''OMP_NUM_THREADS'', ''1''),
      (''MKL_NUM_THREADS'', ''1''), (''NUMEXPR_NUM_THREADS'', ''1'')]"

text \<open>\<open>_sanitized_environment\<close>.\<close>

definition sanitized_environment :: "string dict \<Rightarrow> string dict" where
  "sanitized_environment env =
     fold (\<lambda>(k, v). dset k v) fixed_environment
       (concat (map (\<lambda>n. case dget env n of None \<Rightarrow> [] | Some v \<Rightarrow> [(n, v)]) allowed_names))"

text \<open>\<open>_preexec_limits\<close>, in the child before the program is started.\<close>

definition preexec_limits :: "sandbox_limits \<Rightarrow> process \<Rightarrow> process" where
  "preexec_limits l p =
     set_limit RLIMIT_FSIZE (lim_max_file_size_mb l * 1024 * 1024)
     (set_limit RLIMIT_NOFILE (lim_max_open_files l)
     (set_limit RLIMIT_NPROC (lim_max_processes l)
     (set_limit RLIMIT_AS (lim_memory_mb l * 1024 * 1024) p)))"

definition child_process :: "runner \<Rightarrow> process \<Rightarrow> process" where
  "child_process R parent =
     preexec_limits (rn_limits R) (parent\<lparr>environ := sanitized_environment (environ parent)\<rparr>)"

text \<open>How a launched worker ends: the limit expires, or a code, its error output and its result file.\<close>

datatype worker_exit = WallExpired | Exited int string "string option"

text \<open>\<open>run\<close>: \<open>on_timeout\<close> and \<open>decode\<close> are what the result type decides.\<close>

definition runner_run ::
  "(process \<Rightarrow> string \<Rightarrow> py_float \<Rightarrow> worker_exit res) \<Rightarrow> runner \<Rightarrow> process \<Rightarrow> string \<Rightarrow> int \<Rightarrow> py_float
     \<Rightarrow> (py_float \<Rightarrow> 'r) \<Rightarrow> (string \<Rightarrow> 'r option) \<Rightarrow> 'r res" where
  "runner_run launch R parent request test_count per_test on_timeout decode =
     (let wall = wall_timeout R per_test test_count in
      rbind (launch (child_process R parent) request wall) (\<lambda>e.
        case e of
          WallExpired \<Rightarrow> Inr (on_timeout wall)
        | Exited rc err result \<Rightarrow>
            (case result of
               Some content \<Rightarrow>
                 if rc \<noteq> 0
                 then Inl (Exc SandboxUnavailableC (''Official LCB worker failed closed: '' @ py_suffix 1000 err))
                 else from_option (Exc ValidationErrorC ''worker result'') (decode content)
             | None \<Rightarrow>
                 Inl (Exc SandboxUnavailableC (''Official LCB worker failed closed: '' @ py_suffix 1000 err)))))"

definition wall_metadata :: "py_float \<Rightarrow> json dict" where
  "wall_metadata wall =
     [(''worker_wall_timeout'', JBool True), (''worker_wall_timeout_seconds'', JFloat wall)]"

definition report_timeout :: "int \<Rightarrow> py_float \<Rightarrow> sandbox_result" where
  "report_timeout test_count wall =
     \<lparr>sb_compiled = True, sb_passed_count = 0, sb_total_count = test_count, sb_runtime_errors = 0,
      sb_timeouts = 1, sb_stderr_summary = Some ''Official LCB worker wall-clock timeout'',
      sb_results = [], sb_duration_ms = fl_int (fl_mult wall 1000), sb_worker_metadata = wall_metadata wall\<rparr>"

definition final_timeout :: "py_float \<Rightarrow> final_result" where
  "final_timeout wall = \<lparr>fin_passed = False, fin_pass_at_1 = 0, fin_metadata = wall_metadata wall\<rparr>"

section \<open>The environment of a worker\<close>

lemma dkeys_fold_dset:
  "set (dkeys (fold (\<lambda>(k, v). dset k v) kvs d)) = set (dkeys d) \<union> set (dkeys kvs)"
  by (induction kvs arbitrary: d) (auto simp: dkeys_dset simp del: set_map)

lemma sanitized_names:
  "set (dkeys (sanitized_environment env)) \<subseteq> set allowed_names \<union> set (dkeys fixed_environment)"
  unfolding sanitized_environment_def dkeys_fold_dset by (auto split: option.splits)

lemma known_names_not_sensitive:
  assumes "name \<in> set allowed_names \<union> set (dkeys fixed_environment)"
  shows "\<not> is_sensitive_environment_name name"
proof -
  have "list_all (\<lambda>n. \<not> is_sensitive_environment_name n) (allowed_names @ dkeys fixed_environment)"
    by code_simp
  then show ?thesis using assms by (auto simp: list_all_iff)
qed

lemma sanitized_not_sensitive:
  "name \<in> set (dkeys (sanitized_environment env)) \<Longrightarrow> \<not> is_sensitive_environment_name name"
  using sanitized_names known_names_not_sensitive by (meson subsetD)

lemma preexec_environ: "environ (preexec_limits l p) = environ p" "euid (preexec_limits l p) = euid p"
  by (simp_all add: preexec_limits_def set_limit_def Let_def)

text \<open>The redaction inside the worker finds nothing: the runner passes on no secret.\<close>

lemma child_redacted: "redact_environment (child_process R parent) = ([], child_process R parent)"
proof -
  have "filter is_sensitive_environment_name (dkeys (environ (child_process R parent))) = []"
    using sanitized_not_sensitive [of _ "environ parent"]
    by (simp add: filter_empty_conv child_process_def preexec_environ)
  then show ?thesis by (simp add: redact_environment_def)
qed

section \<open>The public backend\<close>

text \<open>How requests are written and results read; the laws are those of the worker's codec.\<close>

record client_codec =
  encode_public :: "public_request \<Rightarrow> string"
  encode_private :: "final_request \<Rightarrow> string"
  decode_report :: "string \<Rightarrow> sandbox_result option"
  decode_final_result :: "string \<Rightarrow> final_result option"

record official_sandbox =
  os_limits :: sandbox_limits
  os_processes :: int
  os_runner :: runner

text \<open>\<open>OfficialLCBSandbox.__init__\<close> and \<open>FinalLCBWorker.__init__\<close>.\<close>

definition official_init ::
  "string \<Rightarrow> (string \<Rightarrow> string) \<Rightarrow> (string \<Rightarrow> bool) \<Rightarrow> string \<Rightarrow> sandbox_limits option \<Rightarrow> int \<Rightarrow> py_float \<Rightarrow> py_float
     \<Rightarrow> official_sandbox res" where
  "official_init cls resolve has_checkout repo l processes grace max_wall =
     (if processes \<noteq> 1 then Inl (value_error (cls @ '' only supports num_process_evaluate=1''))
      else
        let lim = (case l of None \<Rightarrow> default_sandbox_limits | Some x \<Rightarrow> x) in
        rbind (runner_init resolve has_checkout repo lim grace max_wall) (\<lambda>r.
          Inr \<lparr>os_limits = lim, os_processes = processes, os_runner = r\<rparr>))"

definition build_request :: "official_sandbox \<Rightarrow> visible_task \<Rightarrow> string \<Rightarrow> py_float \<Rightarrow> public_request" where
  "build_request S t code limit =
     \<lparr>req_code = code, req_timeout = limit, req_repository = rn_repository (os_runner S),
      req_processes = os_processes S, req_limits = os_limits S, req_task = t\<rparr>"

definition official_evaluate_public ::
  "(process \<Rightarrow> string \<Rightarrow> py_float \<Rightarrow> worker_exit res) \<Rightarrow> client_codec \<Rightarrow> process \<Rightarrow> official_sandbox
     \<Rightarrow> visible_task \<Rightarrow> string \<Rightarrow> py_float \<Rightarrow> sandbox_result res" where
  "official_evaluate_public launch C parent S t code limit =
     runner_run launch (os_runner S) parent (encode_public C (build_request S t code limit))
       (int (length (vt_public_test_cases t))) limit
       (report_timeout (int (length (vt_public_test_cases t)))) (decode_report C)"

section \<open>The private backend\<close>

text \<open>\<open>PrivateTestCase\<close> and \<open>PrivateTaskData\<close> of \<open>schemas/task.py\<close>.\<close>

record private_test_case =
  pc_input :: string
  pc_output :: string
  pc_testtype :: string

record private_task =
  pt_question_id :: string
  pt_private_tests :: "private_test_case list"
  pt_public_tests :: "public_example list"
  pt_function_name :: "string option"

definition worker_test_of_private :: "private_test_case \<Rightarrow> worker_test" where
  "worker_test_of_private c = \<lparr>wt_input = pc_input c, wt_output = pc_output c, wt_testtype = pc_testtype c\<rparr>"

definition final_request_for :: "official_sandbox \<Rightarrow> string \<Rightarrow> private_task \<Rightarrow> string \<Rightarrow> py_float \<Rightarrow> final_request" where
  "final_request_for S qid hidden code limit =
     \<lparr>req_code = code, req_timeout = limit, req_repository = rn_repository (os_runner S),
      req_processes = os_processes S, req_limits = os_limits S, req_question_id = qid,
      req_tests = map worker_test_of (pt_public_tests hidden) @ map worker_test_of_private (pt_private_tests hidden),
      req_function_name = pt_function_name hidden\<rparr>"

text \<open>\<open>FinalLCBWorker.evaluate\<close>.\<close>

definition final_evaluate ::
  "(process \<Rightarrow> string \<Rightarrow> py_float \<Rightarrow> worker_exit res) \<Rightarrow> client_codec \<Rightarrow> process \<Rightarrow> official_sandbox
     \<Rightarrow> string \<Rightarrow> private_task \<Rightarrow> string \<Rightarrow> py_float \<Rightarrow> final_result res" where
  "final_evaluate launch C parent S qid hidden code limit =
     (let rq = final_request_for S qid hidden code limit in
      runner_run launch (os_runner S) parent (encode_private C rq) (int (length (req_tests rq))) limit
        final_timeout (decode_final_result C))"

text \<open>\<open>FinalLCBWorker\<close> is made like the public backend.\<close>

definition final_worker_init ::
  "(string \<Rightarrow> string) \<Rightarrow> (string \<Rightarrow> bool) \<Rightarrow> string \<Rightarrow> sandbox_limits option \<Rightarrow> int \<Rightarrow> py_float \<Rightarrow> py_float
     \<Rightarrow> official_sandbox res" where
  "final_worker_init = official_init ''FinalLCBWorker''"

section \<open>Client and worker together\<close>

text \<open>
  The launcher that runs the worker's \<open>main\<close>: \<open>slow\<close> says which launches outlive the limit, an
  exception ends the process with code one and its traceback on the error output.
\<close>

definition worker_launch ::
  "(exc \<Rightarrow> string) \<Rightarrow> worker_host \<Rightarrow> worker_codec \<Rightarrow> (string \<Rightarrow> py_float \<Rightarrow> bool) \<Rightarrow> process \<Rightarrow> string \<Rightarrow> py_float \<Rightarrow> worker_exit res" where
  "worker_launch traceback W K slow p request wall =
     (if slow request wall then Inr WallExpired
      else case fst (worker_main W K [''lcb_worker'', ''request.json'', ''result.json''] request p) of
             Inl e \<Rightarrow> Inr (Exited 1 (traceback e) None)
           | Inr (rc, result) \<Rightarrow> Inr (Exited rc [] result))"

text \<open>The two codecs fit together: what one side writes the other reads.\<close>

definition public_fits :: "worker_codec \<Rightarrow> client_codec \<Rightarrow> public_request \<Rightarrow> bool" where
  "public_fits K C rq \<longleftrightarrow> (\<exists>d. json_loads (encode_public C rq) = Inr (JObj d)
     \<and> dget d ''mode'' = Some (JStr ''public'') \<and> decode_public K (JObj d) = Some rq)"

definition private_fits :: "worker_codec \<Rightarrow> client_codec \<Rightarrow> final_request \<Rightarrow> bool" where
  "private_fits K C rq \<longleftrightarrow> (\<exists>d. json_loads (encode_private C rq) = Inr (JObj d)
     \<and> dget d ''mode'' = Some (JStr ''private_final'') \<and> decode_final K (JObj d) = Some rq)"

definition codecs_fit :: "worker_codec \<Rightarrow> client_codec \<Rightarrow> bool" where
  "codecs_fit K C \<longleftrightarrow> (\<forall>rq. public_fits K C rq) \<and> (\<forall>rq. private_fits K C rq)
     \<and> (\<forall>r. decode_report C (encode_report K r) = Some r)
     \<and> (\<forall>r. decode_final_result C (encode_final K r) = Some r)"

lemma worker_main_public:
  assumes "public_fits K C rq" "length argv = 3"
  shows "worker_main W K argv (encode_public C rq) p =
    bnd (worker_public W rq) (\<lambda>r. ret (0, Some (encode_report K r))) p"
  using assms by (auto simp: public_fits_def worker_main_def bnd_def dindex_def)

lemma worker_main_private:
  assumes "private_fits K C rq" "length argv = 3"
  shows "worker_main W K argv (encode_private C rq) p =
    bnd (worker_private W rq) (\<lambda>r. ret (0, Some (encode_final K r))) p"
  using assms by (auto simp: private_fits_def worker_main_def bnd_def dindex_def)

text \<open>
  What the backend answers: the worker's report, or the report of an expired limit, or an error
  that fails closed.
\<close>

definition failed_closed :: "(exc \<Rightarrow> string) \<Rightarrow> exc \<Rightarrow> exc" where
  "failed_closed traceback e =
     Exc SandboxUnavailableC (''Official LCB worker failed closed: '' @ py_suffix 1000 (traceback e))"

lemma official_answer:
  assumes "public_fits K C (build_request S t code limit)"
    and "\<And>r. fst (worker_public W (build_request S t code limit) (child_process (os_runner S) parent)) = Inr r \<Longrightarrow>
      decode_report C (encode_report K r) = Some r"
  shows "official_evaluate_public (worker_launch traceback W K slow) C parent S t code limit =
    (let rq = build_request S t code limit;
         n = int (length (vt_public_test_cases t));
         wall = wall_timeout (os_runner S) limit n
     in if slow (encode_public C rq) wall then Inr (report_timeout n wall)
        else case fst (worker_public W rq (child_process (os_runner S) parent)) of
               Inl e \<Rightarrow> Inl (failed_closed traceback e)
             | Inr r \<Rightarrow> Inr r)"
  using assms(2)
  by (auto simp: official_evaluate_public_def runner_run_def worker_launch_def Let_def
      worker_main_public [OF assms(1)] bnd_def failed_closed_def split: prod.splits sum.splits)

lemma final_answer:
  assumes "private_fits K C (final_request_for S qid hidden code limit)"
    and "\<And>r. fst (worker_private W (final_request_for S qid hidden code limit) (child_process (os_runner S) parent)) = Inr r \<Longrightarrow>
      decode_final_result C (encode_final K r) = Some r"
  shows "final_evaluate (worker_launch traceback W K slow) C parent S qid hidden code limit =
    (let rq = final_request_for S qid hidden code limit;
         wall = wall_timeout (os_runner S) limit (int (length (req_tests rq)))
     in if slow (encode_private C rq) wall then Inr (final_timeout wall)
        else case fst (worker_private W rq (child_process (os_runner S) parent)) of
               Inl e \<Rightarrow> Inl (failed_closed traceback e)
             | Inr r \<Rightarrow> Inr r)"
  using assms(2)
  by (auto simp: final_evaluate_def runner_run_def worker_launch_def Let_def
      worker_main_private [OF assms(1)] bnd_def failed_closed_def split: prod.splits sum.splits)

theorem official_backend:
  assumes "codecs_fit K C" "checker_ok W"
  shows "sandbox_backend (official_evaluate_public (worker_launch traceback W K slow) C parent S)"
proof
  fix t code limit r
  assume r: "official_evaluate_public (worker_launch traceback W K slow) C parent S t code limit = Inr r"
  have T: "report_ok t (report_timeout (int (length (vt_public_test_cases t))) wall)" for wall
    by (simp add: report_ok_def report_timeout_def count_rows_def)
  have W: "report_ok t r" if "fst (worker_public W (build_request S t code limit) p) = Inr r" for p
    using worker_public_report [OF assms(2), of "build_request S t code limit" p r "snd (worker_public W (build_request S t code limit) p)"] that
    by (metis build_request_def prod.collapse public_request.select_convs(1))
  show "report_ok t r"
    using r T W assms(1) by (auto simp: codecs_fit_def official_answer Let_def split: if_splits sum.splits)
qed

end
