(* ===== verification/LCB_Data.thy ===== *)
theory LCB_Data
  imports Official_Sandbox
begin

text \<open>
  The reader of the benchmark (\<open>adapters/livecodebench/loader.py\<close>) and the task classes of
  \<open>schemas/task.py\<close>. Rows are JSON objects, one per line of the shards of a release. A row
  becomes a task without its hidden tests, which go to a repository of their own; the lemmas
  show that what is returned does not depend on them. The lines of a shard, the decoding of
  the compressed test blobs (base64, zlib and pickle) and the parser of dates are parameters.
\<close>

section \<open>Releases\<close>

definition shards :: "string list" where
  "shards = [''test.jsonl'', ''test2.jsonl'', ''test3.jsonl'', ''test4.jsonl'', ''test5.jsonl'', ''test6.jsonl'']"

definition release_files :: "string list dict" where
  "release_files = map (\<lambda>i. (''release_v'' @ py_str_int (int i), take i shards)) [1..<7]"

record lcb_host =
  shard_lines :: "string \<Rightarrow> string list option"
  unpickle :: "string \<Rightarrow> json res"
  row_pydantic :: pydantic
  row_repr :: "py_float \<Rightarrow> string"
  row_datetime :: "string \<Rightarrow> string option"

section \<open>Fields that hold JSON\<close>

definition parse_json_field :: "json \<Rightarrow> json \<Rightarrow> json res" where
  "parse_json_field v dflt =
     (if v = JNull \<or> v = JStr [] then Inr dflt
      else case v of JStr s \<Rightarrow> json_loads s | _ \<Rightarrow> Inr v)"

definition parse_private_tests :: "lcb_host \<Rightarrow> json \<Rightarrow> json res" where
  "parse_private_tests H v =
     (case parse_json_field v (JList []) of
        Inr x \<Rightarrow> Inr x
      | Inl e \<Rightarrow>
          if exc_cls e \<in> {JSONDecodeErrorC, TypeErrorC} then
            (case v of
               JStr s \<Rightarrow> rbind (unpickle H s) (\<lambda>decoded.
                 case decoded of JStr t \<Rightarrow> json_loads t | _ \<Rightarrow> Inr decoded)
             | _ \<Rightarrow> Inl (attribute_error (CHR 0x27 # py_type_name v @ CHR 0x27 # '' object has no attribute ''
                 @ CHR 0x27 # ''encode'' @ [CHR 0x27])))
          else Inl e)"

section \<open>The repository of hidden tests\<close>

definition repo_add :: "private_task \<Rightarrow> private_task dict \<Rightarrow> private_task dict" where
  "repo_add t items = dset (pt_question_id t) t items"

definition get_for_final_evaluation :: "private_task dict \<Rightarrow> string \<Rightarrow> private_task res" where
  "get_for_final_evaluation items qid = dindex items qid"

section \<open>Tasks\<close>

record lcb_task =
  lt_schema_version :: string
  lt_question_id :: string
  lt_release_version :: string
  lt_problem :: problem_artifact
  lt_metadata :: "json dict"

record hidden_record =
  hr_question_id :: string
  hr_private_test_cases_ref :: string

record filters =
  start_date :: "string option"
  end_date :: "string option"
  difficulties :: "string set option"
  platforms :: "string set option"
  task_ids :: "string set option"

definition no_filters :: filters where
  "no_filters = \<lparr>start_date = None, end_date = None, difficulties = None, platforms = None, task_ids = None\<rparr>"

text \<open>\<open>xs and x not in xs\<close> for an optional set: \<open>None\<close> and the empty set let everything through.\<close>

definition set_allows :: "string set option \<Rightarrow> string \<Rightarrow> bool" where
  "set_allows xs x \<longleftrightarrow> (case xs of None \<Rightarrow> True | Some s \<Rightarrow> s = {} \<or> x \<in> s)"

definition date_allows :: "(string \<Rightarrow> bool) \<Rightarrow> string option \<Rightarrow> bool" where
  "date_allows ok bound \<longleftrightarrow> (case bound of None \<Rightarrow> True | Some b \<Rightarrow> b = [] \<or> ok b)"

definition row_selected :: "filters \<Rightarrow> string \<Rightarrow> string \<Rightarrow> string \<Rightarrow> string \<Rightarrow> bool" where
  "row_selected F qid date difficulty platform \<longleftrightarrow>
     date_allows (\<lambda>b. \<not> date < b) (start_date F) \<and> date_allows (\<lambda>b. \<not> date > b) (end_date F)
     \<and> set_allows (difficulties F) difficulty \<and> set_allows (platforms F) platform \<and> set_allows (task_ids F) qid"

section \<open>One row\<close>

text \<open>\<open>str(item.get(k, dflt))\<close>.\<close>

definition text_field :: "lcb_host \<Rightarrow> json \<Rightarrow> string \<Rightarrow> string \<Rightarrow> string res" where
  "text_field H v k dflt = rbind (py_get v k (JStr dflt)) (\<lambda>x. Inr (py_str (row_repr H) x))"

definition read_public_example :: "lcb_host \<Rightarrow> json \<Rightarrow> public_example res" where
  "read_public_example H item =
     rbind (text_field H item ''input'' []) (\<lambda>i.
     rbind (text_field H item ''output'' []) (\<lambda>out.
     rbind (text_field H item ''testtype'' ''stdin'') (\<lambda>ty.
       if ty \<in> {''stdin'', ''functional''}
       then Inr \<lparr>ex_input = i, ex_output = out, ex_testtype = ty\<rparr>
       else Inl (Exc ValidationErrorC ''PublicExample''))))"

definition read_private_case :: "lcb_host \<Rightarrow> json \<Rightarrow> private_test_case res" where
  "read_private_case H item =
     rbind (text_field H item ''input'' []) (\<lambda>i.
     rbind (text_field H item ''output'' []) (\<lambda>out.
     rbind (text_field H item ''testtype'' ''stdin'') (\<lambda>ty.
       Inr \<lparr>pc_input = i, pc_output = out, pc_testtype = ty\<rparr>)))"

text \<open>The part of a row the filters look at.\<close>

record row_head =
  rh_qid :: string
  rh_date :: string
  rh_difficulty :: string
  rh_platform :: string

definition read_head :: "lcb_host \<Rightarrow> json \<Rightarrow> row_head res" where
  "read_head H raw =
     rbind (py_item raw ''question_id'') (\<lambda>q.
     rbind (text_field H raw ''contest_date'' []) (\<lambda>d.
     rbind (text_field H raw ''difficulty'' []) (\<lambda>diff.
     rbind (text_field H raw ''platform'' []) (\<lambda>pl.
       Inr \<lparr>rh_qid = py_str (row_repr H) q, rh_date = take 10 d, rh_difficulty = py_lower diff,
            rh_platform = py_lower pl\<rparr>))))"

definition head_selected :: "filters \<Rightarrow> row_head \<Rightarrow> bool" where
  "head_selected F h \<longleftrightarrow> row_selected F (rh_qid h) (rh_date h) (rh_difficulty h) (rh_platform h)"

definition read_visible_part :: "lcb_host \<Rightarrow> json \<Rightarrow> (json \<times> public_example list) res" where
  "read_visible_part H raw =
     rbind (py_get raw ''metadata'' JNull) (\<lambda>m.
     rbind (parse_json_field m (JObj [])) (\<lambda>meta.
     rbind (py_get raw ''public_test_cases'' JNull) (\<lambda>pub.
     rbind (parse_json_field pub (JList [])) (\<lambda>public_raw.
     rbind (py_iter public_raw) (\<lambda>items.
     rbind (rmap (read_public_example H) items) (\<lambda>public. Inr (meta, public)))))))"

definition read_private_part :: "lcb_host \<Rightarrow> json \<Rightarrow> private_test_case list res" where
  "read_private_part H raw =
     rbind (py_get raw ''private_test_cases'' JNull) (\<lambda>v.
     rbind (parse_private_tests H v) (\<lambda>private_raw.
     rbind (py_iter private_raw) (\<lambda>items. rmap (read_private_case H) items)))"

definition read_problem_part ::
  "lcb_host \<Rightarrow> json \<Rightarrow> row_head \<Rightarrow> public_example list \<Rightarrow> json \<Rightarrow> problem_artifact res" where
  "read_problem_part H raw h public fn =
     rbind (text_field H raw ''question_title'' []) (\<lambda>title.
     rbind (text_field H raw ''question_content'' []) (\<lambda>statement.
     rbind (py_get raw ''starter_code'' (JStr [])) (\<lambda>starter.
     rbind (text_field H raw ''contest_date'' []) (\<lambda>date.
     rbind (from_option (Exc ValidationErrorC ''ProblemArtifact'') (as_opt (as_str (row_pydantic H)) fn)) (\<lambda>fname.
       Inr \<lparr>pr_schema_version = ''1.0'', pr_question_id = rh_qid h, pr_title = title,
            pr_statement = statement,
            pr_starter_code = py_str (row_repr H) (py_or starter (JStr [])),
            pr_difficulty = rh_difficulty h, pr_platform = rh_platform h, pr_contest_date = date,
            pr_public_examples = public, pr_function_name = fname\<rparr>)))))"

text \<open>
  The body of the loop in \<open>load\<close>: \<open>None\<close> when a filter drops the row, else the task and the
  hidden data. The private tests are read between the public ones and the problem.
\<close>

definition read_row :: "lcb_host \<Rightarrow> filters \<Rightarrow> string \<Rightarrow> json \<Rightarrow> (lcb_task \<times> private_task) option res" where
  "read_row H F release raw =
     rbind (read_head H raw) (\<lambda>h.
       if \<not> head_selected F h then Inr None
       else
         rbind (read_visible_part H raw) (\<lambda>(meta, public).
         rbind (read_private_part H raw) (\<lambda>private.
         rbind (py_get meta ''func_name'' JNull) (\<lambda>fn.
         rbind (read_problem_part H raw h public fn) (\<lambda>problem.
         rbind (py_get raw ''contest_id'' (JStr [])) (\<lambda>contest.
           Inr (Some (\<lparr>lt_schema_version = ''1.0'', lt_question_id = rh_qid h,
                        lt_release_version = release, lt_problem = problem,
                        lt_metadata = [(''contest_id'', contest)]\<rparr>,
                      \<lparr>pt_question_id = rh_qid h, pt_private_tests = private,
                        pt_public_tests = public,
                        pt_function_name = pr_function_name problem\<rparr>))))))))"

section \<open>All rows\<close>

fun load_lines ::
  "lcb_host \<Rightarrow> filters \<Rightarrow> string \<Rightarrow> string list \<Rightarrow> (private_task dict, lcb_task list) io" where
  "load_lines H F release [] = ret []"
| "load_lines H F release (line # rest) =
     (if py_strip line = [] then load_lines H F release rest
      else
        bnd (lift (json_loads line)) (\<lambda>raw.
        bnd (lift (read_row H F release raw)) (\<lambda>row.
        case row of
          None \<Rightarrow> load_lines H F release rest
        | Some (t, hidden) \<Rightarrow>
            thn (update_w (repo_add hidden))
              (bnd (load_lines H F release rest) (\<lambda>ts. ret (t # ts))))))"

text \<open>A shard that is missing raises when its turn comes.\<close>

fun load_shards ::
  "lcb_host \<Rightarrow> filters \<Rightarrow> string \<Rightarrow> string list \<Rightarrow> (private_task dict, lcb_task list) io" where
  "load_shards H F release [] = ret []"
| "load_shards H F release (name # names) =
     (case shard_lines H name of
        None \<Rightarrow> throw (file_not_found name)
      | Some ls \<Rightarrow>
          bnd (load_lines H F release ls) (\<lambda>ts.
          bnd (load_shards H F release names) (\<lambda>more. ret (ts @ more))))"

definition loader_init :: "string \<Rightarrow> string res" where
  "loader_init release =
     (if release \<notin> set (dkeys release_files)
      then Inl (value_error (''Unsupported pinned release: '' @ release)) else Inr release)"

definition load_tasks :: "lcb_host \<Rightarrow> string \<Rightarrow> filters \<Rightarrow> (private_task dict, lcb_task list) io" where
  "load_tasks H release F =
     bnd (lift (dindex release_files release)) (\<lambda>names.
     bnd (load_shards H F release names) (\<lambda>ts.
       ret (sort_key lt_question_id ts)))"

definition visible_task_of :: "lcb_host \<Rightarrow> lcb_task \<Rightarrow> visible_task res" where
  "visible_task_of H t =
     (let p = lt_problem t in
      rbind (from_option (Exc ValidationErrorC ''AgentVisibleLCBTask'') (row_datetime H (pr_contest_date p))) (\<lambda>date.
        Inr \<lparr>vt_question_id = lt_question_id t, vt_question_title = pr_title p,
             vt_question_content = pr_statement p, vt_platform = pr_platform p, vt_contest_date = date,
             vt_starter_code = pr_starter_code p, vt_difficulty = pr_difficulty p,
             vt_public_test_cases = pr_public_examples p, vt_function_name = pr_function_name p,
             vt_metadata_public = lt_metadata t\<rparr>))"

definition load_visible ::
  "lcb_host \<Rightarrow> string \<Rightarrow> filters \<Rightarrow> (private_task dict, visible_task list \<times> hidden_record list) io" where
  "load_visible H release F =
     bnd (load_tasks H release F) (\<lambda>ts.
     bnd (lift (rmap (visible_task_of H) ts)) (\<lambda>vs.
       ret (vs, map (\<lambda>t. \<lparr>hr_question_id = lt_question_id t,
                          hr_private_test_cases_ref = lt_question_id t\<rparr>) ts)))"

section \<open>What is visible does not depend on what is hidden\<close>

definition hide :: "json \<Rightarrow> json" where
  "hide v = (case v of JObj d \<Rightarrow> JObj (filter (\<lambda>(k, x). k \<noteq> ''private_test_cases'') d) | _ \<Rightarrow> v)"

lemma dget_filter_key: "k \<noteq> k' \<Longrightarrow> dget (filter (\<lambda>(i, x). i \<noteq> k') d) k = dget d k"
  by (induction d) auto

lemma py_get_hide: "k \<noteq> ''private_test_cases'' \<Longrightarrow> py_get (hide v) k dflt = py_get v k dflt"
  by (cases v) (simp_all add: hide_def dget_filter_key)

lemma py_item_hide: "k \<noteq> ''private_test_cases'' \<Longrightarrow> py_item (hide v) k = py_item v k"
  by (cases v) (simp_all add: hide_def dindex_def dget_filter_key)

lemma read_head_hide: "read_head H (hide v) = read_head H v"
  by (simp add: read_head_def text_field_def py_get_hide py_item_hide)

lemma read_visible_part_hide: "read_visible_part H (hide v) = read_visible_part H v"
  by (simp add: read_visible_part_def py_get_hide)

lemma read_problem_part_hide: "read_problem_part H (hide v) h public fn = read_problem_part H v h public fn"
  by (simp add: read_problem_part_def text_field_def py_get_hide)

text \<open>The visible half of a row: what the loop returns when the hidden half can be read.\<close>

definition visible_row_of :: "lcb_host \<Rightarrow> filters \<Rightarrow> string \<Rightarrow> json \<Rightarrow> lcb_task option res" where
  "visible_row_of H F release raw =
     rbind (read_head H raw) (\<lambda>h.
       if \<not> head_selected F h then Inr None
       else
         rbind (read_visible_part H raw) (\<lambda>(meta, public).
         rbind (py_get meta ''func_name'' JNull) (\<lambda>fn.
         rbind (read_problem_part H raw h public fn) (\<lambda>problem.
         rbind (py_get raw ''contest_id'' (JStr [])) (\<lambda>contest.
           Inr (Some \<lparr>lt_schema_version = ''1.0'', lt_question_id = rh_qid h,
                       lt_release_version = release, lt_problem = problem,
                       lt_metadata = [(''contest_id'', contest)]\<rparr>))))))"

lemma read_row_visible:
  "read_row H F release raw = Inr row \<Longrightarrow> visible_row_of H F release raw = Inr (map_option fst row)"
  by (auto simp: read_row_def visible_row_of_def res_simps split: if_splits)

lemma visible_row_of_hide: "visible_row_of H F release (hide v) = visible_row_of H F release v"
  by (simp add: visible_row_of_def read_head_hide read_visible_part_hide read_problem_part_hide py_get_hide cong: if_cong)

text \<open>Hosts that differ only in the lines of the shards and in how blobs are decoded.\<close>

definition same_reader :: "lcb_host \<Rightarrow> lcb_host \<Rightarrow> bool" where
  "same_reader H H' \<longleftrightarrow> row_pydantic H = row_pydantic H' \<and> row_repr H = row_repr H' \<and> row_datetime H = row_datetime H'"

lemma visible_row_of_reader:
  assumes "same_reader H H'"
  shows "visible_row_of H = visible_row_of H'"
proof -
  have "text_field H = text_field H'" using assms by (intro ext) (simp add: text_field_def same_reader_def)
  moreover from this have "read_public_example H = read_public_example H'"
    by (intro ext) (simp add: read_public_example_def)
  moreover have "row_repr H = row_repr H'" "row_pydantic H = row_pydantic H'"
    using assms by (simp_all add: same_reader_def)
  ultimately have "read_head H = read_head H'" "read_visible_part H = read_visible_part H'"
    "read_problem_part H = read_problem_part H'"
    by (intro ext, simp add: read_head_def read_visible_part_def read_problem_part_def)+
  then show ?thesis by (intro ext) (simp add: visible_row_of_def cong: if_cong)
qed

lemma read_row_hidden:
  assumes "same_reader H H'" "hide v = hide v'"
    and "read_row H F release v = Inr row" "read_row H' F release v' = Inr row'"
  shows "map_option fst row = map_option fst row'"
proof -
  have "visible_row_of H F release v = visible_row_of H F release v'"
    using visible_row_of_hide [of H F release v] visible_row_of_hide [of H F release v'] assms(2) by simp
  then show ?thesis
    using read_row_visible [OF assms(3)] read_row_visible [OF assms(4)] visible_row_of_reader [OF assms(1)] by simp
qed

text \<open>Lines that carry the same row up to the hidden tests.\<close>

definition same_line :: "string \<Rightarrow> string \<Rightarrow> bool" where
  "same_line l l' \<longleftrightarrow> (py_strip l = [] \<longleftrightarrow> py_strip l' = [])
     \<and> (\<forall>v v'. json_loads l = Inr v \<longrightarrow> json_loads l' = Inr v' \<longrightarrow> hide v = hide v')"

lemma load_lines_hidden:
  assumes "same_reader H H'" "list_all2 same_line ls ls'"
    and "load_lines H F release ls r = (Inr ts, q)" "load_lines H' F release ls' r' = (Inr ts', q')"
  shows "ts = ts'"
  using assms(2-4)
proof (induction ls ls' arbitrary: r r' ts ts' q q' rule: list_all2_induct)
  case (Cons l ls l' ls')
  show ?case
  proof (cases "py_strip l = []")
    case True
    then show ?thesis using Cons.prems Cons.IH Cons.hyps by (simp add: same_line_def)
  next
    case False
    then have F': "py_strip l' \<noteq> []" using Cons.hyps by (simp add: same_line_def)
    obtain v row where v: "json_loads l = Inr v" "read_row H F release v = Inr row"
      using Cons.prems(1) False by (auto simp: bnd_eq_Inr)
    obtain v' row' where v': "json_loads l' = Inr v'" "read_row H' F release v' = Inr row'"
      using Cons.prems(2) F' by (auto simp: bnd_eq_Inr)
    have "hide v = hide v'" using Cons.hyps v(1) v'(1) by (simp add: same_line_def)
    from read_row_hidden [OF assms(1) this v(2) v'(2)] have same: "map_option fst row = map_option fst row'" .
    show ?thesis
    proof (cases row)
      case None
      then show ?thesis using Cons.prems Cons.IH same False F' v v' by (simp add: bnd_def)
    next
      case (Some th)
      obtain t h where th: "th = (t, h)" by (cases th)
      obtain h' where row': "row' = Some (t, h')" using same Some th by (cases row') auto
      show ?thesis
        using Cons.prems Some th row' False F' v v' Cons.IH
        by (auto simp: bnd_eq_Inr thn_eq_Inr)
    qed
  qed
qed simp

definition same_shards :: "lcb_host \<Rightarrow> lcb_host \<Rightarrow> bool" where
  "same_shards H H' \<longleftrightarrow> (\<forall>name. rel_option (list_all2 same_line) (shard_lines H name) (shard_lines H' name))"

lemma load_shards_hidden:
  assumes "same_reader H H'" "same_shards H H'"
    and "load_shards H F release names r = (Inr ts, q)" "load_shards H' F release names r' = (Inr ts', q')"
  shows "ts = ts'"
  using assms(3,4)
proof (induction names arbitrary: r r' ts ts' q q')
  case (Cons name names)
  have S: "rel_option (list_all2 same_line) (shard_lines H name) (shard_lines H' name)"
    using assms(2) by (simp add: same_shards_def)
  obtain ls a b r1 where a: "shard_lines H name = Some ls" "load_lines H F release ls r = (Inr a, r1)"
      "load_shards H F release names r1 = (Inr b, q)" "ts = a @ b"
    using Cons.prems(1) by (auto simp: bnd_eq_Inr split: option.splits)
  obtain ls' a' b' r1' where b: "shard_lines H' name = Some ls'" "load_lines H' F release ls' r' = (Inr a', r1')"
      "load_shards H' F release names r1' = (Inr b', q')" "ts' = a' @ b'"
    using Cons.prems(2) by (auto simp: bnd_eq_Inr split: option.splits)
  have "list_all2 same_line ls ls'" using S a(1) b(1) by simp
  then have "a = a'" using load_lines_hidden [OF assms(1) _ a(2) b(2)] by blast
  moreover have "b = b'" by (rule Cons.IH [OF a(3) b(3)])
  ultimately show ?case using a(4) b(4) by simp
qed simp

lemma load_tasks_hidden:
  assumes "same_reader H H'" "same_shards H H'"
    and "load_tasks H release F r = (Inr ts, q)" "load_tasks H' release F r' = (Inr ts', q')"
  shows "ts = ts'"
proof -
  obtain names us where us: "dindex release_files release = Inr names"
      "load_shards H F release names r = (Inr us, q)" "ts = sort_key lt_question_id us"
    using assms(3) by (auto simp: load_tasks_def bnd_eq_Inr)
  obtain us' where us': "load_shards H' F release names r' = (Inr us', q')" "ts' = sort_key lt_question_id us'"
    using assms(4) us(1) by (auto simp: load_tasks_def bnd_eq_Inr)
  show ?thesis using load_shards_hidden [OF assms(1,2) us(2) us'(1)] us(3) us'(2) by simp
qed

lemma load_visible_hidden:
  assumes "same_reader H H'" "same_shards H H'"
    and "load_visible H release F r = (Inr out, q)" "load_visible H' release F r' = (Inr out', q')"
  shows "out = out'"
proof -
  have V: "visible_task_of H = visible_task_of H'"
    using assms(1) by (simp add: visible_task_of_def same_reader_def fun_eq_iff)
  show ?thesis
    using assms(3,4) load_tasks_hidden [OF assms(1,2)] V
    by (fastforce simp: load_visible_def bnd_eq_Inr)
qed

section \<open>What is loaded\<close>

lemma read_row_ids:
  "read_row H F release v = Inr (Some (t, h)) \<Longrightarrow>
     pt_question_id h = lt_question_id t \<and> pr_question_id (lt_problem t) = lt_question_id t
     \<and> pt_public_tests h = pr_public_examples (lt_problem t)
     \<and> pt_function_name h = pr_function_name (lt_problem t) \<and> lt_release_version t = release
     \<and> set_allows (task_ids F) (lt_question_id t) \<and> set_allows (difficulties F) (pr_difficulty (lt_problem t))
     \<and> set_allows (platforms F) (pr_platform (lt_problem t))"
  by (auto simp: read_row_def read_problem_part_def head_selected_def row_selected_def res_simps split: if_splits)

text \<open>What every loaded task satisfies, and what the repository holds for it.\<close>

definition task_ok :: "filters \<Rightarrow> string \<Rightarrow> lcb_task \<Rightarrow> bool" where
  "task_ok F release t \<longleftrightarrow> pr_question_id (lt_problem t) = lt_question_id t \<and> lt_release_version t = release
     \<and> set_allows (task_ids F) (lt_question_id t) \<and> set_allows (difficulties F) (pr_difficulty (lt_problem t))
     \<and> set_allows (platforms F) (pr_platform (lt_problem t))"

definition repo_ok :: "private_task dict \<Rightarrow> bool" where
  "repo_ok r \<longleftrightarrow> (\<forall>qid h. dget r qid = Some h \<longrightarrow> pt_question_id h = qid)"

lemma repo_ok_add: "repo_ok r \<Longrightarrow> repo_ok (repo_add h r)"
  by (auto simp: repo_ok_def repo_add_def dget_dset)

lemma load_lines_ok:
  assumes "load_lines H F release ls r = (Inr ts, q)" "repo_ok r"
  shows "repo_ok q \<and> (\<forall>t \<in> set ts. task_ok F release t)
    \<and> {x. dget q x \<noteq> None} = {x. dget r x \<noteq> None} \<union> lt_question_id ` set ts"
  using assms
proof (induction ls arbitrary: r ts q)
  case (Cons l ls)
  show ?case
  proof (cases "py_strip l = []")
    case False
    then obtain v row where v: "json_loads l = Inr v" "read_row H F release v = Inr row"
      using Cons.prems(1) by (auto simp: bnd_eq_Inr)
    show ?thesis
    proof (cases row)
      case None
      then show ?thesis using Cons False v by (simp add: bnd_def)
    next
      case (Some th)
      obtain t h where th: "th = (t, h)" by (cases th)
      obtain ts' where ts': "load_lines H F release ls (repo_add h r) = (Inr ts', q)" "ts = t # ts'"
        using Cons.prems(1) False v Some th by (auto simp: bnd_eq_Inr thn_eq_Inr)
      have I: "pt_question_id h = lt_question_id t" "task_ok F release t"
        using read_row_ids v(2) Some th by (auto simp: task_ok_def)
      have "{x. dget (repo_add h r) x \<noteq> None} = insert (lt_question_id t) {x. dget r x \<noteq> None}"
        by (auto simp: repo_add_def dget_dset I(1))
      then show ?thesis
        using Cons.IH [OF ts'(1) repo_ok_add [OF Cons.prems(2)]] I(2) ts'(2) by auto
    qed
  qed (use Cons in simp)
qed simp

lemma load_shards_ok:
  assumes "load_shards H F release names r = (Inr ts, q)" "repo_ok r"
  shows "repo_ok q \<and> (\<forall>t \<in> set ts. task_ok F release t)
    \<and> {x. dget q x \<noteq> None} = {x. dget r x \<noteq> None} \<union> lt_question_id ` set ts"
  using assms
proof (induction names arbitrary: r ts q)
  case (Cons name names)
  obtain ls a b r1 where a: "load_lines H F release ls r = (Inr a, r1)"
      "load_shards H F release names r1 = (Inr b, q)" "ts = a @ b"
    using Cons.prems(1) by (auto simp: bnd_eq_Inr split: option.splits)
  have L: "repo_ok r1" "\<forall>t \<in> set a. task_ok F release t"
      "{x. dget r1 x \<noteq> None} = {x. dget r x \<noteq> None} \<union> lt_question_id ` set a"
    using load_lines_ok [OF a(1) Cons.prems(2)] by auto
  show ?case using Cons.IH [OF a(2) L(1)] L a(3) by auto
qed simp

lemma load_tasks_ok:
  assumes "load_tasks H release F r = (Inr ts, q)" "repo_ok r"
  shows "sorted (map lt_question_id ts)" "repo_ok q" "\<forall>t \<in> set ts. task_ok F release t"
    and "{x. dget q x \<noteq> None} = {x. dget r x \<noteq> None} \<union> lt_question_id ` set ts"
proof -
  obtain names us where us: "load_shards H F release names r = (Inr us, q)" "ts = sort_key lt_question_id us"
    using assms(1) by (auto simp: load_tasks_def bnd_eq_Inr)
  show "sorted (map lt_question_id ts)" by (simp add: us(2))
  show "repo_ok q" "\<forall>t \<in> set ts. task_ok F release t"
    "{x. dget q x \<noteq> None} = {x. dget r x \<noteq> None} \<union> lt_question_id ` set ts"
    using load_shards_ok [OF us(1) assms(2)] by (simp_all add: us(2))
qed

end
