(* ===== verification/LCB_Manifest.thy ===== *)
theory LCB_Manifest
  imports LCB_Data "HOL-Library.Multiset"
begin

text \<open>
  The sampled manifests (\<open>adapters/livecodebench/mapper.py\<close>) and the command that prepares
  one (\<open>cli/prepare_lcb.py\<close>). The generator of \<open>random.Random(seed)\<close> is a parameter: a state
  made from the seed, and a shuffle of which only one thing is assumed, that it permutes.
\<close>

section \<open>Manifests\<close>

record manifest_entry =
  me_question_id :: string
  me_title :: string
  me_difficulty :: string
  me_platform :: string
  me_contest_date :: string

record lcb_manifest =
  mf_schema_version :: string
  mf_release_version :: string
  mf_seed :: int
  mf_entries :: "manifest_entry list"
  mf_commit :: string
  mf_sha256 :: "string option"

definition dump_entry :: "manifest_entry \<Rightarrow> json" where
  "dump_entry e = JObj [(''question_id'', JStr (me_question_id e)), (''title'', JStr (me_title e)),
     (''difficulty'', JStr (me_difficulty e)), (''platform'', JStr (me_platform e)),
     (''contest_date'', JStr (me_contest_date e))]"

definition manifest_payload :: "lcb_manifest \<Rightarrow> json" where
  "manifest_payload m = JObj [(''schema_version'', JStr (mf_schema_version m)),
     (''release_version'', JStr (mf_release_version m)), (''seed'', JInt (mf_seed m)),
     (''entries'', JList (map dump_entry (mf_entries m))),
     (''livecodebench_commit'', JStr (mf_commit m))]"

text \<open>\<open>finalized\<close>: the digest of everything but the digest.\<close>

definition manifest_digest :: "platform \<Rightarrow> lcb_manifest \<Rightarrow> string" where
  "manifest_digest P m = sha256_hex P (dumps_sorted (float_repr P) (manifest_payload m))"

definition finalized :: "platform \<Rightarrow> lcb_manifest \<Rightarrow> lcb_manifest" where
  "finalized P m = m\<lparr>mf_sha256 := Some (manifest_digest P m)\<rparr>"

lemma finalized_digest: "mf_sha256 (finalized P m) = Some (manifest_digest P (finalized P m))"
  by (simp add: finalized_def manifest_digest_def manifest_payload_def)

lemma finalized_again: "finalized P (finalized P m) = finalized P m"
  by (simp add: finalized_def manifest_digest_def manifest_payload_def)

section \<open>Saving and loading\<close>

definition dump_manifest :: "lcb_manifest \<Rightarrow> json" where
  "dump_manifest m = JObj [(''schema_version'', JStr (mf_schema_version m)),
     (''release_version'', JStr (mf_release_version m)), (''seed'', JInt (mf_seed m)),
     (''entries'', JList (map dump_entry (mf_entries m))),
     (''livecodebench_commit'', JStr (mf_commit m)),
     (''manifest_sha256'', dump_opt JStr (mf_sha256 m))]"

definition validate_entry :: "pydantic \<Rightarrow> json \<Rightarrow> manifest_entry option" where
  "validate_entry P v = do {
     d \<leftarrow> as_obj v;
     q \<leftarrow> req d ''question_id'' (as_str P);
     ti \<leftarrow> req d ''title'' (as_str P);
     di \<leftarrow> req d ''difficulty'' (as_str P);
     pl \<leftarrow> req d ''platform'' (as_str P);
     cd \<leftarrow> req d ''contest_date'' (as_str P);
     Some \<lparr>me_question_id = q, me_title = ti, me_difficulty = di, me_platform = pl, me_contest_date = cd\<rparr> }"

definition validate_manifest :: "pydantic \<Rightarrow> json \<Rightarrow> lcb_manifest option" where
  "validate_manifest P v = do {
     d \<leftarrow> as_obj v;
     sv \<leftarrow> opt d ''schema_version'' (as_str P) ''1.0'';
     rv \<leftarrow> req d ''release_version'' (as_str P);
     se \<leftarrow> req d ''seed'' (as_int P);
     en \<leftarrow> opt d ''entries'' (as_list (validate_entry P)) [];
     co \<leftarrow> req d ''livecodebench_commit'' (as_str P);
     sh \<leftarrow> opt d ''manifest_sha256'' (as_opt (as_str P)) None;
     Some \<lparr>mf_schema_version = sv, mf_release_version = rv, mf_seed = se, mf_entries = en,
       mf_commit = co, mf_sha256 = sh\<rparr> }"

lemma validate_entry_dump: "pydantic_ok P \<Longrightarrow> validate_entry P (dump_entry e) = Some e"
  by (simp add: validate_entry_def dump_entry_def field_simps_schema)

lemma validate_manifest_dump: "pydantic_ok P \<Longrightarrow> validate_manifest P (dump_manifest m) = Some m"
  by (simp add: validate_manifest_def dump_manifest_def field_simps_schema validate_entry_dump)

section \<open>Sampling\<close>

record 's rng =
  seed_state :: "int \<Rightarrow> 's"
  shuffle :: "'s \<Rightarrow> lcb_task list \<Rightarrow> lcb_task list \<times> 's"

definition rng_ok :: "'s rng \<Rightarrow> bool" where
  "rng_ok G \<longleftrightarrow> (\<forall>s xs. mset (fst (shuffle G s xs)) = mset xs)"

definition candidates_for :: "lcb_task list \<Rightarrow> string set \<Rightarrow> string \<Rightarrow> lcb_task list" where
  "candidates_for tasks excluded difficulty =
     filter (\<lambda>t. pr_difficulty (lt_problem t) = difficulty \<and> lt_question_id t \<notin> excluded) tasks"

fun sample_loop ::
  "'s rng \<Rightarrow> lcb_task list \<Rightarrow> string set \<Rightarrow> (string \<times> int) list \<Rightarrow> 's \<Rightarrow> lcb_task list res" where
  "sample_loop G tasks excluded [] s = Inr []"
| "sample_loop G tasks excluded ((difficulty, quota) # rest) s =
     (let candidates = candidates_for tasks excluded difficulty in
      if int (length candidates) < quota
      then Inl (value_error (''Need '' @ py_str_int quota @ '' '' @ difficulty @ '' tasks, only ''
             @ py_str_int (int (length candidates)) @ '' available''))
      else
        let (shuffled, s') = shuffle G s candidates in
        rbind (sample_loop G tasks excluded rest s') (\<lambda>more. Inr (py_prefix quota shuffled @ more)))"

definition entry_of :: "lcb_task \<Rightarrow> manifest_entry" where
  "entry_of t = \<lparr>me_question_id = lt_question_id t, me_title = pr_title (lt_problem t),
     me_difficulty = pr_difficulty (lt_problem t), me_platform = pr_platform (lt_problem t),
     me_contest_date = pr_contest_date (lt_problem t)\<rparr>"

definition sample_manifest ::
  "platform \<Rightarrow> 's rng \<Rightarrow> lcb_task list \<Rightarrow> string \<Rightarrow> int \<Rightarrow> (string \<times> int) list \<Rightarrow> string set \<Rightarrow> string
     \<Rightarrow> lcb_manifest res" where
  "sample_manifest P G tasks release seed counts excluded commit =
     rbind (sample_loop G tasks excluded counts (seed_state G seed)) (\<lambda>selected.
       let entries = map entry_of selected in
       if card (set (map me_question_id entries)) \<noteq> length entries
       then Inl (value_error ''Manifest contains duplicate question IDs'')
       else Inr (finalized P \<lparr>mf_schema_version = ''1.0'', mf_release_version = release, mf_seed = seed,
              mf_entries = entries, mf_commit = commit, mf_sha256 = None\<rparr>))"

section \<open>What a sample satisfies\<close>

lemma shuffle_set: "rng_ok G \<Longrightarrow> set (fst (shuffle G s xs)) = set xs"
  by (metis rng_ok_def set_mset_mset)

lemma shuffle_length: "rng_ok G \<Longrightarrow> length (fst (shuffle G s xs)) = length xs"
  by (metis rng_ok_def size_mset)

lemma sample_loop_members:
  assumes "rng_ok G" "sample_loop G tasks excluded counts s = Inr selected" "t \<in> set selected"
  shows "t \<in> set tasks \<and> lt_question_id t \<notin> excluded \<and> pr_difficulty (lt_problem t) \<in> set (dkeys counts)"
  using assms(2,3)
proof (induction counts arbitrary: s selected)
  case (Cons dc rest)
  obtain difficulty quota where dc: "dc = (difficulty, quota)" by (cases dc)
  obtain shuffled s' more where m: "shuffle G s (candidates_for tasks excluded difficulty) = (shuffled, s')"
      "sample_loop G tasks excluded rest s' = Inr more" "selected = py_prefix quota shuffled @ more"
    using Cons.prems(1) dc by (auto simp: Let_def res_simps split: if_splits prod.splits)
  have "set shuffled = set (candidates_for tasks excluded difficulty)"
    using shuffle_set [OF assms(1), of s "candidates_for tasks excluded difficulty"] m(1) by simp
  then have "t \<in> set (py_prefix quota shuffled) \<Longrightarrow> t \<in> set (candidates_for tasks excluded difficulty)"
    using py_prefix_subset [of quota shuffled] by blast
  then show ?case using Cons.IH [OF m(2)] Cons.prems(2) m(3) dc by (auto simp: candidates_for_def)
qed simp

lemma sample_loop_counts:
  assumes "rng_ok G" "sample_loop G tasks excluded counts s = Inr selected"
    and "distinct (dkeys counts)" "(difficulty, n) \<in> set counts" "0 \<le> n"
  shows "int (length (filter (\<lambda>t. pr_difficulty (lt_problem t) = difficulty) selected)) = n"
  using assms(2-5)
proof (induction counts arbitrary: s selected)
  case (Cons dc rest)
  obtain d c where dc: "dc = (d, c)" by (cases dc)
  let ?p = "\<lambda>t. pr_difficulty (lt_problem t) = difficulty"
  obtain shuffled s' more where m: "shuffle G s (candidates_for tasks excluded d) = (shuffled, s')"
      "sample_loop G tasks excluded rest s' = Inr more" "selected = py_prefix c shuffled @ more"
      and len: "\<not> int (length (candidates_for tasks excluded d)) < c"
    using Cons.prems(1) dc by (auto simp: Let_def res_simps split: if_splits prod.splits)
  have sh: "set shuffled = set (candidates_for tasks excluded d)" "length shuffled = length (candidates_for tasks excluded d)"
    using shuffle_set [OF assms(1), of s "candidates_for tasks excluded d"]
      shuffle_length [OF assms(1), of s "candidates_for tasks excluded d"] m(1) by simp_all
  have diff: "pr_difficulty (lt_problem t) = d" if "t \<in> set (py_prefix c shuffled)" for t
    using that py_prefix_subset [of c shuffled] sh(1) by (auto simp: candidates_for_def)
  show ?case
  proof (cases "d = difficulty")
    case True
    then have c: "c = n" using Cons.prems(2,3) dc by (auto simp: rev_image_eqI)
    have "filter ?p (py_prefix c shuffled) = py_prefix c shuffled" using diff True by (simp add: filter_id_conv)
    moreover have "filter ?p more = []"
      using sample_loop_members [OF assms(1) m(2)] Cons.prems(2) dc True by (auto simp: filter_empty_conv)
    moreover have "int (length (py_prefix c shuffled)) = n"
      using len sh(2) Cons.prems(4) c by (simp add: py_prefix_def)
    ultimately show ?thesis using m(3) by simp
  next
    case False
    then have "filter ?p (py_prefix c shuffled) = []" using diff by (auto simp: filter_empty_conv)
    moreover have "int (length (filter ?p more)) = n"
      using Cons.IH [OF m(2)] Cons.prems(2-4) dc False by auto
    ultimately show ?thesis using m(3) by simp
  qed
qed simp

lemma sample_manifestE:
  assumes "sample_manifest P G tasks release seed counts excluded commit = Inr m"
  obtains selected where "sample_loop G tasks excluded counts (seed_state G seed) = Inr selected"
    "mf_entries m = map entry_of selected" "distinct (map me_question_id (mf_entries m))"
    "mf_sha256 m = Some (manifest_digest P m)" "mf_release_version m = release" "mf_seed m = seed"
proof -
  obtain selected where sel: "sample_loop G tasks excluded counts (seed_state G seed) = Inr selected"
    and card: "card (set (map me_question_id (map entry_of selected))) = length (map entry_of selected)"
    and m: "m = finalized P \<lparr>mf_schema_version = ''1.0'', mf_release_version = release, mf_seed = seed,
      mf_entries = map entry_of selected, mf_commit = commit, mf_sha256 = None\<rparr>"
    using assms by (auto simp: sample_manifest_def res_simps Let_def simp del: set_map split: if_splits)
  have "distinct (map me_question_id (map entry_of selected))"
    using card_distinct [of "map me_question_id (map entry_of selected)"] card by simp
  then show thesis using that sel by (simp add: m finalized_digest) (simp add: finalized_def)
qed

section \<open>The command\<close>

definition pinned_commit :: string where
  "pinned_commit = ''28fef95ea8c9f7a547c8329f2cd3d32b92c1fa24''"

text \<open>\<open>set(json.loads(...).get("question_ids", []))\<close>; only strings can equal an identifier.\<close>

definition excluded_of_json :: "json \<Rightarrow> string list res" where
  "excluded_of_json v =
     rbind (py_get v ''question_ids'' (JList [])) (\<lambda>ids.
     rbind (py_iter ids) (\<lambda>items.
     rbind (rmap (\<lambda>x. case x of
         JStr s \<Rightarrow> Inr [s]
       | JList xs \<Rightarrow> Inl (type_error (''unhashable type: '' @ CHR 0x27 # ''list'' @ [CHR 0x27]))
       | JObj d \<Rightarrow> Inl (type_error (''unhashable type: '' @ CHR 0x27 # ''dict'' @ [CHR 0x27]))
       | _ \<Rightarrow> Inr []) items) (\<lambda>parts. Inr (concat parts))))"

record prepare_args =
  pa_release :: string
  pa_easy :: int
  pa_medium :: int
  pa_hard :: int
  pa_seed :: int

definition prepare_counts :: "prepare_args \<Rightarrow> (string \<times> int) list" where
  "prepare_counts A = [(''easy'', pa_easy A), (''medium'', pa_medium A), (''hard'', pa_hard A)]"

text \<open>
  \<open>main\<close> after the arguments: the text of the exclusion file, if it exists, and the manifests
  to exclude are given.
\<close>

definition prepare_lcb ::
  "platform \<Rightarrow> lcb_host \<Rightarrow> 's rng \<Rightarrow> prepare_args \<Rightarrow> string option \<Rightarrow> lcb_manifest list
     \<Rightarrow> (private_task dict, lcb_manifest) io" where
  "prepare_lcb P H G A exclusions manifests =
     bnd (lift (case exclusions of None \<Rightarrow> Inr [] | Some content \<Rightarrow> rbind (json_loads content) excluded_of_json))
       (\<lambda>ids.
     let excluded = set ids \<union> set (concat (map (\<lambda>m. map me_question_id (mf_entries m)) manifests)) in
     bnd (lift (loader_init (pa_release A))) (\<lambda>release.
     bnd (load_tasks H release no_filters) (\<lambda>tasks.
       lift (sample_manifest P G tasks (pa_release A) (pa_seed A) (prepare_counts A) excluded pinned_commit))))"

lemma prepare_lcb_result:
  assumes "rng_ok G" "prepare_lcb P H G A exclusions manifests r = (Inr m, q)"
  shows "distinct (map me_question_id (mf_entries m))"
    and "\<And>e old. e \<in> set (mf_entries m) \<Longrightarrow> old \<in> set manifests \<Longrightarrow>
           me_question_id e \<notin> me_question_id ` set (mf_entries old)"
    and "\<And>d n. (d, n) \<in> set (prepare_counts A) \<Longrightarrow> 0 \<le> n \<Longrightarrow>
           int (length (filter (\<lambda>e. me_difficulty e = d) (mf_entries m))) = n"
    and "mf_sha256 m = Some (manifest_digest P m)"
proof -
  obtain ids tasks where s: "sample_manifest P G tasks (pa_release A) (pa_seed A) (prepare_counts A)
      (set ids \<union> set (concat (map (\<lambda>m. map me_question_id (mf_entries m)) manifests))) pinned_commit = Inr m"
    using assms(2) by (auto simp: prepare_lcb_def bnd_eq_Inr Let_def)
  let ?ex = "set ids \<union> set (concat (map (\<lambda>m. map me_question_id (mf_entries m)) manifests))"
  obtain selected where sel: "sample_loop G tasks ?ex (prepare_counts A) (seed_state G (pa_seed A)) = Inr selected"
    and m: "mf_entries m = map entry_of selected" "distinct (map me_question_id (mf_entries m))"
      "mf_sha256 m = Some (manifest_digest P m)"
    by (rule sample_manifestE [OF s])
  show "distinct (map me_question_id (mf_entries m))" "mf_sha256 m = Some (manifest_digest P m)" by fact+
  show "me_question_id e \<notin> me_question_id ` set (mf_entries old)"
    if e: "e \<in> set (mf_entries m)" and mem: "old \<in> set manifests" for e old
  proof
    assume old: "me_question_id e \<in> me_question_id ` set (mf_entries old)"
    obtain t where t: "t \<in> set selected" "e = entry_of t" using e by (auto simp: m(1))
    have "me_question_id e \<in> ?ex" using old mem by auto
    then show False using sample_loop_members [OF assms(1) sel t(1)] by (simp add: t(2) entry_of_def)
  qed
  have D: "distinct (dkeys (prepare_counts A))" by (simp add: prepare_counts_def)
  show "int (length (filter (\<lambda>e. me_difficulty e = d) (mf_entries m))) = n"
    if "(d, n) \<in> set (prepare_counts A)" "0 \<le> n" for d n
    using sample_loop_counts [OF assms(1) sel D that] by (simp add: m(1) filter_map o_def entry_of_def)
qed

end
