(* ===== verification/Config_Env.thy ===== *)
theory Config_Env
  imports Worker
begin

text \<open>
  Configuration: the \<open>.env\<close> reader (\<open>settings.py\<close>) and the expansion of environment
  variables in configuration files (\<open>config.py\<close>), with the sections of an experiment. The
  YAML parser is a parameter. The expansion is shown equal to a reference that works on the
  parts of a template.
\<close>

section \<open>Expansion of variables\<close>

definition env_char :: "char \<Rightarrow> bool" where
  "env_char c \<longleftrightarrow> (let n = of_char c :: nat in (65 \<le> n \<and> n \<le> 90) \<or> (48 \<le> n \<and> n \<le> 57) \<or> n = 95)"

text \<open>
  A match of \<open>_ENV\<close> at the start of the text: the name, the default and what follows. No
  character of a name can end it, so the greedy match never has to be given back.
\<close>

fun match_env :: "string \<Rightarrow> (string \<times> string option \<times> string) option" where
  "match_env (a # b # r) =
     (if a = CHR ''$'' \<and> b = CHR ''{'' then
        let name = takeWhile env_char r in
        if name = [] then None
        else case dropWhile env_char r of
               [] \<Rightarrow> None
             | c # r1 \<Rightarrow>
                 if c = CHR ''}'' then Some (name, None, r1)
                 else if c = CHR '':'' then
                   (case r1 of
                      [] \<Rightarrow> None
                    | d # r2 \<Rightarrow>
                        if d \<noteq> CHR ''-'' then None
                        else let dflt = takeWhile (\<lambda>x. x \<noteq> CHR ''}'') r2 in
                          if dflt = [] then None
                          else case dropWhile (\<lambda>x. x \<noteq> CHR ''}'') r2 of
                                 [] \<Rightarrow> None
                               | _ # r3 \<Rightarrow> Some (name, Some dflt, r3))
                 else None
      else None)"
| "match_env s = None"

lemma dropWhile_Cons_length: "dropWhile p xs = y # ys \<Longrightarrow> length ys < length xs"
  by (metis Suc_le_eq length_Cons length_dropWhile_le)

lemma match_env_shorter: "match_env s = Some (name, dflt, rest) \<Longrightarrow> length rest < length s"
  by (cases s rule: match_env.cases)
    (auto simp: Let_def split: if_splits list.splits dest!: dropWhile_Cons_length)

definition env_value :: "string dict \<Rightarrow> string \<Rightarrow> string option \<Rightarrow> string \<Rightarrow> string" where
  "env_value env name dflt whole =
     (case dget env name of Some v \<Rightarrow> v | None \<Rightarrow> (case dflt of Some d \<Rightarrow> d | None \<Rightarrow> whole))"

text \<open>\<open>_ENV.sub\<close>: matches are replaced from left to right and not looked at again.\<close>

function expand_text :: "string dict \<Rightarrow> string \<Rightarrow> string" where
  "expand_text env [] = []"
| "expand_text env (c # cs) =
     (case match_env (c # cs) of
        None \<Rightarrow> c # expand_text env cs
      | Some (name, dflt, rest) \<Rightarrow>
          env_value env name dflt (take (length (c # cs) - length rest) (c # cs)) @ expand_text env rest)"
  by pat_completeness auto
termination
  by (relation "measure (\<lambda>(env, s). length s)") (auto dest: match_env_shorter [OF sym] match_env_shorter)

fun expand_json :: "string dict \<Rightarrow> json \<Rightarrow> json" where
  "expand_json env (JStr s) = JStr (expand_text env s)"
| "expand_json env (JObj d) = JObj (map (\<lambda>(k, v). (k, expand_json env v)) d)"
| "expand_json env (JList xs) = JList (map (expand_json env) xs)"
| "expand_json env v = v"

section \<open>Templates\<close>

datatype part = Lit string | Var string | VarOr string string

fun part_ok :: "part \<Rightarrow> bool" where
  "part_ok (Lit s) = (CHR ''$'' \<notin> set s)"
| "part_ok (Var n) = (n \<noteq> [] \<and> list_all env_char n)"
| "part_ok (VarOr n d) = (n \<noteq> [] \<and> list_all env_char n \<and> d \<noteq> [] \<and> CHR ''}'' \<notin> set d)"

fun render :: "part \<Rightarrow> string" where
  "render (Lit s) = s"
| "render (Var n) = ''${'' @ n @ ''}''"
| "render (VarOr n d) = ''${'' @ n @ '':-'' @ d @ ''}''"

fun subst_part :: "string dict \<Rightarrow> part \<Rightarrow> string" where
  "subst_part env (Lit s) = s"
| "subst_part env (Var n) = (case dget env n of Some v \<Rightarrow> v | None \<Rightarrow> ''${'' @ n @ ''}'')"
| "subst_part env (VarOr n d) = (case dget env n of Some v \<Rightarrow> v | None \<Rightarrow> d)"

lemma takeWhile_upto: "list_all p xs \<Longrightarrow> \<not> p y \<Longrightarrow> takeWhile p (xs @ y # ys) = xs"
  by (induction xs) auto

lemma dropWhile_upto: "list_all p xs \<Longrightarrow> \<not> p y \<Longrightarrow> dropWhile p (xs @ y # ys) = y # ys"
  by (induction xs) auto

lemma env_char_ends [simp]: "\<not> env_char CHR ''}''" "\<not> env_char CHR '':''"
  by (simp_all add: env_char_def)

lemma expand_text_lit: "CHR ''$'' \<notin> set s \<Longrightarrow> expand_text env (s @ t) = s @ expand_text env t"
proof (induction s)
  case (Cons c cs)
  then have "match_env ((c # cs) @ t) = None" by (cases "cs @ t") auto
  then show ?case using Cons by simp
qed simp

lemma expand_text_var:
  assumes "n \<noteq> []" "list_all env_char n"
  shows "expand_text env (''${'' @ n @ ''}'' @ t)
    = (case dget env n of Some v \<Rightarrow> v | None \<Rightarrow> ''${'' @ n @ ''}'') @ expand_text env t"
  using assms by (simp add: takeWhile_upto dropWhile_upto env_value_def numeral_3_eq_3 split: option.splits)

lemma expand_text_var_or:
  assumes "n \<noteq> []" "list_all env_char n" "d \<noteq> []" "CHR ''}'' \<notin> set d"
  shows "expand_text env (''${'' @ n @ '':-'' @ d @ ''}'' @ t)
    = (case dget env n of Some v \<Rightarrow> v | None \<Rightarrow> d) @ expand_text env t"
proof -
  have d: "takeWhile (\<lambda>x. x \<noteq> CHR ''}'') (d @ CHR ''}'' # t) = d"
    "dropWhile (\<lambda>x. x \<noteq> CHR ''}'') (d @ CHR ''}'' # t) = CHR ''}'' # t"
    using assms(4) by (intro takeWhile_upto dropWhile_upto; auto simp: list_all_iff)+
  show ?thesis using assms by (simp add: takeWhile_upto dropWhile_upto d env_value_def split: option.splits)
qed

lemma expand_text_render:
  assumes "list_all part_ok ps"
  shows "expand_text env (concat (map render ps)) = concat (map (subst_part env) ps)"
  using assms
proof (induction ps)
  case (Cons p ps)
  then have IH: "expand_text env (concat (map render ps)) = concat (map (subst_part env) ps)" by simp
  show ?case
  proof (cases p)
    case (Lit s)
    then show ?thesis using Cons.prems IH by (simp add: expand_text_lit)
  next
    case (Var n)
    then show ?thesis using Cons.prems IH expand_text_var [of n env "concat (map render ps)"] by simp
  next
    case (VarOr n d)
    then show ?thesis using Cons.prems IH expand_text_var_or [of n d env "concat (map render ps)"] by simp
  qed
qed simp

section \<open>The \<open>.env\<close> file\<close>

text \<open>\<open>str.splitlines\<close>: the line boundaries below code point 256.\<close>

definition line_break :: "char \<Rightarrow> bool" where
  "line_break c \<longleftrightarrow> (let n = of_char c :: nat in n \<in> {10, 11, 12, 13, 28, 29, 30, 133})"

fun split_lines_from :: "string \<Rightarrow> string \<Rightarrow> string list" where
  "split_lines_from acc [] = (if acc = [] then [] else [rev acc])"
| "split_lines_from acc [c] = (if line_break c then [rev acc] else [rev (c # acc)])"
| "split_lines_from acc (c # d # cs) =
     (if c = CHR 0x0D \<and> d = CHR 0x0A then rev acc # split_lines_from [] cs
      else if line_break c then rev acc # split_lines_from [] (d # cs)
      else split_lines_from (c # acc) (d # cs))"

definition split_lines :: "string \<Rightarrow> string list" where
  "split_lines s = split_lines_from [] s"

text \<open>The assignment on a line, if there is one: key and value as they are stored.\<close>

definition env_line :: "string \<Rightarrow> (string \<times> string) option" where
  "env_line raw =
     (let line = py_strip raw in
      if line = [] \<or> starts_with ''#'' line then None
      else
        let line = (if starts_with ''export '' line then drop 7 line else line) in
        if CHR ''='' \<notin> set line then None
        else
          let key = takeWhile (\<lambda>c. c \<noteq> CHR ''='') line;
              val = drop (Suc (length key)) line
          in Some (py_strip key, strip_char CHR 0x27 (strip_char CHR 0x22 (py_strip val))))"

text \<open>
  \<open>os.environ.setdefault\<close>: a variable that is set stays; the operating system rejects an
  empty name and embedded zero bytes.
\<close>

definition set_default :: "string \<Rightarrow> string \<Rightarrow> (string dict, unit) io" where
  "set_default k v env =
     (case dget env k of
        Some old \<Rightarrow> (Inr (), env)
      | None \<Rightarrow>
          if k = [] then (Inl (Exc (ForeignErrorC ''OSError'') ''[Errno 22] Invalid argument''), env)
          else if CHR 0x00 \<in> set k \<or> CHR 0x00 \<in> set v then (Inl (value_error ''embedded null byte''), env)
          else (Inr (), dset k v env))"

definition default_repository :: "string dict \<Rightarrow> string" where
  "default_repository env =
     (case dget env ''LCB_REPO_PATH'' of Some p \<Rightarrow> p | None \<Rightarrow> ''/root/projects/LiveCodeBench'')"

definition load_line :: "string \<Rightarrow> (string dict, unit) io" where
  "load_line raw = (case env_line raw of None \<Rightarrow> ret () | Some (k, v) \<Rightarrow> set_default k v)"

definition default_settings :: "string dict" where
  "default_settings =
     [(''ANALYST_MODEL'', ''gpt-5-mini''), (''CODER_MODEL'', ''gpt-5-mini''),
      (''REPAIR_MODEL'', ''gpt-5-mini''),
      (''LCB_DATA_DIR'', ''/root/data/livecodebench/code_generation_lite'')]"

text \<open>\<open>load_env_file\<close>; the content of the file, if it exists, is given.\<close>

definition load_env_file :: "string option \<Rightarrow> (string dict, unit) io" where
  "load_env_file content =
     thn (case content of None \<Rightarrow> ret () | Some txt_content \<Rightarrow> for_each load_line (split_lines txt_content))
     (thn (for_each (\<lambda>(k, v). set_default k v) default_settings)
          (\<lambda>env. set_default ''LCB_REPOSITORY_PATH'' (default_repository env) env))"

text \<open>Settings are only ever added: the order on environments is extension.\<close>

definition env_le :: "string dict \<Rightarrow> string dict \<Rightarrow> bool" where
  "env_le e e' \<longleftrightarrow> (\<forall>k v. dget e k = Some v \<longrightarrow> dget e' k = Some v)"

interpretation env: world_order env_le
  by unfold_locales (auto simp: env_le_def)

lemma keeps_set_default: "env.keeps (set_default k v)"
  by (auto simp: env.keeps_def set_default_def env_le_def dget_dset split: option.splits if_splits)

lemma keeps_load_env_file: "env.keeps (load_env_file content)"
proof -
  have "env.keeps (load_line raw)" for raw
    by (auto simp: load_line_def intro: keeps_set_default split: option.splits)
  then have "env.keeps (case content of None \<Rightarrow> ret () | Some t \<Rightarrow> for_each load_line (split_lines t))"
    by (auto split: option.splits)
  moreover have "env.keeps (for_each (\<lambda>(k, v). set_default k v) default_settings)"
    by (auto intro: keeps_set_default)
  moreover have "env.keeps (\<lambda>e. set_default ''LCB_REPOSITORY_PATH'' (default_repository e) e)"
    using keeps_set_default by (auto simp: env.keeps_def)
  ultimately show ?thesis unfolding load_env_file_def by blast
qed

lemma set_default_sets: "set_default k v env = (Inr (), env') \<Longrightarrow> dget env' k \<noteq> None"
  by (auto simp: set_default_def dget_dset split: option.splits if_splits)

lemma for_each_set_default:
  "for_each (\<lambda>(k, v). set_default k v) kvs env = (Inr (), env') \<Longrightarrow> (k, v) \<in> set kvs \<Longrightarrow> dget env' k \<noteq> None"
proof (induction kvs arbitrary: env)
  case (Cons kv kvs)
  obtain k1 v1 where kv: "kv = (k1, v1)" by (cases kv)
  obtain e1 where e1: "set_default k1 v1 env = (Inr (), e1)"
    "for_each (\<lambda>(k, v). set_default k v) kvs e1 = (Inr (), env')"
    using Cons.prems(1) kv by (auto simp: thn_eq_Inr)
  show ?case
  proof (cases "(k, v) = kv")
    case True
    then have "dget e1 k \<noteq> None" using set_default_sets [OF e1(1)] kv by simp
    moreover have K: "env.keeps (for_each (\<lambda>(k, v). set_default k v) kvs)" by (auto intro: keeps_set_default)
    have "env_le e1 env'" by (rule env.keepsD [OF K]) (rule e1(2))
    ultimately show ?thesis by (auto simp: env_le_def)
  qed (use Cons.IH [OF e1(2)] Cons.prems(2) kv in auto)
qed simp

lemma load_env_file_defaults:
  assumes "load_env_file content env = (Inr (), env')"
  shows "k \<in> set (dkeys default_settings) \<union> {''LCB_REPOSITORY_PATH''} \<Longrightarrow> dget env' k \<noteq> None"
proof -
  obtain e1 e2 where e: "for_each (\<lambda>(k, v). set_default k v) default_settings e1 = (Inr (), e2)"
    "set_default ''LCB_REPOSITORY_PATH'' (default_repository e2) e2 = (Inr (), env')"
    using assms by (auto simp: load_env_file_def thn_eq_Inr)
  have le: "env_le e2 env'" by (rule env.keepsD [OF keeps_set_default]) (rule e(2))
  assume "k \<in> set (dkeys default_settings) \<union> {''LCB_REPOSITORY_PATH''}"
  then show ?thesis
  proof
    assume "k \<in> set (dkeys default_settings)"
    then obtain v where "(k, v) \<in> set default_settings" by auto
    then have "dget e2 k \<noteq> None" by (rule for_each_set_default [OF e(1)])
    then show ?thesis using le by (auto simp: env_le_def)
  qed (use set_default_sets [OF e(2)] in simp)
qed

section \<open>Experiments\<close>

record experiment_section =
  xs_name :: string
  xs_seed :: int
  xs_graph_config :: string
  xs_contracts_dir :: string
  xs_output_root :: string

record benchmark_section =
  bs_manifest :: string
  bs_data_dir :: string
  bs_repository_path :: string

record sandbox_section =
  ss_backend :: string
  ss_per_test_timeout :: py_float
  ss_worker_grace :: py_float
  ss_max_worker_wall :: py_float
  ss_limits :: sandbox_limits
  ss_image :: string

record experiment_config =
  xc_experiment :: experiment_section
  xc_benchmark :: benchmark_section
  xc_runtime :: runtime_limits
  xc_sandbox :: sandbox_section
  xc_evaluation :: "json dict"
  xc_logging :: "json dict"

definition as_literal :: "string \<Rightarrow> json \<Rightarrow> string option" where
  "as_literal s v = (if v = JStr s then Some s else None)"

definition as_one :: "json \<Rightarrow> int option" where
  "as_one v = (if v = JInt 1 then Some 1 else None)"

definition validate_experiment_section :: "pydantic \<Rightarrow> json \<Rightarrow> experiment_section option" where
  "validate_experiment_section P v = do {
     d \<leftarrow> as_obj v;
     n \<leftarrow> req d ''name'' (as_str P);
     s \<leftarrow> req d ''seed'' (as_int P);
     g \<leftarrow> req d ''graph_config'' (as_str P);
     c \<leftarrow> req d ''contracts_dir'' (as_str P);
     r \<leftarrow> req d ''output_root'' (as_str P);
     Some \<lparr>xs_name = n, xs_seed = s, xs_graph_config = g, xs_contracts_dir = c, xs_output_root = r\<rparr> }"

text \<open>The literal fields of the benchmark have one admissible value each.\<close>

definition validate_benchmark_section :: "pydantic \<Rightarrow> json \<Rightarrow> benchmark_section option" where
  "validate_benchmark_section P v = do {
     d \<leftarrow> as_obj v;
     _ \<leftarrow> req d ''name'' (as_literal ''livecodebench'');
     _ \<leftarrow> req d ''release_version'' (as_literal ''release_v6'');
     _ \<leftarrow> req d ''scenario'' (as_literal ''codegeneration'');
     _ \<leftarrow> req d ''language'' (as_literal ''python'');
     m \<leftarrow> req d ''manifest'' (as_str P);
     da \<leftarrow> req d ''data_dir'' (as_str P);
     r \<leftarrow> req d ''repository_path'' (as_str P);
     Some \<lparr>bs_manifest = m, bs_data_dir = da, bs_repository_path = r\<rparr> }"

definition validate_sandbox_limits :: "pydantic \<Rightarrow> json \<Rightarrow> sandbox_limits option" where
  "validate_sandbox_limits P v = do {
     d \<leftarrow> as_obj v;
     m \<leftarrow> opt d ''memory_mb'' (as_int P) 2048;
     p \<leftarrow> opt d ''max_processes'' (as_int P) 32;
     f \<leftarrow> opt d ''max_open_files'' (as_int P) 128;
     s \<leftarrow> opt d ''max_file_size_mb'' (as_int P) 16;
     Some \<lparr>lim_memory_mb = m, lim_max_processes = p, lim_max_open_files = f, lim_max_file_size_mb = s\<rparr> }"

definition validate_runtime_limits :: "pydantic \<Rightarrow> json \<Rightarrow> runtime_limits option" where
  "validate_runtime_limits P v = do {
     d \<leftarrow> as_obj v;
     b \<leftarrow> opt d ''max_parallel_benchmark_tasks'' (as_int P) 4;
     n \<leftarrow> opt d ''max_parallel_nodes_per_task'' (as_int P) 4;
     l \<leftarrow> opt d ''max_parallel_llm_calls'' (as_int P) 8;
     s \<leftarrow> opt d ''max_parallel_sandboxes'' (as_int P) 2;
     Some \<lparr>max_parallel_benchmark_tasks = b, max_parallel_nodes_per_task = n,
       max_parallel_llm_calls = l, max_parallel_sandboxes = s\<rparr> }"

definition validate_sandbox_section :: "pydantic \<Rightarrow> json \<Rightarrow> sandbox_section option" where
  "validate_sandbox_section P v = do {
     d \<leftarrow> as_obj v;
     b \<leftarrow> req d ''backend'' (as_lit [''lcb_official'', ''docker'', ''mock'']);
     t \<leftarrow> opt d ''per_test_timeout_seconds'' (as_float P) 6;
     g \<leftarrow> opt d ''worker_grace_seconds'' (as_float P) 5;
     m \<leftarrow> opt d ''max_worker_wall_seconds'' (as_float P) 60;
     _ \<leftarrow> opt d ''num_process_evaluate'' as_one 1;
     l \<leftarrow> opt d ''limits'' (validate_sandbox_limits P) default_sandbox_limits;
     i \<leftarrow> opt d ''image'' (as_str P) ''python:3.11-slim'';
     Some \<lparr>ss_backend = b, ss_per_test_timeout = t, ss_worker_grace = g, ss_max_worker_wall = m,
       ss_limits = l, ss_image = i\<rparr> }"

definition validate_experiment_config :: "pydantic \<Rightarrow> json \<Rightarrow> experiment_config option" where
  "validate_experiment_config P v = do {
     d \<leftarrow> as_obj v;
     x \<leftarrow> req d ''experiment'' (validate_experiment_section P);
     b \<leftarrow> req d ''benchmark'' (validate_benchmark_section P);
     r \<leftarrow> req d ''runtime'' (validate_runtime_limits P);
     s \<leftarrow> req d ''sandbox'' (validate_sandbox_section P);
     e \<leftarrow> req d ''evaluation'' as_obj;
     l \<leftarrow> req d ''logging'' as_obj;
     Some \<lparr>xc_experiment = x, xc_benchmark = b, xc_runtime = r, xc_sandbox = s,
       xc_evaluation = e, xc_logging = l\<rparr> }"

text \<open>\<open>load_experiment_config\<close> from the parsed YAML on.\<close>

definition load_experiment_config :: "pydantic \<Rightarrow> string dict \<Rightarrow> json \<Rightarrow> experiment_config res" where
  "load_experiment_config P env parsed =
     from_option (Exc ValidationErrorC ''ExperimentConfig'') (validate_experiment_config P (expand_json env parsed))"

section \<open>Contract files\<close>

text \<open>\<open>AgentContract\<close>, which forbids extra keys, and \<open>load_contract\<close> from the parsed YAML on.\<close>

definition contract_fields :: "string list" where
  "contract_fields = [''contract_id'', ''role'', ''system_prompt_template'', ''user_prompt_template'',
     ''model'', ''temperature'', ''max_tokens'', ''timeout_seconds'', ''allowed_tools'', ''input_schema'',
     ''output_schema'', ''parser_id'', ''memory_scope'']"

definition validate_contract :: "pydantic \<Rightarrow> json \<Rightarrow> agent_contract option" where
  "validate_contract P v = do {
     d \<leftarrow> as_obj v;
     _ \<leftarrow> only_keys contract_fields d;
     i \<leftarrow> req d ''contract_id'' (as_str P);
     r \<leftarrow> req d ''role'' (as_str P);
     s \<leftarrow> req d ''system_prompt_template'' (as_str P);
     u \<leftarrow> req d ''user_prompt_template'' (as_str P);
     m \<leftarrow> req d ''model'' (as_str P);
     te \<leftarrow> req d ''temperature'' (as_float P);
     mt \<leftarrow> req d ''max_tokens'' (as_int P);
     ts \<leftarrow> opt d ''timeout_seconds'' (as_float P) 120;
     tools \<leftarrow> opt d ''allowed_tools'' (as_list (as_str P)) [];
     inp \<leftarrow> req d ''input_schema'' (as_str P);
     out \<leftarrow> req d ''output_schema'' (as_str P);
     pa \<leftarrow> req d ''parser_id'' (as_str P);
     ms \<leftarrow> opt d ''memory_scope'' (as_lit [''local'', ''task'']) ''local'';
     Some \<lparr>ct_id = i, ct_role = r, ct_system_prompt = s, ct_user_prompt = u, ct_model = m,
       ct_temperature = te, ct_max_tokens = mt, ct_timeout_seconds = ts, ct_allowed_tools = tools,
       ct_input_schema = inp, ct_output_schema = out, ct_parser_id = pa, ct_memory_scope = ms\<rparr> }"

text \<open>\<open>ir/contracts.py\<close> has its own copy of the expansion, line by line the one of \<open>config.py\<close>.\<close>

abbreviation contract_expand :: "string dict \<Rightarrow> json \<Rightarrow> json" where
  "contract_expand \<equiv> expand_json"

definition load_contract :: "pydantic \<Rightarrow> string dict \<Rightarrow> json \<Rightarrow> agent_contract res" where
  "load_contract P env parsed =
     from_option (Exc ValidationErrorC ''AgentContract'') (validate_contract P (contract_expand env parsed))"

text \<open>\<open>load_contracts\<close> over the parsed files: each is read and added before the next.\<close>

fun add_contract_files ::
  "pydantic \<Rightarrow> string dict \<Rightarrow> json list \<Rightarrow> agent_contract dict \<Rightarrow> agent_contract dict res" where
  "add_contract_files P env [] acc = Inr acc"
| "add_contract_files P env (v # vs) acc =
     rbind (load_contract P env v) (\<lambda>c.
     rbind (add_contracts [c] acc) (add_contract_files P env vs))"

definition load_contract_files :: "pydantic \<Rightarrow> string dict \<Rightarrow> json list \<Rightarrow> agent_contract dict res" where
  "load_contract_files P env files = add_contract_files P env files []"

lemma add_contract_files_parsed:
  "rmap (load_contract P env) vs = Inr cs \<Longrightarrow> add_contract_files P env vs acc = add_contracts cs acc"
  by (induction vs arbitrary: cs acc) (auto simp: res_simps)

lemma load_contract_files_Inr:
  "load_contract_files P env files = Inr d \<Longrightarrow>
     \<exists>cs. rmap (load_contract P env) files = Inr cs \<and> load_contracts cs = Inr d"
proof -
  assume d: "load_contract_files P env files = Inr d"
  have "\<exists>cs. rmap (load_contract P env) vs = Inr cs" if "add_contract_files P env vs acc = Inr d" for vs acc
    using that by (induction vs arbitrary: acc) (auto simp: res_simps)
  then obtain cs where "rmap (load_contract P env) files = Inr cs"
    using d by (auto simp: load_contract_files_def)
  then show ?thesis using d add_contract_files_parsed by (auto simp: load_contract_files_def load_contracts_def)
qed

text \<open>Without a variable in it a value is left alone.\<close>

fun no_dollar :: "json \<Rightarrow> bool" where
  "no_dollar (JStr s) = (CHR ''$'' \<notin> set s)"
| "no_dollar (JObj d) = list_all (\<lambda>(k, v). no_dollar v) d"
| "no_dollar (JList xs) = list_all no_dollar xs"
| "no_dollar v = True"

lemma expand_json_plain: "no_dollar v \<Longrightarrow> expand_json env v = v"
proof (induction v)
  case (JStr s)
  then show ?case using expand_text_lit [of s env "[]"] by simp
next
  case (JObj d)
  then have "map (\<lambda>(k, v). (k, expand_json env v)) d = d"
    by (intro map_idI) (fastforce simp: list_all_iff split: prod.splits)
  then show ?case by simp
next
  case (JList xs)
  then have "map (expand_json env) xs = xs" by (intro map_idI) (auto simp: list_all_iff)
  then show ?case by simp
qed simp_all

end
