(* ===== verification/Batch_Run.thy ===== *)
theory Batch_Run
  imports Run_Correct LCB_Manifest Config_Env
begin

text \<open>
  The command that runs a benchmark (\<open>cli/run.py\<close>): which tasks it takes, how it names a run,
  which sandbox it chooses, what one task leaves behind (\<open>run_one\<close>) and the batch. The tasks
  of a batch run under one \<open>TaskGroup\<close>; here they come in the order of their identifiers, which
  is the schedule of a single task slot (\<open>Semaphores\<close> has the interleavings). The main lemma
  carries the invariant of every task across the runs of the others.
\<close>

section \<open>Arguments\<close>

record run_args =
  ra_task_id :: "string option"
  ra_limit :: "int option"
  ra_mock_llm :: bool
  ra_dry_run :: bool
  ra_force_rerun :: bool
  ra_allow_drift :: bool
  ra_run_id :: "string option"

text \<open>\<open>if x\<close> on an optional string.\<close>

definition given :: "string option \<Rightarrow> bool" where
  "given x \<longleftrightarrow> x \<noteq> None \<and> x \<noteq> Some []"

definition select_ids :: "run_args \<Rightarrow> lcb_manifest \<Rightarrow> string list" where
  "select_ids A m =
     (let ids = map me_question_id (mf_entries m);
          ids = (if given (ra_task_id A) then filter (\<lambda>q. Some q = ra_task_id A) ids else ids)
      in case ra_limit A of None \<Rightarrow> ids | Some n \<Rightarrow> py_prefix n ids)"

definition dry_run_report :: "platform \<Rightarrow> compiled_graph \<Rightarrow> string list \<Rightarrow> json" where
  "dry_run_report P cg ids =
     JObj [(''baseline'', case dget (metadata (graph cg)) ''baseline'' of None \<Rightarrow> JNull | Some v \<Rightarrow> v),
           (''task_ids'', JList (map JStr ids)),
           (''waves'', JList (map (\<lambda>wv. JList (map JStr wv)) (waves cg))),
           (''graph_hash'', JStr (graph_digest P (graph cg)))]"

text \<open>The digest of the contracts, in the order of their keys.\<close>

definition contracts_digest :: "platform \<Rightarrow> (agent_contract \<Rightarrow> string) \<Rightarrow> agent_contract dict \<Rightarrow> string" where
  "contracts_digest P dump_contract cs =
     sha256_hex P (concat (map (\<lambda>k. case dget cs k of None \<Rightarrow> [] | Some c \<Rightarrow> dump_contract c) (sort (dkeys cs))))"

definition choose_run_id :: "platform \<Rightarrow> run_args \<Rightarrow> experiment_config \<Rightarrow> lcb_manifest \<Rightarrow> orchestra_graph \<Rightarrow> string res" where
  "choose_run_id P A cfg m g =
     (if given (ra_run_id A) then Inr (the (ra_run_id A))
      else case mf_sha256 m of
             None \<Rightarrow> Inl (type_error (CHR 0x27 # ''NoneType'' @ CHR 0x27 # '' object is not subscriptable''))
           | Some h \<Rightarrow> Inr (xs_name (xc_experiment cfg) @ ''-'' @ take 8 h @ ''-'' @ take 8 (graph_digest P g)))"

text \<open>\<open>build_compiler\<close> of \<open>cli/validate_graph.py\<close>.\<close>

definition build_compiler :: "agent_contract dict \<Rightarrow> compiler_env" where
  "build_compiler cs = \<lparr>contracts = cs, harness_ids = [''public_code_harness''],
     transform_ids = [''identity_code'', ''merge_analysis_artifacts'', ''repair_to_code'', ''freeze_code''],
     selector_ids = [''deterministic_code_selector'']\<rparr>"

section \<open>The sandbox of a run\<close>

datatype chosen_sandbox = UseMock | UseOfficial official_sandbox | UseDocker docker_sandbox

text \<open>There is no fallback: a backend that is not available ends the run.\<close>

definition choose_sandbox ::
  "(string \<Rightarrow> string) \<Rightarrow> (string \<Rightarrow> bool) \<Rightarrow> bool \<Rightarrow> run_args \<Rightarrow> experiment_config \<Rightarrow> chosen_sandbox res" where
  "choose_sandbox resolve has_checkout has_docker A cfg =
     (let s = xc_sandbox cfg in
      if ra_mock_llm A then Inr UseMock
      else if ss_backend s = ''lcb_official'' then
        (case official_init ''OfficialLCBSandbox'' resolve has_checkout (bs_repository_path (xc_benchmark cfg))
                (Some (ss_limits s)) 1 (ss_worker_grace s) (ss_max_worker_wall s) of
           Inr x \<Rightarrow> Inr (UseOfficial x)
         | Inl e \<Rightarrow>
             if exc_cls e = SandboxUnavailableC
             then Inl (Exc RuntimeErrorC ''OfficialLCBSandbox is unavailable; refusing subprocess fallback.'')
             else Inl e)
      else if ss_backend s = ''docker'' then
        (case docker_init has_docker (ss_image s) (ss_per_test_timeout s) (lim_memory_mb (ss_limits s)) of
           Inr x \<Rightarrow> Inr (UseDocker x)
         | Inl e \<Rightarrow> Inl (Exc RuntimeErrorC ''Docker backend is unavailable; select lcb_official explicitly.''))
      else Inl (Exc RuntimeErrorC ''sandbox.backend=mock is permitted only with --mock-llm''))"

lemma choose_sandbox_mock:
  "choose_sandbox resolve has_checkout has_docker A cfg = Inr UseMock \<longleftrightarrow> ra_mock_llm A"
  by (auto simp: choose_sandbox_def Let_def split: sum.splits)

section \<open>One task\<close>

record batch_setup =
  bt_runtime :: runtime
  bt_compiled :: compiled_graph
  bt_run_id :: string
  bt_limits :: runtime_limits
  bt_contract_hash :: string
  bt_drift :: bool
  bt_stamp :: "string \<Rightarrow> stamp"
  bt_dump_result :: "graph_result \<Rightarrow> string"

definition task_context :: "batch_setup \<Rightarrow> string \<Rightarrow> run_context" where
  "task_context B qid = \<lparr>ctx_run_id = bt_run_id B, ctx_task_id = qid, limits = bt_limits B,
     ctx_contract_hash = bt_contract_hash B, allow_config_drift = bt_drift B\<rparr>"

definition initial_bundle :: "batch_setup \<Rightarrow> lcb_task \<Rightarrow> string \<Rightarrow> envelope dict" where
  "initial_bundle B t qid =
     [(''problem'', create_artifact (plat (rt_host (bt_runtime B))) (bt_stamp B qid) (MProblem (lt_problem t))
        ''__input__'' qid [])]"

definition write_file :: "path \<Rightarrow> string \<Rightarrow> (world, unit) io" where
  "write_file p t = update_w (write_text p t)"

abbreviation "result_file qid \<equiv> TaskFile qid ''graph_result.json''"
abbreviation "failure_file qid \<equiv> TaskFile qid ''task_failure.json''"

definition failure_text :: "platform \<Rightarrow> exc \<Rightarrow> string" where
  "failure_text P e = dumps_indent ascii_json_string (float_repr P) 0 (JObj [(''error'', JStr (exc_msg e))])"

definition record_failure :: "batch_setup \<Rightarrow> string \<Rightarrow> exc \<Rightarrow> (world, graph_result option) io" where
  "record_failure B qid e =
     thn (write_file (failure_file qid) (failure_text (plat (rt_host (bt_runtime B))) e))
     (thn (emit (task_context B qid) (graph (bt_compiled B)) ''TASK_FAILED''
        (\<lambda>ev. ev\<lparr>ev_status := Some ''failed'', ev_metadata := [(''error'', JStr (exc_msg e))]\<rparr>))
     (ret None))"

definition record_result :: "batch_setup \<Rightarrow> string \<Rightarrow> graph_result \<Rightarrow> (world, graph_result option) io" where
  "record_result B qid res =
     thn (write_file (result_file qid) (bt_dump_result B res))
     (thn (emit (task_context B qid) (graph (bt_compiled B)) ''TASK_COMPLETED''
        (\<lambda>ev. ev\<lparr>ev_status := Some (if frozen (final_state res) then ''frozen'' else ''incomplete'')\<rparr>))
     (ret (Some res)))"

text \<open>The \<open>try\<close> statement: only a deadlock is recorded as a failure, everything else leaves.\<close>

definition execute_task :: "batch_setup \<Rightarrow> envelope dict \<Rightarrow> string \<Rightarrow> (world, graph_result option) io" where
  "execute_task B bundle qid w =
     (case execute (bt_runtime B) (bt_compiled B) bundle (task_context B qid) w of
        (Inr res, w') \<Rightarrow> record_result B qid res w'
      | (Inl e, w') \<Rightarrow>
          if exc_cls e = GraphDeadlockErrorC then record_failure B qid e w' else (Inl e, w'))"

definition run_one :: "batch_setup \<Rightarrow> lcb_task dict \<Rightarrow> string \<Rightarrow> (world, graph_result option) io" where
  "run_one B tasks qid =
     bnd (lift (dindex tasks qid)) (\<lambda>t.
     thn (emit (task_context B qid) (graph (bt_compiled B)) ''TASK_STARTED'' (\<lambda>e. e))
         (execute_task B (initial_bundle B t qid) qid))"

section \<open>The batch\<close>

definition in_group :: "(world, 'a) io \<Rightarrow> (world, 'a) io" where
  "in_group m w = (case m w of (Inl e, w') \<Rightarrow> (Inl (group_error e), w') | (Inr x, w') \<Rightarrow> (Inr x, w'))"

definition run_event :: "batch_setup \<Rightarrow> string \<Rightarrow> (world, unit) io" where
  "run_event B ty = emit (task_context B []) (graph (bt_compiled B)) ty (\<lambda>e. e\<lparr>ev_task_id := None\<rparr>)"

definition tagged_run :: "batch_setup \<Rightarrow> lcb_task dict \<Rightarrow> string \<Rightarrow> (world, string \<times> graph_result option) io" where
  "tagged_run B tasks q = bnd (run_one B tasks q) (\<lambda>r. ret (q, r))"

definition run_batch :: "batch_setup \<Rightarrow> lcb_task dict \<Rightarrow> string list \<Rightarrow> (world, (string \<times> graph_result option) list) io" where
  "run_batch B tasks ids =
     thn (run_event B ''RUN_STARTED'')
     (bnd (in_group (collect (tagged_run B tasks) ids)) (\<lambda>results.
      thn (run_event B ''RUN_COMPLETED'') (ret results)))"

text \<open>\<open>--force-rerun\<close>: \<open>shutil.rmtree\<close> on the directory of each task.\<close>

definition remove_task :: "string \<Rightarrow> world \<Rightarrow> world" where
  "remove_task qid w = w\<lparr>fs := filter (\<lambda>(p, t). path_task p \<noteq> Some qid) (fs w)\<rparr>"

definition prepare_run :: "run_args \<Rightarrow> string \<Rightarrow> string list \<Rightarrow> (world, unit) io" where
  "prepare_run A manifest_text ids =
     thn (if ra_force_rerun A then for_each (\<lambda>qid. update_w (remove_task qid)) ids else ret ())
         (write_file (RunFile ''run_manifest.json'') manifest_text)"

text \<open>\<open>{task.question_id: task for task in tasks}\<close>.\<close>

definition task_map :: "lcb_task list \<Rightarrow> lcb_task dict" where
  "task_map ts = dict_of (map (\<lambda>t. (lt_question_id t, t)) ts)"

section \<open>The tasks of a batch do not disturb one another\<close>

text \<open>
  Identifiers of tasks without a dash: then the first dash of an artifact's name ends the
  name of its task.
\<close>

definition plain_id :: "string \<Rightarrow> bool" where
  "plain_id t \<longleftrightarrow> CHR ''-'' \<notin> set t"

definition names_ok :: "world \<Rightarrow> bool" where
  "names_ok w \<longleftrightarrow> (\<forall>t i. file_at w (ArtifactFile t i) \<noteq> None \<longrightarrow> named_for t i \<and> plain_id t)"

definition batch_ok :: "host \<Rightarrow> orchestra_graph \<Rightarrow> string list \<Rightarrow> world \<Rightarrow> bool" where
  "batch_ok H g ids w \<longleftrightarrow> store_inv H w \<and> names_ok w \<and> (\<forall>q \<in> set ids. plain_id q \<and> resumable H g q w)"

lemma named_for_prefix: "named_for t i \<Longrightarrow> plain_id t \<Longrightarrow> takeWhile (\<lambda>c. c \<noteq> CHR ''-'') i = t"
proof -
  assume "named_for t i" "plain_id t"
  then obtain r where "i = t @ CHR ''-'' # r" "CHR ''-'' \<notin> set t"
    by (auto simp: named_for_def plain_id_def)
  then show ?thesis by (induction t arbitrary: i) auto
qed

lemma named_for_unique: "named_for t i \<Longrightarrow> named_for t' i \<Longrightarrow> plain_id t \<Longrightarrow> plain_id t' \<Longrightarrow> t = t'"
  using named_for_prefix by metis

lemma named_forI: "named_for t (t @ ''-'' @ n @ ''-'' @ u)"
  by (auto simp: named_for_def)

lemma names_other_free:
  assumes "names_ok w" "plain_id q" "named_for q i" "t \<noteq> q"
  shows "file_at w (ArtifactFile t i) = None"
proof (rule ccontr)
  assume "file_at w (ArtifactFile t i) \<noteq> None"
  then have "named_for t i" "plain_id t" using assms(1) unfolding names_ok_def by blast+
  then have "t = q" using named_for_unique assms(2,3) by blast
  then show False using assms(4) by simp
qed

lemma names_ids_free: "names_ok w \<Longrightarrow> plain_id q \<Longrightarrow> ids_free q g w"
  using names_other_free named_forI by (auto simp: ids_free_def)

lemma initial_bundle_ok:
  assumes "names_ok w" "plain_id q"
  shows "bundle_ok q w (initial_bundle B t q)"
proof -
  let ?a = "create_artifact (plat (rt_host (bt_runtime B))) (bt_stamp B q) (MProblem (lt_problem t)) ''__input__'' q []"
  have id: "artifact_id ?a = q @ ''-'' @ ''__input__'' @ ''-'' @ uuid_hex (bt_stamp B q)" "env_task_id ?a = q"
    by (simp_all add: create_artifact_def Let_def)
  have named: "named_for q (artifact_id ?a)" unfolding id by (rule named_forI)
  then have "admits_artifact w ?a" using names_other_free [OF assms] by (simp add: admits_artifact_def id(2))
  then show ?thesis using id(2) named by (simp add: bundle_ok_def initial_bundle_def)
qed

lemma stored_artifact_kept:
  assumes "store_inv H w" "store_inv H w'" "artifacts_le w w'" "stored_artifact H w i = Some a"
  shows "stored_artifact H w' i = Some a"
  using assms(3,4) stored_artifact_Some [OF assms(1)] stored_artifact_Some [OF assms(2)]
  by (auto simp: artifacts_le_def)

text \<open>A step on one task that keeps its own invariant keeps the batch.\<close>

lemma batch_ok_step:
  assumes B: "batch_ok H g ids w" and q: "plain_id q"
    and own: "resumable H g q w'" and others: "others_same q w w'" and grows: "artifacts_le w w'"
  shows "batch_ok H g ids w'"
proof -
  have inv: "store_inv H w" "store_inv H w'" "names_ok w"
    using B own by (simp_all add: batch_ok_def resumable_def)
  have files: "file_at w' (ArtifactFile t i) = file_at w (ArtifactFile t i)" if "t \<noteq> q" for t i
    using others that by (simp add: others_same_def)
  have names: "names_ok w'"
    unfolding names_ok_def
  proof (intro allI impI)
    fix t i assume i: "file_at w' (ArtifactFile t i) \<noteq> None"
    show "named_for t i \<and> plain_id t"
    proof (cases "t = q")
      case True
      then have "file_at w (ArtifactFile q i) \<noteq> None \<or> named_for q i"
        using others i by (auto simp: others_same_def new_names_def)
      then show ?thesis using True q inv(3) by (auto simp: names_ok_def)
    qed (use i files inv(3) in \<open>simp add: names_ok_def\<close>)
  qed
  have "resumable H g t w'" if t: "t \<in> set ids" "t \<noteq> q" for t
  proof -
    have T: "plain_id t" "resumable H g t w" using B t(1) by (simp_all add: batch_ok_def)
    have grow: "world_le H t g w w'"
      using inv names_ids_free [OF names T(1)] stored_artifact_kept [OF inv(1,2) grows] by (simp add: world_le_def)
    have ck: "file_at w' (CheckpointFile t) = file_at w (CheckpointFile t)"
      using others t(2) by (simp add: others_same_def)
    have "\<exists>st. x = dump_state H st \<and> run_inv H g t st w'" if "file_at w' (CheckpointFile t) = Some x" for x
      using T(2) that ck run_inv_grows [OF _ grow] by (auto simp: resumable_def)
    then show ?thesis using inv(2) names_ids_free [OF names T(1)] by (simp add: resumable_def)
  qed
  then show ?thesis using B own inv(2) names by (auto simp: batch_ok_def)
qed

text \<open>Writing one of the other files of a task, and adding to the log.\<close>

lemma quiet_batch:
  assumes "batch_ok H g ids w" "same_artifacts w w'" "same_checkpoints w w'"
  shows "batch_ok H g ids w'"
proof -
  have "store_inv H w'" using same_artifacts_store(1) [OF assms(2)] assms(1) by (simp add: batch_ok_def)
  moreover have "names_ok w'" using assms(1,2) by (simp add: batch_ok_def names_ok_def same_artifacts_def)
  moreover have "resumable H g q w'" if "q \<in> set ids" for q
    using that assms(1) by (intro resumable_same [OF _ assms(3) quiet_growing [OF assms(2)]]) (simp add: batch_ok_def)
  ultimately show ?thesis using assms(1) by (simp add: batch_ok_def)
qed

lemma write_file_quiet:
  "(\<And>t i. p \<noteq> ArtifactFile t i) \<Longrightarrow> same_artifacts w (write_text p x w)"
  "(\<And>t. p \<noteq> CheckpointFile t) \<Longrightarrow> same_checkpoints w (write_text p x w)"
  by (auto simp: same_artifacts_def same_checkpoints_def write_text_def file_at_def update_conv' distinct_update)

lemma emit_snd: "snd (emit ctx g ty f w) = w\<lparr>log := log w @ [f (base_event ctx (graph_id g) ty)]\<rparr>"
  by (simp add: emit_def)

lemma log_quiet: "same_artifacts w (w\<lparr>log := l\<rparr>)" "same_checkpoints w (w\<lparr>log := l\<rparr>)"
  by (simp_all add: same_artifacts_def same_checkpoints_def)

lemma batch_ok_log [simp]: "batch_ok H g ids w \<Longrightarrow> batch_ok H g ids (w\<lparr>log := l\<rparr>)"
  by (rule quiet_batch [OF _ log_quiet])

lemma batch_ok_write: "batch_ok H g ids w \<Longrightarrow> batch_ok H g ids (write_text (TaskFile q n) x w)"
  by (rule quiet_batch) (auto intro: write_file_quiet)

section \<open>What a batch leaves\<close>

text \<open>What \<open>run_one\<close> did, in one of its three outcomes.\<close>

definition outcome_ok :: "batch_setup \<Rightarrow> string \<Rightarrow> graph_result option \<Rightarrow> world \<Rightarrow> bool" where
  "outcome_ok B qid r w \<longleftrightarrow>
     (case r of
        Some res \<Rightarrow> file_at w (result_file qid) = Some (bt_dump_result B res) \<and> frozen (final_state res)
          \<and> run_inv (rt_host (bt_runtime B)) (graph (bt_compiled B)) qid (final_state res) w
      | None \<Rightarrow> file_at w (failure_file qid) \<noteq> None)"

abbreviation "setup_sound B \<equiv> sound_setup (bt_runtime B) (graph (bt_compiled B))"
abbreviation "host_of B \<equiv> rt_host (bt_runtime B)"
abbreviation "graph_of B \<equiv> graph (bt_compiled B)"

lemma task_context_id [simp]: "ctx_task_id (task_context B q) = q"
  by (simp add: task_context_def)

lemma execute_batch:
  assumes "setup_sound B" "batch_ok (host_of B) (graph_of B) ids w" "q \<in> set ids"
  shows "batch_ok (host_of B) (graph_of B) ids
    (snd (execute (bt_runtime B) (bt_compiled B) (initial_bundle B t q) (task_context B q) w))"
proof -
  have q: "plain_id q" "resumable (host_of B) (graph_of B) q w" "names_ok w"
    using assms(2,3) by (simp_all add: batch_ok_def)
  note b = initial_bundle_ok [OF q(3,1), of B t]
  show ?thesis
  proof (rule batch_ok_step [OF assms(2) q(1)])
    show "resumable (host_of B) (graph_of B) q
        (snd (execute (bt_runtime B) (bt_compiled B) (initial_bundle B t q) (task_context B q) w))"
      using execute_resumable [OF assms(1), of "task_context B q" w] q(2) b by simp
    show "others_same q w (snd (execute (bt_runtime B) (bt_compiled B) (initial_bundle B t q) (task_context B q) w))"
      using execute_isolated [OF assms(1), of "task_context B q" w] q(2) b by simp
    show "artifacts_le w (snd (execute (bt_runtime B) (bt_compiled B) (initial_bundle B t q) (task_context B q) w))"
      by (rule immutable.keeps_snd [OF execute_keeps(1)])
  qed
qed

lemma batch_grows:
  assumes "batch_ok H g ids w" "batch_ok H g ids w'" "q \<in> set ids" "artifacts_le w w'"
  shows "world_le H q g w w'"
proof -
  have inv: "store_inv H w" "store_inv H w'" "ids_free q g w'"
    using assms(1-3) by (auto simp: batch_ok_def resumable_def)
  then show ?thesis using stored_artifact_kept [OF inv(1,2) assms(4)] by (simp add: world_le_def)
qed

lemma outcome_kept:
  assumes "outcome_ok B q r w" "batch_ok (host_of B) (graph_of B) ids w" "batch_ok (host_of B) (graph_of B) ids w'"
    and "q \<in> set ids" "artifacts_le w w'" "\<And>p. path_task p = Some q \<Longrightarrow> file_at w' p = file_at w p"
  shows "outcome_ok B q r w'"
  using assms(1) assms(6) run_inv_grows [OF _ batch_grows [OF assms(2-5)]]
  by (auto simp: outcome_ok_def split: option.splits)

lemma write_text_artifacts: "artifacts_le w (write_text (TaskFile q n) x w)"
  by (simp add: artifacts_le_def)

text \<open>What one task may do to the world, whether it returns or raises.\<close>

definition task_step :: "batch_setup \<Rightarrow> string list \<Rightarrow> string \<Rightarrow> world \<Rightarrow> world \<Rightarrow> bool" where
  "task_step B ids q w w' \<longleftrightarrow> batch_ok (host_of B) (graph_of B) ids w' \<and> artifacts_le w w'
     \<and> (\<forall>p. path_task p \<noteq> Some q \<longrightarrow> file_at w' p = file_at w p)"

lemma task_step_write:
  assumes "task_step B ids q w w'"
  shows "task_step B ids q w (write_text (TaskFile q n) x w')"
proof -
  have "artifacts_le w (write_text (TaskFile q n) x w')"
    using assms by (simp add: task_step_def artifacts_le_def)
  then show ?thesis using assms by (auto simp: task_step_def batch_ok_write)
qed

lemma task_step_log: "task_step B ids q w w' \<Longrightarrow> task_step B ids q w (w'\<lparr>log := l\<rparr>)"
  by (simp add: task_step_def artifacts_le_def)

lemma outcome_result:
  assumes "run_inv (host_of B) (graph_of B) q (final_state res) w" "frozen (final_state res)"
  shows "outcome_ok B q (Some res) ((write_text (result_file q) (bt_dump_result B res) w)\<lparr>log := l\<rparr>)"
proof -
  let ?w = "write_text (result_file q) (bt_dump_result B res) w"
  have "run_inv (host_of B) (graph_of B) q (final_state res) ?w"
    by (rule run_inv_grows [OF assms(1) quiet_growing [OF write_file_quiet(1)]]) simp
  from run_inv_grows [OF this quiet_growing [OF log_quiet(1)]]
  show ?thesis using assms(2) by (simp add: outcome_ok_def)
qed

lemma execute_task_step:
  assumes S: "setup_sound B" and B: "batch_ok (host_of B) (graph_of B) ids w" and q: "q \<in> set ids"
    and run: "execute_task B (initial_bundle B t q) q w = (r, w')"
  shows "task_step B ids q w w' \<and> (\<forall>x. r = Inr x \<longrightarrow> outcome_ok B q x w')"
proof -
  let ?b = "initial_bundle B t q" and ?c = "task_context B q"
  obtain x w1 where x: "execute (bt_runtime B) (bt_compiled B) ?b ?c w = (x, w1)"
    by (cases "execute (bt_runtime B) (bt_compiled B) ?b ?c w")
  have q': "plain_id q" "resumable (host_of B) (graph_of B) (ctx_task_id ?c) w" "names_ok w"
    using B q by (simp_all add: batch_ok_def)
  have b: "bundle_ok (ctx_task_id ?c) w ?b" using initial_bundle_ok [OF q'(3,1)] by simp
  have step: "task_step B ids q w w1"
    using execute_batch [OF S B q, of t] immutable.keeps_snd [OF execute_keeps(1), of w] x
      execute_isolated [OF S q'(2) b]
    by (auto simp: task_step_def others_same_def) (metis snd_conv)
  show ?thesis
  proof (cases x)
    case (Inr res)
    then have res: "execute (bt_runtime B) (bt_compiled B) ?b ?c w = (Inr res, w1)" using x by simp
    note R = execute_returns [OF res S q'(2) b]
    have w': "r = Inr (Some res)"
      "\<exists>l. w' = (write_text (result_file q) (bt_dump_result B res) w1)\<lparr>log := l\<rparr>"
      using run x Inr by (auto simp: execute_task_def record_result_def write_file_def thn_def bnd_def emit_def)
    then obtain l where l: "w' = (write_text (result_file q) (bt_dump_result B res) w1)\<lparr>log := l\<rparr>" by blast
    show ?thesis
      using outcome_result [of B q res w1 l] R w'(1) task_step_log [OF task_step_write [OF step]] by (simp add: l)
  next
    case (Inl e)
    show ?thesis
    proof (cases "exc_cls e = GraphDeadlockErrorC")
      case True
      then have "\<exists>l. w' = (write_text (failure_file q) (failure_text (plat (host_of B)) e) w1)\<lparr>log := l\<rparr>"
        "r = Inr None"
        using run x Inl by (auto simp: execute_task_def record_failure_def write_file_def thn_def bnd_def emit_def)
      then show ?thesis using task_step_log [OF task_step_write [OF step]] by (auto simp: outcome_ok_def)
    qed (use run x Inl step in \<open>auto simp: execute_task_def\<close>)
  qed
qed

lemma task_step_trans_log:
  "task_step B ids q (w\<lparr>log := l\<rparr>) w' \<Longrightarrow> task_step B ids q w w'"
  by (simp add: task_step_def artifacts_le_def)

lemma run_one_step:
  assumes "setup_sound B" "batch_ok (host_of B) (graph_of B) ids w" "q \<in> set ids" "run_one B tasks q w = (r, w')"
  shows "task_step B ids q w w' \<and> (\<forall>x. r = Inr x \<longrightarrow> outcome_ok B q x w')"
proof (cases "dget tasks q")
  case None
  then show ?thesis using assms(2,4)
    by (auto simp: run_one_def bnd_def dindex_def task_step_def artifacts_le_def)
next
  case (Some t)
  let ?w = "w\<lparr>log := log w @ [base_event (task_context B q) (graph_id (graph_of B)) ''TASK_STARTED'']\<rparr>"
  have run: "execute_task B (initial_bundle B t q) q ?w = (r, w')"
    using assms(4) Some by (simp add: run_one_def bnd_def thn_def dindex_def emit_def)
  from execute_task_step [OF assms(1) _ assms(3) run] assms(2) show ?thesis
    using task_step_trans_log by fastforce
qed

lemma collect_tasks:
  assumes "setup_sound B" "set qs \<subseteq> set ids" "distinct qs"
    and "batch_ok (host_of B) (graph_of B) ids w"
    and "collect (tagged_run B tasks) qs w = (Inr rs, w')"
  shows "batch_ok (host_of B) (graph_of B) ids w' \<and> artifacts_le w w' \<and> map fst rs = qs
    \<and> (\<forall>(q, r) \<in> set rs. outcome_ok B q r w')
    \<and> (\<forall>p. (\<forall>q \<in> set qs. path_task p \<noteq> Some q) \<longrightarrow> file_at w' p = file_at w p)"
  using assms(2-5)
proof (induction qs arbitrary: w rs)
  case (Cons q qs)
  obtain y w1 rs' where y: "tagged_run B tasks q w = (Inr y, w1)"
      "collect (tagged_run B tasks) qs w1 = (Inr rs', w')" "rs = y # rs'"
    using Cons.prems(4) by (auto simp: bnd_eq_Inr)
  obtain r where "run_one B tasks q w = (Inr r, w1)" "y = (q, r)"
    using y(1) by (auto simp: tagged_run_def bnd_eq_Inr)
  note r = this(1) y(2) y(3) [unfolded this(2)]
  have q: "q \<in> set ids" "q \<notin> set qs" using Cons.prems(1,2) by auto
  have S: "task_step B ids q w w1" "outcome_ok B q r w1"
    using run_one_step [OF assms(1) Cons.prems(3) q(1) r(1)] by auto
  have S1: "batch_ok (host_of B) (graph_of B) ids w1" "artifacts_le w w1"
      "\<And>p. path_task p \<noteq> Some q \<Longrightarrow> file_at w1 p = file_at w p"
    using S(1) by (auto simp: task_step_def)
  have I: "batch_ok (host_of B) (graph_of B) ids w'" "artifacts_le w1 w'" "map fst rs' = qs"
      "\<forall>(q, r) \<in> set rs'. outcome_ok B q r w'"
      "\<And>p. (\<forall>q \<in> set qs. path_task p \<noteq> Some q) \<Longrightarrow> file_at w' p = file_at w1 p"
    using Cons.IH [OF _ _ S1(1) r(2)] Cons.prems(1,2) by auto
  have "outcome_ok B q r w'"
    by (rule outcome_kept [OF S(2) S1(1) I(1) q(1) I(2)]) (rule I(5), use q(2) in auto)
  moreover have "artifacts_le w w'" using S1(2) I(2) by (rule immutable.le_trans)
  moreover have "file_at w' p = file_at w p" if "\<forall>x \<in> set (q # qs). path_task p \<noteq> Some x" for p
    using that I(5) S1(3) by simp
  ultimately show ?case using I r(3) by auto
qed (simp add: artifacts_le_def)

text \<open>
  A batch that returns: every task has its result file, for a frozen state whose invariant
  holds, or its failure file, and the batch could be run again.
\<close>

lemma run_batch_outcome:
  assumes "setup_sound B" "distinct ids" "batch_ok (host_of B) (graph_of B) ids w"
    and "run_batch B tasks ids w = (Inr rs, w')"
  shows "batch_ok (host_of B) (graph_of B) ids w'" "map fst rs = ids"
    "(q, r) \<in> set rs \<Longrightarrow> outcome_ok B q r w'"
proof -
  obtain w1 l l1 where c: "collect (tagged_run B tasks) ids (w\<lparr>log := l1\<rparr>) = (Inr rs, w1)"
      "w' = w1\<lparr>log := l\<rparr>"
    using assms(4)
    by (auto simp: run_batch_def run_event_def emit_def in_group_def thn_def bnd_def split: prod.splits sum.splits)
  note C = collect_tasks [OF assms(1) subset_refl assms(2) batch_ok_log [OF assms(3)] c(1)]
  show "batch_ok (host_of B) (graph_of B) ids w'" "map fst rs = ids" using C by (simp_all add: c(2))
  show "outcome_ok B q r w'" if "(q, r) \<in> set rs"
  proof (rule outcome_kept [of B q r w1])
    show "q \<in> set ids" using that C by (metis fst_conv imageI list.set_map)
  qed (use that C c(2) in \<open>auto simp: artifacts_le_def\<close>)
qed

lemma run_batch_files:
  assumes "setup_sound B" "distinct ids" "batch_ok (host_of B) (graph_of B) ids w"
    and "run_batch B tasks ids w = (Inr rs, w')"
  shows "\<forall>p. (\<forall>q \<in> set ids. path_task p \<noteq> Some q) \<longrightarrow> file_at w' p = file_at w p"
proof -
  obtain w1 l l1 where c: "collect (tagged_run B tasks) ids (w\<lparr>log := l1\<rparr>) = (Inr rs, w1)"
      "w' = w1\<lparr>log := l\<rparr>"
    using assms(4)
    by (auto simp: run_batch_def run_event_def emit_def in_group_def thn_def bnd_def split: prod.splits sum.splits)
  show ?thesis using collect_tasks [OF assms(1) subset_refl assms(2) batch_ok_log [OF assms(3)] c(1)] by (simp add: c(2))
qed

end
