(* ===== verification/Final_Evaluation.thy ===== *)
theory Final_Evaluation
  imports Batch_Run
begin

text \<open>
  The command that scores a finished batch against the hidden tests: the evaluator that only
  accepts frozen runs (\<open>adapters/livecodebench/final_evaluator.py\<close>), the predictions it exports
  (\<open>exporter.py\<close>) and the loop over the tasks (\<open>cli/evaluate.py\<close>). The lemmas follow a batch
  into its evaluation, and show that evaluating again only reads what the first pass wrote.
\<close>

section \<open>The evaluator\<close>

record final_evaluation =
  fe_question_id :: string
  fe_passed :: bool
  fe_evaluator_commit :: string
  fe_release_version :: string
  fe_pass_at_1 :: py_float
  fe_per_test_timeout :: py_float
  fe_max_worker_wall :: py_float

type_synonym launcher = "process \<Rightarrow> string \<Rightarrow> py_float \<Rightarrow> worker_exit res"

record evaluator =
  el_private_repository :: "private_task dict"
  el_evaluator_commit :: string
  el_worker :: official_sandbox
  el_per_test_timeout :: py_float

definition evaluate_frozen_run ::
  "launcher \<Rightarrow> client_codec \<Rightarrow> process \<Rightarrow> evaluator \<Rightarrow> runtime_state \<Rightarrow> string \<Rightarrow> string \<Rightarrow> final_evaluation res" where
  "evaluate_frozen_run launch C parent E st code ref =
     (if \<not> frozen st \<or> final_output_artifact_id st = None
      then Inl (Exc RuntimeErrorC ''Private evaluation requires FINAL_OUTPUT_FROZEN'')
      else
        rbind (get_for_final_evaluation (el_private_repository E) ref) (\<lambda>hidden.
        rbind (final_evaluate launch C parent (el_worker E) ref hidden code (el_per_test_timeout E)) (\<lambda>r.
          Inr \<lparr>fe_question_id = ref, fe_passed = fin_passed r, fe_evaluator_commit = el_evaluator_commit E,
               fe_release_version = ''release_v6'', fe_pass_at_1 = fin_pass_at_1 r,
               fe_per_test_timeout = el_per_test_timeout E,
               fe_max_worker_wall = rn_max_wall (os_runner (el_worker E))\<rparr>)))"

text \<open>Hidden tests are asked for, and code is run on them, for frozen runs only.\<close>

lemma evaluate_frozen_only:
  assumes "evaluate_frozen_run launch C parent E st code ref = Inr fe"
  shows "frozen st" "\<exists>aid. final_output_artifact_id st = Some aid"
    "\<exists>hidden r. get_for_final_evaluation (el_private_repository E) ref = Inr hidden
       \<and> final_evaluate launch C parent (el_worker E) ref hidden code (el_per_test_timeout E) = Inr r
       \<and> fe_passed fe = fin_passed r \<and> fe_pass_at_1 fe = fin_pass_at_1 r"
  using assms by (auto simp: evaluate_frozen_run_def res_simps split: if_splits)

lemma evaluate_unfrozen:
  "\<not> frozen st \<Longrightarrow> evaluate_frozen_run launch C parent E st code ref
     = Inl (Exc RuntimeErrorC ''Private evaluation requires FINAL_OUTPUT_FROZEN'')"
  by (simp add: evaluate_frozen_run_def)

section \<open>Predictions\<close>

definition build_official_record :: "string \<Rightarrow> string \<Rightarrow> json" where
  "build_official_record qid code = JObj [(''question_id'', JStr qid), (''code_list'', JList [JStr code])]"

definition export_predictions :: "(py_float \<Rightarrow> string) \<Rightarrow> json list \<Rightarrow> path \<Rightarrow> (world, unit) io" where
  "export_predictions fr records p = write_file p (dumps_indent json_string fr 0 (JList records))"

section \<open>The loop over the tasks\<close>

text \<open>
  \<open>vj_state_of\<close> is \<open>RuntimeState.model_validate\<close> on parsed JSON and \<open>vj_dump\<close> is
  \<open>model_dump_json(indent=2)\<close> of an evaluation.
\<close>

record evaluation_job =
  vj_host :: host
  vj_state_of :: "json \<Rightarrow> runtime_state option"
  vj_dump :: "final_evaluation \<Rightarrow> string"
  vj_launch :: launcher
  vj_codec :: client_codec
  vj_parent :: process
  vj_evaluator :: evaluator
  vj_graph_id :: string

abbreviation "evaluation_file qid \<equiv> TaskFile qid ''final_evaluation.json''"

definition read_file :: "path \<Rightarrow> (world, string) io" where
  "read_file p w = (from_option (file_not_found ''No such file or directory'') (file_at w p), w)"

definition state_in_result :: "evaluation_job \<Rightarrow> string \<Rightarrow> runtime_state res" where
  "state_in_result J body =
     rbind (json_loads body) (\<lambda>v.
     rbind (py_item v ''state'') (\<lambda>s.
       from_option (Exc ValidationErrorC ''RuntimeState'') (vj_state_of J s)))"

definition frozen_output :: "string \<Rightarrow> runtime_state \<Rightarrow> string res" where
  "frozen_output qid st =
     (if \<not> frozen st \<or> \<not> given (final_output_artifact_id st)
      then Inl (Exc RuntimeErrorC (''Task '' @ qid @ '' is not frozen''))
      else Inr (the (final_output_artifact_id st)))"

definition code_in_artifact :: "platform \<Rightarrow> envelope \<Rightarrow> string res" where
  "code_in_artifact P a =
     rbind (from_option (Exc ValidationErrorC ''FinalCodeArtifact'') (validate_final_code (pyd P) (payload a)))
       (\<lambda>f. Inr (fc_code f))"

definition stored_verdict :: "string \<Rightarrow> int res" where
  "stored_verdict body = rbind (json_loads body) (\<lambda>v. rbind (py_item v ''passed'') py_int)"

definition private_event :: "evaluation_job \<Rightarrow> runtime_state \<Rightarrow> string \<Rightarrow> string \<Rightarrow> string option \<Rightarrow> (world, unit) io" where
  "private_event J st qid ty status =
     append_event \<lparr>ev_run_id = run_id st, ev_task_id = Some qid, ev_graph_id = vj_graph_id J,
       event_type = ty, ev_wave_id = None, ev_node_id = None, ev_artifact_ids = [],
       ev_latency_ms = None, ev_prompt_tokens = None, ev_completion_tokens = None,
       ev_estimated_cost_usd = None, ev_status = status, ev_metadata = []\<rparr>"

definition evaluate_new :: "evaluation_job \<Rightarrow> runtime_state \<Rightarrow> string \<Rightarrow> string \<Rightarrow> (world, int) io" where
  "evaluate_new J st qid code =
     thn (private_event J st qid ''PRIVATE_EVALUATION_STARTED'' None)
     (bnd (lift (evaluate_frozen_run (vj_launch J) (vj_codec J) (vj_parent J) (vj_evaluator J) st code qid)) (\<lambda>fe.
      thn (write_file (evaluation_file qid) (vj_dump J fe))
      (thn (private_event J st qid ''PRIVATE_EVALUATION_COMPLETED''
              (Some (if fe_passed fe then ''passed'' else ''failed'')))
           (ret (if fe_passed fe then 1 else 0)))))"

text \<open>An evaluation that is already on disk is counted and not repeated.\<close>

definition verdict_for :: "evaluation_job \<Rightarrow> runtime_state \<Rightarrow> string \<Rightarrow> string \<Rightarrow> (world, int) io" where
  "verdict_for J st qid code w =
     (case file_at w (evaluation_file qid) of
        Some body \<Rightarrow> (stored_verdict body, w)
      | None \<Rightarrow> evaluate_new J st qid code w)"

definition evaluate_task :: "evaluation_job \<Rightarrow> string \<Rightarrow> (world, json \<times> int) io" where
  "evaluate_task J qid =
     bnd (read_file (result_file qid)) (\<lambda>body.
     bnd (lift (state_in_result J body)) (\<lambda>st.
     bnd (lift (frozen_output qid st)) (\<lambda>aid.
     bnd (get_artifact (vj_host J) aid) (\<lambda>a.
     bnd (lift (code_in_artifact (plat (vj_host J)) a)) (\<lambda>code.
     bnd (verdict_for J st qid code) (\<lambda>n. ret (build_official_record qid code, n)))))))"

text \<open>The printed line has the number of tasks and \<open>passed / len(ids) if ids else 0\<close>.\<close>

definition pass_rate :: "int \<Rightarrow> nat \<Rightarrow> py_float" where
  "pass_rate passed n = (if n = 0 then 0 else py_truediv passed (int n))"

definition evaluate_run :: "evaluation_job \<Rightarrow> string list \<Rightarrow> (world, int \<times> py_float) io" where
  "evaluate_run J ids =
     bnd (collect (evaluate_task J) ids) (\<lambda>rs.
     thn (export_predictions (float_repr (plat (vj_host J))) (map fst rs) (RunFile ''predictions.json''))
         (ret (int (length ids), pass_rate (sum_list (map snd rs)) (length ids))))"

section \<open>Evaluating again\<close>

text \<open>
  What an evaluation may do to the world: it adds files, never an artifact, and never changes
  a file of a task that is there.
\<close>

definition evaluation_le :: "world \<Rightarrow> world \<Rightarrow> bool" where
  "evaluation_le w w' \<longleftrightarrow> same_artifacts w w'
     \<and> (\<forall>q n t. file_at w (TaskFile q n) = Some t \<longrightarrow> file_at w' (TaskFile q n) = Some t)"

interpretation evaluation: world_order evaluation_le
  by unfold_locales (auto simp: evaluation_le_def intro: quiet.le_refl quiet.le_trans)

lemma private_event_le [intro]: "evaluation.keeps (private_event J st qid ty s)"
  by (auto simp: evaluation.keeps_def private_event_def evaluation_le_def log_quiet)

lemma verdict_le [intro]: "evaluation.keeps (verdict_for J st qid code)"
proof -
  have new: "evaluation_le w (snd (evaluate_new J st qid code w))" if "file_at w (evaluation_file qid) = None" for w
    using that
    by (auto simp: evaluate_new_def thn_def bnd_def private_event_def write_file_def evaluation_le_def same_artifacts_def
        write_text_def file_at_def update_conv' distinct_update split: sum.splits)
  show ?thesis
    unfolding evaluation.keeps_def verdict_for_def
    by (auto split: option.splits intro: evaluation.le_refl) (metis new snd_conv)
qed

lemma read_file_le [intro]: "evaluation.keeps (read_file p)"
  by (auto simp: evaluation.keeps_def read_file_def evaluation.le_refl)

lemma get_artifact_le [intro]: "evaluation.keeps (get_artifact H i)"
  by (auto simp: evaluation.keeps_def get_artifact_def evaluation.le_refl)

lemma evaluate_task_le [intro]: "evaluation.keeps (evaluate_task J q)"
  unfolding evaluate_task_def
  by (intro evaluation.keeps_bnd read_file_le evaluation.keeps_lift get_artifact_le verdict_le evaluation.keeps_ret)

lemma evaluate_all_le: "evaluation.keeps (collect (evaluate_task J) ids)"
  by blast

lemma evaluation_store:
  assumes "evaluation_le w w'" "store_inv H w"
  shows "store_inv H w'" "stored_artifact H w' = stored_artifact H w"
  using same_artifacts_store [of w w' H] assms by (simp_all add: evaluation_le_def)

text \<open>The text of an evaluation says whether it passed.\<close>

definition verdicts_kept :: "evaluation_job \<Rightarrow> bool" where
  "verdicts_kept J \<longleftrightarrow> (\<forall>fe. \<exists>d. json_loads (vj_dump J fe) = Inr (JObj d)
     \<and> dget d ''passed'' = Some (JBool (fe_passed fe)))"

definition same_inputs :: "evaluation_job \<Rightarrow> evaluation_job \<Rightarrow> bool" where
  "same_inputs J J' \<longleftrightarrow> vj_host J' = vj_host J \<and> vj_state_of J' = vj_state_of J"

lemma verdict_stored:
  assumes "verdicts_kept J" "verdict_for J st q code w = (Inr n, w1)"
  shows "\<exists>body. file_at w1 (evaluation_file q) = Some body \<and> stored_verdict body = Inr n"
proof (cases "file_at w (evaluation_file q)")
  case None
  then obtain fe where fe: "file_at w1 (evaluation_file q) = Some (vj_dump J fe)" "n = (if fe_passed fe then 1 else 0)"
    using assms(2) by (auto simp: verdict_for_def evaluate_new_def io_simps private_event_def write_file_def)
  obtain d where "json_loads (vj_dump J fe) = Inr (JObj d)" "dget d ''passed'' = Some (JBool (fe_passed fe))"
    using assms(1) unfolding verdicts_kept_def by blast
  then show ?thesis using fe by (simp add: stored_verdict_def dindex_def)
qed (use assms(2) in \<open>auto simp: verdict_for_def\<close>)

lemma read_artifact_iff: "read_artifact H w i = Inr a \<longleftrightarrow> stored_artifact H w i = Some a"
  by (simp add: stored_artifact_def split: sum.splits)

lemma evaluate_task_again:
  assumes J: "verdicts_kept J" "same_inputs J J'" and inv: "store_inv (vj_host J) w"
    and run: "evaluate_task J q w = (Inr x, w1)" and later: "evaluation_le w1 w2"
  shows "evaluate_task J' q w2 = (Inr x, w2)"
proof -
  obtain body st aid a code n where r: "file_at w (result_file q) = Some body" "state_in_result J body = Inr st"
      "frozen_output q st = Inr aid" "read_artifact (vj_host J) w aid = Inr a"
      "code_in_artifact (plat (vj_host J)) a = Inr code" "verdict_for J st q code w = (Inr n, w1)"
      "x = (build_official_record q code, n)"
    using run by (auto simp: evaluate_task_def io_simps read_file_def get_artifact_def res_simps)
  have le: "evaluation_le w w2"
    by (rule evaluation.le_trans [OF evaluation.keepsD [OF verdict_le r(6)] later])
  have "file_at w2 (result_file q) = Some body" using le r(1) by (simp add: evaluation_le_def)
  moreover have "read_artifact (vj_host J) w2 aid = Inr a"
    using r(4) evaluation_store(2) [OF le inv] by (simp add: read_artifact_iff)
  moreover obtain e where "file_at w2 (evaluation_file q) = Some e" "stored_verdict e = Inr n"
    using verdict_stored [OF J(1) r(6)] later by (auto simp: evaluation_le_def)
  ultimately show ?thesis using J(2) r
    by (simp add: evaluate_task_def io_simps bnd_def read_file_def get_artifact_def verdict_for_def same_inputs_def state_in_result_def)
qed

lemma evaluate_all_again:
  assumes J: "verdicts_kept J" "same_inputs J J'"
  shows "store_inv (vj_host J) w \<Longrightarrow> collect (evaluate_task J) ids w = (Inr rs, w1) \<Longrightarrow> evaluation_le w1 w2
    \<Longrightarrow> collect (evaluate_task J') ids w2 = (Inr rs, w2)"
proof (induction ids arbitrary: w rs)
  case (Cons q ids)
  obtain x wa rs' where r: "evaluate_task J q w = (Inr x, wa)" "collect (evaluate_task J) ids wa = (Inr rs', w1)"
      "rs = x # rs'"
    using Cons.prems(2) by (auto simp: bnd_eq_Inr)
  have le: "evaluation_le w wa" "evaluation_le wa w1"
    by (rule evaluation.keepsD [OF evaluate_task_le r(1)]) (rule evaluation.keepsD [OF evaluate_all_le r(2)])
  have "evaluate_task J' q w2 = (Inr x, w2)"
    by (rule evaluate_task_again [OF J Cons.prems(1) r(1) evaluation.le_trans [OF le(2) Cons.prems(3)]])
  moreover have "collect (evaluate_task J') ids w2 = (Inr rs', w2)"
    by (rule Cons.IH [OF evaluation_store(1) [OF le(1) Cons.prems(1)] r(2) Cons.prems(3)])
  ultimately show ?case using r(3) by (simp add: bnd_def)
qed simp

lemma update_same: "map_of d k = Some v \<Longrightarrow> AList.update k v d = d"
  by (induction d) (auto split: if_splits)

lemma write_text_same: "file_at w p = Some t \<Longrightarrow> write_text p t w = w"
  by (simp add: write_text_def file_at_def update_same)

lemma write_text_twice: "write_text p t (write_text p t w) = write_text p t w"
  by (rule write_text_same) simp

lemma evaluate_run_again:
  assumes "verdicts_kept J" "same_inputs J J'" "store_inv (vj_host J) w" "evaluate_run J ids w = (Inr s, w')"
  shows "evaluate_run J' ids w' = (Inr s, w')"
proof -
  obtain rs w1 where c: "collect (evaluate_task J) ids w = (Inr rs, w1)"
    and w': "w' = write_text (RunFile ''predictions.json'')
        (dumps_indent json_string (float_repr (plat (vj_host J))) 0 (JList (map fst rs))) w1"
    and s: "s = (int (length ids), pass_rate (sum_list (map snd rs)) (length ids))"
    using assms(4) by (auto simp: evaluate_run_def io_simps export_predictions_def write_file_def)
  have "evaluation_le w1 w'"
    unfolding w' by (auto simp: evaluation_le_def intro: write_file_quiet)
  from evaluate_all_again [OF assms(1,2,3) c this] have "collect (evaluate_task J') ids w' = (Inr rs, w')" .
  then show ?thesis using assms(2) s
    by (simp add: evaluate_run_def bnd_def thn_def export_predictions_def write_file_def same_inputs_def
        write_text_twice w' del: dumps_indent.simps)
qed

section \<open>What is evaluated\<close>

text \<open>
  A task that had no evaluation: its result file holds a frozen state, the code sent to the
  hidden tests is that of the frozen artifact, the prediction carries the same code, and the
  count is the verdict of the worker.
\<close>

lemma evaluate_task_result:
  assumes "evaluate_task J q w = (Inr (pred, n), w')" "file_at w (evaluation_file q) = None"
  shows "\<exists>body st aid a code hidden r fe. file_at w (result_file q) = Some body \<and> state_in_result J body = Inr st
    \<and> frozen st \<and> final_output_artifact_id st = Some aid \<and> read_artifact (vj_host J) w aid = Inr a
    \<and> code_in_artifact (plat (vj_host J)) a = Inr code \<and> pred = build_official_record q code
    \<and> get_for_final_evaluation (el_private_repository (vj_evaluator J)) q = Inr hidden
    \<and> final_evaluate (vj_launch J) (vj_codec J) (vj_parent J) (el_worker (vj_evaluator J)) q hidden code
        (el_per_test_timeout (vj_evaluator J)) = Inr r
    \<and> n = (if fin_passed r then 1 else 0)
    \<and> fe_passed fe = fin_passed r \<and> file_at w' (evaluation_file q) = Some (vj_dump J fe)"
proof -
  obtain body st aid a code where r: "file_at w (result_file q) = Some body" "state_in_result J body = Inr st"
      "frozen_output q st = Inr aid" "read_artifact (vj_host J) w aid = Inr a"
      "code_in_artifact (plat (vj_host J)) a = Inr code" "verdict_for J st q code w = (Inr n, w')"
      "pred = build_official_record q code"
    using assms(1) by (auto simp: evaluate_task_def io_simps read_file_def get_artifact_def res_simps)
  have st: "frozen st" "final_output_artifact_id st = Some aid"
    using r(3) by (auto simp: frozen_output_def given_def split: if_splits)
  obtain fe where fe: "evaluate_frozen_run (vj_launch J) (vj_codec J) (vj_parent J) (vj_evaluator J) st code q = Inr fe"
      "n = (if fe_passed fe then 1 else 0)" "file_at w' (evaluation_file q) = Some (vj_dump J fe)"
    using r(6) assms(2) by (auto simp: verdict_for_def evaluate_new_def io_simps private_event_def write_file_def)
  obtain hidden x where "get_for_final_evaluation (el_private_repository (vj_evaluator J)) q = Inr hidden"
      "final_evaluate (vj_launch J) (vj_codec J) (vj_parent J) (el_worker (vj_evaluator J)) q hidden code
        (el_per_test_timeout (vj_evaluator J)) = Inr x" "fe_passed fe = fin_passed x"
    using evaluate_frozen_only(3) [OF fe(1)] by blast
  then show ?thesis using r st fe(2,3) by metis
qed

text \<open>The score that is printed is the score on disk.\<close>

definition verdict_at :: "world \<Rightarrow> string \<Rightarrow> int option" where
  "verdict_at w q = Option.bind (file_at w (evaluation_file q))
     (\<lambda>body. case stored_verdict body of Inl _ \<Rightarrow> None | Inr n \<Rightarrow> Some n)"

lemma evaluate_all_scores:
  assumes "verdicts_kept J"
  shows "collect (evaluate_task J) ids w = (Inr rs, w1) \<Longrightarrow> evaluation_le w1 w2
    \<Longrightarrow> map (verdict_at w2) ids = map (Some \<circ> snd) rs"
proof (induction ids arbitrary: w rs)
  case (Cons q ids)
  obtain x wa rs' where r: "evaluate_task J q w = (Inr x, wa)" "collect (evaluate_task J) ids wa = (Inr rs', w1)"
      "rs = x # rs'"
    using Cons.prems(1) by (auto simp: bnd_eq_Inr)
  obtain st code where "verdict_for J st q code w = (Inr (snd x), wa)"
    using r(1) by (auto simp: evaluate_task_def io_simps read_file_def get_artifact_def)
  then obtain body where "file_at wa (evaluation_file q) = Some body" "stored_verdict body = Inr (snd x)"
    using verdict_stored [OF assms] by blast
  moreover have "evaluation_le wa w2"
    by (rule evaluation.le_trans [OF evaluation.keepsD [OF evaluate_all_le r(2)] Cons.prems(2)])
  ultimately have "verdict_at w2 q = Some (snd x)" by (simp add: verdict_at_def evaluation_le_def)
  then show ?case using Cons.IH [OF r(2) Cons.prems(2)] r(3) by simp
qed simp

lemma evaluate_run_score:
  assumes "verdicts_kept J" "evaluate_run J ids w = (Inr (n, rate), w')"
  shows "\<exists>vs. map (verdict_at w') ids = map Some vs \<and> n = int (length ids) \<and> rate = pass_rate (sum_list vs) (length ids)"
proof -
  obtain rs w1 where c: "collect (evaluate_task J) ids w = (Inr rs, w1)"
    and w': "w' = write_text (RunFile ''predictions.json'')
        (dumps_indent json_string (float_repr (plat (vj_host J))) 0 (JList (map fst rs))) w1"
    and s: "n = int (length ids)" "rate = pass_rate (sum_list (map snd rs)) (length ids)"
    using assms(2) by (auto simp: evaluate_run_def io_simps export_predictions_def write_file_def)
  have "evaluation_le w1 w'" unfolding w' by (auto simp: evaluation_le_def intro: write_file_quiet)
  from evaluate_all_scores [OF assms(1) c this] s show ?thesis by (metis list.map_comp)
qed

section \<open>After a batch\<close>

text \<open>The job reads what the batch wrote.\<close>

definition reads_batch :: "evaluation_job \<Rightarrow> batch_setup \<Rightarrow> bool" where
  "reads_batch J B \<longleftrightarrow> vj_host J = host_of B
     \<and> (\<forall>res. finite_edges (final_state res) \<longrightarrow> state_in_result J (bt_dump_result B res) = Inr (final_state res))"

lemma evaluate_after_batch:
  assumes "setup_sound B" "distinct ids" "batch_ok (host_of B) (graph_of B) ids w"
    and "run_batch B tasks ids w = (Inr rs, w')" "(q, Some res) \<in> set rs" "reads_batch J B"
  obtains a where "final_output_artifact_id (final_state res) = Some (artifact_id a)"
    "stored_artifact (host_of B) w' (artifact_id a) = Some a" "env_task_id a = q"
    "evaluate_task J q w' =
       bnd (lift (code_in_artifact (plat (host_of B)) a)) (\<lambda>code.
       bnd (verdict_for J (final_state res) q code) (\<lambda>n. ret (build_official_record q code, n))) w'"
proof -
  note R = run_batch_outcome [OF assms(1-4)]
  have out: "file_at w' (result_file q) = Some (bt_dump_result B res)" "frozen (final_state res)"
    "run_inv (host_of B) (graph_of B) q (final_state res) w'"
    using R(3) [OF assms(5)] by (simp_all add: outcome_ok_def)
  obtain a where a: "final_output_artifact_id (final_state res) = Some (artifact_id a)"
      "stored_artifact (host_of B) w' (artifact_id a) = Some a" "env_task_id a = q"
    using frozen_final_artifact [OF out(3,2)] by metis
  have inv: "store_inv (host_of B) w'" "names_ok w'" using R(1) by (simp_all add: batch_ok_def)
  have "file_at w' (ArtifactFile q (artifact_id a)) \<noteq> None"
    using stored_artifact_Some [OF inv(1), of "artifact_id a" a] a(2,3) by auto
  then have "named_for q (artifact_id a)" using inv(2) unfolding names_ok_def by blast
  then have "artifact_id a \<noteq> []" by (auto simp: named_for_def)
  then have "frozen_output q (final_state res) = Inr (artifact_id a)"
    using a(1) out(2) by (simp add: frozen_output_def given_def)
  then have "evaluate_task J q w' =
       bnd (lift (code_in_artifact (plat (host_of B)) a)) (\<lambda>code.
       bnd (verdict_for J (final_state res) q code) (\<lambda>n. ret (build_official_record q code, n))) w'"
    using assms(6) out(1) a(2) run_inv_finite [OF out(3)]
    by (simp add: evaluate_task_def bnd_InrI read_file_def reads_batch_def get_artifact_def
        read_artifact_iff [symmetric])
  with a show thesis by (rule that)
qed

end
