(* ===== verification/Graph_Load.thy ===== *)
theory Graph_Load
  imports Graph_Dump Config_Env
begin

text \<open>
  Reading the input files of a run as models: a graph (\<open>ir/graph.py\<close>, \<open>ir/nodes.py\<close>,
  \<open>ir/edges.py\<close>) from its parsed YAML, and the dumps of a configuration and of a contract.
  The classes of nodes are told apart by \<open>node_kind\<close>, each forbids the keys it does not
  declare. Reading what was dumped gives the model back.
\<close>

section \<open>Edges\<close>

definition as_dict :: "(json \<Rightarrow> 'a option) \<Rightarrow> json \<Rightarrow> 'a dict option" where
  "as_dict f v = (case v of JObj d \<Rightarrow> those (map (\<lambda>(k, x). map_option (Pair k) (f x)) d) | _ \<Rightarrow> None)"

definition operator_names :: "(string \<times> operator) list" where
  "operator_names = map (\<lambda>op. (operator_name op, op)) [Equals, NotEquals, GreaterThan, LessThan, IsTrue, IsFalse]"

definition as_operator :: "json \<Rightarrow> operator option" where
  "as_operator v = (case v of JStr s \<Rightarrow> dget operator_names s | _ \<Rightarrow> None)"

definition validate_condition :: "pydantic \<Rightarrow> json \<Rightarrow> edge_condition option" where
  "validate_condition P v = do {
     d \<leftarrow> as_obj v;
     _ \<leftarrow> only_keys [''source_field'', ''operator'', ''value''] d;
     s \<leftarrow> req d ''source_field'' (as_str P);
     ope \<leftarrow> req d ''operator'' as_operator;
     x \<leftarrow> opt d ''value'' Some JNull;
     Some \<lparr>source_field = s, operator = ope, cond_value = x\<rparr> }"

definition edge_fields :: "string list" where
  "edge_fields = [''edge_id'', ''source_node'', ''source_output'', ''destination_node'', ''destination_input'',
     ''payload_policy'', ''condition'']"

definition validate_edge :: "pydantic \<Rightarrow> json \<Rightarrow> edge_spec option" where
  "validate_edge P v = do {
     d \<leftarrow> as_obj v;
     _ \<leftarrow> only_keys edge_fields d;
     i \<leftarrow> req d ''edge_id'' (as_str P);
     sn \<leftarrow> req d ''source_node'' (as_str P);
     so \<leftarrow> req d ''source_output'' (as_str P);
     dn \<leftarrow> req d ''destination_node'' (as_str P);
     di \<leftarrow> req d ''destination_input'' (as_str P);
     _ \<leftarrow> opt d ''payload_policy'' (as_literal ''full'') ''full'';
     c \<leftarrow> opt d ''condition'' (as_opt (validate_condition P)) None;
     Some \<lparr>edge_id = i, source_node = sn, source_output = so, destination_node = dn,
       destination_input = di, condition = c\<rparr> }"

section \<open>Nodes\<close>

definition base_fields :: "string list" where
  "base_fields = [''node_id'', ''node_kind'', ''input_slots'', ''output_slots'', ''timeout_seconds'']"

text \<open>The fields of each class, and how its own part is read.\<close>

definition class_fields :: "string \<Rightarrow> string list" where
  "class_fields tag =
     (if tag = ''agent'' then [''contract_id'']
      else if tag = ''harness'' then [''harness_id'', ''visibility'']
      else if tag = ''transform'' then [''transform_id'']
      else [''selector_id''])"

definition validate_kind :: "pydantic \<Rightarrow> string \<Rightarrow> json dict \<Rightarrow> node_kind option" where
  "validate_kind P tag d =
     (if tag = ''agent'' then map_option AgentNode (req d ''contract_id'' (as_str P))
      else if tag = ''harness'' then do {
        h \<leftarrow> req d ''harness_id'' (as_str P);
        _ \<leftarrow> opt d ''visibility'' (as_literal ''public'') ''public'';
        Some (HarnessNode h) }
      else if tag = ''transform'' then map_option TransformNode (req d ''transform_id'' (as_str P))
      else map_option SelectorNode (req d ''selector_id'' (as_str P)))"

definition validate_node :: "pydantic \<Rightarrow> json \<Rightarrow> node_spec option" where
  "validate_node P v = do {
     d \<leftarrow> as_obj v;
     tag \<leftarrow> req d ''node_kind'' (as_lit [''agent'', ''harness'', ''transform'', ''selector'']);
     _ \<leftarrow> only_keys (base_fields @ class_fields tag) d;
     i \<leftarrow> req d ''node_id'' (as_str P);
     ins \<leftarrow> opt d ''input_slots'' (as_dict (as_str P)) [];
     outs \<leftarrow> opt d ''output_slots'' (as_dict (as_str P)) [];
     t \<leftarrow> opt d ''timeout_seconds'' (as_opt (as_float P)) None;
     k \<leftarrow> validate_kind P tag d;
     Some \<lparr>node_id = i, node_kind = k, input_slots = ins, output_slots = outs, timeout_seconds = t\<rparr> }"

section \<open>Graphs\<close>

definition graph_fields :: "string list" where
  "graph_fields = [''graph_id'', ''version'', ''nodes'', ''edges'', ''initial_artifact_slots'', ''final_output_slot'', ''metadata'']"

definition validate_graph :: "pydantic \<Rightarrow> json \<Rightarrow> orchestra_graph option" where
  "validate_graph P v = do {
     d \<leftarrow> as_obj v;
     _ \<leftarrow> only_keys graph_fields d;
     i \<leftarrow> req d ''graph_id'' (as_str P);
     ver \<leftarrow> req d ''version'' (as_str P);
     ns \<leftarrow> req d ''nodes'' (as_list (validate_node P));
     es \<leftarrow> req d ''edges'' (as_list (validate_edge P));
     ini \<leftarrow> req d ''initial_artifact_slots'' (as_dict (as_str P));
     fin \<leftarrow> req d ''final_output_slot'' (as_str P);
     m \<leftarrow> opt d ''metadata'' as_obj [];
     Some \<lparr>graph_id = i, version = ver, nodes = ns, edges = es, initial_artifact_slots = ini,
       final_output_slot = fin, metadata = m\<rparr> }"

definition load_graph :: "pydantic \<Rightarrow> json \<Rightarrow> orchestra_graph res" where
  "load_graph P parsed = from_option (Exc ValidationErrorC ''OrchestraGraph'') (validate_graph P parsed)"

section \<open>Reading a dumped graph\<close>

lemma as_dict_dump:
  assumes "pydantic_ok P"
  shows "as_dict (as_str P) (dump_slots d) = Some d"
proof -
  have "those (map ((\<lambda>(k, x). map_option (Pair k) (as_str P x)) \<circ> (\<lambda>(k, v). (k, JStr v))) d) = Some d"
    by (induction d) (use assms in \<open>auto simp: pydantic_simps\<close>)
  then show ?thesis by (simp add: as_dict_def dump_slots_def)
qed

lemma as_operator_name: "as_operator (JStr (operator_name op)) = Some op"
  by (cases op) (simp_all add: as_operator_def operator_names_def)

lemma validate_condition_dump: "pydantic_ok P \<Longrightarrow> validate_condition P (dump_condition c) = Some c"
  by (simp add: validate_condition_def dump_condition_def field_simps_schema as_operator_name)

lemma dump_condition_not_null: "dump_condition c \<noteq> JNull"
  by (simp add: dump_condition_def)

lemma validate_edge_dump: "pydantic_ok P \<Longrightarrow> validate_edge P (dump_edge e) = Some e"
  using as_opt_dump [of "validate_condition P" dump_condition "condition e"]
  by (simp add: validate_edge_def dump_edge_def edge_fields_def as_literal_def field_simps_schema
      validate_condition_dump dump_condition_not_null)

lemma validate_node_dump:
  assumes "pydantic_ok P"
  shows "validate_node P (dump_node n) = Some n"
proof -
  have t: "as_opt (as_float P) (dump_opt JFloat (timeout_seconds n)) = Some (timeout_seconds n)"
    by (rule as_opt_dump) (use assms in \<open>simp_all add: pydantic_simps\<close>)
  show ?thesis
    by (cases "node_kind n")
      (simp_all add: validate_node_def dump_node_def base_fields_def class_fields_def validate_kind_def
        as_literal_def read_defs pydantic_simps assms as_dict_dump t)
qed

lemma validate_graph_dump:
  assumes "pydantic_ok P"
  shows "validate_graph P (dump_graph g) = Some g"
proof -
  have "as_list (validate_node P) (JList (map dump_node (nodes g))) = Some (nodes g)"
    "as_list (validate_edge P) (JList (map dump_edge (edges g))) = Some (edges g)"
    by (rule as_list_dump, use assms in \<open>simp add: validate_node_dump validate_edge_dump\<close>)+
  then show ?thesis
    by (simp add: validate_graph_def dump_graph_def graph_fields_def read_defs pydantic_simps assms as_dict_dump)
qed

lemma dump_graph_inj: "dump_graph g = dump_graph g' \<longleftrightarrow> g = g'"
  using validate_graph_dump [OF strict_pydantic_ok] by (metis option.inject)

text \<open>A key that a class does not declare is refused, in a node as in the graph.\<close>

lemma validate_graph_keys:
  assumes "validate_graph P (JObj d) = Some g"
  shows "set (dkeys d) \<subseteq> set graph_fields"
    and "\<And>vs n. dget d ''nodes'' = Some (JList vs) \<Longrightarrow> JObj n \<in> set vs \<Longrightarrow>
      \<exists>tag. dget n ''node_kind'' = Some (JStr tag) \<and> set (dkeys n) \<subseteq> set (base_fields @ class_fields tag)"
proof -
  show "set (dkeys d) \<subseteq> set graph_fields"
    using assms by (auto simp: validate_graph_def as_obj_def only_keys_def list_all_iff bind_eq_Some_conv
        simp del: set_map split: if_splits)
next
  fix vs n assume vs: "dget d ''nodes'' = Some (JList vs)" "JObj n \<in> set vs"
  then have "\<exists>ns. those (map (validate_node P) vs) = Some ns"
    using assms by (auto simp: validate_graph_def as_obj_def req_def as_list_def bind_eq_Some_conv)
  then have "validate_node P (JObj n) \<noteq> None"
    using vs(2) by (induction vs) (auto split: option.splits)
  then obtain tag where "req n ''node_kind'' (as_lit [''agent'', ''harness'', ''transform'', ''selector'']) = Some tag"
      "only_keys (base_fields @ class_fields tag) n = Some ()"
    by (auto simp: validate_node_def as_obj_def bind_eq_Some_conv)
  then show "\<exists>tag. dget n ''node_kind'' = Some (JStr tag) \<and> set (dkeys n) \<subseteq> set (base_fields @ class_fields tag)"
    by (auto simp: req_def as_lit_def only_keys_def list_all_iff simp del: set_map split: option.splits json.splits if_splits)
qed

section \<open>Contracts\<close>

text \<open>\<open>AgentContract.model_dump\<close>, whose JSON text enters the contract hash of a run.\<close>

definition dump_contract :: "agent_contract \<Rightarrow> json" where
  "dump_contract c = JObj [
     (''contract_id'', JStr (ct_id c)), (''role'', JStr (ct_role c)),
     (''system_prompt_template'', JStr (ct_system_prompt c)), (''user_prompt_template'', JStr (ct_user_prompt c)),
     (''model'', JStr (ct_model c)), (''temperature'', JFloat (ct_temperature c)),
     (''max_tokens'', JInt (ct_max_tokens c)), (''timeout_seconds'', JFloat (ct_timeout_seconds c)),
     (''allowed_tools'', JList (map JStr (ct_allowed_tools c))), (''input_schema'', JStr (ct_input_schema c)),
     (''output_schema'', JStr (ct_output_schema c)), (''parser_id'', JStr (ct_parser_id c)),
     (''memory_scope'', JStr (ct_memory_scope c))]"

lemma validate_contract_dump:
  assumes "pydantic_ok P" "ct_memory_scope c \<in> {''local'', ''task''}"
  shows "validate_contract P (dump_contract c) = Some c"
proof -
  have "as_list (as_str P) (JList (map JStr (ct_allowed_tools c))) = Some (ct_allowed_tools c)"
    by (rule as_list_dump) (use assms in \<open>simp add: pydantic_simps\<close>)
  then show ?thesis using assms
    by (auto simp: validate_contract_def dump_contract_def contract_fields_def read_defs pydantic_simps)
qed

end
