(* ===== verification/Json_Layouts.thy ===== *)
theory Json_Layouts
  imports Json_Roundtrip Py_Values
begin

text \<open>
  Every file the program writes with \<open>json.dumps\<close> is read back as the value it was written
  from: compact, with the default separators or indented, with plain or with ASCII strings.
  Each writer is shown to be a \<open>spelled\<close> text.
\<close>

section \<open>Strings in ASCII\<close>

lemma hex4_byte:
  assumes "n < 256"
  shows "hex4 (CHR ''0'' # CHR ''0'' # hex_digit (n div 16) # hex_digit (n mod 16) # t) = Some (n, t)"
proof -
  have "hex_value (hex_digit (n div 16)) = Some (n div 16)" "hex_value (hex_digit (n mod 16)) = Some (n mod 16)"
    using assms by (simp_all add: hex_value_digit)
  moreover have "hex_value (CHR ''0'') = Some 0" by (simp add: hex_value_def)
  ultimately show ?thesis by (simp add: hex4_def)
qed

lemma scan_ascii: "scan_string (esc_ascii c @ t) = cons_res c (scan_string t)"
proof (cases "(of_char c :: nat) < 127")
  case True
  then show ?thesis using scan_escaped by (simp add: esc_ascii_def)
next
  case False
  have "(of_char c :: nat) < 256" by simp
  from hex4_byte [OF this, of t] show ?thesis using False by (simp add: esc_ascii_def hex2_def Let_def)
qed

lemma scan_ascii_string: "scan_string (concat (map esc_ascii s) @ quote # rest) = Inr (s, rest)"
proof (induction s)
  case (Cons c s)
  then show ?case using scan_ascii [of c "concat (map esc_ascii s) @ quote # rest"] by (simp add: cons_res_def)
qed simp

lemma spells_ascii: "spells s (ascii_json_string s)"
  using scan_ascii_string [of s] by (simp add: spells_def ascii_json_string_def)

section \<open>Containers\<close>

lemma spelled_list_body:
  assumes "\<And>x. x \<in> set xs \<Longrightarrow> spelled fr x (g x)" "xs \<noteq> []" "list_all blank [w0, w1, w2, w3]"
  shows "spelled fr (JList xs) (''['' @ w0 @ join (w1 @ '','' @ w2) (map g xs) @ w3 @ '']'')"
proof -
  have "spelled_elements fr xs (join (w1 @ '','' @ w2) (map g xs) @ w3)"
    by (rule spelled_join) (use assms in simp_all)
  from spelled_list [OF _ this, of w0] show ?thesis using assms(3) by simp
qed

lemma spelled_obj_body:
  assumes "\<And>k v. (k, v) \<in> set d \<Longrightarrow> spelled fr v (g v)" "\<And>k. spells k (enc k)" "d \<noteq> []" "distinct (dkeys d)"
    and "list_all blank [w0, w1, w2, w3, w4, w5]"
  shows "spelled fr (JObj d) (''{'' @ w0 @
    join (w3 @ '','' @ w4) (map (\<lambda>(k, v). enc k @ (w1 @ '':'' @ w2) @ g v) d) @ w5 @ ''}'')"
proof -
  have "spelled_members fr d (join (w3 @ '','' @ w4) (map (\<lambda>(k, v). enc k @ (w1 @ '':'' @ w2) @ g v) d) @ w5)"
    by (rule spelled_join_pairs) (use assms in simp_all)
  from spelled_obj [OF _ this assms(4), of w0] show ?thesis using assms(5) by simp
qed

lemma dumps_with_scalar: "scalar v \<Longrightarrow> dumps_with enc comma colon fr v = dumps fr v"
  by (cases v) simp_all

lemma writable_parts:
  "writable fr (JList xs) \<Longrightarrow> x \<in> set xs \<Longrightarrow> writable fr x"
  "writable fr (JObj d) \<Longrightarrow> (k, v) \<in> set d \<Longrightarrow> writable fr v"
  "writable fr (JObj d) \<Longrightarrow> distinct (dkeys d)"
  by (auto simp: list_all_iff)

section \<open>On one line\<close>

lemma dumps_with_spelled:
  assumes "\<And>s. spells s (enc s)" "list_all blank [w1, w2, w3, w4]" "writable fr v"
  shows "spelled fr v (dumps_with enc (w3 @ '','' @ w4) (w1 @ '':'' @ w2) fr v)"
  using assms(3)
proof (induction v)
  case (JStr s)
  then show ?case using spelled_str [OF assms(1)] by simp
next
  case (JList xs)
  show ?case
  proof (cases "xs = []")
    case False
    have "spelled fr x (dumps_with enc (w3 @ '','' @ w4) (w1 @ '':'' @ w2) fr x)" if "x \<in> set xs" for x
      using JList.IH [OF that] writable_parts(1) [OF JList.prems that] .
    from spelled_list_body [OF this False, where ?w0.0 = "[]" and ?w1.0 = w3 and ?w2.0 = w4 and ?w3.0 = "[]"] show ?thesis using assms(2) by simp
  qed (use spelled_nil [of "[]"] in simp)
next
  case (JObj d)
  show ?case
  proof (cases "d = []")
    case False
    have "spelled fr v (dumps_with enc (w3 @ '','' @ w4) (w1 @ '':'' @ w2) fr v)" if "(k, v) \<in> set d" for k v
      using JObj.IH [OF that, of v] writable_parts(2) [OF JObj.prems that] by simp
    from spelled_obj_body [OF this assms(1) False writable_parts(3) [OF JObj.prems],
        where ?w0.0 = "[]" and ?w5.0 = "[]" and ?w1.0 = w1 and ?w2.0 = w2 and ?w3.0 = w3 and ?w4.0 = w4]
    show ?thesis using assms(2) by simp
  qed (use spelled_empty [of "[]"] in simp)
qed (simp_all only: spelled_scalar scalar.simps dumps_with_scalar)

lemma dumps_plain_spelled: "writable fr v \<Longrightarrow> spelled fr v (dumps_plain fr v)"
  using dumps_with_spelled [OF spells_ascii, of "[]" "'' ''" "[]" "'' ''"]
  by (simp add: dumps_plain_def json_space_def)

lemma json_loads_plain: "writable fr v \<Longrightarrow> json_loads (dumps_plain fr v) = Inr v"
  by (rule json_loads_spelled [OF dumps_plain_spelled])

lemma json_loads_sorted: "writable fr v \<Longrightarrow> json_loads (dumps_sorted fr v) = Inr (sort_keys v)"
  using json_loads_spelled [OF dumps_with_spelled [OF spells_ascii, of "[]" "[]" "[]" "[]"]] writable_sort_keys [of fr v]
  by (simp add: dumps_sorted_def)

section \<open>Indented\<close>

lemma blank_line: "blank (indent_line n)"
  by (simp add: indent_line_def newline_def json_space_def list_all_iff)

lemma dumps_indent_spelled:
  assumes "\<And>s. spells s (enc s)" "writable fr v"
  shows "spelled fr v (dumps_indent enc fr n v)"
  using assms(2)
proof (induction v arbitrary: n)
  case (JStr s)
  then show ?case using spelled_str [OF assms(1)] by simp
next
  case (JList xs)
  show ?case
  proof (cases "xs = []")
    case False
    have "spelled fr x (dumps_indent enc fr (Suc n) x)" if "x \<in> set xs" for x
      using JList.IH [OF that] writable_parts(1) [OF JList.prems that] .
    from spelled_list_body [OF this False,
        where ?w0.0 = "indent_line (Suc n)" and ?w1.0 = "[]" and ?w2.0 = "indent_line (Suc n)" and ?w3.0 = "indent_line n"]
    show ?thesis using False by (simp add: blank_line)
  qed (use spelled_nil [of "[]"] in simp)
next
  case (JObj d)
  show ?case
  proof (cases "d = []")
    case False
    have "spelled fr v (dumps_indent enc fr (Suc n) v)" if "(k, v) \<in> set d" for k v
      using JObj.IH [OF that, of v] writable_parts(2) [OF JObj.prems that] by simp
    from spelled_obj_body [OF this assms(1) False writable_parts(3) [OF JObj.prems],
        where ?w0.0 = "indent_line (Suc n)" and ?w1.0 = "[]" and ?w2.0 = "'' ''" and ?w3.0 = "[]"
          and ?w4.0 = "indent_line (Suc n)" and ?w5.0 = "indent_line n"]
    show ?thesis using False by (simp add: blank_line json_space_def)
  qed (use spelled_empty [of "[]"] in simp)
qed (simp_all only: spelled_scalar scalar.simps dumps_with_scalar dumps_indent.simps)

lemma json_loads_indent:
  assumes "writable fr v"
  shows "json_loads (dumps_indent ascii_json_string fr 0 v) = Inr v"
    and "json_loads (dumps_indent json_string fr 0 v) = Inr v"
  using json_loads_spelled [OF dumps_indent_spelled [OF spells_ascii assms]]
    json_loads_spelled [OF dumps_indent_spelled [OF spells_json_string assms]] by simp_all

end
