(* ===== verification/Worker_Protocol.thy ===== *)
theory Worker_Protocol
  imports Official_Sandbox Config_Env Json_Layouts
begin

text \<open>
  The files between the official sandbox and its worker process: the requests of
  \<open>sandbox/lcb_protocol.py\<close>, the visible task inside them (\<open>schemas/task.py\<close>), and the results
  of \<open>sandbox/result.py\<close>. Each class is dumped in the order of its fields and validated with
  its defaults and its forbidden keys. The codecs of client and worker made from them fit
  together, so that a call through the two files answers what the worker computes.

  \<open>D\<close> is how pydantic reads a \<open>datetime\<close> and writes it again, as in \<open>parse_datetime\<close>.
\<close>

section \<open>The visible task\<close>

definition visible_fields :: "string list" where
  "visible_fields = [''question_id'', ''question_title'', ''question_content'', ''platform'', ''contest_date'',
     ''starter_code'', ''difficulty'', ''public_test_cases'', ''function_name'', ''metadata_public'']"

definition dump_visible :: "visible_task \<Rightarrow> json" where
  "dump_visible t = JObj [(''question_id'', JStr (vt_question_id t)), (''question_title'', JStr (vt_question_title t)),
     (''question_content'', JStr (vt_question_content t)), (''platform'', JStr (vt_platform t)),
     (''contest_date'', JStr (vt_contest_date t)), (''starter_code'', JStr (vt_starter_code t)),
     (''difficulty'', JStr (vt_difficulty t)),
     (''public_test_cases'', JList (map dump_example (vt_public_test_cases t))),
     (''function_name'', dump_opt JStr (vt_function_name t)), (''metadata_public'', JObj (vt_metadata_public t))]"

definition validate_visible :: "pydantic \<Rightarrow> (json \<Rightarrow> string option) \<Rightarrow> json \<Rightarrow> visible_task option" where
  "validate_visible P D v = do {
     d \<leftarrow> as_obj v;
     _ \<leftarrow> only_keys visible_fields d;
     q \<leftarrow> req d ''question_id'' (as_str P);
     ti \<leftarrow> req d ''question_title'' (as_str P);
     co \<leftarrow> req d ''question_content'' (as_str P);
     pl \<leftarrow> req d ''platform'' (as_str P);
     da \<leftarrow> req d ''contest_date'' D;
     st \<leftarrow> req d ''starter_code'' (as_str P);
     di \<leftarrow> req d ''difficulty'' (as_str P);
     ex \<leftarrow> req d ''public_test_cases'' (as_list (validate_example P));
     fn \<leftarrow> opt d ''function_name'' (as_opt (as_str P)) None;
     me \<leftarrow> opt d ''metadata_public'' as_obj [];
     Some \<lparr>vt_question_id = q, vt_question_title = ti, vt_question_content = co, vt_platform = pl,
       vt_contest_date = da, vt_starter_code = st, vt_difficulty = di, vt_public_test_cases = ex,
       vt_function_name = fn, vt_metadata_public = me\<rparr> }"

definition wf_visible :: "(json \<Rightarrow> string option) \<Rightarrow> visible_task \<Rightarrow> bool" where
  "wf_visible D t \<longleftrightarrow> D (JStr (vt_contest_date t)) = Some (vt_contest_date t)
     \<and> list_all wf_example (vt_public_test_cases t)"

lemma validate_visible_dump:
  assumes "pydantic_ok P" "wf_visible D t"
  shows "validate_visible P D (dump_visible t) = Some t"
  using assms
  by (simp add: validate_visible_def dump_visible_def visible_fields_def field_simps_schema wf_visible_def
      list_all_iff validate_example_dump)

section \<open>Requests\<close>

definition dump_worker_test :: "worker_test \<Rightarrow> json" where
  "dump_worker_test t = JObj [(''input'', JStr (wt_input t)), (''output'', JStr (wt_output t)),
     (''testtype'', JStr (wt_testtype t))]"

definition validate_worker_test :: "pydantic \<Rightarrow> json \<Rightarrow> worker_test option" where
  "validate_worker_test P v = do {
     d \<leftarrow> as_obj v;
     _ \<leftarrow> only_keys [''input'', ''output'', ''testtype''] d;
     i \<leftarrow> req d ''input'' (as_str P);
     out \<leftarrow> req d ''output'' (as_str P);
     t \<leftarrow> opt d ''testtype'' (as_str P) ''stdin'';
     Some \<lparr>wt_input = i, wt_output = out, wt_testtype = t\<rparr> }"

definition dump_sandbox_limits :: "sandbox_limits \<Rightarrow> json" where
  "dump_sandbox_limits l = JObj [(''memory_mb'', JInt (lim_memory_mb l)),
     (''max_processes'', JInt (lim_max_processes l)), (''max_open_files'', JInt (lim_max_open_files l)),
     (''max_file_size_mb'', JInt (lim_max_file_size_mb l))]"

text \<open>The fields of \<open>BaseWorkerRequest\<close> come first; \<open>mode\<close> is the class's tag.\<close>

definition request_fields :: "string list" where
  "request_fields = [''mode'', ''code'', ''per_test_timeout_seconds'', ''repository_path'',
     ''num_process_evaluate'', ''limits'']"

definition dump_request :: "string \<Rightarrow> 'a base_request_scheme \<Rightarrow> json dict" where
  "dump_request mode rq = [(''mode'', JStr mode), (''code'', JStr (req_code rq)),
     (''per_test_timeout_seconds'', JFloat (req_timeout rq)), (''repository_path'', JStr (req_repository rq)),
     (''num_process_evaluate'', JInt (req_processes rq)), (''limits'', dump_sandbox_limits (req_limits rq))]"

definition validate_request :: "pydantic \<Rightarrow> string \<Rightarrow> json dict \<Rightarrow> base_request option" where
  "validate_request P mode d = do {
     _ \<leftarrow> opt d ''mode'' (as_literal mode) mode;
     c \<leftarrow> req d ''code'' (as_str P);
     t \<leftarrow> req d ''per_test_timeout_seconds'' (as_float P);
     r \<leftarrow> req d ''repository_path'' (as_str P);
     n \<leftarrow> opt d ''num_process_evaluate'' as_one 1;
     l \<leftarrow> req d ''limits'' (validate_sandbox_limits P);
     Some \<lparr>req_code = c, req_timeout = t, req_repository = r, req_processes = n, req_limits = l\<rparr> }"

definition dump_public_request :: "public_request \<Rightarrow> json" where
  "dump_public_request rq = JObj (dump_request ''public'' rq @ [(''task'', dump_visible (req_task rq))])"

definition validate_public_request ::
  "pydantic \<Rightarrow> (json \<Rightarrow> string option) \<Rightarrow> json \<Rightarrow> public_request option" where
  "validate_public_request P D v = do {
     d \<leftarrow> as_obj v;
     _ \<leftarrow> only_keys (request_fields @ [''task'']) d;
     b \<leftarrow> validate_request P ''public'' d;
     t \<leftarrow> req d ''task'' (validate_visible P D);
     Some (base_request.extend b \<lparr>req_task = t\<rparr>) }"

definition dump_final_request :: "final_request \<Rightarrow> json" where
  "dump_final_request rq = JObj (dump_request ''private_final'' rq @ [(''question_id'', JStr (req_question_id rq)),
     (''test_cases'', JList (map dump_worker_test (req_tests rq))),
     (''function_name'', dump_opt JStr (req_function_name rq))])"

definition validate_final_request :: "pydantic \<Rightarrow> json \<Rightarrow> final_request option" where
  "validate_final_request P v = do {
     d \<leftarrow> as_obj v;
     _ \<leftarrow> only_keys (request_fields @ [''question_id'', ''test_cases'', ''function_name'']) d;
     b \<leftarrow> validate_request P ''private_final'' d;
     q \<leftarrow> req d ''question_id'' (as_str P);
     ts \<leftarrow> req d ''test_cases'' (as_list (validate_worker_test P));
     fn \<leftarrow> opt d ''function_name'' (as_opt (as_str P)) None;
     Some (base_request.extend b \<lparr>req_question_id = q, req_tests = ts, req_function_name = fn\<rparr>) }"

lemma validate_worker_test_dump: "pydantic_ok P \<Longrightarrow> validate_worker_test P (dump_worker_test t) = Some t"
  by (simp add: validate_worker_test_def dump_worker_test_def field_simps_schema)

lemma validate_sandbox_limits_dump: "pydantic_ok P \<Longrightarrow> validate_sandbox_limits P (dump_sandbox_limits l) = Some l"
  by (simp add: validate_sandbox_limits_def dump_sandbox_limits_def field_simps_schema)

lemma validate_request_dump:
  assumes "pydantic_ok P" "req_processes rq = 1"
  shows "validate_request P mode (dump_request mode rq @ rest) = Some (base_request.truncate rq)"
  using assms
  by (simp add: validate_request_def dump_request_def read_defs pydantic_simps as_literal_def as_one_def
      validate_sandbox_limits_dump base_request.defs)

lemma validate_public_request_dump:
  assumes "pydantic_ok P" "req_processes rq = 1" "wf_visible D (req_task rq)"
  shows "validate_public_request P D (dump_public_request rq) = Some rq"
  using assms validate_visible_dump [OF assms(1,3)]
  by (simp add: validate_public_request_def dump_public_request_def as_obj_def validate_request_dump)
    (simp add: dump_request_def request_fields_def only_keys_def req_def base_request.defs)

lemma validate_final_request_dump:
  assumes "pydantic_ok P" "req_processes rq = 1"
  shows "validate_final_request P (dump_final_request rq) = Some rq"
  using assms
  by (simp add: validate_final_request_def dump_final_request_def as_obj_def validate_request_dump)
    (simp add: dump_request_def request_fields_def only_keys_def req_def opt_def base_request.defs
      field_simps_schema validate_worker_test_dump)

section \<open>Results\<close>

definition dump_test_result :: "test_result \<Rightarrow> json" where
  "dump_test_result r = JObj [(''index'', JInt (tr_index r)), (''passed'', JBool (tr_passed r)),
     (''timed_out'', JBool (tr_timed_out r)), (''runtime_error'', dump_opt JStr (tr_runtime_error r)),
     (''actual_output'', dump_opt JStr (tr_actual_output r))]"

definition validate_test_result :: "pydantic \<Rightarrow> json \<Rightarrow> test_result option" where
  "validate_test_result P v = do {
     d \<leftarrow> as_obj v;
     i \<leftarrow> req d ''index'' (as_int P);
     p \<leftarrow> req d ''passed'' (as_bool P);
     t \<leftarrow> opt d ''timed_out'' (as_bool P) False;
     e \<leftarrow> opt d ''runtime_error'' (as_opt (as_str P)) None;
     a \<leftarrow> opt d ''actual_output'' (as_opt (as_str P)) None;
     Some \<lparr>tr_index = i, tr_passed = p, tr_timed_out = t, tr_runtime_error = e, tr_actual_output = a\<rparr> }"

definition dump_sandbox_result :: "sandbox_result \<Rightarrow> json" where
  "dump_sandbox_result r = JObj [(''compiled'', JBool (sb_compiled r)), (''passed_count'', JInt (sb_passed_count r)),
     (''total_count'', JInt (sb_total_count r)), (''runtime_errors'', JInt (sb_runtime_errors r)),
     (''timeouts'', JInt (sb_timeouts r)), (''stderr_summary'', dump_opt JStr (sb_stderr_summary r)),
     (''per_test_visible_results'', JList (map dump_test_result (sb_results r))),
     (''duration_ms'', JInt (sb_duration_ms r)), (''worker_metadata'', JObj (sb_worker_metadata r))]"

definition validate_sandbox_result :: "pydantic \<Rightarrow> json \<Rightarrow> sandbox_result option" where
  "validate_sandbox_result P v = do {
     d \<leftarrow> as_obj v;
     c \<leftarrow> req d ''compiled'' (as_bool P);
     p \<leftarrow> req d ''passed_count'' (as_int P);
     n \<leftarrow> req d ''total_count'' (as_int P);
     e \<leftarrow> req d ''runtime_errors'' (as_int P);
     t \<leftarrow> req d ''timeouts'' (as_int P);
     s \<leftarrow> opt d ''stderr_summary'' (as_opt (as_str P)) None;
     rs \<leftarrow> opt d ''per_test_visible_results'' (as_list (validate_test_result P)) [];
     ms \<leftarrow> req d ''duration_ms'' (as_int P);
     m \<leftarrow> opt d ''worker_metadata'' as_obj [];
     Some \<lparr>sb_compiled = c, sb_passed_count = p, sb_total_count = n, sb_runtime_errors = e, sb_timeouts = t,
       sb_stderr_summary = s, sb_results = rs, sb_duration_ms = ms, sb_worker_metadata = m\<rparr> }"

definition dump_final_result :: "final_result \<Rightarrow> json" where
  "dump_final_result r = JObj [(''passed'', JBool (fin_passed r)), (''pass_at_1'', JFloat (fin_pass_at_1 r)),
     (''worker_metadata'', JObj (fin_metadata r))]"

definition validate_final_result :: "pydantic \<Rightarrow> json \<Rightarrow> final_result option" where
  "validate_final_result P v = do {
     d \<leftarrow> as_obj v;
     p \<leftarrow> req d ''passed'' (as_bool P);
     x \<leftarrow> req d ''pass_at_1'' (as_float P);
     m \<leftarrow> req d ''worker_metadata'' as_obj;
     Some \<lparr>fin_passed = p, fin_pass_at_1 = x, fin_metadata = m\<rparr> }"

lemma validate_test_result_dump: "pydantic_ok P \<Longrightarrow> validate_test_result P (dump_test_result r) = Some r"
  by (simp add: validate_test_result_def dump_test_result_def field_simps_schema)

lemma validate_sandbox_result_dump: "pydantic_ok P \<Longrightarrow> validate_sandbox_result P (dump_sandbox_result r) = Some r"
  by (simp add: validate_sandbox_result_def dump_sandbox_result_def field_simps_schema validate_test_result_dump)

lemma validate_final_result_dump: "pydantic_ok P \<Longrightarrow> validate_final_result P (dump_final_result r) = Some r"
  by (simp add: validate_final_result_def dump_final_result_def field_simps_schema)

section \<open>The codecs of the two sides\<close>

definition read_model :: "(json \<Rightarrow> 'a option) \<Rightarrow> string \<Rightarrow> 'a option" where
  "read_model f text = (case json_loads text of Inl _ \<Rightarrow> None | Inr v \<Rightarrow> f v)"

lemma read_model_indented:
  "writable fr v \<Longrightarrow> read_model f (dumps_indent json_string fr 0 v) = f v"
  by (simp add: read_model_def json_loads_indent)

lemma read_model_compact: "writable fr v \<Longrightarrow> read_model f (dumps fr v) = f v"
  by (simp add: read_model_def json_loads_dumps del: dumps.simps)

definition json_worker_codec :: "pydantic \<Rightarrow> (json \<Rightarrow> string option) \<Rightarrow> (py_float \<Rightarrow> string) \<Rightarrow> worker_codec" where
  "json_worker_codec P D fr = \<lparr>decode_public = validate_public_request P D,
     decode_final = validate_final_request P,
     encode_report = (\<lambda>r. dumps_indent json_string fr 0 (dump_sandbox_result r)),
     encode_final = (\<lambda>r. dumps_indent json_string fr 0 (dump_final_result r))\<rparr>"

definition json_client_codec :: "pydantic \<Rightarrow> (py_float \<Rightarrow> string) \<Rightarrow> client_codec" where
  "json_client_codec P fr = \<lparr>encode_public = (\<lambda>rq. dumps fr (dump_public_request rq)),
     encode_private = (\<lambda>rq. dumps fr (dump_final_request rq)),
     decode_report = read_model (validate_sandbox_result P),
     decode_final_result = read_model (validate_final_result P)\<rparr>"

lemma json_public_fits:
  assumes "pydantic_ok P" "req_processes rq = 1" "wf_visible D (req_task rq)" "writable fr (dump_public_request rq)"
  shows "public_fits (json_worker_codec P D fr) (json_client_codec P fr) rq"
proof -
  have "json_loads (dumps fr (dump_public_request rq)) = Inr (dump_public_request rq)"
    by (rule json_loads_dumps [OF assms(4)])
  moreover obtain d where d: "dump_public_request rq = JObj d" "dget d ''mode'' = Some (JStr ''public'')"
    by (simp add: dump_public_request_def dump_request_def)
  moreover have "validate_public_request P D (JObj d) = Some rq"
    using validate_public_request_dump [OF assms(1-3)] d(1) by simp
  ultimately show ?thesis unfolding public_fits_def json_worker_codec_def json_client_codec_def by simp
qed

lemma json_private_fits:
  assumes "pydantic_ok P" "req_processes rq = 1" "writable fr (dump_final_request rq)"
  shows "private_fits (json_worker_codec P D fr) (json_client_codec P fr) rq"
proof -
  have "json_loads (dumps fr (dump_final_request rq)) = Inr (dump_final_request rq)"
    by (rule json_loads_dumps [OF assms(3)])
  moreover obtain d where d: "dump_final_request rq = JObj d" "dget d ''mode'' = Some (JStr ''private_final'')"
    by (simp add: dump_final_request_def dump_request_def)
  moreover have "validate_final_request P (JObj d) = Some rq"
    using validate_final_request_dump [OF assms(1,2)] d(1) by simp
  ultimately show ?thesis unfolding private_fits_def json_worker_codec_def json_client_codec_def by simp
qed

lemma json_results_fit:
  assumes "pydantic_ok P"
  shows "writable fr (dump_sandbox_result r) \<Longrightarrow>
      decode_report (json_client_codec P fr) (encode_report (json_worker_codec P D fr) r) = Some r"
    and "writable fr (dump_final_result q) \<Longrightarrow>
      decode_final_result (json_client_codec P fr) (encode_final (json_worker_codec P D fr) q) = Some q"
  using assms
  by (simp_all add: json_client_codec_def json_worker_codec_def read_model_indented validate_sandbox_result_dump
      validate_final_result_dump)

section \<open>A call through the two files\<close>

text \<open>
  The backend of the public tests and the final worker, with the worker's \<open>main\<close> at the other
  end of the files: the answer is that of the worker, run in the child process, unless the
  limit expires or the worker raises.
\<close>

lemma json_official_answer:
  assumes "pydantic_ok P" "os_processes S = 1" "wf_visible D t"
    and "writable fr (dump_public_request (build_request S t code limit))"
    and "\<And>r. fst (worker_public W (build_request S t code limit) (child_process (os_runner S) parent)) = Inr r \<Longrightarrow>
      writable fr (dump_sandbox_result r)"
  shows "official_evaluate_public (worker_launch traceback W (json_worker_codec P D fr) slow) (json_client_codec P fr)
      parent S t code limit =
    (let rq = build_request S t code limit;
         n = int (length (vt_public_test_cases t));
         wall = wall_timeout (os_runner S) limit n
     in if slow (dumps fr (dump_public_request rq)) wall then Inr (report_timeout n wall)
        else case fst (worker_public W rq (child_process (os_runner S) parent)) of
               Inl e \<Rightarrow> Inl (failed_closed traceback e)
             | Inr r \<Rightarrow> Inr r)"
proof -
  have "encode_public (json_client_codec P fr) = (\<lambda>rq. dumps fr (dump_public_request rq))"
    by (simp add: json_client_codec_def)
  moreover have "public_fits (json_worker_codec P D fr) (json_client_codec P fr) (build_request S t code limit)"
    by (rule json_public_fits) (use assms in \<open>simp_all add: build_request_def\<close>)
  ultimately show ?thesis
    using official_answer [OF _ json_results_fit(1) [OF assms(1) assms(5)]] by (simp add: Let_def)
qed

lemma json_final_answer:
  assumes "pydantic_ok P" "os_processes S = 1"
    and "writable fr (dump_final_request (final_request_for S qid hidden code limit))"
    and "\<And>r. fst (worker_private W (final_request_for S qid hidden code limit) (child_process (os_runner S) parent)) = Inr r \<Longrightarrow>
      writable fr (dump_final_result r)"
  shows "final_evaluate (worker_launch traceback W (json_worker_codec P D fr) slow) (json_client_codec P fr)
      parent S qid hidden code limit =
    (let rq = final_request_for S qid hidden code limit;
         wall = wall_timeout (os_runner S) limit (int (length (req_tests rq)))
     in if slow (dumps fr (dump_final_request rq)) wall then Inr (final_timeout wall)
        else case fst (worker_private W rq (child_process (os_runner S) parent)) of
               Inl e \<Rightarrow> Inl (failed_closed traceback e)
             | Inr r \<Rightarrow> Inr r)"
proof -
  have "encode_private (json_client_codec P fr) = (\<lambda>rq. dumps fr (dump_final_request rq))"
    by (simp add: json_client_codec_def)
  moreover have "private_fits (json_worker_codec P D fr) (json_client_codec P fr) (final_request_for S qid hidden code limit)"
    by (rule json_private_fits) (use assms in \<open>simp_all add: final_request_for_def\<close>)
  ultimately show ?thesis
    using final_answer [OF _ json_results_fit(2) [OF assms(1) assms(4)]] by (simp add: Let_def)
qed

section \<open>What a request cannot carry\<close>

text \<open>
  A public request that the worker accepts has no key but the declared ones, in itself and in
  its task, so that no private test can travel in it; a request of the other mode is refused.
\<close>

lemma only_keysD: "only_keys ks d = Some u \<Longrightarrow> set (dkeys d) \<subseteq> set ks"
  by (auto simp: only_keys_def list_all_iff split: if_splits)

lemma validate_public_request_closed:
  assumes "validate_public_request P D (JObj d) = Some rq"
  shows "set (dkeys d) \<subseteq> set (request_fields @ [''task''])"
    and "dget d ''mode'' \<in> {None, Some (JStr ''public'')}"
    and "\<exists>t. dget d ''task'' = Some (JObj t) \<and> set (dkeys t) \<subseteq> set visible_fields"
proof -
  have k: "only_keys (request_fields @ [''task'']) d = Some ()"
    "\<exists>b. validate_request P ''public'' d = Some b" "\<exists>t. req d ''task'' (validate_visible P D) = Some t"
    using assms by (auto simp: validate_public_request_def as_obj_def bind_eq_Some_conv)
  show "set (dkeys d) \<subseteq> set (request_fields @ [''task''])" by (rule only_keysD [OF k(1)])
  show "dget d ''mode'' \<in> {None, Some (JStr ''public'')}"
    using k(2) by (auto simp: validate_request_def opt_def as_literal_def bind_eq_Some_conv split: option.splits if_splits)
  obtain v t where v: "dget d ''task'' = Some v" "validate_visible P D v = Some t"
    using k(3) by (auto simp: req_def split: option.splits)
  obtain e where e: "v = JObj e" "only_keys visible_fields e = Some ()"
    using v(2) by (auto simp: validate_visible_def as_obj_def bind_eq_Some_conv split: json.splits)
  then show "\<exists>t. dget d ''task'' = Some (JObj t) \<and> set (dkeys t) \<subseteq> set visible_fields"
    using v(1) only_keysD [OF e(2)] by auto
qed

text \<open>So the worker, given a public request with any other key, ends before it runs the code.\<close>

lemma worker_refuses_extra:
  assumes "json_loads text = Inr (JObj d)" "dget d ''mode'' = Some (JStr ''public'')" "length argv = 3"
    and "\<not> set (dkeys d) \<subseteq> set (request_fields @ [''task''])
      \<or> (\<exists>t. dget d ''task'' = Some (JObj t) \<and> \<not> set (dkeys t) \<subseteq> set visible_fields)"
  shows "worker_main W (json_worker_codec P D fr) argv text p = (Inl (Exc ValidationErrorC ''PublicWorkerRequest''), p)"
proof -
  have "validate_public_request P D (JObj d) = None"
  proof (cases "validate_public_request P D (JObj d)")
    case (Some rq)
    from validate_public_request_closed(1,3) [OF this] assms(4) show ?thesis by (auto simp del: set_map)
  qed
  then show ?thesis
    using assms(1-3) by (simp add: worker_main_def bnd_def dindex_def json_worker_codec_def)
qed

end
