(* ===== verification/Run_Manifest.thy ===== *)
theory Run_Manifest
  imports Final_Evaluation Graph_Load Worker_Protocol
begin

text \<open>
  \<open>run_manifest.json\<close>, the file through which the two commands talk: what \<open>cli/run.py\<close>
  writes and what \<open>cli/evaluate.py\<close> reads before its loop. The lemmas show that the
  evaluation gets the configuration, the tasks, the commit and the graph of the run, and that
  a run of only some of the tasks of a manifest cannot be evaluated.
\<close>

section \<open>Dump of a configuration\<close>

definition dump_experiment_section :: "experiment_section \<Rightarrow> json" where
  "dump_experiment_section x = JObj [(''name'', JStr (xs_name x)), (''seed'', JInt (xs_seed x)),
     (''graph_config'', JStr (xs_graph_config x)), (''contracts_dir'', JStr (xs_contracts_dir x)),
     (''output_root'', JStr (xs_output_root x))]"

definition dump_benchmark_section :: "benchmark_section \<Rightarrow> json" where
  "dump_benchmark_section b = JObj [(''name'', JStr ''livecodebench''), (''release_version'', JStr ''release_v6''),
     (''scenario'', JStr ''codegeneration''), (''language'', JStr ''python''),
     (''manifest'', JStr (bs_manifest b)), (''data_dir'', JStr (bs_data_dir b)),
     (''repository_path'', JStr (bs_repository_path b))]"

definition dump_runtime_limits :: "runtime_limits \<Rightarrow> json" where
  "dump_runtime_limits l = JObj [
     (''max_parallel_benchmark_tasks'', JInt (max_parallel_benchmark_tasks l)),
     (''max_parallel_nodes_per_task'', JInt (max_parallel_nodes_per_task l)),
     (''max_parallel_llm_calls'', JInt (max_parallel_llm_calls l)),
     (''max_parallel_sandboxes'', JInt (max_parallel_sandboxes l))]"

definition dump_sandbox_section :: "sandbox_section \<Rightarrow> json" where
  "dump_sandbox_section s = JObj [(''backend'', JStr (ss_backend s)),
     (''per_test_timeout_seconds'', JFloat (ss_per_test_timeout s)),
     (''worker_grace_seconds'', JFloat (ss_worker_grace s)),
     (''max_worker_wall_seconds'', JFloat (ss_max_worker_wall s)),
     (''num_process_evaluate'', JInt 1), (''limits'', dump_sandbox_limits (ss_limits s)),
     (''image'', JStr (ss_image s))]"

definition dump_config :: "experiment_config \<Rightarrow> json" where
  "dump_config c = JObj [(''experiment'', dump_experiment_section (xc_experiment c)),
     (''benchmark'', dump_benchmark_section (xc_benchmark c)),
     (''runtime'', dump_runtime_limits (xc_runtime c)),
     (''sandbox'', dump_sandbox_section (xc_sandbox c)),
     (''evaluation'', JObj (xc_evaluation c)), (''logging'', JObj (xc_logging c))]"

definition wf_config :: "experiment_config \<Rightarrow> bool" where
  "wf_config c \<longleftrightarrow> ss_backend (xc_sandbox c) \<in> {''lcb_official'', ''docker'', ''mock''}"

lemma validate_sections_dump:
  assumes "pydantic_ok P"
  shows "validate_experiment_section P (dump_experiment_section x) = Some x"
    and "validate_benchmark_section P (dump_benchmark_section b) = Some b"
    and "validate_runtime_limits P (dump_runtime_limits l) = Some l"
  using assms
  by (simp_all add: validate_experiment_section_def dump_experiment_section_def validate_benchmark_section_def
      dump_benchmark_section_def validate_runtime_limits_def dump_runtime_limits_def as_literal_def field_simps_schema)

lemma validate_sandbox_dump:
  assumes "pydantic_ok P" "ss_backend s \<in> {''lcb_official'', ''docker'', ''mock''}"
  shows "validate_sandbox_section P (dump_sandbox_section s) = Some s"
  using assms
  by (auto simp: validate_sandbox_section_def dump_sandbox_section_def as_one_def validate_sections_dump
      validate_sandbox_limits_dump field_simps_schema)

lemma validate_config_dump:
  assumes "pydantic_ok P" "wf_config c"
  shows "validate_experiment_config P (dump_config c) = Some c"
  using assms
  by (simp add: validate_experiment_config_def dump_config_def read_defs validate_sections_dump
      validate_sandbox_dump wf_config_def)

lemma validate_sandbox_wf:
  "validate_sandbox_section P v = Some s \<Longrightarrow> ss_backend s \<in> {''lcb_official'', ''docker'', ''mock''}"
proof -
  assume v: "validate_sandbox_section P v = Some s"
  obtain d where "req d ''backend'' (as_lit [''lcb_official'', ''docker'', ''mock'']) = Some (ss_backend s)"
    using v unfolding validate_sandbox_section_def bind_eq_Some_conv by fastforce
  then show ?thesis by (auto simp: req_def as_lit_def split: option.splits json.splits if_splits)
qed

lemma validate_config_wf: "validate_experiment_config P v = Some c \<Longrightarrow> wf_config c"
proof -
  assume v: "validate_experiment_config P v = Some c"
  obtain d where "req d ''sandbox'' (validate_sandbox_section P) = Some (xc_sandbox c)"
    using v unfolding validate_experiment_config_def bind_eq_Some_conv by fastforce
  then show ?thesis using validate_sandbox_wf by (auto simp: req_def wf_config_def split: option.splits)
qed

section \<open>Writing\<close>

definition run_manifest ::
  "platform \<Rightarrow> string \<Rightarrow> experiment_config \<Rightarrow> lcb_manifest \<Rightarrow> orchestra_graph \<Rightarrow> string \<Rightarrow> json" where
  "run_manifest P rid cfg m g digest = JObj [
     (''run_id'', JStr rid), (''experiment'', dump_config cfg), (''manifest'', dump_manifest m),
     (''graph'', dump_graph g), (''graph_hash'', JStr (graph_digest P g)), (''contract_hash'', JStr digest)]"

definition run_manifest_text ::
  "platform \<Rightarrow> string \<Rightarrow> experiment_config \<Rightarrow> lcb_manifest \<Rightarrow> orchestra_graph \<Rightarrow> string \<Rightarrow> string" where
  "run_manifest_text P rid cfg m g digest =
     dumps_indent ascii_json_string (float_repr P) 0 (run_manifest P rid cfg m g digest)"

abbreviation "manifest_file \<equiv> RunFile ''run_manifest.json''"

section \<open>Reading\<close>

record run_record =
  rr_config :: experiment_config
  rr_ids :: "string list"
  rr_commit :: string
  rr_graph_id :: string

text \<open>
  An identifier that is not a string would fail as a part of a path; here it fails when it is
  read. The graph identifier is looked up before the loop, not at the first event.
\<close>

definition text_item :: "json \<Rightarrow> string \<Rightarrow> string res" where
  "text_item v k = rbind (py_item v k) (\<lambda>x. case x of
       JStr s \<Rightarrow> Inr s
     | _ \<Rightarrow> Inl (type_error (''unsupported operand type(s) for /: '' @ py_type_name x)))"

definition read_run_manifest :: "pydantic \<Rightarrow> string \<Rightarrow> run_record res" where
  "read_run_manifest P body =
     rbind (json_loads body) (\<lambda>v.
     rbind (py_item v ''experiment'') (\<lambda>x.
     rbind (from_option (Exc ValidationErrorC ''ExperimentConfig'') (validate_experiment_config P x)) (\<lambda>cfg.
     rbind (py_item v ''manifest'') (\<lambda>m.
     rbind (py_item v ''graph'') (\<lambda>g.
     rbind (py_item m ''entries'') (\<lambda>entries.
     rbind (py_iter entries) (\<lambda>items.
     rbind (rmap (\<lambda>e. text_item e ''question_id'') items) (\<lambda>ids.
     rbind (text_item m ''livecodebench_commit'') (\<lambda>commit.
     rbind (text_item g ''graph_id'') (\<lambda>gid.
       Inr \<lparr>rr_config = cfg, rr_ids = ids, rr_commit = commit, rr_graph_id = gid\<rparr>))))))))))"

lemma read_entry_ids: "rmap (\<lambda>e. text_item e ''question_id'') (map dump_entry es) = Inr (map me_question_id es)"
  by (induction es) (simp_all add: dump_entry_def text_item_def dindex_def)

lemma read_written_manifest:
  assumes "pydantic_ok Y" "wf_config cfg" "writable (float_repr P) (run_manifest P rid cfg m g ch)"
  shows "read_run_manifest Y (run_manifest_text P rid cfg m g ch)
    = Inr \<lparr>rr_config = cfg, rr_ids = map me_question_id (mf_entries m), rr_commit = mf_commit m,
           rr_graph_id = graph_id g\<rparr>"
proof -
  have "json_loads (run_manifest_text P rid cfg m g ch) = Inr (run_manifest P rid cfg m g ch)"
    unfolding run_manifest_text_def by (rule json_loads_indent(1) [OF assms(3)])
  moreover have "text_item (dump_manifest m) ''livecodebench_commit'' = Inr (mf_commit m)"
    "text_item (dump_graph g) ''graph_id'' = Inr (graph_id g)"
    "py_item (dump_manifest m) ''entries'' = Inr (JList (map dump_entry (mf_entries m)))"
    by (simp_all add: text_item_def dump_manifest_def dump_graph_def dindex_def)
  ultimately show ?thesis
    using validate_config_dump [OF assms(1,2)] read_entry_ids [of "mf_entries m"]
    by (simp add: read_run_manifest_def run_manifest_def dindex_def)
qed

section \<open>The evaluation command\<close>

text \<open>
  What both commands find on the machine: the files of the data set, the checkout of the
  checker, the launcher of worker processes and the codecs.
\<close>

record machine =
  mx_host :: host
  mx_lcb :: "string \<Rightarrow> lcb_host"
  mx_resolve :: "string \<Rightarrow> string"
  mx_checkout :: "string \<Rightarrow> bool"
  mx_launch :: launcher
  mx_codec :: client_codec
  mx_process :: process
  mx_state_of :: "json \<Rightarrow> runtime_state option"
  mx_dump_evaluation :: "final_evaluation \<Rightarrow> string"

definition loaded :: "machine \<Rightarrow> experiment_config \<Rightarrow> string list \<Rightarrow> (private_task dict, lcb_task list) io" where
  "loaded M cfg ids =
     bnd (lift (loader_init ''release_v6'')) (\<lambda>release.
       load_tasks (mx_lcb M (bs_data_dir (xc_benchmark cfg))) release (no_filters\<lparr>task_ids := Some (set ids)\<rparr>))"

definition hidden_repository :: "machine \<Rightarrow> experiment_config \<Rightarrow> string list \<Rightarrow> private_task dict res" where
  "hidden_repository M cfg ids =
     (case loaded M cfg ids [] of (Inr ts, items) \<Rightarrow> Inr items | (Inl e, items) \<Rightarrow> Inl e)"

definition evaluation_setup :: "machine \<Rightarrow> run_record \<Rightarrow> evaluation_job res" where
  "evaluation_setup M rr =
     (let cfg = rr_config rr; s = xc_sandbox cfg in
      rbind (hidden_repository M cfg (rr_ids rr)) (\<lambda>items.
      rbind (final_worker_init (mx_resolve M) (mx_checkout M) (bs_repository_path (xc_benchmark cfg))
               (Some (ss_limits s)) 1 (ss_worker_grace s) (ss_max_worker_wall s)) (\<lambda>worker.
        Inr \<lparr>vj_host = mx_host M, vj_state_of = mx_state_of M, vj_dump = mx_dump_evaluation M,
             vj_launch = mx_launch M, vj_codec = mx_codec M, vj_parent = mx_process M,
             vj_evaluator = \<lparr>el_private_repository = items, el_evaluator_commit = rr_commit rr,
               el_worker = worker, el_per_test_timeout = ss_per_test_timeout s\<rparr>,
             vj_graph_id = rr_graph_id rr\<rparr>)))"

definition evaluate_command :: "machine \<Rightarrow> (world, int \<times> py_float) io" where
  "evaluate_command M =
     bnd (read_file manifest_file) (\<lambda>body.
     bnd (lift (read_run_manifest (pyd (plat (mx_host M))) body)) (\<lambda>rr.
     bnd (lift (evaluation_setup M rr)) (\<lambda>J. evaluate_run J (rr_ids rr))))"

section \<open>What an evaluation writes\<close>

definition only_verdicts :: "world \<Rightarrow> world \<Rightarrow> bool" where
  "only_verdicts w w' \<longleftrightarrow> (\<forall>p. (\<forall>q. p \<noteq> evaluation_file q) \<longrightarrow> file_at w' p = file_at w p)"

interpretation verdicts: world_view only_verdicts
    "\<lambda>w p. if \<exists>q. p = evaluation_file q then None else file_at w p"
  by unfold_locales (auto simp: only_verdicts_def fun_eq_iff)

lemma verdicts_writer [intro]: "verdicts.keeps (write_file (evaluation_file q) t)"
  by (auto simp: verdicts.keeps_def only_verdicts_def write_file_def write_text_def file_at_def update_conv')

lemma verdicts_quiet [intro]:
  "verdicts.keeps (private_event J st qid ty status)" "verdicts.keeps (read_file p)" "verdicts.keeps (get_artifact H i)"
  by (auto simp: verdicts.keeps_def only_verdicts_def private_event_def append_event_def read_file_def get_artifact_def)

lemma evaluate_new_writes: "verdicts.keeps (evaluate_new J st qid code)"
  unfolding evaluate_new_def
  by (intro verdicts.keeps_thn verdicts.keeps_bnd verdicts_quiet verdicts.keeps_lift verdicts_writer verdicts.keeps_ret)

lemma verdict_for_writes: "verdicts.keeps (verdict_for J st qid code)"
  using evaluate_new_writes [of J st qid code] verdicts.le_refl
  by (auto simp: verdicts.keeps_def verdict_for_def split: option.splits)

lemma evaluate_task_writes: "verdicts.keeps (evaluate_task J q)"
  unfolding evaluate_task_def
  by (intro verdicts.keeps_bnd verdicts_quiet verdicts.keeps_lift verdict_for_writes verdicts.keeps_ret)

lemma evaluate_all_writes: "verdicts.keeps (collect (evaluate_task J) ids)"
  by (intro verdicts.keeps_collect evaluate_task_writes)

lemma evaluate_all_missing:
  assumes "q \<in> set ids" "file_at w (result_file q) = None"
  shows "\<exists>e w'. collect (evaluate_task J) ids w = (Inl e, w')"
  using assms
proof (induction ids arbitrary: w)
  case (Cons q' ids)
  obtain r w1 where r: "evaluate_task J q' w = (r, w1)" by (cases "evaluate_task J q' w")
  have none: "file_at w1 (result_file q) = None"
    using verdicts.keepsD [OF evaluate_task_writes r] Cons.prems(2) by (simp add: only_verdicts_def)
  show ?case
  proof (cases r)
    case (Inl e)
    then show ?thesis using r by (simp add: bnd_def)
  next
    case (Inr x)
    have "q \<noteq> q'"
      using r Inr Cons.prems(2) by (auto simp: evaluate_task_def io_simps read_file_def)
    then have "\<exists>e w'. collect (evaluate_task J) ids w1 = (Inl e, w')"
      using Cons.IH [OF _ none] Cons.prems(1) by simp
    then show ?thesis using r Inr by (auto simp: bnd_def)
  qed
qed simp

lemma evaluate_run_missing:
  assumes "q \<in> set ids" "file_at w (result_file q) = None"
  shows "\<exists>e w'. evaluate_run J ids w = (Inl e, w') \<and> only_verdicts w w'"
proof -
  obtain e w' where c: "collect (evaluate_task J) ids w = (Inl e, w')" using evaluate_all_missing [OF assms] by blast
  then show ?thesis using verdicts.keepsD [OF evaluate_all_writes c] by (simp add: evaluate_run_def bnd_def)
qed

section \<open>From one command to the other\<close>

text \<open>The two commands meet in the file: the evaluation works with what the run worked with.\<close>

lemma evaluate_reads_run:
  assumes "pydantic_ok (pyd (plat (mx_host M)))" "wf_config cfg"
    and "writable (float_repr P) (run_manifest P rid cfg m g ch)"
    and "file_at w manifest_file = Some (run_manifest_text P rid cfg m g ch)"
  shows "evaluate_command M w =
    bnd (lift (evaluation_setup M \<lparr>rr_config = cfg, rr_ids = map me_question_id (mf_entries m),
      rr_commit = mf_commit m, rr_graph_id = graph_id g\<rparr>))
      (\<lambda>J. evaluate_run J (map me_question_id (mf_entries m))) w"
  using assms(4) read_written_manifest [OF assms(1-3)]
  by (simp add: evaluate_command_def read_file_def bnd_def split: sum.split)

lemma evaluate_partial:
  assumes "pydantic_ok (pyd (plat (mx_host M)))" "wf_config cfg"
    and "writable (float_repr P) (run_manifest P rid cfg m g ch)"
    and "file_at w manifest_file = Some (run_manifest_text P rid cfg m g ch)"
    and "q \<in> set (map me_question_id (mf_entries m))" "file_at w (result_file q) = None"
  shows "\<exists>e w'. evaluate_command M w = (Inl e, w') \<and> only_verdicts w w'"
proof (cases "evaluation_setup M \<lparr>rr_config = cfg, rr_ids = map me_question_id (mf_entries m),
      rr_commit = mf_commit m, rr_graph_id = graph_id g\<rparr>")
  case (Inl e)
  then show ?thesis using evaluate_reads_run [OF assms(1-4)] by (simp add: bnd_def verdicts.le_refl)
next
  case (Inr J)
  then show ?thesis
    using evaluate_reads_run [OF assms(1-4)] evaluate_run_missing [OF assms(5,6), of J] by (simp add: bnd_def)
qed

end
