(* ===== verification/LLM_Clients.thy ===== *)
theory LLM_Clients
  imports Executors Py_Values
begin

text \<open>
  The two model clients: the scripted one (\<open>llm/mock_async.py\<close>), whose answers are queues or
  functions by contract, and the HTTP client (\<open>llm/openai_compatible_async.py\<close>) with its
  retries. What the HTTP library does with one request is the parameter \<open>post\<close>; which status
  codes it counts as success is \<open>ok_status\<close>.
\<close>

section \<open>The scripted client\<close>

datatype source = Callable "string dict \<Rightarrow> string" | Queue "string list"

fun source_truthy :: "source \<Rightarrow> bool" where
  "source_truthy (Callable f) = True"
| "source_truthy (Queue q) = (q \<noteq> [])"

record mock_client =
  mc_responses :: "source dict"
  mc_calls :: "(string \<times> message list \<times> string dict) list"
  mc_active :: int
  mc_max_active :: int
  mc_counts :: "int dict"

definition mock_client_init :: "source dict \<Rightarrow> mock_client" where
  "mock_client_init responses = \<lparr>mc_responses = responses, mc_calls = [], mc_active = 0,
     mc_max_active = 0, mc_counts = []\<rparr>"

definition contract_of :: "llm_request \<Rightarrow> string" where
  "contract_of rq = (case dget (rq_metadata rq) ''contract_id'' of None \<Rightarrow> ''default'' | Some c \<Rightarrow> c)"

text \<open>
  \<open>self.responses.get(contract_id) or self.responses.get("default")\<close>, with the key it was
  found under: an empty queue is false, so the default takes its place.
\<close>

definition mock_source :: "source dict \<Rightarrow> string \<Rightarrow> (string \<times> source) option" where
  "mock_source rs cid =
     (case dget rs cid of
        Some s \<Rightarrow> if source_truthy s then Some (cid, s)
                  else map_option (Pair ''default'') (dget rs ''default'')
      | None \<Rightarrow> map_option (Pair ''default'') (dget rs ''default''))"

text \<open>\<open>source(metadata) if callable(source) else source.popleft()\<close>.\<close>

definition mock_text :: "llm_request \<Rightarrow> (mock_client, string) io" where
  "mock_text rq s =
     (case mock_source (mc_responses s) (contract_of rq) of
        None \<Rightarrow> (Inl (Exc RuntimeErrorC (''No mock response for contract '' @ contract_of rq)), s)
      | Some (k, Callable f) \<Rightarrow> (Inr (f (rq_metadata rq)), s)
      | Some (k, Queue []) \<Rightarrow> (Inl (Exc IndexErrorC ''pop from an empty deque''), s)
      | Some (k, Queue (t # ts)) \<Rightarrow> (Inr t, s\<lparr>mc_responses := dset k (Queue ts) (mc_responses s)\<rparr>))"

definition mock_tokens :: "message list \<Rightarrow> int" where
  "mock_tokens ms = int (sum_list (map (length \<circ> msg_content) ms)) div 4"

definition mock_response :: "llm_request \<Rightarrow> int \<Rightarrow> string \<Rightarrow> llm_response" where
  "mock_response rq ms answer =
     (let p = mock_tokens (rq_messages rq); c = int (length answer) div 4 in
      \<lparr>rs_text = answer, rs_model = rq_model rq, rs_latency_ms = ms,
       rs_usage = \<lparr>prompt_tokens = p, completion_tokens = c, cached_tokens = 0, total_tokens = p + c,
         estimated_cost_usd = None\<rparr>,
       rs_request_id = Some ''mock''\<rparr>)"

definition count_call :: "llm_request \<Rightarrow> mock_client \<Rightarrow> mock_client" where
  "count_call rq s =
     (let cid = contract_of rq;
          n = (case dget (mc_counts s) cid of None \<Rightarrow> 0 | Some n \<Rightarrow> n)
      in s\<lparr>mc_counts := dset cid (n + 1) (mc_counts s),
           mc_calls := mc_calls s @ [(cid, rq_messages rq, rq_metadata rq)]\<rparr>)"

definition enter_call :: "mock_client \<Rightarrow> mock_client" where
  "enter_call s = (let n = mc_active s + 1 in s\<lparr>mc_active := n, mc_max_active := max (mc_max_active s) n\<rparr>)"

definition leave_call :: "mock_client \<Rightarrow> mock_client" where
  "leave_call s = s\<lparr>mc_active := mc_active s - 1\<rparr>"

text \<open>\<open>generate\<close>; the \<open>finally\<close> clause runs on the error paths too.\<close>

definition mock_generate :: "llm_request \<Rightarrow> int \<Rightarrow> (mock_client, llm_response) io" where
  "mock_generate rq ms s =
     (let (r, s') = bnd (mock_text rq) (\<lambda>answer.
            thn (update_w (count_call rq)) (ret (mock_response rq ms answer))) (enter_call s)
      in (r, leave_call s'))"

lemma mock_generate_active:
  assumes "mock_generate rq ms s = (r, s')"
  shows "mc_active s' = mc_active s" "mc_max_active s' = max (mc_max_active s) (mc_active s + 1)"
  using assms
  by (auto simp: mock_generate_def Let_def bnd_def thn_def mock_text_def enter_call_def leave_call_def count_call_def
      split: prod.splits sum.splits option.splits source.splits list.splits)

text \<open>A queue is served in order: the calls of one contract get its answers one after another.\<close>

fun mock_calls :: "llm_request \<Rightarrow> nat \<Rightarrow> (mock_client, string list) io" where
  "mock_calls rq 0 = ret []"
| "mock_calls rq (Suc n) = bnd (mock_generate rq 0) (\<lambda>r. bnd (mock_calls rq n) (\<lambda>rs. ret (rs_text r # rs)))"

lemma mock_generate_queue:
  assumes "dget (mc_responses s) (contract_of rq) = Some (Queue (t # ts))"
  shows "\<exists>s'. mock_generate rq ms s = (Inr (mock_response rq ms t), s')
    \<and> dget (mc_responses s') (contract_of rq) = Some (Queue ts)"
  using assms
  by (simp add: mock_generate_def Let_def bnd_def thn_def mock_text_def mock_source_def enter_call_def
      leave_call_def count_call_def dget_dset)

lemma mock_calls_queue:
  assumes "dget (mc_responses s) (contract_of rq) = Some (Queue (ts @ us))"
  shows "fst (mock_calls rq (length ts) s) = Inr ts"
  using assms
proof (induction ts arbitrary: s)
  case (Cons t ts)
  obtain s' where s': "mock_generate rq 0 s = (Inr (mock_response rq 0 t), s')"
    "dget (mc_responses s') (contract_of rq) = Some (Queue (ts @ us))"
    using mock_generate_queue [of s rq t "ts @ us" 0] Cons.prems by auto
  from Cons.IH [OF s'(2)] obtain s'' where "mock_calls rq (length ts) s' = (Inr ts, s'')"
    by (metis prod.collapse)
  then show ?case by (simp add: bnd_def s'(1) mock_response_def Let_def)
qed simp

section \<open>Retries of the HTTP client\<close>

text \<open>
  One request: an answer with its status and body, a transport error (time limits
  included), or another exception.
\<close>

datatype post_outcome = Answered int string | Transport exc | Raised exc

definition retry_status :: "int \<Rightarrow> bool" where
  "retry_status code \<longleftrightarrow> code = 429 \<or> 500 \<le> code"

definition status_error :: "int \<Rightarrow> exc" where
  "status_error code = Exc (ForeignErrorC ''HTTPStatusError'') (py_str_int code)"

text \<open>
  The body of the loop: the answer, an exception that leaves the loop, or the error kept for
  the next attempt.
\<close>

datatype attempt_end = Returned string | Left exc | Kept exc

definition attempt_end :: "(int \<Rightarrow> bool) \<Rightarrow> post_outcome \<Rightarrow> attempt_end" where
  "attempt_end ok_status o' =
     (case o' of
        Answered code body \<Rightarrow>
          if ok_status code then Returned body
          else if \<not> retry_status code then Left (status_error code)
          else Kept (status_error code)
      | Transport e \<Rightarrow> Kept e
      | Raised e \<Rightarrow> Left e)"

text \<open>
  \<open>_post\<close>: attempts \<open>k\<close>, \<open>k + 1\<close>, up to three, with the pauses in seconds between them.
\<close>

fun post_loop ::
  "(int \<Rightarrow> bool) \<Rightarrow> (nat \<Rightarrow> post_outcome) \<Rightarrow> nat \<Rightarrow> nat list \<Rightarrow> exc option \<Rightarrow> string res \<times> int list" where
  "post_loop ok_status post n [] kept =
     (case kept of None \<Rightarrow> (Inl (Exc (ForeignErrorC ''AssertionError'') []), []) | Some e \<Rightarrow> (Inl e, []))"
| "post_loop ok_status post n (attempt # rest) kept =
     (case attempt_end ok_status (post attempt) of
        Returned body \<Rightarrow> (Inr body, [])
      | Left e \<Rightarrow> (Inl e, [])
      | Kept e \<Rightarrow>
          (let (r, pauses) = post_loop ok_status post n rest (Some e)
           in (r, if attempt < n - 1 then 2 ^ attempt # pauses else pauses)))"

definition post_request :: "(int \<Rightarrow> bool) \<Rightarrow> (nat \<Rightarrow> post_outcome) \<Rightarrow> string res \<times> int list" where
  "post_request ok_status post = post_loop ok_status post 3 [0, 1, 2] None"

definition final_end :: "attempt_end \<Rightarrow> string res" where
  "final_end a = (case a of Returned body \<Rightarrow> Inr body | Left e \<Rightarrow> Inl e | Kept e \<Rightarrow> Inl e)"

definition is_kept :: "attempt_end \<Rightarrow> bool" where
  "is_kept a \<longleftrightarrow> (case a of Kept e \<Rightarrow> True | _ \<Rightarrow> False)"

text \<open>
  The reference: the first attempt that is not to be retried decides, the third one in any
  case; before attempt \<open>k + 1\<close> the client waits \<open>2 ^ k\<close> seconds.
\<close>

lemma post_request_spec:
  assumes "k < 3" "\<forall>i < k. is_kept (attempt_end ok_status (post i))"
    and "k < 2 \<longrightarrow> \<not> is_kept (attempt_end ok_status (post k))"
  shows "post_request ok_status post = (final_end (attempt_end ok_status (post k)), map (\<lambda>i. 2 ^ i) [0..<k])"
proof -
  consider "k = 0" | "k = 1" | "k = 2" using assms(1) by linarith
  then show ?thesis
  proof cases
    case 1
    then show ?thesis using assms(3)
      by (auto simp: post_request_def is_kept_def final_end_def split: attempt_end.splits)
  next
    case 2
    then show ?thesis using assms(2,3)
      by (auto simp: post_request_def is_kept_def final_end_def split: attempt_end.splits)
  next
    case 3
    then have "is_kept (attempt_end ok_status (post 0))" "is_kept (attempt_end ok_status (post 1))"
      using assms(2) by auto
    with 3 show ?thesis
      by (auto simp: post_request_def is_kept_def final_end_def upt_rec split: attempt_end.splits)
  qed
qed

lemma post_request_pauses: "sum_list (snd (post_request ok_status post)) \<le> 3"
  by (auto simp: post_request_def split: attempt_end.splits)

text \<open>No answer with a status the library rejects is ever returned.\<close>

lemma post_request_Inr:
  assumes "fst (post_request ok_status post) = Inr body"
  shows "\<exists>k < 3. \<exists>code. post k = Answered code body \<and> ok_status code"
proof -
  have R: "\<exists>code. o' = Answered code body \<and> ok_status code" if "attempt_end ok_status o' = Returned body" for o'
    using that by (auto simp: attempt_end_def split: post_outcome.splits if_splits)
  have "\<exists>k \<in> {0, 1, 2}. attempt_end ok_status (post k) = Returned body"
    using assms by (auto simp: post_request_def split: attempt_end.splits)
  then obtain k where "k \<in> {0, 1, 2}" "attempt_end ok_status (post k) = Returned body" by blast
  then have "k < 3" "attempt_end ok_status (post k) = Returned body" by auto
  with R [of "post k"] show ?thesis by blast
qed

section \<open>Reading the answer\<close>

text \<open>\<open>v[0]\<close>.\<close>

fun py_first :: "json \<Rightarrow> json res" where
  "py_first (JList xs) = py_index xs 0"
| "py_first (JStr s) = (case s of [] \<Rightarrow> Inl (Exc IndexErrorC ''string index out of range'') | c # cs \<Rightarrow> Inr (JStr [c]))"
| "py_first (JObj d) = Inl (Exc KeyErrorC ''0'')"
| "py_first v = Inl (type_error (CHR 0x27 # py_type_name v @ CHR 0x27 # '' object is not subscriptable''))"

text \<open>\<open>int(d.get(k, dflt) or 0)\<close>.\<close>

definition count_field :: "json \<Rightarrow> string \<Rightarrow> json \<Rightarrow> int res" where
  "count_field d k dflt = rbind (py_get d k dflt) (\<lambda>v. py_int (py_or v (JInt 0)))"

record usage_counts =
  uc_prompt :: int
  uc_completion :: int
  uc_cached :: int

definition usage_of :: "json \<Rightarrow> json res" where
  "usage_of data = rbind (py_get data ''usage'' JNull) (\<lambda>u. Inr (py_or u (JObj [])))"

definition read_counts :: "json \<Rightarrow> usage_counts res" where
  "read_counts us =
     rbind (count_field us ''prompt_tokens'' (JInt 0)) (\<lambda>p.
     rbind (count_field us ''completion_tokens'' (JInt 0)) (\<lambda>c.
     rbind (py_get us ''prompt_tokens_details'' JNull) (\<lambda>details.
     rbind (count_field (py_or details (JObj [])) ''cached_tokens'' (JInt 0)) (\<lambda>cached.
       Inr \<lparr>uc_prompt = p, uc_completion = c, uc_cached = cached\<rparr>))))"

definition read_content :: "json \<Rightarrow> json res" where
  "read_content data =
     rbind (py_item data ''choices'') (\<lambda>choices.
     rbind (py_first choices) (\<lambda>choice.
     rbind (py_item choice ''message'') (\<lambda>message.
     rbind (py_get message ''content'' JNull) (\<lambda>c. Inr (py_or c (JStr []))))))"

text \<open>\<open>generate\<close> from the response text on.\<close>

definition read_response :: "pydantic \<Rightarrow> llm_request \<Rightarrow> int \<Rightarrow> string \<Rightarrow> llm_response res" where
  "read_response P rq ms body =
     rbind (json_loads body) (\<lambda>data.
     rbind (usage_of data) (\<lambda>us.
     rbind (read_counts us) (\<lambda>n.
     rbind (read_content data) (\<lambda>content.
     rbind (count_field us ''total_tokens'' (JInt (uc_prompt n + uc_completion n))) (\<lambda>total.
     rbind (py_get data ''id'' JNull) (\<lambda>rid.
       from_option (Exc ValidationErrorC ''LLMResponse'') (do {
         answer \<leftarrow> as_str P content;
         i \<leftarrow> as_opt (as_str P) rid;
         Some \<lparr>rs_text = answer, rs_model = rq_model rq, rs_latency_ms = ms,
           rs_usage = \<lparr>prompt_tokens = uc_prompt n, completion_tokens = uc_completion n,
             cached_tokens = uc_cached n, total_tokens = total, estimated_cost_usd = None\<rparr>,
           rs_request_id = i\<rparr> })))))))"

definition openai_generate ::
  "(int \<Rightarrow> bool) \<Rightarrow> (llm_request \<Rightarrow> nat \<Rightarrow> post_outcome) \<Rightarrow> pydantic \<Rightarrow> int \<Rightarrow> llm_request \<Rightarrow> llm_response res" where
  "openai_generate ok_status post P ms rq =
     rbind (fst (post_request ok_status (post rq))) (read_response P rq ms)"

text \<open>The constructor: both settings are required, a trailing slash is dropped.\<close>

definition openai_init :: "string option \<Rightarrow> string option \<Rightarrow> string dict \<Rightarrow> (string \<times> string) res" where
  "openai_init base_url api_key env =
     (let given = (\<lambda>v. case v of Some s \<Rightarrow> if s = [] then None else Some s | None \<Rightarrow> None);
          url = rstrip_char CHR ''/'' (case given base_url of Some u \<Rightarrow> u
                  | None \<Rightarrow> (case dget env ''OPENAI_BASE_URL'' of Some u \<Rightarrow> u | None \<Rightarrow> []));
          key = (case given api_key of Some k \<Rightarrow> Some k | None \<Rightarrow> dget env ''OPENAI_API_KEY'')
      in if url = [] \<or> given key = None
         then Inl (value_error ''OPENAI_BASE_URL and OPENAI_API_KEY are required'')
         else Inr (url, case key of Some k \<Rightarrow> k | None \<Rightarrow> []))"

end
