(* ===== verification/Command_Line.thy ===== *)
theory Command_Line
  imports Run_Manifest LLM_Clients
begin

text \<open>
  The commands \<open>cli/run.py\<close> and \<open>cli/validate_graph.py\<close> as a whole: the scripted answers of
  \<open>--mock-llm\<close>, the plan of a run from its input files, the choice of the model client and of
  the sandbox, and the run itself. Reading a file and parsing its YAML are parameters, and so
  is the HTTP library. Every scripted answer is shown to be accepted by the parser of its
  contract.
\<close>

section \<open>Scripted answers\<close>

definition mock_algorithm :: json where
  "mock_algorithm = JObj [
     (''problem_summary'', JStr ''Solve the visible task.''),
     (''algorithm'', JStr ''Process inputs according to the statement.''),
     (''data_structures'', JList [JStr ''list'']),
     (''correctness_argument'', JStr ''The algorithm directly implements the specification.''),
     (''time_complexity'', JStr ''O(n)''),
     (''space_complexity'', JStr ''O(n)''),
     (''edge_cases'', JList [JStr ''minimum input'']),
     (''implementation_notes'', JList [])]"

definition mock_edge_cases :: json where
  "mock_edge_cases = JObj [
     (''input_output_interpretation'', JStr ''Use the declared interface.''),
     (''edge_cases'', JList [JStr ''minimum input'']),
     (''overflow_risks'', JList []),
     (''indexing_risks'', JList []),
     (''interface_concerns'', JList []),
     (''likely_failure_modes'', JList [])]"

definition mock_code :: string where
  "mock_code = ''# CORRECT_SOLUTION'' @ newline # ''print(input())''"

definition mock_repair :: json where
  "mock_repair = JObj [
     (''diagnosis'', JStr ''Visible tests failed.''),
     (''changes'', JList [JStr ''Return the mock-correct solution.'']),
     (''revised_code'', JStr mock_code)]"

definition mock_block :: string where
  "mock_block = fence @ ''python'' @ newline # mock_code @ newline # fence"

definition mock_answers :: "(py_float \<Rightarrow> string) \<Rightarrow> string dict" where
  "mock_answers fr = [
     (''direct_coder'', mock_block), (''solution_coder'', mock_block),
     (''algorithm_analyst'', dumps_plain fr mock_algorithm),
     (''edge_case_analyst'', dumps_plain fr mock_edge_cases),
     (''single_agent_repair'', dumps_plain fr mock_repair),
     (''repair_agent'', dumps_plain fr mock_repair)]"

text \<open>\<open>_mock_client\<close>: every answer is a function that ignores its argument.\<close>

definition scripted_client :: "(py_float \<Rightarrow> string) \<Rightarrow> mock_client" where
  "scripted_client fr = mock_client_init (map (\<lambda>(k, t). (k, Callable (\<lambda>_. t))) (mock_answers fr))"

text \<open>Such a client does not depend on the calls before: its answers are a function.\<close>

definition scripted_generate :: "(py_float \<Rightarrow> string) \<Rightarrow> (llm_request \<Rightarrow> int) \<Rightarrow> llm_request \<Rightarrow> llm_response res" where
  "scripted_generate fr ms rq = fst (mock_generate rq (ms rq) (scripted_client fr))"

lemma dget_callables: "dget (map (\<lambda>(k, t). (k, Callable (\<lambda>_. t))) d) cid = map_option (\<lambda>t. Callable (\<lambda>_. t)) (dget d cid)"
  by (induction d) auto

lemma scripted_source:
  assumes "dget (mock_answers fr) (contract_of rq) = Some t"
  shows "mock_source (mc_responses (scripted_client fr)) (contract_of rq) = Some (contract_of rq, Callable (\<lambda>_. t))"
  using assms by (simp add: mock_source_def scripted_client_def mock_client_init_def dget_callables)

lemma scripted_answer:
  assumes "dget (mock_answers fr) (contract_of rq) = Some t"
    and "mc_responses s = mc_responses (scripted_client fr)"
  shows "\<exists>s'. mock_generate rq ms s = (Inr (mock_response rq ms t), s') \<and> mc_responses s' = mc_responses s"
  using assms(2) scripted_source [OF assms(1)]
  by (simp add: mock_generate_def mock_text_def enter_call_def leave_call_def count_call_def bnd_def thn_def Let_def)

lemma scripted_generate_known:
  assumes "dget (mock_answers fr) (contract_of rq) = Some t"
  shows "scripted_generate fr ms rq = Inr (mock_response rq (ms rq) t)"
  using scripted_answer [OF assms refl, of "ms rq"] by (auto simp: scripted_generate_def)

text \<open>The contracts of the repository with the parser and the schema of their answers.\<close>

definition shipped_contracts :: "(string \<times> string \<times> string) list" where
  "shipped_contracts = [
     (''direct_coder'', ''python_code'', ''CodeArtifact''), (''solution_coder'', ''python_code'', ''CodeArtifact''),
     (''algorithm_analyst'', ''json'', ''AlgorithmPlanArtifact''), (''edge_case_analyst'', ''json'', ''EdgeCaseArtifact''),
     (''single_agent_repair'', ''json'', ''RepairArtifact''), (''repair_agent'', ''json'', ''RepairArtifact'')]"

lemma plain_spelled: "writable fr v \<Longrightarrow> spelled fr v (dumps_plain fr v)"
  using dumps_with_spelled [OF spells_ascii, of "[]" "'' ''" "[]" "'' ''" fr v]
  by (simp add: dumps_plain_def json_space_def)

lemma parse_json_object:
  assumes "writable fr (JObj d)" "pid \<noteq> ''python_code''" "dget payload_schemas schema \<noteq> None"
  shows "parse_output P pid (dumps_plain fr (JObj d)) schema src = model_validate P schema (JObj d)"
proof -
  let ?t = "dumps_plain fr (JObj d)"
  have s: "spelled fr (JObj d) ?t" by (rule plain_spelled [OF assms(1)])
  then obtain mid where mid: "?t = CHR ''{'' # mid @ ''}''" using spelled_braces by blast
  have "json_slice ?t = Inr ?t" using json_slice_exact [of "[]" "[]" mid] by (simp add: mid)
  then show ?thesis using assms(2,3) json_loads_spelled [OF s] by (auto simp: parse_output_def)
qed

lemma mock_code_parses:
  "dget payload_schemas schema \<noteq> None \<Longrightarrow>
     parse_output P ''python_code'' mock_block schema src = Inr (MCode (code_of mock_code src))"
proof -
  assume s: "dget payload_schemas schema \<noteq> None"
  have "py_strip (mock_code @ [newline]) = mock_code" by code_simp
  moreover have "mock_block = [] @ fence @ ''python'' @ newline # (mock_code @ [newline]) @ fence @ []"
    by (simp add: mock_block_def)
  ultimately show ?thesis
    using parse_code_answer [of "[]" "mock_code @ [newline]" "[]" "''python''" schema P src] s
    by (simp add: mock_code_def newline_def)
qed

lemma mock_objects_validate:
  assumes "pydantic_ok P"
  shows "\<exists>a. validate_algorithm_plan P mock_algorithm = Some a"
    and "\<exists>a. validate_edge_case P mock_edge_cases = Some a"
    and "\<exists>a. validate_repair P mock_repair = Some a \<and> re_revised_code a = mock_code"
  using assms
  by (simp_all add: validate_algorithm_plan_def mock_algorithm_def algorithm_plan_fields_def validate_edge_case_def
      mock_edge_cases_def edge_case_fields_def validate_repair_def mock_repair_def repair_fields_def
      as_list_def field_simps_schema)

text \<open>Every scripted answer is accepted, with the declared schema.\<close>

lemma scripted_answers_parse:
  assumes "pydantic_ok (pyd P)" "(cid, pid, schema) \<in> set shipped_contracts"
  shows "\<exists>t m. dget (mock_answers fr) cid = Some t \<and> parse_output P pid t schema src = Inr m \<and> type_name m = schema"
proof -
  have W: "writable fr mock_algorithm" "writable fr mock_edge_cases" "writable fr mock_repair"
    by (simp_all add: mock_algorithm_def mock_edge_cases_def mock_repair_def)
  note parse = parse_json_object [OF W(1) [unfolded mock_algorithm_def], folded mock_algorithm_def]
    parse_json_object [OF W(2) [unfolded mock_edge_cases_def], folded mock_edge_cases_def]
    parse_json_object [OF W(3) [unfolded mock_repair_def], folded mock_repair_def]
  have "cid \<in> {''direct_coder'', ''solution_coder''} \<and> pid = ''python_code'' \<and> schema = ''CodeArtifact''
      \<or> cid = ''algorithm_analyst'' \<and> pid = ''json'' \<and> schema = ''AlgorithmPlanArtifact''
      \<or> cid = ''edge_case_analyst'' \<and> pid = ''json'' \<and> schema = ''EdgeCaseArtifact''
      \<or> cid \<in> {''single_agent_repair'', ''repair_agent''} \<and> pid = ''json'' \<and> schema = ''RepairArtifact''"
    using assms(2) by (auto simp: shipped_contracts_def)
  then show ?thesis
  proof (elim disjE conjE)
    assume "cid \<in> {''direct_coder'', ''solution_coder''}" "pid = ''python_code''" "schema = ''CodeArtifact''"
    then show ?thesis using mock_code_parses [of schema P src]
      by (auto simp: mock_answers_def payload_schemas_def)
  next
    assume "cid = ''algorithm_analyst''" "pid = ''json''" "schema = ''AlgorithmPlanArtifact''"
    then show ?thesis using parse(1) [of pid schema P src] mock_objects_validate(1) [OF assms(1)]
      by (auto simp: mock_answers_def payload_schemas_def model_validate_def validate_class_def)
  next
    assume "cid = ''edge_case_analyst''" "pid = ''json''" "schema = ''EdgeCaseArtifact''"
    then show ?thesis using parse(2) [of pid schema P src] mock_objects_validate(2) [OF assms(1)]
      by (auto simp: mock_answers_def payload_schemas_def model_validate_def validate_class_def)
  next
    assume "cid \<in> {''single_agent_repair'', ''repair_agent''}" "pid = ''json''" "schema = ''RepairArtifact''"
    then show ?thesis using parse(3) [of pid schema P src] mock_objects_validate(3) [OF assms(1)]
      by (auto simp: mock_answers_def payload_schemas_def model_validate_def validate_class_def)
  qed
qed

text \<open>The scripted code passes the mock sandbox on any task with a public test.\<close>

lemma mock_code_passes:
  "vt_public_test_cases t \<noteq> [] \<Longrightarrow> harness_passed (mock_report delay t mock_code)"
proof -
  have "\<not> contains ''SYNTAX_ERROR'' mock_code" "\<not> contains ''RUNTIME_ERROR'' mock_code"
    "\<not> contains ''TIMEOUT'' mock_code" "mock_correct mock_code" by code_simp+
  then show "vt_public_test_cases t \<noteq> [] \<Longrightarrow> ?thesis" using mock_verdict by blast
qed

section \<open>The plan of a run\<close>

text \<open>
  The machine of a run: besides what the evaluation uses, the parsed YAML and JSON files, the
  Docker host, the HTTP library and the remaining services of the executors.
\<close>

record run_machine =
  rm_machine :: machine
  rm_yaml :: "string \<Rightarrow> json res"
  rm_contract_files :: "string \<Rightarrow> json list res"
  rm_json :: "string \<Rightarrow> json res"
  rm_has_docker :: bool
  rm_docker :: docker_host
  rm_status_ok :: "int \<Rightarrow> bool"
  rm_post :: "string \<times> string \<Rightarrow> llm_request \<Rightarrow> nat \<Rightarrow> post_outcome"
  rm_call_ms :: "llm_request \<Rightarrow> int"
  rm_dump_contract :: "agent_contract \<Rightarrow> string"
  rm_services :: services
  rm_stamp :: "string \<Rightarrow> stamp"
  rm_wall_ms :: int
  rm_dump_result :: "graph_result \<Rightarrow> string"

abbreviation rm_host :: "run_machine \<Rightarrow> host" where
  "rm_host M \<equiv> mx_host (rm_machine M)"

abbreviation rm_plat :: "run_machine \<Rightarrow> platform" where
  "rm_plat M \<equiv> plat (rm_host M)"

definition load_manifest :: "pydantic \<Rightarrow> json \<Rightarrow> lcb_manifest res" where
  "load_manifest P parsed = from_option (Exc ValidationErrorC ''LCBManifest'') (validate_manifest P parsed)"

definition read_contracts :: "run_machine \<Rightarrow> string dict \<Rightarrow> string \<Rightarrow> agent_contract dict res" where
  "read_contracts M env dir = rbind (rm_contract_files M dir) (load_contract_files (pyd (rm_plat M)) env)"

definition read_graph :: "run_machine \<Rightarrow> string \<Rightarrow> orchestra_graph res" where
  "read_graph M p = rbind (rm_yaml M p) (load_graph (pyd (rm_plat M)))"

record run_plan =
  rp_config :: experiment_config
  rp_manifest :: lcb_manifest
  rp_contracts :: "agent_contract dict"
  rp_compiled :: compiled_graph
  rp_ids :: "string list"

definition plan_run :: "run_machine \<Rightarrow> string dict \<Rightarrow> run_args \<Rightarrow> string \<Rightarrow> run_plan res" where
  "plan_run M env A config_path =
     rbind (rm_yaml M config_path) (\<lambda>c.
     rbind (load_experiment_config (pyd (rm_plat M)) env c) (\<lambda>cfg.
     rbind (rm_json M (bs_manifest (xc_benchmark cfg))) (\<lambda>j.
     rbind (load_manifest (pyd (rm_plat M)) j) (\<lambda>m.
     rbind (read_contracts M env (xs_contracts_dir (xc_experiment cfg))) (\<lambda>cs.
     rbind (read_graph M (xs_graph_config (xc_experiment cfg))) (\<lambda>g.
     rbind (read_contracts M env (xs_contracts_dir (xc_experiment cfg))) (\<lambda>again.
     rbind (compile (build_compiler again) g) (\<lambda>cg.
       Inr \<lparr>rp_config = cfg, rp_manifest = m, rp_contracts = cs, rp_compiled = cg,
            rp_ids = select_ids A m\<rparr>))))))))"

text \<open>\<open>main\<close> of \<open>cli/validate_graph.py\<close>: what it prints.\<close>

definition graph_report :: "compiled_graph \<Rightarrow> json" where
  "graph_report cg = JObj [
     (''graph_id'', JStr (graph_id (graph cg))),
     (''node_count'', JInt (int (length (nodes (graph cg))))),
     (''edge_count'', JInt (int (length (edges (graph cg))))),
     (''entry_nodes'', JList (map JStr (entry_nodes cg))),
     (''parallel_waves'', JList (map (\<lambda>wv. JList (map JStr wv)) (waves cg))),
     (''conditional_branches'', JInt (int (conditional_branches cg))),
     (''reachable_final_output'', JBool (final_producers cg \<noteq> [])),
     (''schema_validation'', JStr ''passed'')]"

definition check_graph_file :: "run_machine \<Rightarrow> string dict \<Rightarrow> string \<Rightarrow> string \<Rightarrow> json res" where
  "check_graph_file M env contracts_dir graph_path =
     rbind (read_contracts M env contracts_dir) (\<lambda>cs.
     rbind (read_graph M graph_path) (\<lambda>g.
     rbind (compile (build_compiler cs) g) (\<lambda>cg. Inr (graph_report cg))))"

lemma plan_runE:
  assumes "plan_run M env A p = Inr pl"
  obtains g where "read_graph M (xs_graph_config (xc_experiment (rp_config pl))) = Inr g"
    "read_contracts M env (xs_contracts_dir (xc_experiment (rp_config pl))) = Inr (rp_contracts pl)"
    "compile (build_compiler (rp_contracts pl)) g = Inr (rp_compiled pl)" "graph (rp_compiled pl) = g"
    "wf_config (rp_config pl)" "rp_ids pl = select_ids A (rp_manifest pl)"
proof -
  obtain c g where r: "load_experiment_config (pyd (rm_plat M)) env c = Inr (rp_config pl)"
      "read_graph M (xs_graph_config (xc_experiment (rp_config pl))) = Inr g"
      "read_contracts M env (xs_contracts_dir (xc_experiment (rp_config pl))) = Inr (rp_contracts pl)"
      "compile (build_compiler (rp_contracts pl)) g = Inr (rp_compiled pl)"
      "rp_ids pl = select_ids A (rp_manifest pl)"
    using assms by (auto simp: plan_run_def res_simps)
  have "wf_config (rp_config pl)"
    using r(1) validate_config_wf by (auto simp: load_experiment_config_def res_simps split: option.splits)
  moreover have "graph (rp_compiled pl) = g" by (rule compiled_distinct(3) [OF r(4)])
  ultimately show thesis using that r by blast
qed

text \<open>A graph that passes the check of \<open>validate_graph\<close> is one a run can be planned with.\<close>

lemma plan_run_checked:
  assumes "plan_run M env A p = Inr pl"
  shows "check_graph_file M env (xs_contracts_dir (xc_experiment (rp_config pl)))
      (xs_graph_config (xc_experiment (rp_config pl))) = Inr (graph_report (rp_compiled pl))"
  by (rule plan_runE [OF assms]) (simp add: check_graph_file_def)

section \<open>The run\<close>

datatype chosen_client = Scripted | Http "string \<times> string"

definition choose_client :: "run_args \<Rightarrow> string dict \<Rightarrow> chosen_client res" where
  "choose_client A env =
     (if ra_mock_llm A then Inr Scripted else rbind (openai_init None None env) (\<lambda>ep. Inr (Http ep)))"

text \<open>What the executors call: the chosen client and the chosen sandbox.\<close>

definition services_of :: "run_machine \<Rightarrow> chosen_client \<Rightarrow> chosen_sandbox \<Rightarrow> services" where
  "services_of M c s = (rm_services M)\<lparr>
     generate := (case c of
         Scripted \<Rightarrow> scripted_generate (float_repr (rm_plat M)) (rm_call_ms M)
       | Http ep \<Rightarrow> (\<lambda>rq. openai_generate (rm_status_ok M) (rm_post M ep) (pyd (rm_plat M)) (rm_call_ms M rq) rq)),
     evaluate_public := (case s of
         UseMock \<Rightarrow> (\<lambda>t code limit. Inr (mock_report 0 t code))
       | UseOfficial x \<Rightarrow> official_evaluate_public (mx_launch (rm_machine M)) (mx_codec (rm_machine M))
           (mx_process (rm_machine M)) x
       | UseDocker d \<Rightarrow> docker_evaluate_public d (rm_docker M))\<rparr>"

definition plan_digest :: "run_machine \<Rightarrow> run_plan \<Rightarrow> string" where
  "plan_digest M pl = contracts_digest (rm_plat M) (rm_dump_contract M) (rp_contracts pl)"

definition batch_of ::
  "run_machine \<Rightarrow> run_args \<Rightarrow> run_plan \<Rightarrow> string \<Rightarrow> chosen_client \<Rightarrow> chosen_sandbox \<Rightarrow> batch_setup" where
  "batch_of M A pl rid c s = \<lparr>
     bt_runtime = \<lparr>rt_host = rm_host M, rt_services = services_of M c s,
       rt_executors = \<lparr>ex_contracts = rp_contracts pl,
         ex_harness_timeout = ss_per_test_timeout (xc_sandbox (rp_config pl))\<rparr>,
       rt_wall_ms = rm_wall_ms M\<rparr>,
     bt_compiled = rp_compiled pl, bt_run_id = rid, bt_limits = xc_runtime (rp_config pl),
     bt_contract_hash = plan_digest M pl, bt_drift = ra_allow_drift A,
     bt_stamp = rm_stamp M, bt_dump_result = rm_dump_result M\<rparr>"

definition plan_manifest :: "run_machine \<Rightarrow> run_plan \<Rightarrow> string \<Rightarrow> string" where
  "plan_manifest M pl rid =
     run_manifest_text (rm_plat M) rid (rp_config pl) (rp_manifest pl) (graph (rp_compiled pl)) (plan_digest M pl)"

datatype run_end = DryRun json | Finished "(string \<times> graph_result option) list"

text \<open>From the run directory on: the manifest is written before the client and the sandbox are made.\<close>

definition start_run ::
  "run_machine \<Rightarrow> string dict \<Rightarrow> run_args \<Rightarrow> run_plan \<Rightarrow> lcb_task list \<Rightarrow> string \<Rightarrow> (world, run_end) io" where
  "start_run M env A pl tasks rid =
     thn (prepare_run A (plan_manifest M pl rid) (rp_ids pl))
     (bnd (lift (choose_client A env)) (\<lambda>c.
      bnd (lift (choose_sandbox (mx_resolve (rm_machine M)) (mx_checkout (rm_machine M)) (rm_has_docker M) A (rp_config pl))) (\<lambda>s.
      bnd (run_batch (batch_of M A pl rid c s) (task_map tasks) (rp_ids pl)) (\<lambda>rs. ret (Finished rs)))))"

text \<open>\<open>_run\<close> on the directory of its run.\<close>

definition run_command :: "run_machine \<Rightarrow> string dict \<Rightarrow> run_args \<Rightarrow> string \<Rightarrow> (world, run_end) io" where
  "run_command M env A config_path =
     bnd (lift (plan_run M env A config_path)) (\<lambda>pl.
       if ra_dry_run A then ret (DryRun (dry_run_report (rm_plat M) (rp_compiled pl) (rp_ids pl)))
       else
         bnd (lift (fst (loaded (rm_machine M) (rp_config pl) (rp_ids pl) []))) (\<lambda>tasks.
         bnd (lift (choose_run_id (rm_plat M) A (rp_config pl) (rp_manifest pl) (graph (rp_compiled pl)))) (\<lambda>rid.
           start_run M env A pl tasks rid)))"

text \<open>The line that is printed for each task.\<close>

definition progress_line :: "nat \<Rightarrow> nat \<times> string \<times> graph_result option \<Rightarrow> string" where
  "progress_line n = (\<lambda>(i, q, r). ''['' @ py_str_int (int i) @ ''/'' @ py_str_int (int n) @ ''] '' @ q @ '': ''
     @ (case r of None \<Rightarrow> ''failed''
        | Some res \<Rightarrow> ''frozen='' @ (if frozen (final_state res) then ''True'' else ''False'')))"

definition progress :: "(string \<times> graph_result option) list \<Rightarrow> string list" where
  "progress rs = map (progress_line (length rs)) (enumerate 1 rs)"

text \<open>With the environment file, which is read first.\<close>

definition run_main ::
  "run_machine \<Rightarrow> string option \<Rightarrow> string dict \<Rightarrow> run_args \<Rightarrow> string \<Rightarrow> (world, run_end) io" where
  "run_main M env_file env A config_path w =
     (case load_env_file env_file env of
        (Inl e, env') \<Rightarrow> (Inl e, w)
      | (Inr _, env') \<Rightarrow> run_command M env' A config_path w)"

section \<open>What a run needs and leaves\<close>

lemma dry_run_quiet: "ra_dry_run A \<Longrightarrow> snd (run_command M env A p w) = w"
  by (cases "plan_run M env A p") (simp_all add: run_command_def bnd_def)

text \<open>
  A mock run does not depend on the HTTP library, on Docker or on the launcher of workers: it
  calls none of them.
\<close>

definition other_world_access :: "run_machine \<Rightarrow> run_machine \<Rightarrow> run_machine" where
  "other_world_access M N = M\<lparr>rm_post := rm_post N, rm_status_ok := rm_status_ok N, rm_has_docker := rm_has_docker N,
     rm_docker := rm_docker N, rm_machine := (rm_machine M)\<lparr>
       mx_launch := mx_launch (rm_machine N), mx_codec := mx_codec (rm_machine N),
       mx_process := mx_process (rm_machine N), mx_checkout := mx_checkout (rm_machine N),
       mx_resolve := mx_resolve (rm_machine N)\<rparr>\<rparr>"

lemma plan_run_access: "plan_run (other_world_access M N) env A p = plan_run M env A p"
  by (simp add: plan_run_def read_contracts_def read_graph_def other_world_access_def)

lemma services_access:
  "services_of (other_world_access M N) Scripted UseMock = services_of M Scripted UseMock"
  by (simp add: services_of_def other_world_access_def)

lemma mock_run_offline:
  assumes "ra_mock_llm A"
  shows "run_command (other_world_access M N) env A p w = run_command M env A p w"
proof -
  let ?M = "other_world_access M N"
  have parts: "rm_plat ?M = rm_plat M" "rm_host ?M = rm_host M" "plan_digest ?M = plan_digest M"
    "plan_manifest ?M = plan_manifest M" "loaded (rm_machine ?M) = loaded (rm_machine M)"
    by (simp_all add: other_world_access_def plan_digest_def plan_manifest_def loaded_def fun_eq_iff)
  have b: "batch_of ?M A pl rid Scripted UseMock = batch_of M A pl rid Scripted UseMock" for pl rid
    using services_access [of M N] parts(3)
    by (simp add: batch_of_def) (simp add: other_world_access_def)
  have "start_run ?M env A pl tasks rid = start_run M env A pl tasks rid" for pl tasks rid
    using assms by (simp add: start_run_def choose_client_def choose_sandbox_def Let_def parts b bnd_def fun_eq_iff)
  then show ?thesis by (simp add: run_command_def plan_run_access parts cong: if_cong)
qed

section \<open>The directory before the batch\<close>

text \<open>
  A directory a run can start from: the artifacts are in order, and the selected tasks can be
  resumed unless they are to be run again from scratch.
\<close>

definition startable :: "run_args \<Rightarrow> host \<Rightarrow> orchestra_graph \<Rightarrow> string list \<Rightarrow> world \<Rightarrow> bool" where
  "startable A H g ids w \<longleftrightarrow> store_inv H w \<and> names_ok w \<and> (\<forall>q \<in> set ids. plain_id q)
     \<and> (\<not> ra_force_rerun A \<longrightarrow> (\<forall>q \<in> set ids. resumable H g q w))"

lemma file_at_remove: "file_at (remove_task q w) p = (if path_task p = Some q then None else file_at w p)"
proof -
  have "map_of (filter (\<lambda>(p, t). P p) d) p = (if P p then map_of d p else None)" for P :: "path \<Rightarrow> bool" and d :: "(path \<times> string) list"
    by (induction d) auto
  then show ?thesis by (simp add: remove_task_def file_at_def)
qed

lemma file_at_removed:
  "file_at (fold remove_task qs w) p = (if \<exists>q \<in> set qs. path_task p = Some q then None else file_at w p)"
  by (induction qs arbitrary: w) (auto simp: file_at_remove)

lemma removed_distinct: "distinct (map fst (fs w)) \<Longrightarrow> distinct (map fst (fs (fold remove_task qs w)))"
proof (induction qs arbitrary: w)
  case (Cons q qs)
  have "distinct (map fst (fs (remove_task q w)))"
    using Cons.prems by (simp add: remove_task_def distinct_map_filter)
  then show ?case using Cons.IH by simp
qed simp

lemma removed_batch:
  assumes "store_inv H w" "names_ok w" "\<forall>q \<in> set ids. plain_id q"
  shows "batch_ok H g ids (fold remove_task ids w)"
proof -
  let ?w = "fold remove_task ids w"
  have sub: "file_at ?w p = Some t \<Longrightarrow> file_at w p = Some t" for p t
    by (simp add: file_at_removed split: if_splits)
  have inv: "store_inv H ?w"
    using assms(1) removed_distinct [of w ids] sub unfolding store_inv_def by (metis not_None_eq)
  have names: "names_ok ?w" using assms(2) sub unfolding names_ok_def by (metis not_None_eq)
  have "resumable H g q ?w" if "q \<in> set ids" for q
    using inv names_ids_free [OF names] assms(3) that by (simp add: resumable_def file_at_removed)
  then show ?thesis using inv names assms(3) by (simp add: batch_ok_def)
qed

lemma prepare_ready:
  assumes "startable A H g ids w"
  shows "\<exists>w1. prepare_run A t ids w = (Inr (), w1) \<and> batch_ok H g ids w1 \<and> file_at w1 manifest_file = Some t
    \<and> (\<forall>p. p \<noteq> manifest_file \<longrightarrow> file_at w1 p = None \<or> file_at w1 p = file_at w p)
    \<and> (ra_force_rerun A \<longrightarrow> (\<forall>q \<in> set ids. \<forall>p. path_task p = Some q \<longrightarrow> file_at w1 p = None))"
proof -
  define w0 where "w0 = (if ra_force_rerun A then fold remove_task ids w else w)"
  have "for_each (\<lambda>qid. update_w (remove_task qid)) ids w = (Inr (), fold remove_task ids w)"
    by (rule for_each_pure) simp
  then have run: "prepare_run A t ids w = (Inr (), write_text manifest_file t w0)"
    by (simp add: prepare_run_def thn_def bnd_def write_file_def w0_def)
  have "batch_ok H g ids w0"
    using assms removed_batch [of H w ids g] by (auto simp: startable_def w0_def batch_ok_def)
  then have "batch_ok H g ids (write_text manifest_file t w0)"
    by (rule quiet_batch) (auto intro: write_file_quiet)
  moreover have "file_at (write_text manifest_file t w0) p = file_at w0 p" if "p \<noteq> manifest_file" for p
    using that by (simp add: write_text_def file_at_def update_conv')
  moreover have "path_task manifest_file = None" by simp
  ultimately show ?thesis using run by (auto simp: w0_def file_at_removed)
qed

section \<open>What a run leaves\<close>

lemma run_commandE:
  assumes "run_command M env A p w = (Inr (Finished rs), w')" "plan_run M env A p = Inr pl"
  obtains tasks rid c s w1 where "fst (loaded (rm_machine M) (rp_config pl) (rp_ids pl) []) = Inr tasks"
    "prepare_run A (plan_manifest M pl rid) (rp_ids pl) w = (Inr (), w1)"
    "run_batch (batch_of M A pl rid c s) (task_map tasks) (rp_ids pl) w1 = (Inr rs, w')"
  using assms by (auto simp: run_command_def start_run_def io_simps split: if_splits)

lemma batch_of_fields [simp]:
  "host_of (batch_of M A pl rid c s) = rm_host M" "bt_compiled (batch_of M A pl rid c s) = rp_compiled pl"
  "bt_dump_result (batch_of M A pl rid c s) = rm_dump_result M"
  "ctx_task_id (task_context (batch_of M A pl rid c s) q) = q"
  by (simp_all add: batch_of_def)

lemma planned_sound:
  assumes "pydantic_ok (pyd (rm_plat M))" "plan_run M env A p = Inr pl"
  shows "setup_sound (batch_of M A pl rid c s)"
  by (rule plan_runE [OF assms(2)]) (use assms(1) compiled_distinct(1,2) in \<open>auto simp: sound_setup_def\<close>)

lemma run_leaves:
  assumes "pydantic_ok (pyd (rm_plat M))" "plan_run M env A p = Inr pl" "distinct (rp_ids pl)"
    and start: "startable A (rm_host M) (graph (rp_compiled pl)) (rp_ids pl) w"
    and run: "run_command M env A p w = (Inr (Finished rs), w')"
  shows "map fst rs = rp_ids pl"
    and "\<And>q r. (q, r) \<in> set rs \<Longrightarrow> (case r of
        Some res \<Rightarrow> file_at w' (result_file q) = Some (rm_dump_result M res) \<and> frozen (final_state res)
          \<and> run_inv (rm_host M) (graph (rp_compiled pl)) q (final_state res) w'
      | None \<Rightarrow> file_at w' (failure_file q) \<noteq> None)"
    and "\<exists>rid. file_at w' manifest_file = Some (plan_manifest M pl rid)"
    and "\<And>q n. q \<notin> set (rp_ids pl) \<Longrightarrow> file_at w (TaskFile q n) = None \<Longrightarrow> file_at w' (TaskFile q n) = None"
proof -
  obtain tasks rid c s w1 where r: "prepare_run A (plan_manifest M pl rid) (rp_ids pl) w = (Inr (), w1)"
      "run_batch (batch_of M A pl rid c s) (task_map tasks) (rp_ids pl) w1 = (Inr rs, w')"
    by (rule run_commandE [OF run assms(2)])
  let ?B = "batch_of M A pl rid c s"
  have S: "setup_sound ?B" by (rule planned_sound [OF assms(1,2)])
  have w1: "batch_ok (host_of ?B) (graph_of ?B) (rp_ids pl) w1" "file_at w1 manifest_file = Some (plan_manifest M pl rid)"
    "\<And>p. p \<noteq> manifest_file \<Longrightarrow> file_at w1 p = None \<or> file_at w1 p = file_at w p"
    using prepare_ready [OF start, of "plan_manifest M pl rid"] r(1) by auto
  note out = run_batch_outcome [OF S assms(3) w1(1) r(2)] run_batch_files [OF S assms(3) w1(1) r(2)]
  show "map fst rs = rp_ids pl" by (rule out(2))
  show "case r of
        Some res \<Rightarrow> file_at w' (result_file q) = Some (rm_dump_result M res) \<and> frozen (final_state res)
          \<and> run_inv (rm_host M) (graph (rp_compiled pl)) q (final_state res) w'
      | None \<Rightarrow> file_at w' (failure_file q) \<noteq> None" if "(q, r) \<in> set rs" for q r
    using out(3) [OF that] by (cases r) (simp_all add: outcome_ok_def)
  show "\<exists>rid. file_at w' manifest_file = Some (plan_manifest M pl rid)" using out(4) w1(2) by auto
  show "file_at w' (TaskFile q n) = None" if "q \<notin> set (rp_ids pl)" "file_at w (TaskFile q n) = None" for q n
  proof -
    have "file_at w' (TaskFile q n) = file_at w1 (TaskFile q n)"
      by (rule out(4) [rule_format]) (use that(1) in auto)
    then show ?thesis using w1(3) [of "TaskFile q n"] that(2) by auto
  qed
qed

text \<open>The evaluation of a finished run works with the configuration and the manifest of the plan.\<close>

definition plan_writable :: "run_machine \<Rightarrow> run_plan \<Rightarrow> bool" where
  "plan_writable M pl \<longleftrightarrow> (\<forall>rid. writable (float_repr (rm_plat M))
     (run_manifest (rm_plat M) rid (rp_config pl) (rp_manifest pl) (graph (rp_compiled pl)) (plan_digest M pl)))"

definition plan_record :: "run_plan \<Rightarrow> run_record" where
  "plan_record pl = \<lparr>rr_config = rp_config pl, rr_ids = map me_question_id (mf_entries (rp_manifest pl)),
     rr_commit = mf_commit (rp_manifest pl), rr_graph_id = graph_id (graph (rp_compiled pl))\<rparr>"

lemma run_then_evaluate:
  assumes "pydantic_ok (pyd (rm_plat M))" "plan_run M env A p = Inr pl" "plan_writable M pl"
    and "file_at w' manifest_file = Some (plan_manifest M pl rid)"
  shows "evaluate_command (rm_machine M) w' =
    bnd (lift (evaluation_setup (rm_machine M) (plan_record pl))) (\<lambda>J. evaluate_run J (rr_ids (plan_record pl))) w'"
proof -
  have "wf_config (rp_config pl)" by (rule plan_runE [OF assms(2)])
  from evaluate_reads_run [OF assms(1) this _ assms(4) [unfolded plan_manifest_def]] show ?thesis
    using assms(3) by (simp add: plan_writable_def plan_record_def)
qed

lemma partial_run_not_evaluated:
  assumes "pydantic_ok (pyd (rm_plat M))" "plan_run M env A p = Inr pl" "plan_writable M pl"
    and "file_at w' manifest_file = Some (plan_manifest M pl rid)"
    and "q \<in> set (rr_ids (plan_record pl))" "file_at w' (result_file q) = None"
  shows "\<exists>e w2. evaluate_command (rm_machine M) w' = (Inl e, w2) \<and> only_verdicts w' w2"
proof -
  have "wf_config (rp_config pl)" by (rule plan_runE [OF assms(2)])
  from evaluate_partial [OF assms(1) this _ assms(4) [unfolded plan_manifest_def] _ assms(6)] show ?thesis
    using assms(3,5) by (simp add: plan_writable_def plan_record_def)
qed

end
