(* ===== verification/Summary.thy ===== *)
theory Summary
  imports Final_Evaluation
begin

text \<open>
  The figures of a run (\<open>telemetry/summary.py\<close>), read back from the files of its tasks and its
  event log. Every file is parsed JSON of any shape, so each lookup and each addition can raise.
  Numbers are summed the way the interpreter does it: integers exactly, floats with one rounding
  for each addition.
\<close>

section \<open>Sums of numbers\<close>

datatype py_num = NInt int | NFloat py_float

fun as_num :: "json \<Rightarrow> py_num option" where
  "as_num (JBool b) = Some (NInt (if b then 1 else 0))"
| "as_num (JInt i) = Some (NInt i)"
| "as_num (JFloat x) = Some (NFloat x)"
| "as_num _ = None"

text \<open>An integer that meets a float is converted first, which rounds.\<close>

fun num_float :: "py_num \<Rightarrow> py_float" where
  "num_float (NInt i) = round53 (of_int i)"
| "num_float (NFloat x) = x"

fun num_add :: "py_num \<Rightarrow> py_num \<Rightarrow> py_num" where
  "num_add (NInt a) (NInt b) = NInt (a + b)"
| "num_add a b = NFloat (fl_add (num_float a) (num_float b))"

fun num_div :: "py_num \<Rightarrow> nat \<Rightarrow> py_float" where
  "num_div (NInt a) n = py_truediv a (int n)"
| "num_div (NFloat x) n = fl_div x (of_nat n)"

fun num_json :: "py_num \<Rightarrow> json" where
  "num_json (NInt i) = JInt i"
| "num_json (NFloat x) = JFloat x"

text \<open>\<open>total + v\<close> and \<open>sum(values)\<close>.\<close>

definition add_value :: "py_num \<Rightarrow> json \<Rightarrow> py_num res" where
  "add_value s v =
     from_option (type_error (''unsupported operand type(s) for +: '' @ py_type_name (num_json s) @ '' and '' @ py_type_name v))
       (map_option (num_add s) (as_num v))"

fun sum_from :: "py_num \<Rightarrow> json list \<Rightarrow> py_num res" where
  "sum_from s [] = Inr s"
| "sum_from s (v # vs) = rbind (add_value s v) (\<lambda>s'. sum_from s' vs)"

text \<open>\<open>_mean\<close>.\<close>

definition mean_of :: "json list \<Rightarrow> json res" where
  "mean_of vs =
     (if vs = [] then Inr JNull
      else rbind (sum_from (NInt 0) vs) (\<lambda>s. Inr (JFloat (num_div s (length vs)))))"

definition bool_float :: "bool \<Rightarrow> json" where
  "bool_float b = JFloat (if b then 1 else 0)"

section \<open>The files of a task\<close>

text \<open>The lists and counters of \<open>summarize_run\<close>, in the order of its initialisation.\<close>

record figures =
  fg_hidden :: "bool list"
  fg_initial :: "json list"
  fg_repaired :: "json list"
  fg_compiled :: "bool list"
  fg_wall :: "json list"
  fg_node :: "json list"
  fg_critical :: "json list"
  fg_speedup :: "json list"
  fg_failed :: py_num
  fg_skipped :: py_num
  fg_checkpoints :: py_num

definition no_figures :: figures where
  "no_figures = \<lparr>fg_hidden = [], fg_initial = [], fg_repaired = [], fg_compiled = [], fg_wall = [], fg_node = [],
     fg_critical = [], fg_speedup = [], fg_failed = NInt 0, fg_skipped = NInt 0, fg_checkpoints = NInt 0\<rparr>"

definition add_evaluation :: "world \<Rightarrow> string \<Rightarrow> figures \<Rightarrow> figures res" where
  "add_evaluation w q F =
     (case file_at w (evaluation_file q) of
        None \<Rightarrow> Inr F
      | Some body \<Rightarrow>
          rbind (json_loads body) (\<lambda>v.
          rbind (py_item v ''passed'') (\<lambda>p.
            Inr (F\<lparr>fg_hidden := fg_hidden F @ [py_truthy p]\<rparr>))))"

definition add_run_result :: "json \<Rightarrow> figures \<Rightarrow> figures res" where
  "add_run_result v F =
     rbind (py_item v ''wall_latency_ms'') (\<lambda>wall.
     rbind (py_item v ''sum_node_latency_ms'') (\<lambda>node.
     rbind (py_item v ''critical_path_latency_ms'') (\<lambda>crit.
     rbind (py_item v ''concurrency_speedup'') (\<lambda>speed.
     rbind (rbind (py_item v ''failed_node_count'') (add_value (fg_failed F))) (\<lambda>failed.
     rbind (rbind (py_item v ''skipped_node_count'') (add_value (fg_skipped F))) (\<lambda>skipped.
     rbind (rbind (rbind (py_item v ''state'') (\<lambda>s. py_item s ''checkpoint_count'')) (add_value (fg_checkpoints F))) (\<lambda>saved.
       Inr (F\<lparr>fg_wall := fg_wall F @ [wall], fg_node := fg_node F @ [node], fg_critical := fg_critical F @ [crit],
              fg_speedup := fg_speedup F @ [speed], fg_failed := failed, fg_skipped := skipped,
              fg_checkpoints := saved\<rparr>))))))))"

definition add_result :: "world \<Rightarrow> string \<Rightarrow> figures \<Rightarrow> figures res" where
  "add_result w q F =
     (case file_at w (result_file q) of
        None \<Rightarrow> Inr F
      | Some body \<Rightarrow> rbind (json_loads body) (\<lambda>v. add_run_result v F))"

text \<open>The artifacts of a task in the order the directory lists them.\<close>

definition artifact_texts :: "world \<Rightarrow> string \<Rightarrow> string list" where
  "artifact_texts w q =
     concat (map (\<lambda>(p, t). case p of ArtifactFile tk _ \<Rightarrow> if tk = q then [t] else [] | _ \<Rightarrow> []) (fs w))"

definition is_harness_result :: "json \<Rightarrow> bool res" where
  "is_harness_result v =
     rbind (py_get v ''artifact_type'' JNull) (\<lambda>ty. Inr (ty = JStr ''PublicHarnessResultArtifact''))"

text \<open>
  \<open>sort(key=\<dots>)\<close> on the stamps: text sorts as text and numbers as numbers; any other
  comparison is taken to raise (an envelope's stamp is always text).
\<close>

definition sort_by_stamp :: "(json \<times> json) list \<Rightarrow> (json \<times> json) list res" where
  "sort_by_stamp kvs =
     (if length kvs \<le> 1 then Inr kvs
      else if \<forall>(k, v) \<in> set kvs. \<exists>s. k = JStr s
      then Inr (sort_key (\<lambda>(k, v). case k of JStr s \<Rightarrow> s | _ \<Rightarrow> []) kvs)
      else if \<forall>(k, v) \<in> set kvs. as_num k \<noteq> None
      then Inr (sort_key (\<lambda>(k, v). case as_num k of Some (NInt i) \<Rightarrow> of_int i | Some (NFloat x) \<Rightarrow> x | None \<Rightarrow> 0) kvs)
      else Inl (type_error ''not supported between these instances''))"

definition harness_artifacts :: "world \<Rightarrow> string \<Rightarrow> json list res" where
  "harness_artifacts w q =
     rbind (rmap json_loads (artifact_texts w q)) (\<lambda>vs.
     rbind (rfilter is_harness_result vs) (\<lambda>hs.
     rbind (rmap (\<lambda>h. rbind (py_item h ''created_at'') (\<lambda>k. Inr (k, h))) hs) (\<lambda>kvs.
     rbind (sort_by_stamp kvs) (\<lambda>sorted. Inr (map snd sorted)))))"

definition add_public :: "json list \<Rightarrow> figures \<Rightarrow> figures res" where
  "add_public hs F =
     rbind (if hs = [] then Inr F
       else rbind (py_item (hd hs) ''payload'') (\<lambda>first.
            rbind (py_item first ''pass_ratio'') (\<lambda>ratio.
            rbind (py_item first ''compile_success'') (\<lambda>compiled.
              Inr (F\<lparr>fg_initial := fg_initial F @ [ratio], fg_compiled := fg_compiled F @ [py_truthy compiled]\<rparr>)))))
       (\<lambda>F'. if length hs \<le> 1 then Inr F'
        else rbind (rbind (py_item (last hs) ''payload'') (\<lambda>p. py_item p ''pass_ratio'')) (\<lambda>ratio.
             Inr (F'\<lparr>fg_repaired := fg_repaired F' @ [ratio]\<rparr>)))"

definition add_task :: "world \<Rightarrow> string \<Rightarrow> figures \<Rightarrow> figures res" where
  "add_task w q F =
     rbind (add_evaluation w q F) (\<lambda>F1.
     rbind (add_result w q F1) (\<lambda>F2.
     rbind (harness_artifacts w q) (\<lambda>hs. add_public hs F2)))"

fun add_tasks :: "world \<Rightarrow> string list \<Rightarrow> figures \<Rightarrow> figures res" where
  "add_tasks w [] F = Inr F"
| "add_tasks w (q # qs) F = rbind (add_task w q F) (add_tasks w qs)"

text \<open>The directories under \<open>tasks\<close>, sorted; a directory is there when it has a file.\<close>

definition task_names :: "world \<Rightarrow> string list" where
  "task_names w = sort (remdups (List.map_filter (\<lambda>(p, t). path_task p) (fs w)))"

section \<open>The event log\<close>

record tokens =
  tk_prompt :: int
  tk_completion :: int
  tk_costs :: "json list"
  tk_parse_failures :: nat
  tk_node_events :: nat

definition no_tokens :: tokens where
  "no_tokens = \<lparr>tk_prompt = 0, tk_completion = 0, tk_costs = [], tk_parse_failures = 0, tk_node_events = 0\<rparr>"

text \<open>\<open>float(v)\<close>; the text of a number is read by the parameter.\<close>

fun py_float_of :: "(string \<Rightarrow> py_float option) \<Rightarrow> json \<Rightarrow> py_float res" where
  "py_float_of rd (JBool b) = Inr (if b then 1 else 0)"
| "py_float_of rd (JInt i) = Inr (round53 (of_int i))"
| "py_float_of rd (JFloat x) = Inr x"
| "py_float_of rd (JStr s) = from_option (value_error (''could not convert string to float: '' @ repr_string s)) (rd s)"
| "py_float_of rd v = Inl (type_error (''float() argument must be a string or a real number, not ''
     @ CHR 0x27 # py_type_name v @ [CHR 0x27]))"

text \<open>\<open>v in {"NODE_COMPLETED", "NODE_FAILED"}\<close> hashes the value first.\<close>

definition is_node_event :: "json \<Rightarrow> bool res" where
  "is_node_event v =
     (case v of
        JList _ \<Rightarrow> Inl (type_error (''unhashable type: '' @ CHR 0x27 # ''list'' @ [CHR 0x27]))
      | JObj _ \<Rightarrow> Inl (type_error (''unhashable type: '' @ CHR 0x27 # ''dict'' @ [CHR 0x27]))
      | _ \<Rightarrow> Inr (v = JStr ''NODE_COMPLETED'' \<or> v = JStr ''NODE_FAILED''))"

definition mentions_parse :: "(py_float \<Rightarrow> string) \<Rightarrow> json \<Rightarrow> bool res" where
  "mentions_parse fr ev =
     rbind (py_get ev ''metadata'' JNull) (\<lambda>m.
     rbind (py_get (py_or m (JObj [])) ''error'' (JStr [])) (\<lambda>e.
       Inr (contains ''parse'' (py_lower (py_str fr e)))))"

definition event_tokens :: "json \<Rightarrow> string \<Rightarrow> int res" where
  "event_tokens ev k = rbind (py_get ev k JNull) (\<lambda>v. py_int (py_or v (JInt 0)))"

definition count_node_event ::
  "(py_float \<Rightarrow> string) \<Rightarrow> (string \<Rightarrow> py_float option) \<Rightarrow> json \<Rightarrow> tokens \<Rightarrow> tokens res" where
  "count_node_event fr rd ev T =
     rbind (event_tokens ev ''prompt_tokens'') (\<lambda>p.
     rbind (event_tokens ev ''completion_tokens'') (\<lambda>c.
     rbind (py_get ev ''estimated_cost_usd'' JNull) (\<lambda>cost.
     rbind (if cost = JNull then Inr [] else rbind (py_float_of rd cost) (\<lambda>x. Inr [JFloat x])) (\<lambda>costs.
     rbind (mentions_parse fr ev) (\<lambda>bad.
       Inr \<lparr>tk_prompt = tk_prompt T + p, tk_completion = tk_completion T + c, tk_costs = tk_costs T @ costs,
            tk_parse_failures = tk_parse_failures T + (if bad then 1 else 0),
            tk_node_events = tk_node_events T + 1\<rparr>)))))"

definition count_line ::
  "(py_float \<Rightarrow> string) \<Rightarrow> (string \<Rightarrow> py_float option) \<Rightarrow> string \<Rightarrow> tokens \<Rightarrow> tokens res" where
  "count_line fr rd body T =
     rbind (json_loads body) (\<lambda>ev.
     rbind (rbind (py_item ev ''event_type'') is_node_event) (\<lambda>node.
       if node then count_node_event fr rd ev T else Inr T))"

fun count_lines ::
  "(py_float \<Rightarrow> string) \<Rightarrow> (string \<Rightarrow> py_float option) \<Rightarrow> string list \<Rightarrow> tokens \<Rightarrow> tokens res" where
  "count_lines fr rd [] T = Inr T"
| "count_lines fr rd (l # ls) T = rbind (count_line fr rd l T) (count_lines fr rd ls)"

text \<open>\<open>events.jsonl\<close>: every event's text and a newline.\<close>

definition log_text :: "(event \<Rightarrow> string) \<Rightarrow> event list \<Rightarrow> string" where
  "log_text dump es = concat (map (\<lambda>e. dump e @ [CHR 0x0A]) es)"

section \<open>The summary\<close>

record summary_host =
  sh_repr :: "py_float \<Rightarrow> string"
  sh_read_float :: "string \<Rightarrow> py_float option"
  sh_dump_event :: "event \<Rightarrow> string"

definition ratio_json :: "nat \<Rightarrow> nat \<Rightarrow> json" where
  "ratio_json a n = JFloat (if n = 0 then 0 else py_truediv (int a) (int n))"

definition summary_of :: "nat \<Rightarrow> figures \<Rightarrow> tokens \<Rightarrow> json dict res" where
  "summary_of tasks F T =
     rbind (mean_of (map bool_float (fg_hidden F))) (\<lambda>hidden.
     rbind (mean_of (fg_initial F)) (\<lambda>before.
     rbind (mean_of (fg_repaired F)) (\<lambda>later.
     rbind (mean_of (map bool_float (fg_compiled F))) (\<lambda>compiled.
     rbind (if tk_costs T = [] then Inr JNull else rbind (sum_from (NInt 0) (tk_costs T)) (\<lambda>s. Inr (num_json s))) (\<lambda>cost.
     rbind (mean_of (fg_wall F)) (\<lambda>wall.
     rbind (mean_of (fg_node F)) (\<lambda>node.
     rbind (mean_of (fg_critical F)) (\<lambda>crit.
     rbind (mean_of (fg_speedup F)) (\<lambda>speed.
       Inr [(''number_of_tasks'', JInt (int tasks)),
            (''evaluated_tasks'', JInt (int (length (fg_hidden F)))),
            (''hidden_pass@1'', hidden),
            (''public_pass_before_repair'', before),
            (''public_pass_after_repair'', later),
            (''compile_success_rate'', compiled),
            (''total_prompt_tokens'', JInt (tk_prompt T)),
            (''total_completion_tokens'', JInt (tk_completion T)),
            (''total_model_cost_usd'', cost),
            (''parse_failure_rate'', ratio_json (tk_parse_failures T) (tk_node_events T)),
            (''average_graph_wall_latency_ms'', wall),
            (''average_sum_node_latency_ms'', node),
            (''average_critical_path_latency_ms'', crit),
            (''average_concurrency_speedup'', speed),
            (''failed_node_count'', num_json (fg_failed F)),
            (''skipped_node_count'', num_json (fg_skipped F)),
            (''checkpoint_count'', num_json (fg_checkpoints F))])))))))))"

text \<open>A line of the CSV file: numbers as they print, nothing for \<open>None\<close>.\<close>

definition csv_line :: "(py_float \<Rightarrow> string) \<Rightarrow> string \<times> json \<Rightarrow> string" where
  "csv_line fr kv = fst kv @ '','' @ (if snd kv = JNull then [] else py_str fr (snd kv)) @ [CHR 0x0D, CHR 0x0A]"

definition csv_text :: "(py_float \<Rightarrow> string) \<Rightarrow> json dict \<Rightarrow> string" where
  "csv_text fr s = concat (map (csv_line fr) ((''metric'', JStr ''value'') # s))"

definition summarize_run :: "summary_host \<Rightarrow> (world, json dict) io" where
  "summarize_run S w =
     (case rbind (add_tasks w (task_names w) no_figures) (\<lambda>F.
           rbind (if log w = [] then Inr no_tokens
             else count_lines (sh_repr S) (sh_read_float S) (split_lines (log_text (sh_dump_event S) (log w))) no_tokens) (\<lambda>T.
             summary_of (length (task_names w)) F T)) of
        Inl e \<Rightarrow> (Inl e, w)
      | Inr s \<Rightarrow>
          thn (write_file (RunFile ''summary.json'') (dumps_indent ascii_json_string (sh_repr S) 0 (JObj s)))
          (thn (write_file (RunFile ''summary.csv'') (csv_text (sh_repr S) s)) (ret s)) w)"

section \<open>Means of verdicts\<close>

lemma sum_bools:
  "\<bar>k\<bar> + int (length bs) < 2 ^ 53 \<Longrightarrow>
     sum_from (NFloat (of_int k)) (map bool_float bs) = Inr (NFloat (of_int (k + int (length (filter id bs)))))"
proof (induction bs arbitrary: k)
  case (Cons b bs)
  let ?k = "k + (if b then 1 else 0)"
  have "fl_add (of_int k) (if b then 1 else 0) = round53 (of_int ?k)" by (simp add: fl_add_def)
  also have "\<dots> = of_int ?k" using Cons.prems by (intro round53_of_int) auto
  finally have add: "add_value (NFloat (of_int k)) (bool_float b) = Inr (NFloat (of_int ?k))"
    by (simp add: add_value_def bool_float_def)
  have "\<bar>?k\<bar> + int (length bs) < 2 ^ 53" using Cons.prems by auto
  from Cons.IH [OF this] show ?case by (auto simp: add)
qed simp

lemma sum_bools_start: "sum_from (NInt 0) (map bool_float bs) = (if bs = [] then Inr (NInt 0) else sum_from (NFloat (of_int 0)) (map bool_float bs))"
  by (cases bs) (simp_all add: add_value_def bool_float_def)

lemma mean_of_verdicts:
  assumes "bs \<noteq> []" "int (length bs) < 2 ^ 53"
  shows "mean_of (map bool_float bs) = Inr (JFloat (py_truediv (int (length (filter id bs))) (int (length bs))))"
  using sum_bools [of 0 bs] assms
  by (simp add: mean_of_def sum_bools_start fl_div_def py_truediv_def)

section \<open>The log is read line by line\<close>

lemma split_lines_from_line:
  "\<forall>c \<in> set l. \<not> line_break c \<Longrightarrow>
     split_lines_from acc (l @ CHR 0x0A # rest) = (rev acc @ l) # split_lines_from [] rest"
proof (induction l arbitrary: acc)
  case Nil
  show ?case by (cases rest) (simp_all add: line_break_def)
next
  case (Cons c l)
  have c: "\<not> line_break c" "\<forall>d \<in> set l. \<not> line_break d" using Cons.prems by auto
  then have "c \<noteq> CHR 0x0D" by (auto simp: line_break_def)
  then have "split_lines_from acc ((c # l) @ CHR 0x0A # rest) = split_lines_from (c # acc) (l @ CHR 0x0A # rest)"
    using c(1) by (cases l) simp_all
  then show ?case using Cons.IH [OF c(2)] by simp
qed

lemma split_lines_log:
  "\<forall>e \<in> set es. \<forall>c \<in> set (dump e). \<not> line_break c \<Longrightarrow> split_lines (log_text dump es) = map dump es"
  unfolding split_lines_def log_text_def
  by (induction es) (simp_all add: split_lines_from_line)

lemma count_line_bound:
  "count_line fr rd l T = Inr T' \<Longrightarrow> tk_parse_failures T \<le> tk_node_events T \<Longrightarrow> tk_parse_failures T' \<le> tk_node_events T'"
  by (auto simp: count_line_def count_node_event_def res_simps split: if_splits)

lemma count_lines_bound:
  "count_lines fr rd ls T = Inr T' \<Longrightarrow> tk_parse_failures T \<le> tk_node_events T \<Longrightarrow> tk_parse_failures T' \<le> tk_node_events T'"
  by (induction ls arbitrary: T) (auto simp: res_simps dest: count_line_bound)

text \<open>Which lines are counted, when every line is the text of a known object.\<close>

lemma count_lines_nodes:
  assumes "\<And>e. json_loads (dump e) = Inr (JObj (obj e))" "\<And>e. dget (obj e) ''event_type'' = Some (JStr (event_type e))"
  shows "count_lines fr rd (map dump es) T = Inr T' \<Longrightarrow> tk_node_events T' =
    tk_node_events T + length (filter (\<lambda>e. event_type e \<in> {''NODE_COMPLETED'', ''NODE_FAILED''}) es)"
proof (induction es arbitrary: T)
  case (Cons e es)
  then obtain T1 where T1: "count_line fr rd (dump e) T = Inr T1" "count_lines fr rd (map dump es) T1 = Inr T'"
    by (auto simp: res_simps)
  have "tk_node_events T1 = tk_node_events T + (if event_type e \<in> {''NODE_COMPLETED'', ''NODE_FAILED''} then 1 else 0)"
    using T1(1) assms by (auto simp: count_line_def is_node_event_def count_node_event_def dindex_def res_simps split: if_splits)
  then show ?case using Cons.IH [OF T1(2)] by auto
qed simp

section \<open>The summary of an evaluated batch\<close>

text \<open>Every evaluation on disk was written by this command.\<close>

definition own_verdicts :: "evaluation_job \<Rightarrow> world \<Rightarrow> bool" where
  "own_verdicts J w \<longleftrightarrow> (\<forall>q body. file_at w (evaluation_file q) = Some body \<longrightarrow> (\<exists>fe. body = vj_dump J fe))"

lemma evaluate_task_own:
  assumes "own_verdicts J w" "evaluate_task J q w = (Inr x, w')"
  shows "own_verdicts J w'"
proof -
  obtain st code n where v: "verdict_for J st q code w = (Inr n, w')"
    using assms(2) by (auto simp: evaluate_task_def io_simps read_file_def get_artifact_def)
  show ?thesis
  proof (cases "file_at w (evaluation_file q)")
    case None
    then obtain fe l where "w' = (write_text (evaluation_file q) (vj_dump J fe) w)\<lparr>log := l\<rparr>"
      using v by (auto simp: verdict_for_def evaluate_new_def io_simps private_event_def write_file_def write_text_def)
    then show ?thesis using assms(1) by (auto simp: own_verdicts_def)
  qed (use v assms(1) in \<open>auto simp: verdict_for_def\<close>)
qed

lemma evaluate_all_own:
  "own_verdicts J w \<Longrightarrow> collect (evaluate_task J) ids w = (Inr rs, w') \<Longrightarrow> own_verdicts J w'"
proof (induction ids arbitrary: w rs)
  case (Cons q ids)
  then obtain x w1 rs' where "evaluate_task J q w = (Inr x, w1)" "collect (evaluate_task J) ids w1 = (Inr rs', w')"
    by (auto simp: bnd_eq_Inr)
  then show ?case using Cons.IH evaluate_task_own Cons.prems(1) by blast
qed simp

lemma add_public_hidden: "add_public hs F = Inr F' \<Longrightarrow> fg_hidden F' = fg_hidden F"
  by (auto simp: add_public_def res_simps split: if_splits)

lemma add_result_hidden: "add_result w q F = Inr F' \<Longrightarrow> fg_hidden F' = fg_hidden F"
  by (auto simp: add_result_def add_run_result_def res_simps split: option.splits)

lemma add_tasks_hidden:
  assumes "verdicts_kept J" "\<And>q. q \<in> set qs \<Longrightarrow> file_at w (evaluation_file q) = Some (vj_dump J (fe q))"
  shows "add_tasks w qs F = Inr F' \<Longrightarrow> fg_hidden F' = fg_hidden F @ map (\<lambda>q. fe_passed (fe q)) qs"
  using assms(2)
proof (induction qs arbitrary: F)
  case (Cons q qs)
  obtain d where d: "json_loads (vj_dump J (fe q)) = Inr (JObj d)" "dget d ''passed'' = Some (JBool (fe_passed (fe q)))"
    using assms(1) unfolding verdicts_kept_def by blast
  obtain F1 where F1: "add_task w q F = Inr F1" "add_tasks w qs F1 = Inr F'"
    using Cons.prems(1) by (auto simp: res_simps)
  then have "fg_hidden F1 = fg_hidden F @ [fe_passed (fe q)]"
    using Cons.prems(2) [of q] d add_public_hidden add_result_hidden
    by (fastforce simp: add_task_def add_evaluation_def dindex_def res_simps)
  then show ?case using Cons.IH [OF F1(2)] Cons.prems(2) by simp
qed simp

lemma evaluate_run_own:
  assumes "own_verdicts J w" "evaluate_run J ids w = (Inr s, w')"
  shows "own_verdicts J w'"
proof -
  obtain rs w1 body where "collect (evaluate_task J) ids w = (Inr rs, w1)" "w' = write_text (RunFile ''predictions.json'') body w1"
    using assms(2) by (auto simp: evaluate_run_def io_simps export_predictions_def write_file_def)
  then show ?thesis using evaluate_all_own [OF assms(1)] by (auto simp: own_verdicts_def)
qed

lemma summarize_InrD:
  assumes "summarize_run S w = (Inr s, w')"
  obtains F T where "add_tasks w (task_names w) no_figures = Inr F" "summary_of (length (task_names w)) F T = Inr s"
  using assms by (auto simp: summarize_run_def io_simps res_simps split: sum.splits)

lemma summary_of_hidden:
  assumes "summary_of n F T = Inr s"
  shows "mean_of (map bool_float (fg_hidden F)) = Inr v \<Longrightarrow> dget s ''hidden_pass@1'' = Some v"
    "dget s ''evaluated_tasks'' = Some (JInt (int (length (fg_hidden F))))"
    "dget s ''number_of_tasks'' = Some (JInt (int n))"
    "dget s ''parse_failure_rate'' = Some (ratio_json (tk_parse_failures T) (tk_node_events T))"
  using assms by (clarsimp simp: summary_of_def res_simps)+

lemma sum_list_verdicts: "sum_list (map (\<lambda>q. if P q then 1 else 0) qs) = int (length (filter id (map P qs)))"
  by (induction qs) auto

lemma count_permuted: "mset xs = mset ys \<Longrightarrow> length (filter id (map P xs)) = length (filter id (map P ys))"
  by (metis mset_filter mset_map size_mset)

text \<open>The score printed by the evaluation is the one the summary reads back.\<close>

lemma summary_agrees:
  assumes J: "verdicts_kept J" "own_verdicts J w" and run: "evaluate_run J ids w = (Inr (n, rate), w')"
    and ids: "distinct ids" "ids \<noteq> []" "int (length ids) < 2 ^ 53" "set (task_names w') = set ids"
    and S: "summarize_run S w' = (Inr s, w'')"
  shows "dget s ''hidden_pass@1'' = Some (JFloat rate)" "dget s ''evaluated_tasks'' = Some (JInt n)"
    "dget s ''number_of_tasks'' = Some (JInt n)"
proof -
  obtain vs where vs: "map (verdict_at w') ids = map Some vs" "n = int (length ids)"
      "rate = pass_rate (sum_list vs) (length ids)"
    using evaluate_run_score [OF J(1) run] by blast
  have "\<exists>fe. file_at w' (evaluation_file q) = Some (vj_dump J fe)" if "q \<in> set ids" for q
  proof -
    have "verdict_at w' q \<in> set (map Some vs)" using that by (simp flip: vs(1))
    then have "verdict_at w' q \<noteq> None" by auto
    then show ?thesis using evaluate_run_own [OF J(2) run] by (auto simp: verdict_at_def own_verdicts_def bind_eq_Some_conv)
  qed
  then obtain fe where fe: "\<And>q. q \<in> set ids \<Longrightarrow> file_at w' (evaluation_file q) = Some (vj_dump J (fe q))" by metis
  have at: "verdict_at w' q = Some (if fe_passed (fe q) then 1 else 0)" if "q \<in> set ids" for q
  proof -
    obtain d where "json_loads (vj_dump J (fe q)) = Inr (JObj d)" "dget d ''passed'' = Some (JBool (fe_passed (fe q)))"
      using J(1) unfolding verdicts_kept_def by blast
    then show ?thesis using fe [OF that] by (simp add: verdict_at_def stored_verdict_def dindex_def)
  qed
  have "map Some vs = map Some (map (\<lambda>q. if fe_passed (fe q) then 1 else 0) ids)"
    unfolding vs(1) [symmetric] by (simp add: at)
  then have "vs = map (\<lambda>q. if fe_passed (fe q) then 1 else 0) ids"
    by (simp only: inj_map_eq_map [OF inj_Some])
  then have score: "sum_list vs = int (length (filter id (map (\<lambda>q. fe_passed (fe q)) ids)))"
    by (simp only: sum_list_verdicts)
  have "distinct (task_names w')" by (simp add: task_names_def)
  then have names: "mset (task_names w') = mset ids"
    using ids(1,4) by (simp add: set_eq_iff_mset_eq_distinct)
  obtain F T where F: "add_tasks w' (task_names w') no_figures = Inr F" "summary_of (length (task_names w')) F T = Inr s"
    using summarize_InrD [OF S] .
  have hidden: "fg_hidden F = map (\<lambda>q. fe_passed (fe q)) (task_names w')"
    using add_tasks_hidden [OF J(1) _ F(1)] fe ids(4) by (simp add: no_figures_def)
  have len: "length (task_names w') = length ids" using names by (metis size_mset)
  have "task_names w' \<noteq> []" using ids(2,4) by auto
  then have mean: "mean_of (map bool_float (fg_hidden F)) = Inr (JFloat rate)"
    using mean_of_verdicts [of "fg_hidden F"] ids(2,3) len score vs(3) count_permuted [OF names, of "\<lambda>q. fe_passed (fe q)"]
    by (simp add: hidden pass_rate_def)
  show "dget s ''hidden_pass@1'' = Some (JFloat rate)" by (rule summary_of_hidden(1) [OF F(2) mean])
  show "dget s ''evaluated_tasks'' = Some (JInt n)" "dget s ''number_of_tasks'' = Some (JInt n)"
    using summary_of_hidden(2,3) [OF F(2)] vs(2) by (simp_all add: hidden len)
qed

end
