(* ===== verification/Run_Files.thy ===== *)
theory Run_Files
  imports Summary Run_Manifest
begin

text \<open>
  The JSON files of a run as pydantic writes and reads them: artifact envelopes
  (\<open>ir/artifacts.py\<close>), the state and the result of an execution (\<open>runtime/state.py\<close>), the
  evaluation of a task (\<open>adapters/livecodebench/final_evaluator.py\<close>) and the events of the log
  (\<open>telemetry/events.py\<close>). Reading what was written gives the value back, so the codecs that
  the other theories take as parameters can be these.

  \<open>D\<close> reads a \<open>datetime\<close> and writes it again, as in \<open>Worker_Protocol\<close>.
\<close>

section \<open>Dictionaries\<close>

definition dump_dict :: "('a \<Rightarrow> json) \<Rightarrow> 'a dict \<Rightarrow> json" where
  "dump_dict f d = JObj (map (\<lambda>(k, v). (k, f v)) d)"

lemma as_dict_dump_dict:
  assumes "\<And>v. v \<in> snd ` set d \<Longrightarrow> f (g v) = Some v"
  shows "as_dict f (dump_dict g d) = Some d"
proof -
  have "those (map ((\<lambda>(k, x). map_option (Pair k) (f x)) \<circ> (\<lambda>(k, v). (k, g v))) d) = Some d"
    using assms by (induction d) auto
  then show ?thesis by (simp add: as_dict_def dump_dict_def)
qed

section \<open>Envelopes\<close>

definition envelope_fields :: "string list" where
  "envelope_fields = [''artifact_id'', ''artifact_type'', ''schema_version'', ''producer_node_id'', ''task_id'',
     ''created_at'', ''payload'', ''parent_artifact_ids'', ''content_hash'']"

definition dump_artifact_envelope :: "envelope \<Rightarrow> json" where
  "dump_artifact_envelope e = JObj [(''artifact_id'', JStr (artifact_id e)), (''artifact_type'', JStr (artifact_type e)),
     (''schema_version'', JStr (envelope_version e)), (''producer_node_id'', JStr (producer_node_id e)),
     (''task_id'', JStr (env_task_id e)), (''created_at'', JStr (created_at e)), (''payload'', payload e),
     (''parent_artifact_ids'', JList (map JStr (parent_artifact_ids e))), (''content_hash'', JStr (content_hash e))]"

definition validate_artifact_envelope :: "pydantic \<Rightarrow> (json \<Rightarrow> string option) \<Rightarrow> json \<Rightarrow> envelope option" where
  "validate_artifact_envelope P D v = do {
     d \<leftarrow> as_obj v;
     _ \<leftarrow> only_keys envelope_fields d;
     i \<leftarrow> req d ''artifact_id'' (as_str P);
     ty \<leftarrow> req d ''artifact_type'' (as_str P);
     ver \<leftarrow> opt d ''schema_version'' (as_str P) ''1.0'';
     pr \<leftarrow> req d ''producer_node_id'' (as_str P);
     ta \<leftarrow> req d ''task_id'' (as_str P);
     cr \<leftarrow> req d ''created_at'' D;
     pa \<leftarrow> req d ''payload'' as_obj;
     ps \<leftarrow> opt d ''parent_artifact_ids'' (as_list (as_str P)) [];
     h \<leftarrow> req d ''content_hash'' (as_str P);
     Some \<lparr>artifact_id = i, artifact_type = ty, envelope_version = ver, producer_node_id = pr, env_task_id = ta,
       created_at = cr, payload = JObj pa, parent_artifact_ids = ps, content_hash = h\<rparr> }"

definition wf_envelope :: "(json \<Rightarrow> string option) \<Rightarrow> envelope \<Rightarrow> bool" where
  "wf_envelope D e \<longleftrightarrow> D (JStr (created_at e)) = Some (created_at e) \<and> as_obj (payload e) \<noteq> None"

lemma validate_envelope_dump:
  assumes "pydantic_ok P" "wf_envelope D e"
  shows "validate_artifact_envelope P D (dump_artifact_envelope e) = Some e"
proof -
  obtain pa where pa: "payload e = JObj pa"
    using assms(2) by (auto simp: wf_envelope_def as_obj_def split: json.splits)
  show ?thesis using assms
    by (simp add: validate_artifact_envelope_def dump_artifact_envelope_def envelope_fields_def field_simps_schema
        pa wf_envelope_def)
qed

text \<open>Every artifact that a node creates has such an envelope, when its time stamp is one.\<close>

lemma wf_created:
  "D (JStr (utc_now st)) = Some (utc_now st) \<Longrightarrow> wf_envelope D (create_artifact H st m producer task parents)"
  by (cases m)
    (simp_all add: wf_envelope_def create_artifact_def Let_def as_obj_def dump_problem_def dump_algorithm_plan_def
      dump_edge_case_def dump_combined_plan_def dump_code_def dump_failure_def dump_repair_input_def dump_repair_def
      dump_harness_result_def dump_final_code_def)

section \<open>States and results\<close>

definition all_statuses :: "node_status list" where
  "all_statuses = [Pending, Ready, Running, Succeeded, Failed, Skipped, Cancelled]"

definition as_status :: "json \<Rightarrow> node_status option" where
  "as_status v = (case v of
     JStr s \<Rightarrow> dget (map (\<lambda>st. (status_value st, st)) all_statuses) s
   | _ \<Rightarrow> None)"

lemma as_status_dump: "as_status (JStr (status_value st)) = Some st"
  by (cases st) (simp_all add: as_status_def all_statuses_def)

text \<open>A set is written in the order it is iterated in, which is \<open>ord\<close>, and read from any list.\<close>

definition as_set :: "pydantic \<Rightarrow> json \<Rightarrow> string set option" where
  "as_set P v = map_option set (as_list (as_str P) v)"

definition iterates :: "(string set \<Rightarrow> string list) \<Rightarrow> bool" where
  "iterates ord \<longleftrightarrow> (\<forall>s. finite s \<longrightarrow> set (ord s) = s)"

lemma as_set_dump:
  "pydantic_ok P \<Longrightarrow> iterates ord \<Longrightarrow> finite s \<Longrightarrow> as_set P (JList (map JStr (ord s))) = Some s"
  by (simp add: as_set_def iterates_def field_simps_schema)

definition dump_runtime_state :: "(string set \<Rightarrow> string list) \<Rightarrow> runtime_state \<Rightarrow> json" where
  "dump_runtime_state ord s = JObj [(''run_id'', JStr (run_id s)), (''task_id'', JStr (task_id s)),
     (''graph_id'', JStr (st_graph_id s)), (''graph_hash'', JStr (graph_hash s)),
     (''contract_hash'', JStr (contract_hash s)),
     (''node_status'', dump_dict (JStr \<circ> status_value) (node_status s)),
     (''node_outputs'', dump_dict (dump_dict JStr) (node_outputs s)),
     (''initial_artifacts'', dump_dict JStr (initial_artifacts s)),
     (''active_edges'', JList (map JStr (ord (active_edges s)))),
     (''inactive_edges'', JList (map JStr (ord (inactive_edges s)))),
     (''final_output_artifact_id'', dump_opt JStr (final_output_artifact_id s)), (''frozen'', JBool (frozen s)),
     (''wave_id'', JInt (wave_id s)), (''checkpoint_count'', JInt (checkpoint_count s)),
     (''node_latencies_ms'', dump_dict JInt (node_latencies_ms s))]"

definition validate_runtime_state :: "pydantic \<Rightarrow> json \<Rightarrow> runtime_state option" where
  "validate_runtime_state P v = do {
     d \<leftarrow> as_obj v;
     ru \<leftarrow> req d ''run_id'' (as_str P);
     ta \<leftarrow> req d ''task_id'' (as_str P);
     gi \<leftarrow> req d ''graph_id'' (as_str P);
     gh \<leftarrow> req d ''graph_hash'' (as_str P);
     ch \<leftarrow> req d ''contract_hash'' (as_str P);
     st \<leftarrow> req d ''node_status'' (as_dict as_status);
     out \<leftarrow> opt d ''node_outputs'' (as_dict (as_dict (as_str P))) [];
     ini \<leftarrow> opt d ''initial_artifacts'' (as_dict (as_str P)) [];
     act \<leftarrow> opt d ''active_edges'' (as_set P) {};
     ina \<leftarrow> opt d ''inactive_edges'' (as_set P) {};
     fin \<leftarrow> opt d ''final_output_artifact_id'' (as_opt (as_str P)) None;
     fr \<leftarrow> opt d ''frozen'' (as_bool P) False;
     wa \<leftarrow> opt d ''wave_id'' (as_int P) 0;
     cc \<leftarrow> opt d ''checkpoint_count'' (as_int P) 0;
     la \<leftarrow> opt d ''node_latencies_ms'' (as_dict (as_int P)) [];
     Some \<lparr>run_id = ru, task_id = ta, st_graph_id = gi, graph_hash = gh, contract_hash = ch, node_status = st,
       node_outputs = out, initial_artifacts = ini, active_edges = act, inactive_edges = ina,
       final_output_artifact_id = fin, frozen = fr, wave_id = wa, checkpoint_count = cc, node_latencies_ms = la\<rparr> }"

lemma validate_runtime_state_dump:
  assumes "pydantic_ok P" "iterates ord" "finite_edges s"
  shows "validate_runtime_state P (dump_runtime_state ord s) = Some s"
proof -
  have dicts: "as_dict as_status (dump_dict (JStr \<circ> status_value) (node_status s)) = Some (node_status s)"
    "as_dict (as_dict (as_str P)) (dump_dict (dump_dict JStr) (node_outputs s)) = Some (node_outputs s)"
    "as_dict (as_str P) (dump_dict JStr (initial_artifacts s)) = Some (initial_artifacts s)"
    "as_dict (as_int P) (dump_dict JInt (node_latencies_ms s)) = Some (node_latencies_ms s)"
    using assms(1) by (simp_all add: as_dict_dump_dict as_status_dump pydantic_simps)
  have "as_opt (as_str P) (dump_opt JStr (final_output_artifact_id s)) = Some (final_output_artifact_id s)"
    using assms(1) by (simp add: field_simps_schema)
  then show ?thesis using assms dicts
    by (simp add: validate_runtime_state_def dump_runtime_state_def read_defs pydantic_simps as_set_dump finite_edges_def)
qed

definition dump_graph_result :: "(string set \<Rightarrow> string list) \<Rightarrow> graph_result \<Rightarrow> json" where
  "dump_graph_result ord r = JObj [(''state'', dump_runtime_state ord (final_state r)),
     (''wall_latency_ms'', JInt (wall_latency_ms r)), (''sum_node_latency_ms'', JInt (sum_node_latency_ms r)),
     (''critical_path_latency_ms'', JInt (critical_path_latency_ms r)),
     (''parallel_node_count'', JInt (parallel_node_count r)),
     (''concurrency_speedup'', JFloat (concurrency_speedup r)), (''failed_node_count'', JInt (failed_node_count r)),
     (''skipped_node_count'', JInt (skipped_node_count r)), (''checkpoint_count'', JInt (res_checkpoint_count r))]"

section \<open>Evaluations\<close>

definition dump_evaluation :: "final_evaluation \<Rightarrow> json" where
  "dump_evaluation fe = JObj [(''schema_version'', JStr ''1.0''), (''question_id'', JStr (fe_question_id fe)),
     (''passed'', JBool (fe_passed fe)), (''evaluator_commit'', JStr (fe_evaluator_commit fe)),
     (''release_version'', JStr (fe_release_version fe)), (''pass_at_1'', JFloat (fe_pass_at_1 fe)),
     (''per_test_timeout_seconds'', JFloat (fe_per_test_timeout fe)),
     (''max_worker_wall_seconds'', JFloat (fe_max_worker_wall fe))]"

section \<open>The codecs of a run\<close>

text \<open>\<open>model_dump_json(indent=2)\<close> and \<open>model_validate_json\<close>.\<close>

definition dump_file :: "(py_float \<Rightarrow> string) \<Rightarrow> json \<Rightarrow> string" where
  "dump_file fr v = dumps_indent json_string fr 0 v"

lemma read_dump_file: "writable fr v \<Longrightarrow> read_model f (dump_file fr v) = f v"
  by (simp add: dump_file_def read_model_indented)

lemma json_loads_dump_file: "writable fr v \<Longrightarrow> json_loads (dump_file fr v) = Inr v"
  by (simp add: dump_file_def json_loads_indent)

definition json_run_host :: "platform \<Rightarrow> (json \<Rightarrow> string option) \<Rightarrow> (string set \<Rightarrow> string list) \<Rightarrow> host" where
  "json_run_host H D ord = \<lparr>plat = H,
     dump_envelope = (\<lambda>e. dump_file (float_repr H) (dump_artifact_envelope e)),
     load_envelope = read_model (validate_artifact_envelope (pyd H) D),
     dump_state = (\<lambda>s. dump_file (float_repr H) (dump_runtime_state ord s)),
     load_state = read_model (validate_runtime_state (pyd H))\<rparr>"

lemma json_host_envelope:
  assumes "pydantic_ok (pyd H)" "wf_envelope D e" "writable (float_repr H) (dump_artifact_envelope e)"
  shows "load_envelope (json_run_host H D ord) (dump_envelope (json_run_host H D ord) e) = Some e"
  using assms by (simp add: json_run_host_def read_dump_file validate_envelope_dump)

lemma json_host_state:
  assumes "pydantic_ok (pyd H)" "iterates ord" "finite_edges s" "writable (float_repr H) (dump_runtime_state ord s)"
  shows "load_state (json_run_host H D ord) (dump_state (json_run_host H D ord) s) = Some s"
  using assms by (simp add: json_run_host_def read_dump_file validate_runtime_state_dump)

text \<open>A stored artifact is read back from its text, and a checkpoint gives its state back.\<close>

lemma json_artifact_back:
  assumes "pydantic_ok (pyd H)" "wf_envelope D e" "writable (float_repr H) (dump_artifact_envelope e)"
    and "valid_artifact H e" "artifact_matches w (artifact_id e) = [dump_envelope (json_run_host H D ord) e]"
  shows "read_artifact (json_run_host H D ord) w (artifact_id e) = Inr e"
  using assms json_host_envelope [OF assms(1-3), of ord]
  by (auto simp: read_artifact_def parse_envelope_def valid_artifact_def json_run_host_def)

lemma update_new_key: "k \<notin> fst ` set al \<Longrightarrow> AList.update k v al = al @ [(k, v)]"
  by (induction al) auto

lemma matches_after_put:
  assumes "artifact_matches w (artifact_id a) = []"
  shows "file_at w (ArtifactFile (env_task_id a) (artifact_id a)) = None"
    and "artifact_matches (put_state H a w) (artifact_id a) = [dump_envelope H a]"
proof -
  let ?p = "ArtifactFile (env_task_id a) (artifact_id a)" and ?t = "ArtifactTmp (env_task_id a) (artifact_id a)"
  let ?named = "\<lambda>(p :: path, t :: string). case p of ArtifactFile _ i \<Rightarrow> i = artifact_id a | _ \<Rightarrow> False"
  have none: "filter ?named (fs w) = []" using assms by (simp add: artifact_matches_def)
  then have fresh: "?p \<notin> fst ` set (fs w)" by (fastforce simp: filter_empty_conv)
  then show "file_at w ?p = None" by (simp add: file_at_def map_of_eq_None_iff)
  have "fs (put_state H a w) = AList.update ?p (dump_envelope H a) (AList.delete ?t (fs w))"
    by (simp add: put_state_def write_via_tmp_def replace_file_def) (simp add: write_text_def AList.delete_update_same)
  also have "\<dots> = AList.delete ?t (fs w) @ [(?p, dump_envelope H a)]"
    by (rule update_new_key) (use fresh in \<open>auto simp: AList.delete_eq\<close>)
  finally have "filter ?named (fs (put_state H a w)) = filter ?named (AList.delete ?t (fs w)) @ [(?p, dump_envelope H a)]"
    by simp
  moreover have "filter ?named (AList.delete ?t (fs w)) = []"
    using none by (auto simp: filter_empty_conv AList.delete_eq)
  ultimately show "artifact_matches (put_state H a w) (artifact_id a) = [dump_envelope H a]"
    by (simp add: artifact_matches_def)
qed

text \<open>What is put under a free identifier is what a reader gets.\<close>

lemma json_put_get:
  assumes "pydantic_ok (pyd H)" "wf_envelope D e" "writable (float_repr H) (dump_artifact_envelope e)"
    and "valid_artifact H e" "artifact_matches w (artifact_id e) = []"
  shows "\<exists>w'. put_artifact (json_run_host H D ord) e w = (Inr (), w')
    \<and> get_artifact (json_run_host H D ord) (artifact_id e) w' = (Inr e, w')"
proof -
  let ?H = "json_run_host H D ord"
  have "plat ?H = H" by (simp add: json_run_host_def)
  then have "put_artifact ?H e w = (Inr (), put_state ?H e w)"
    using assms(4) matches_after_put(1) [OF assms(5)] by (auto simp: put_artifact_cases valid_artifact_def)
  moreover have "read_artifact ?H (put_state ?H e w) (artifact_id e) = Inr e"
    by (rule json_artifact_back [OF assms(1-4)]) (rule matches_after_put(2) [OF assms(5)])
  ultimately show ?thesis by (simp add: get_artifact_def)
qed

lemma json_checkpoint_back:
  assumes "pydantic_ok (pyd H)" "iterates ord" "finite_edges s" "writable (float_repr H) (dump_runtime_state ord s)"
  shows "read_checkpoint (json_run_host H D ord) (snd (save_checkpoint (json_run_host H D ord) s w)) (task_id s)
    (graph_hash s) (contract_hash s) drift = Inr (Some s)"
  using json_host_state [OF assms, of D] by (simp add: read_checkpoint_def)

text \<open>
  What the evaluation and the summary read in the other files: the state in a result, its
  latencies and counts, and the verdict of an evaluation.
\<close>

lemma json_result_state:
  assumes "pydantic_ok P" "iterates ord" "finite_edges (final_state r)" "vj_state_of J = validate_runtime_state P"
    and "writable fr (dump_graph_result ord r)"
  shows "state_in_result J (dump_file fr (dump_graph_result ord r)) = Inr (final_state r)"
  using validate_runtime_state_dump [OF assms(1-3)] assms(4,5)
  by (simp add: state_in_result_def json_loads_dump_file) (simp add: dump_graph_result_def dindex_def)

lemma json_result_figures:
  assumes "writable fr (dump_graph_result ord r)" "file_at w (result_file q) = Some (dump_file fr (dump_graph_result ord r))"
    and "fg_failed F = NInt a" "fg_skipped F = NInt b" "fg_checkpoints F = NInt c"
  shows "add_result w q F = Inr (F\<lparr>fg_wall := fg_wall F @ [JInt (wall_latency_ms r)],
    fg_node := fg_node F @ [JInt (sum_node_latency_ms r)],
    fg_critical := fg_critical F @ [JInt (critical_path_latency_ms r)],
    fg_speedup := fg_speedup F @ [JFloat (concurrency_speedup r)],
    fg_failed := NInt (a + failed_node_count r), fg_skipped := NInt (b + skipped_node_count r),
    fg_checkpoints := NInt (c + checkpoint_count (final_state r))\<rparr>)"
  using assms
  by (simp add: add_result_def json_loads_dump_file)
    (simp add: add_run_result_def dump_graph_result_def dump_runtime_state_def dindex_def add_value_def)

lemma json_evaluation_verdict:
  assumes "writable fr (dump_evaluation fe)"
  shows "\<exists>d. json_loads (dump_file fr (dump_evaluation fe)) = Inr (JObj d) \<and> dget d ''passed'' = Some (JBool (fe_passed fe))"
    and "stored_verdict (dump_file fr (dump_evaluation fe)) = Inr (if fe_passed fe then 1 else 0)"
  using json_loads_dump_file [OF assms] by (simp_all add: stored_verdict_def dump_evaluation_def dindex_def)

end
