(* ===== verification/Event_Log.thy ===== *)
theory Event_Log
  imports Run_Files
begin

text \<open>
  The event log as text (\<open>telemetry/events.py\<close>, \<open>storage/events.py\<close>) and the summary's reading of it
  (\<open>telemetry/summary.py\<close>). An event is one line of compact JSON; the summary splits the log with
  \<open>splitlines\<close>, which also splits at U+0085, a character that JSON text keeps as it is. Without
  that character the totals are exactly those of the events.
\<close>

section \<open>An event as text\<close>

definition dump_event :: "string \<Rightarrow> event \<Rightarrow> json" where
  "dump_event stamp e = JObj [(''timestamp'', JStr stamp), (''run_id'', JStr (ev_run_id e)),
     (''task_id'', dump_opt JStr (ev_task_id e)), (''graph_id'', JStr (ev_graph_id e)),
     (''event_type'', JStr (event_type e)), (''wave_id'', dump_opt JInt (ev_wave_id e)),
     (''node_id'', dump_opt JStr (ev_node_id e)), (''artifact_ids'', JList (map JStr (ev_artifact_ids e))),
     (''latency_ms'', dump_opt JInt (ev_latency_ms e)), (''prompt_tokens'', dump_opt JInt (ev_prompt_tokens e)),
     (''completion_tokens'', dump_opt JInt (ev_completion_tokens e)),
     (''estimated_cost_usd'', dump_opt JFloat (ev_estimated_cost_usd e)),
     (''status'', dump_opt JStr (ev_status e)), (''metadata'', JObj (ev_metadata e))]"

definition event_line :: "(py_float \<Rightarrow> string) \<Rightarrow> (event \<Rightarrow> string) \<Rightarrow> event \<Rightarrow> string" where
  "event_line fr stamp e = dumps fr (dump_event (stamp e) e)"

section \<open>Lines without a break\<close>

definition unbroken :: "string \<Rightarrow> bool" where
  "unbroken s \<longleftrightarrow> (\<forall>c \<in> set s. \<not> line_break c)"

lemma unbroken_simps [simp]:
  "unbroken []" "unbroken (c # s) \<longleftrightarrow> \<not> line_break c \<and> unbroken s"
  "unbroken (s @ t) \<longleftrightarrow> unbroken s \<and> unbroken t" "unbroken (concat ss) \<longleftrightarrow> (\<forall>s \<in> set ss. unbroken s)"
  by (auto simp: unbroken_def)

lemma unbroken_join: "unbroken sep \<Longrightarrow> (\<And>s. s \<in> set ss \<Longrightarrow> unbroken s) \<Longrightarrow> unbroken (join sep ss)"
  by (induction sep ss rule: join.induct) auto

lemma unbroken_digits: "unbroken (nat_digits n)"
  using nat_digits_digits [of n] by (force simp: unbroken_def list_all_iff is_digit_def line_break_def)

lemma unbroken_int: "unbroken (py_str_int i)"
  by (simp add: py_str_int_def unbroken_digits line_break_def)

text \<open>Of the characters at which \<open>splitlines\<close> breaks, JSON escapes all but U+0085.\<close>

lemma hex_digit_unbroken: "n < 16 \<Longrightarrow> \<not> line_break (hex_digit n)"
  by (simp add: hex_digit_def line_break_def)

lemma unbroken_esc: "c \<noteq> CHR 0x85 \<Longrightarrow> unbroken (esc_char c)"
proof -
  assume c: "c \<noteq> CHR 0x85"
  have "(of_char c :: nat) \<noteq> of_char (CHR 0x85)" using c by (simp only: of_char_eq_iff not_False_eq_True)
  then have "(of_char c :: nat) \<noteq> 133" by simp
  then show ?thesis
    using hex_digit_unbroken [of "of_char c div 16"] hex_digit_unbroken [of "of_char c mod 16"]
    by (auto simp: esc_char_def Let_def line_break_def)
qed

definition no_nel :: "string \<Rightarrow> bool" where
  "no_nel s \<longleftrightarrow> CHR 0x85 \<notin> set s"

lemma unbroken_string: "no_nel s \<Longrightarrow> unbroken (json_string s)"
  by (auto simp: json_string_def no_nel_def line_break_def intro!: unbroken_esc)

fun plain :: "(py_float \<Rightarrow> string) \<Rightarrow> json \<Rightarrow> bool" where
  "plain fr (JStr s) = no_nel s"
| "plain fr (JFloat x) = unbroken (fr x)"
| "plain fr (JList xs) = list_all (plain fr) xs"
| "plain fr (JObj d) = list_all (\<lambda>(k, v). no_nel k \<and> plain fr v) d"
| "plain fr _ = True"

lemma unbroken_dumps: "plain fr v \<Longrightarrow> unbroken (dumps fr v)"
proof (induction v)
  case (JList xs)
  then show ?case by (auto simp: list_all_iff line_break_def intro!: unbroken_join)
next
  case (JObj d)
  have "unbroken (dumps fr v)" "no_nel k" if "(k, v) \<in> set d" for k v
    using JObj.IH [OF that, of v] JObj.prems that by (auto simp: list_all_iff)
  then show ?case by (auto simp: line_break_def unbroken_string intro!: unbroken_join)
qed (simp_all add: unbroken_string unbroken_int line_break_def)

section \<open>What the summary counts\<close>

definition node_event :: "event \<Rightarrow> bool" where
  "node_event e \<longleftrightarrow> event_type e = ''NODE_COMPLETED'' \<or> event_type e = ''NODE_FAILED''"

definition or_zero :: "int option \<Rightarrow> int" where
  "or_zero x = (case x of None \<Rightarrow> 0 | Some n \<Rightarrow> n)"

definition parse_error :: "(py_float \<Rightarrow> string) \<Rightarrow> event \<Rightarrow> bool" where
  "parse_error fr e \<longleftrightarrow>
     (case dget (ev_metadata e) ''error'' of
        None \<Rightarrow> False
      | Some v \<Rightarrow> contains ''parse'' (py_lower (py_str fr v)))"

text \<open>The totals over the node events of the log.\<close>

definition log_tokens :: "(py_float \<Rightarrow> string) \<Rightarrow> event list \<Rightarrow> tokens" where
  "log_tokens fr es = (let ns = filter node_event es in
     \<lparr>tk_prompt = sum_list (map (or_zero \<circ> ev_prompt_tokens) ns),
      tk_completion = sum_list (map (or_zero \<circ> ev_completion_tokens) ns),
      tk_costs = List.map_filter (map_option JFloat \<circ> ev_estimated_cost_usd) ns,
      tk_parse_failures = length (filter (parse_error fr) ns),
      tk_node_events = length ns\<rparr>)"

text \<open>What is read of an event's object.\<close>

definition event_dict :: "string \<Rightarrow> event \<Rightarrow> json dict" where
  "event_dict stamp e = the (as_obj (dump_event stamp e))"

lemma dump_event_dict: "dump_event stamp e = JObj (event_dict stamp e)"
  by (simp add: event_dict_def dump_event_def as_obj_def)

lemma event_dict_fields [simp]:
  "dget (event_dict stamp e) ''event_type'' = Some (JStr (event_type e))"
  "dget (event_dict stamp e) ''prompt_tokens'' = Some (dump_opt JInt (ev_prompt_tokens e))"
  "dget (event_dict stamp e) ''completion_tokens'' = Some (dump_opt JInt (ev_completion_tokens e))"
  "dget (event_dict stamp e) ''estimated_cost_usd'' = Some (dump_opt JFloat (ev_estimated_cost_usd e))"
  "dget (event_dict stamp e) ''metadata'' = Some (JObj (ev_metadata e))"
  by (simp_all add: event_dict_def dump_event_def as_obj_def)

lemma dump_opt_cases: "dump_opt f None = JNull" "dump_opt f (Some x) = f x"
  by (simp_all add: dump_opt_def)

lemma int_or_zero: "py_int (py_or (dump_opt JInt x) (JInt 0)) = Inr (or_zero x)"
  by (cases x) (simp_all add: dump_opt_def py_or_def or_zero_def)

lemma mentions_parse_event: "mentions_parse fr (JObj (event_dict stamp e)) = Inr (parse_error fr e)"
proof -
  have "py_or (JObj (ev_metadata e)) (JObj []) = JObj (ev_metadata e)"
    by (cases "ev_metadata e") (simp_all add: py_or_def)
  moreover have "\<not> contains ''parse'' (py_lower [])" by (simp add: py_lower_def)
  ultimately show ?thesis
    by (simp add: mentions_parse_def parse_error_def split: option.splits)
qed

definition add_tokens :: "tokens \<Rightarrow> tokens \<Rightarrow> tokens" where
  "add_tokens S T = \<lparr>tk_prompt = tk_prompt S + tk_prompt T, tk_completion = tk_completion S + tk_completion T,
     tk_costs = tk_costs S @ tk_costs T, tk_parse_failures = tk_parse_failures S + tk_parse_failures T,
     tk_node_events = tk_node_events S + tk_node_events T\<rparr>"

lemma count_line_event:
  assumes "writable fr (dump_event (stamp e) e)"
  shows "count_line fr rd (event_line fr stamp e) T = Inr (add_tokens T (log_tokens fr [e]))"
proof -
  have "json_loads (event_line fr stamp e) = Inr (JObj (event_dict (stamp e) e))"
    unfolding event_line_def using json_loads_dumps [OF assms] by (simp add: dump_event_dict)
  then show ?thesis
    by (cases "ev_estimated_cost_usd e")
      (simp_all add: count_line_def count_node_event_def event_tokens_def dindex_def is_node_event_def int_or_zero
        mentions_parse_event add_tokens_def log_tokens_def node_event_def dump_opt_cases List.map_filter_def)
qed

lemma log_tokens_Cons: "log_tokens fr (e # es) = add_tokens (log_tokens fr [e]) (log_tokens fr es)"
  by (simp add: log_tokens_def add_tokens_def List.map_filter_def Let_def)

lemma add_tokens_assoc: "add_tokens (add_tokens S T) U = add_tokens S (add_tokens T U)"
  by (simp add: add_tokens_def)

lemma count_lines_events:
  assumes "\<And>e. e \<in> set es \<Longrightarrow> writable fr (dump_event (stamp e) e)"
  shows "count_lines fr rd (map (event_line fr stamp) es) T = Inr (add_tokens T (log_tokens fr es))"
  using assms
proof (induction es arbitrary: T)
  case Nil
  show ?case by (simp add: log_tokens_def add_tokens_def List.map_filter_def)
next
  case (Cons e es)
  then show ?case
    by (simp add: count_line_event log_tokens_Cons [of fr e es] add_tokens_assoc)
qed

lemma count_log:
  assumes "\<And>e. e \<in> set es \<Longrightarrow> writable fr (dump_event (stamp e) e)"
    and "\<And>e. e \<in> set es \<Longrightarrow> plain fr (dump_event (stamp e) e)"
  shows "count_lines fr rd (split_lines (log_text (event_line fr stamp) es)) no_tokens = Inr (log_tokens fr es)"
proof -
  have "unbroken (event_line fr stamp e)" if "e \<in> set es" for e
    unfolding event_line_def by (rule unbroken_dumps [OF assms(2) [OF that]])
  then have "split_lines (log_text (event_line fr stamp) es) = map (event_line fr stamp) es"
    by (intro split_lines_log) (simp add: unbroken_def)
  then show ?thesis
    using count_lines_events [OF assms(1)] by (simp add: no_tokens_def add_tokens_def)
qed

text \<open>So the summary of a log has these totals.\<close>

lemma summarize_log:
  assumes "summarize_run S w = (Inr s, w')" "sh_dump_event S = event_line (sh_repr S) stamp"
    and "\<And>e. e \<in> set (log w) \<Longrightarrow> writable (sh_repr S) (dump_event (stamp e) e)"
    and "\<And>e. e \<in> set (log w) \<Longrightarrow> plain (sh_repr S) (dump_event (stamp e) e)"
  shows "dget s ''total_prompt_tokens'' = Some (JInt (tk_prompt (log_tokens (sh_repr S) (log w))))"
    "dget s ''total_completion_tokens'' = Some (JInt (tk_completion (log_tokens (sh_repr S) (log w))))"
    "dget s ''parse_failure_rate'' = Some (ratio_json (tk_parse_failures (log_tokens (sh_repr S) (log w)))
       (tk_node_events (log_tokens (sh_repr S) (log w))))"
proof -
  have "log_tokens (sh_repr S) [] = no_tokens"
    by (simp add: log_tokens_def no_tokens_def List.map_filter_def)
  then obtain F where F: "summary_of (length (task_names w)) F (log_tokens (sh_repr S) (log w)) = Inr s"
    using assms(1) count_log [OF assms(3,4), where rd = "sh_read_float S"] assms(2)
    by (auto simp: summarize_run_def io_simps res_simps split: sum.splits if_splits)
  then show "dget s ''total_prompt_tokens'' = Some (JInt (tk_prompt (log_tokens (sh_repr S) (log w))))"
    "dget s ''total_completion_tokens'' = Some (JInt (tk_completion (log_tokens (sh_repr S) (log w))))"
    "dget s ''parse_failure_rate'' = Some (ratio_json (tk_parse_failures (log_tokens (sh_repr S) (log w)))
       (tk_node_events (log_tokens (sh_repr S) (log w))))"
    by (clarsimp simp: summary_of_def res_simps)+
qed

section \<open>Where a line breaks\<close>

text \<open>One event whose error holds U+0085 between two letters: its line becomes two, and none parses.\<close>

definition broken_event :: event where
  "broken_event = \<lparr>ev_run_id = ''r'', ev_task_id = None, ev_graph_id = ''g'', event_type = ''NODE_FAILED'',
     ev_wave_id = None, ev_node_id = None, ev_artifact_ids = [], ev_latency_ms = None, ev_prompt_tokens = None,
     ev_completion_tokens = None, ev_estimated_cost_usd = None, ev_status = None,
     ev_metadata = [(''error'', JStr [CHR ''a'', CHR 0x85, CHR ''b''])]\<rparr>"

lemma broken_log:
  "\<exists>x. count_lines fr rd (split_lines (log_text (event_line fr (\<lambda>_. [])) [broken_event])) no_tokens = Inl x"
proof -
  let ?parts = "split_lines (log_text (event_line fr (\<lambda>_. [])) [broken_event])"
  have "isl (json_loads (hd ?parts)) \<and> ?parts \<noteq> []" by code_simp
  then show ?thesis
    by (cases ?parts) (auto simp: count_line_def isl_def)
qed

end
