(* ===== verification/Argparse.thy ===== *)
theory Argparse
  imports Py_Values
begin

text \<open>
  The part of the standard library's \<open>argparse\<close> that the commands use: parsers with optional
  arguments only. Every argument is first classified on its own (an option, possibly with a
  value attached or abbreviated, or a plain value), then the options are taken from left to
  right. A parse ends with the chosen values, with the help text (exit status 0) or with a
  usage error (exit status 2); messages are not modelled.
\<close>

section \<open>Parsers\<close>

text \<open>
  The actions of \<open>add_argument\<close>: \<open>store\<close> of a string or of an integer, \<open>store_true\<close>,
  \<open>append\<close> and \<open>help\<close>. A parser is the list of its options; \<open>-h\<close>, the only option of one letter,
  comes first.
\<close>

datatype option_kind = Store | StoreInt | StoreTrue | AppendTo | ShowHelp

record option_spec =
  op_names :: "string list"
  op_dest :: string
  op_kind :: option_kind
  op_required :: bool

definition help_option :: option_spec where
  "help_option = \<lparr>op_names = [''-h'', ''--help''], op_dest = ''help'', op_kind = ShowHelp, op_required = False\<rparr>"

definition argument_parser :: "option_spec list \<Rightarrow> option_spec list" where
  "argument_parser specs = help_option # specs"

definition takes_value :: "option_spec \<Rightarrow> bool" where
  "takes_value sp \<longleftrightarrow> op_kind sp \<in> {Store, StoreInt, AppendTo}"

definition option_table :: "option_spec list \<Rightarrow> (string \<times> option_spec) list" where
  "option_table specs = concat (map (\<lambda>sp. map (\<lambda>n. (n, sp)) (op_names sp)) specs)"

section \<open>What an argument is\<close>

text \<open>
  \<open>Flag sp x\<close> is an option with the value \<open>x\<close> attached by an equals sign, if any; \<open>Short sp x\<close> is
  an option of one letter with more letters after it; \<open>Dashes\<close> is the separator \<open>--\<close>.
\<close>

datatype arg_token =
    PlainValue | Dashes | Unknown | Ambiguous
  | Flag option_spec "string option" | Short option_spec string

definition split_equals :: "string \<Rightarrow> string \<times> string option" where
  "split_equals s =
     (let pre = takeWhile (\<lambda>c. c \<noteq> CHR ''='') s
      in (pre, if CHR ''='' \<in> set s then Some (drop (Suc (length pre)) s) else None))"

text \<open>\<open>^-\d+$|^-\d*\.\d+$\<close>, where \<open>$\<close> also matches before a final line feed.\<close>

definition negative_number :: "string \<Rightarrow> bool" where
  "negative_number s =
     (let s = (if s \<noteq> [] \<and> last s = CHR 0x0A then butlast s else s) in
      case s of
        [] \<Rightarrow> False
      | c # cs \<Rightarrow>
          c = CHR ''-'' \<and>
          (case dropWhile is_digit cs of
             [] \<Rightarrow> cs \<noteq> []
           | d # ds \<Rightarrow> d = CHR ''.'' \<and> ds \<noteq> [] \<and> list_all is_digit ds))"

text \<open>\<open>_get_option_tuples\<close>: abbreviations of long options, and letters after a short one.\<close>

definition option_tuples :: "option_spec list \<Rightarrow> string \<Rightarrow> arg_token list" where
  "option_tuples specs s =
     (if starts_with ''--'' s
      then (let (pre, value) = split_equals s
            in map (\<lambda>(n, sp). Flag sp value) (filter (\<lambda>(n, sp). starts_with pre n) (option_table specs)))
      else concat (map (\<lambda>(n, sp). if n = take 2 s then [Short sp (drop 2 s)]
              else if starts_with s n then [Flag sp None] else []) (option_table specs)))"

definition parse_optional :: "option_spec list \<Rightarrow> string \<Rightarrow> arg_token" where
  "parse_optional specs s =
     (if \<not> starts_with ''-'' s then PlainValue
      else case map_of (option_table specs) s of
        Some sp \<Rightarrow> Flag sp None
      | None \<Rightarrow>
          if length s = 1 then PlainValue
          else case (case split_equals s of
                 (pre, Some v) \<Rightarrow> map_option (\<lambda>sp. Flag sp (Some v)) (map_of (option_table specs) pre)
               | _ \<Rightarrow> None) of
            Some t \<Rightarrow> t
          | None \<Rightarrow>
              (case option_tuples specs s of
                 [t] \<Rightarrow> t
               | _ # _ # _ \<Rightarrow> Ambiguous
               | [] \<Rightarrow> if negative_number s \<or> CHR '' '' \<in> set s then PlainValue else Unknown))"

text \<open>Everything after the first \<open>--\<close> is a plain value.\<close>

fun classify :: "option_spec list \<Rightarrow> string list \<Rightarrow> (string \<times> arg_token) list" where
  "classify specs [] = []"
| "classify specs (s # ss) =
     (if s = ''--'' then (s, Dashes) # map (\<lambda>v. (v, PlainValue)) ss
      else (s, parse_optional specs s) # classify specs ss)"

section \<open>Taking the options\<close>

datatype arg_value = ArgStr string | ArgInt int | ArgTrue

type_synonym namespace = "(string \<times> arg_value) list"

text \<open>What the actions did, in their order; only \<open>type=int\<close> can refuse a value.\<close>

definition take_action :: "option_spec \<Rightarrow> string \<Rightarrow> namespace \<Rightarrow> namespace option" where
  "take_action sp v ns =
     (if op_kind sp = StoreInt
      then (case py_int (JStr v) of Inl _ \<Rightarrow> None | Inr i \<Rightarrow> Some (ns @ [(op_dest sp, ArgInt i)]))
      else Some (ns @ [(op_dest sp, ArgStr v)]))"

text \<open>
  The letters after \<open>-h\<close>: more of the same, or an unknown letter (which is only noticed
  after the help has been shown). A dash or a value attached to it is an error.
\<close>

fun cluster_ok :: "string \<Rightarrow> bool" where
  "cluster_ok [] = False"
| "cluster_ok (c # cs) =
     (if c = CHR ''-'' then False
      else if c = CHR ''h'' then cs = [] \<or> (hd cs \<noteq> CHR ''='' \<and> cluster_ok cs)
      else True)"

datatype parse_end = Parsed namespace | HelpShown | UsageError

text \<open>The flag of the accumulator says that something was left over.\<close>

fun consume :: "(string \<times> arg_token) list \<Rightarrow> namespace \<Rightarrow> bool \<Rightarrow> (namespace \<times> bool) + parse_end" where
  "consume [] ns extra = Inl (ns, extra)"
| "consume ((s, Flag sp (Some v)) # ts) ns extra =
     (if takes_value sp
      then (case take_action sp v ns of None \<Rightarrow> Inr UsageError | Some ns' \<Rightarrow> consume ts ns' extra)
      else Inr UsageError)"
| "consume ((s, Flag sp None) # ts) ns extra =
     (if takes_value sp
      then (case ts of
              (v, PlainValue) # ts' \<Rightarrow>
                (case take_action sp v ns of None \<Rightarrow> Inr UsageError | Some ns' \<Rightarrow> consume ts' ns' extra)
            | _ \<Rightarrow> Inr UsageError)
      else if op_kind sp = ShowHelp then Inr HelpShown
      else consume ts (ns @ [(op_dest sp, ArgTrue)]) extra)"
| "consume ((s, Short sp v) # ts) ns extra = (if cluster_ok v then Inr HelpShown else Inr UsageError)"
| "consume ((s, t) # ts) ns extra = consume ts ns True"

definition parse_args :: "option_spec list \<Rightarrow> string list \<Rightarrow> parse_end" where
  "parse_args specs argv =
     (let specs = argument_parser specs; ts = classify specs argv in
      if \<exists>t \<in> set ts. snd t = Ambiguous then UsageError
      else case consume ts [] False of
             Inr e \<Rightarrow> e
           | Inl (ns, extra) \<Rightarrow>
               if extra \<or> (\<exists>sp \<in> set specs. op_required sp \<and> op_dest sp \<notin> fst ` set ns) then UsageError
               else Parsed ns)"

section \<open>Reading the namespace\<close>

definition last_value :: "namespace \<Rightarrow> string \<Rightarrow> arg_value option" where
  "last_value ns k = map_of (rev ns) k"

definition arg_str :: "namespace \<Rightarrow> string \<Rightarrow> string option" where
  "arg_str ns k = (case last_value ns k of Some (ArgStr s) \<Rightarrow> Some s | _ \<Rightarrow> None)"

definition arg_int :: "namespace \<Rightarrow> string \<Rightarrow> int option" where
  "arg_int ns k = (case last_value ns k of Some (ArgInt i) \<Rightarrow> Some i | _ \<Rightarrow> None)"

definition arg_flag :: "namespace \<Rightarrow> string \<Rightarrow> bool" where
  "arg_flag ns k \<longleftrightarrow> last_value ns k = Some ArgTrue"

definition arg_list :: "namespace \<Rightarrow> string \<Rightarrow> string list" where
  "arg_list ns k = concat (map (\<lambda>(d, v). case v of ArgStr s \<Rightarrow> if d = k then [s] else [] | _ \<Rightarrow> []) ns)"

section \<open>Integers as text\<close>

lemma digit_not_space: "is_digit c \<Longrightarrow> \<not> is_space c"
  by (auto simp: is_digit_def is_space_def)

lemma strip_kept:
  assumes "s \<noteq> []" "\<not> is_space (hd s)" "\<not> is_space (last s)"
  shows "py_strip s = s"
proof -
  have "dropWhile is_space s = s" using assms(1,2) by (cases s) simp_all
  moreover have "dropWhile is_space (rev s) = rev s"
    using assms(1,3) by (cases s rule: rev_cases) simp_all
  ultimately show ?thesis by (simp add: py_strip_def)
qed

lemma int_body_digits: "list_all is_digit ds \<Longrightarrow> ds \<noteq> [] \<or> after \<Longrightarrow> int_body after ds = Some ds"
  by (induction ds arbitrary: after) auto

definition short_int :: "int \<Rightarrow> bool" where
  "short_int i \<longleftrightarrow> length (nat_digits (nat \<bar>i\<bar>)) \<le> 4300"

lemma int_of_written:
  assumes "short_int i"
  shows "int_of_text (py_str_int i) = Some i"
proof -
  let ?ds = "nat_digits (nat \<bar>i\<bar>)"
  have ds: "list_all is_digit ?ds" "?ds \<noteq> []" by (rule nat_digits_digits) (rule nat_digits_nonempty)
  then have ends: "is_digit (hd ?ds)" "is_digit (last ?ds)" by (auto simp: list_all_iff)
  have body: "int_body False ?ds = Some ?ds" using ds by (simp add: int_body_digits)
  have val: "decimal ?ds = Some \<bar>i\<bar>" using assms by (simp add: decimal_def short_int_def nat_digits_value)
  show ?thesis
  proof (cases "i < 0")
    case True
    then have t: "py_str_int i = CHR ''-'' # ?ds" by (simp add: py_str_int_def)
    have "py_strip (CHR ''-'' # ?ds) = CHR ''-'' # ?ds"
      by (rule strip_kept) (use ds ends digit_not_space in \<open>simp_all add: is_space_def\<close>)
    then show ?thesis using True body val by (simp add: t int_of_text_def)
  next
    case False
    then have t: "py_str_int i = ?ds" by (simp add: py_str_int_def)
    obtain c cs where c: "?ds = c # cs" using ds(2) by (cases ?ds) auto
    then have "c \<noteq> CHR ''-''" "c \<noteq> CHR ''+''" using ends(1) by (auto simp: is_digit_def)
    moreover have "py_strip ?ds = ?ds" by (rule strip_kept) (use ds ends digit_not_space in simp_all)
    ultimately show ?thesis using False body val c by (simp add: t int_of_text_def)
  qed
qed

section \<open>A parse is typed\<close>

fun value_fits :: "option_kind \<Rightarrow> arg_value \<Rightarrow> bool" where
  "value_fits Store (ArgStr s) = True"
| "value_fits AppendTo (ArgStr s) = True"
| "value_fits StoreInt (ArgInt i) = True"
| "value_fits StoreTrue ArgTrue = True"
| "value_fits _ _ = False"

definition typed :: "option_spec list \<Rightarrow> namespace \<Rightarrow> bool" where
  "typed specs ns \<longleftrightarrow> (\<forall>(d, v) \<in> set ns. \<exists>sp \<in> set specs. op_dest sp = d \<and> value_fits (op_kind sp) v)"

lemma typed_snoc:
  "typed specs (ns @ [(d, v)]) \<longleftrightarrow> typed specs ns \<and> (\<exists>sp \<in> set specs. op_dest sp = d \<and> value_fits (op_kind sp) v)"
  by (auto simp: typed_def)

text \<open>The option of a token comes from the parser.\<close>

fun token_specs :: "arg_token \<Rightarrow> option_spec set" where
  "token_specs (Flag sp x) = {sp}"
| "token_specs (Short sp x) = {sp}"
| "token_specs _ = {}"

lemma table_specs: "(n, sp) \<in> set (option_table specs) \<Longrightarrow> sp \<in> set specs"
  by (auto simp: option_table_def)

lemma option_tuples_specs: "t \<in> set (option_tuples specs s) \<Longrightarrow> token_specs t \<subseteq> set specs"
  by (auto simp: option_tuples_def Let_def split: if_splits prod.splits dest: table_specs)

lemma parse_optional_specs: "token_specs (parse_optional specs s) \<subseteq> set specs"
proof -
  have tab: "map_of (option_table specs) n = Some sp \<Longrightarrow> sp \<in> set specs" for n sp
    by (rule table_specs [OF map_of_SomeD])
  have "token_specs (hd (option_tuples specs s)) \<subseteq> set specs" if "option_tuples specs s \<noteq> []"
    using option_tuples_specs [OF hd_in_set [OF that]] .
  then show ?thesis
    by (auto simp: parse_optional_def split: option.splits list.splits prod.splits dest: tab)
qed

lemma classify_specs: "(s, t) \<in> set (classify specs argv) \<Longrightarrow> token_specs t \<subseteq> set specs"
  by (induction argv) (use parse_optional_specs in \<open>auto split: if_splits\<close>)

lemma take_action_typed:
  "take_action sp v ns = Some ns' \<Longrightarrow> takes_value sp \<Longrightarrow> sp \<in> set specs \<Longrightarrow> typed specs ns \<Longrightarrow> typed specs ns'"
  by (cases "op_kind sp") (auto simp: take_action_def takes_value_def typed_snoc split: sum.splits intro!: bexI [of _ sp])

lemma consume_typed:
  assumes "consume ts ns ex = Inl (ns', ex')" "typed specs ns" "\<forall>(s, t) \<in> set ts. token_specs t \<subseteq> set specs"
  shows "typed specs ns'"
  using assms
proof (induction ts ns ex arbitrary: ns' ex' rule: consume.induct)
  case (3 s sp ts ns ex)
  show ?case
  proof (cases "takes_value sp")
    case True
    then obtain v ts' ns1 where r: "ts = (v, PlainValue) # ts'" "take_action sp v ns = Some ns1"
        "consume ts' ns1 ex = Inl (ns', ex')"
      using "3.prems"(1) by (auto split: list.splits arg_token.splits option.splits)
    have "typed specs ns1" by (rule take_action_typed [OF r(2) True]) (use "3.prems"(2,3) in auto)
    then show ?thesis using "3.IH"(1) [OF True r(1) refl refl r(2,3)] "3.prems"(3) r(1) by auto
  next
    case False
    then have k: "op_kind sp = StoreTrue" using "3.prems"(1) by (cases "op_kind sp") (auto simp: takes_value_def)
    then have "consume ts (ns @ [(op_dest sp, ArgTrue)]) ex = Inl (ns', ex')" "op_kind sp \<noteq> ShowHelp"
      using "3.prems"(1) False by auto
    moreover have "value_fits (op_kind sp) ArgTrue" "sp \<in> set specs" using k "3.prems"(3) by auto
    ultimately show ?thesis
      using "3.IH"(2) [OF False] "3.prems"(2,3) by (simp add: typed_snoc) blast
  qed
qed (auto split: if_splits option.splits dest: take_action_typed)

lemma consume_not_parsed: "consume ts ns ex \<noteq> Inr (Parsed ns')"
  by (induction ts ns ex rule: consume.induct) (auto split: list.splits arg_token.splits option.splits)

lemma parse_args_ParsedD:
  assumes "parse_args specs argv = Parsed ns"
  shows "consume (classify (argument_parser specs) argv) [] False = Inl (ns, False)"
    and "\<And>sp. sp \<in> set specs \<Longrightarrow> op_required sp \<Longrightarrow> op_dest sp \<in> fst ` set ns"
  using assms consume_not_parsed
  by (auto simp: parse_args_def Let_def argument_parser_def split: sum.splits prod.splits if_splits)

lemma parse_args_typed:
  assumes "parse_args specs argv = Parsed ns"
  shows "typed specs ns"
proof -
  have "typed (argument_parser specs) ns"
    by (rule consume_typed [OF parse_args_ParsedD(1) [OF assms]]) (auto simp: typed_def dest: classify_specs)
  then show ?thesis by (auto simp: typed_def argument_parser_def help_option_def)
qed

lemma typed_text:
  assumes "typed specs ns" "d \<in> fst ` set ns"
    and "\<And>sp. sp \<in> set specs \<Longrightarrow> op_dest sp = d \<Longrightarrow> op_kind sp \<in> {Store, AppendTo}"
  obtains s where "arg_str ns d = Some s"
proof -
  have "last_value ns d \<noteq> None" using assms(2) by (simp add: last_value_def map_of_eq_None_iff)
  then obtain v where v: "last_value ns d = Some v" by blast
  then have "(d, v) \<in> set ns" by (auto simp: last_value_def dest: map_of_SomeD)
  then obtain sp where sp: "sp \<in> set specs" "op_dest sp = d" "value_fits (op_kind sp) v"
    using assms(1) by (auto simp: typed_def)
  then have "\<exists>s. v = ArgStr s" using assms(3) [OF sp(1,2)] by (cases v; cases "op_kind sp") auto
  then show thesis using that v by (auto simp: arg_str_def)
qed

section \<open>Writing a command line\<close>

text \<open>
  An option by any of its names, with its value in the same argument or in the next one.
\<close>

record written_option =
  wo_name :: string
  wo_spec :: option_spec
  wo_value :: arg_value
  wo_joined :: bool

fun value_text :: "arg_value \<Rightarrow> string" where
  "value_text (ArgStr s) = s"
| "value_text (ArgInt i) = py_str_int i"
| "value_text ArgTrue = []"

definition written :: "written_option \<Rightarrow> string list" where
  "written x =
     (if wo_value x = ArgTrue then [wo_name x]
      else if wo_joined x then [wo_name x @ CHR ''='' # value_text (wo_value x)]
      else [wo_name x, value_text (wo_value x)])"

definition assigned :: "written_option \<Rightarrow> string \<times> arg_value" where
  "assigned x = (op_dest (wo_spec x), wo_value x)"

text \<open>
  Names of long options, all different. A value in an argument of its own must look like a
  value; an integer has at most 4300 digits.
\<close>

definition long_options :: "option_spec list \<Rightarrow> bool" where
  "long_options specs \<longleftrightarrow> distinct (map fst (option_table (argument_parser specs)))
     \<and> (\<forall>(n, sp) \<in> set (option_table specs). starts_with ''--'' n \<and> n \<noteq> ''--'' \<and> CHR ''='' \<notin> set n)"

definition writable_option :: "option_spec list \<Rightarrow> written_option \<Rightarrow> bool" where
  "writable_option specs x \<longleftrightarrow> (wo_name x, wo_spec x) \<in> set (option_table specs)
     \<and> value_fits (op_kind (wo_spec x)) (wo_value x)
     \<and> (case wo_value x of ArgInt i \<Rightarrow> short_int i | _ \<Rightarrow> True)
     \<and> (wo_value x \<noteq> ArgTrue \<and> \<not> wo_joined x \<longrightarrow>
          value_text (wo_value x) \<noteq> ''--''
          \<and> parse_optional (argument_parser specs) (value_text (wo_value x)) = PlainValue)"

definition written_tokens :: "written_option \<Rightarrow> (string \<times> arg_token) list" where
  "written_tokens x =
     (if wo_value x = ArgTrue then [(wo_name x, Flag (wo_spec x) None)]
      else if wo_joined x
        then [(wo_name x @ CHR ''='' # value_text (wo_value x), Flag (wo_spec x) (Some (value_text (wo_value x))))]
      else [(wo_name x, Flag (wo_spec x) None), (value_text (wo_value x), PlainValue)])"

lemma option_table_argument_parser:
  "option_table (argument_parser specs) = [(''-h'', help_option), (''--help'', help_option)] @ option_table specs"
  by (simp add: option_table_def argument_parser_def help_option_def)

lemma table_lookup:
  assumes "long_options specs" "(n, sp) \<in> set (option_table specs)"
  shows "map_of (option_table (argument_parser specs)) n = Some sp"
  by (rule map_of_is_SomeI) (use assms in \<open>simp_all add: long_options_def option_table_argument_parser\<close>)

lemma no_equals_in_names:
  assumes "long_options specs" "CHR ''='' \<in> set s"
  shows "map_of (option_table (argument_parser specs)) s = None"
proof -
  have "CHR ''='' \<notin> set n" if "(n, sp) \<in> set (option_table specs)" for n sp
    using assms(1) that by (auto simp: long_options_def)
  then show ?thesis using assms(2)
    by (auto simp: option_table_argument_parser map_of_eq_None_iff)
qed

lemma split_at_equals: "CHR ''='' \<notin> set n \<Longrightarrow> split_equals (n @ CHR ''='' # v) = (n, Some v)"
proof -
  assume "CHR ''='' \<notin> set n"
  then have "takeWhile (\<lambda>c. c \<noteq> CHR ''='') (n @ CHR ''='' # v) = n" by (induction n) auto
  then show ?thesis by (simp add: split_equals_def)
qed

lemma classify_written:
  assumes "long_options specs" "writable_option specs x"
  shows "classify (argument_parser specs) (written x @ rest) = written_tokens x @ classify (argument_parser specs) rest"
proof -
  let ?P = "argument_parser specs" and ?n = "wo_name x" and ?v = "value_text (wo_value x)"
  have n: "(?n, wo_spec x) \<in> set (option_table specs)" using assms(2) by (simp add: writable_option_def)
  then obtain t where t: "?n = ''--'' @ t" and m: "?n \<noteq> ''--''" "CHR ''='' \<notin> set ?n"
    using assms(1) by (auto simp: long_options_def starts_with_iff)
  have flag: "parse_optional ?P ?n = Flag (wo_spec x) None"
    using table_lookup [OF assms(1) n] by (simp add: parse_optional_def t)
  have "parse_optional ?P (?n @ CHR ''='' # ?v) = Flag (wo_spec x) (Some ?v)"
    using no_equals_in_names [OF assms(1), of "?n @ CHR ''='' # ?v"] split_at_equals [OF m(2), of ?v]
      table_lookup [OF assms(1) n]
    by (simp add: parse_optional_def t)
  moreover have "?n @ CHR ''='' # ?v \<noteq> ''--''" using t by auto
  moreover have "?v \<noteq> ''--'' \<and> parse_optional ?P ?v = PlainValue" if "wo_value x \<noteq> ArgTrue" "\<not> wo_joined x"
    using assms(2) that by (simp add: writable_option_def)
  ultimately show ?thesis using flag m(1) by (auto simp: written_def written_tokens_def)
qed

lemma take_written:
  assumes "value_fits (op_kind sp) v" "case v of ArgInt i \<Rightarrow> short_int i | _ \<Rightarrow> True" "v \<noteq> ArgTrue"
  shows "takes_value sp" "take_action sp (value_text v) ns = Some (ns @ [(op_dest sp, v)])"
  using assms int_of_written
  by (cases "op_kind sp"; cases v; simp add: takes_value_def take_action_def)+

lemma consume_written:
  assumes "writable_option specs x"
  shows "consume (written_tokens x @ ts) ns ex = consume ts (ns @ [assigned x]) ex"
proof (cases "wo_value x = ArgTrue")
  case True
  then have "op_kind (wo_spec x) = StoreTrue"
    using assms by (cases "op_kind (wo_spec x)") (simp_all add: writable_option_def)
  then show ?thesis using True by (simp add: written_tokens_def takes_value_def assigned_def)
next
  case False
  then show ?thesis
    using take_written(1) [of "wo_spec x" "wo_value x"] take_written(2) [of "wo_spec x" "wo_value x" ns] assms
    by (simp add: written_tokens_def assigned_def writable_option_def)
qed

lemma classify_all_written:
  assumes "long_options specs" "\<forall>x \<in> set xs. writable_option specs x"
  shows "classify (argument_parser specs) (concat (map written xs)) = concat (map written_tokens xs)"
  using assms(2) by (induction xs) (simp_all add: classify_written [OF assms(1)])

lemma consume_all_written:
  assumes "\<forall>x \<in> set xs. writable_option specs x"
  shows "consume (concat (map written_tokens xs)) ns ex = Inl (ns @ map assigned xs, ex)"
  using assms by (induction xs arbitrary: ns) (simp_all add: consume_written [of specs])

lemma written_not_ambiguous: "t \<in> set (written_tokens x) \<Longrightarrow> snd t \<noteq> Ambiguous"
  by (auto simp: written_tokens_def split: if_splits)

lemma parse_written:
  assumes "long_options specs" "\<forall>x \<in> set xs. writable_option specs x"
    and "\<forall>sp \<in> set specs. op_required sp \<longrightarrow> op_dest sp \<in> fst ` assigned ` set xs"
  shows "parse_args specs (concat (map written xs)) = Parsed (map assigned xs)"
proof -
  have "\<forall>sp \<in> set (argument_parser specs). op_required sp \<longrightarrow> op_dest sp \<in> fst ` set (map assigned xs)"
    using assms(3) by (simp add: argument_parser_def help_option_def)
  then show ?thesis
    using written_not_ambiguous classify_all_written [OF assms(1,2)] consume_all_written [OF assms(2)]
    by (auto simp: parse_args_def Let_def)
qed

section \<open>What is refused\<close>

text \<open>An argument that is left over makes the parse fail.\<close>

lemma consume_extra: "consume ts ns True = Inl (ns', ex') \<Longrightarrow> ex'"
proof (induction ts ns True arbitrary: ns' ex' rule: consume.induct)
  case (3 s sp ts ns)
  then show ?case by (auto split: if_splits list.splits arg_token.splits option.splits) blast
qed (auto split: if_splits option.splits)

lemma consume_unknown:
  "(s, Unknown) \<in> set ts \<Longrightarrow> consume ts ns ex = Inl (ns', ex') \<Longrightarrow> ex'"
proof (induction ts ns ex arbitrary: ns' ex' rule: consume.induct)
  case (3 s' sp ts ns ex)
  then show ?case by (auto split: if_splits list.splits arg_token.splits option.splits) blast
qed (auto split: if_splits option.splits dest: consume_extra)

lemma unknown_refused:
  assumes "parse_optional (argument_parser specs) s = Unknown" "s \<in> set (takeWhile (\<lambda>a. a \<noteq> ''--'') argv)"
  shows "\<nexists>ns. parse_args specs argv = Parsed ns"
proof
  assume "\<exists>ns. parse_args specs argv = Parsed ns"
  then obtain ns where ns: "consume (classify (argument_parser specs) argv) [] False = Inl (ns, False)"
    using parse_args_ParsedD(1) by blast
  have "(s, Unknown) \<in> set (classify (argument_parser specs) argv)"
    using assms by (induction argv) (auto split: if_splits)
  from consume_unknown [OF this ns] show False by simp
qed

end
