(* ===== verification/Programs.thy ===== *)
theory Programs
  imports Command_Line Event_Log Argparse
begin

text \<open>
  The five commands as programs (\<open>cli/run.py\<close>, \<open>cli/evaluate.py\<close>, \<open>cli/validate_graph.py\<close>,
  \<open>cli/prepare_lcb.py\<close>, \<open>cli/summarize.py\<close>): the command line, the environment file, the work, the
  printed lines and the exit status. The lemmas show that the options of a command line arrive
  as they were written, and that nothing is touched before the command line is accepted.
\<close>

section \<open>How a program ends\<close>

datatype program_end = Done "string list" | HelpGiven | UsageFailed | Raised exc

fun exit_status :: "program_end \<Rightarrow> nat" where
  "exit_status (Done out) = 0"
| "exit_status HelpGiven = 0"
| "exit_status UsageFailed = 2"
| "exit_status (Raised e) = 1"

definition after_parsing ::
  "option_spec list \<Rightarrow> string list \<Rightarrow> (namespace \<Rightarrow> 'w \<Rightarrow> program_end \<times> 'w) \<Rightarrow> 'w \<Rightarrow> program_end \<times> 'w" where
  "after_parsing specs argv f w =
     (case parse_args specs argv of
        Parsed ns \<Rightarrow> f ns w
      | HelpShown \<Rightarrow> (HelpGiven, w)
      | UsageError \<Rightarrow> (UsageFailed, w))"

text \<open>\<open>return 0\<close> after the printing, or the exception of the work.\<close>

definition ending :: "('a \<Rightarrow> string list) \<Rightarrow> ('w, 'a) io \<Rightarrow> 'w \<Rightarrow> program_end \<times> 'w" where
  "ending out m w = (case m w of (Inl e, w') \<Rightarrow> (Raised e, w') | (Inr x, w') \<Rightarrow> (Done (out x), w'))"

text \<open>\<open>load_env_file()\<close> as the first statement.\<close>

definition with_env ::
  "string option \<Rightarrow> string dict \<Rightarrow> (string dict \<Rightarrow> 'w \<Rightarrow> program_end \<times> 'w) \<Rightarrow> 'w \<Rightarrow> program_end \<times> 'w" where
  "with_env env_file env f w =
     (case load_env_file env_file env of (Inl e, _) \<Rightarrow> (Raised e, w) | (Inr _, env') \<Rightarrow> f env' w)"

definition option_of :: "string list \<Rightarrow> string \<Rightarrow> option_kind \<Rightarrow> bool \<Rightarrow> option_spec" where
  "option_of names dest k r = \<lparr>op_names = names, op_dest = dest, op_kind = k, op_required = r\<rparr>"

lemma option_of_sel [simp]:
  "op_names (option_of n d k r) = n" "op_dest (option_of n d k r) = d" "op_kind (option_of n d k r) = k"
  "op_required (option_of n d k r) = r"
  by (simp_all add: option_of_def)

section \<open>Running a benchmark\<close>

definition run_options :: "option_spec list" where
  "run_options = [
     option_of [''--config''] ''config'' Store True, option_of [''--task-id''] ''task_id'' Store False,
     option_of [''--limit''] ''limit'' StoreInt False, option_of [''--mock-llm''] ''mock_llm'' StoreTrue False,
     option_of [''--dry-run''] ''dry_run'' StoreTrue False, option_of [''--force-rerun''] ''force_rerun'' StoreTrue False,
     option_of [''--allow-config-drift''] ''allow_config_drift'' StoreTrue False,
     option_of [''--run-id''] ''run_id'' Store False]"

definition run_args_of :: "namespace \<Rightarrow> run_args" where
  "run_args_of ns = \<lparr>ra_task_id = arg_str ns ''task_id'', ra_limit = arg_int ns ''limit'',
     ra_mock_llm = arg_flag ns ''mock_llm'', ra_dry_run = arg_flag ns ''dry_run'',
     ra_force_rerun = arg_flag ns ''force_rerun'', ra_allow_drift = arg_flag ns ''allow_config_drift'',
     ra_run_id = arg_str ns ''run_id''\<rparr>"

text \<open>The text of \<open>Path(a) / b\<close>: an absolute part starts again, empty parts and single dots vanish.\<close>

fun split_slash :: "string \<Rightarrow> string \<Rightarrow> string list" where
  "split_slash acc [] = [rev acc]"
| "split_slash acc (c # cs) = (if c = CHR ''/'' then rev acc # split_slash [] cs else split_slash (c # acc) cs)"

definition path_root :: "string \<Rightarrow> string" where
  "path_root s =
     (if starts_with ''//'' s \<and> \<not> starts_with ''///'' s then ''//'' else if starts_with ''/'' s then ''/'' else [])"

definition path_parts :: "string \<Rightarrow> string list" where
  "path_parts s = filter (\<lambda>p. p \<noteq> [] \<and> p \<noteq> ''.'') (split_slash [] s)"

definition path_join :: "string \<Rightarrow> string \<Rightarrow> string" where
  "path_join a b =
     (let t = (if starts_with ''/'' b then path_root b @ join ''/'' (path_parts b)
               else path_root a @ join ''/'' (path_parts a @ path_parts b))
      in if t = [] then ''.'' else t)"

definition run_output :: "run_machine \<Rightarrow> string dict \<Rightarrow> run_args \<Rightarrow> string \<Rightarrow> run_end \<Rightarrow> string list" where
  "run_output M env A config_path r =
     (case r of
        DryRun report \<Rightarrow> [dumps_indent ascii_json_string (float_repr (rm_plat M)) 0 report]
      | Finished rs \<Rightarrow> progress rs @
          (case rbind (plan_run M env A config_path) (\<lambda>pl.
             rbind (choose_run_id (rm_plat M) A (rp_config pl) (rp_manifest pl) (graph (rp_compiled pl))) (\<lambda>rid.
               Inr (path_join (xs_output_root (xc_experiment (rp_config pl))) rid))) of
             Inr dir \<Rightarrow> [''run_dir='' @ dir]
           | Inl _ \<Rightarrow> []))"

text \<open>Here the environment file is read by \<open>_run\<close>, after the command line.\<close>

definition run_program ::
  "run_machine \<Rightarrow> string option \<Rightarrow> string dict \<Rightarrow> string list \<Rightarrow> world \<Rightarrow> program_end \<times> world" where
  "run_program M env_file env argv =
     after_parsing run_options argv (\<lambda>ns.
       let A = run_args_of ns; config_path = the (arg_str ns ''config'') in
       with_env env_file env (\<lambda>env'. ending (run_output M env' A config_path) (run_command M env' A config_path)))"

section \<open>Evaluating a run\<close>

definition run_dir_options :: "option_spec list" where
  "run_dir_options = [option_of [''--run-dir''] ''run_dir'' Store True]"

text \<open>\<open>f"{x:.4f}"\<close>.\<close>

definition fixed4 :: "py_float \<Rightarrow> string" where
  "fixed4 x =
     (let n = nat (round_half_even (\<bar>x\<bar> * 10000)); digit = (\<lambda>k. char_of (48 + k mod 10 :: nat)) in
      (if x < 0 then ''-'' else []) @ nat_digits (n div 10000) @ CHR ''.'' #
        [digit (n div 1000), digit (n div 100), digit (n div 10), digit n])"

definition score_line :: "int \<times> py_float \<Rightarrow> string" where
  "score_line s = ''evaluated='' @ py_str_int (fst s) @ '' pass@1='' @ fixed4 (snd s)"

definition evaluate_program ::
  "machine \<Rightarrow> string option \<Rightarrow> string dict \<Rightarrow> string list \<Rightarrow> world \<Rightarrow> program_end \<times> world" where
  "evaluate_program M env_file env argv =
     with_env env_file env (\<lambda>env'.
       after_parsing run_dir_options argv (\<lambda>ns. ending (\<lambda>s. [score_line s]) (evaluate_command M)))"

section \<open>Summarising a run\<close>

definition summarize_program :: "summary_host \<Rightarrow> string list \<Rightarrow> world \<Rightarrow> program_end \<times> world" where
  "summarize_program S argv =
     after_parsing run_dir_options argv (\<lambda>ns.
       ending (\<lambda>s. [dumps_indent ascii_json_string (sh_repr S) 0 (JObj s)]) (summarize_run S))"

section \<open>Checking a graph\<close>

definition graph_options :: "option_spec list" where
  "graph_options = [option_of [''--graph''] ''graph'' Store True,
     option_of [''--contracts-dir''] ''contracts_dir'' Store False]"

definition or_default :: "'a option \<Rightarrow> 'a \<Rightarrow> 'a" where
  "or_default x d = (case x of None \<Rightarrow> d | Some y \<Rightarrow> y)"

definition validate_program ::
  "run_machine \<Rightarrow> string option \<Rightarrow> string dict \<Rightarrow> string list \<Rightarrow> world \<Rightarrow> program_end \<times> world" where
  "validate_program M env_file env argv =
     with_env env_file env (\<lambda>env'.
       after_parsing graph_options argv (\<lambda>ns.
         ending (\<lambda>report. [dumps_indent ascii_json_string (float_repr (rm_plat M)) 0 report])
           (lift (check_graph_file M env' (or_default (arg_str ns ''contracts_dir'') ''configs/contracts'')
              (the (arg_str ns ''graph''))))))"

section \<open>Preparing a manifest\<close>

definition prepare_options :: "option_spec list" where
  "prepare_options = [
     option_of [''--release-version''] ''release_version'' Store False,
     option_of [''--output'', ''--manifest''] ''output'' Store True,
     option_of [''--data-dir''] ''data_dir'' Store False,
     option_of [''--num-easy''] ''num_easy'' StoreInt False, option_of [''--num-medium''] ''num_medium'' StoreInt False,
     option_of [''--num-hard''] ''num_hard'' StoreInt False, option_of [''--seed''] ''seed'' StoreInt False,
     option_of [''--exclusions''] ''exclusions'' Store False,
     option_of [''--exclude-manifest''] ''exclude_manifest'' AppendTo False]"

definition prepare_args_of :: "namespace \<Rightarrow> prepare_args" where
  "prepare_args_of ns = \<lparr>pa_release = or_default (arg_str ns ''release_version'') ''release_v6'',
     pa_easy = or_default (arg_int ns ''num_easy'') 5, pa_medium = or_default (arg_int ns ''num_medium'') 5,
     pa_hard = or_default (arg_int ns ''num_hard'') 5, pa_seed = or_default (arg_int ns ''seed'') 42\<rparr>"

text \<open>The text files the program reads and writes, by the text of their path.\<close>

type_synonym text_files = "string dict"

definition saved_manifest :: "platform \<Rightarrow> lcb_manifest \<Rightarrow> string" where
  "saved_manifest P m = dump_file (float_repr P) (dump_manifest m)"

definition manifest_at :: "platform \<Rightarrow> text_files \<Rightarrow> string \<Rightarrow> lcb_manifest res" where
  "manifest_at P files p =
     rbind (from_option (file_not_found ''No such file or directory'') (dget files p))
       (\<lambda>body. from_option (Exc ValidationErrorC ''LCBManifest'') (read_model (validate_manifest (pyd P)) body))"

text \<open>The exclusion file is read before the manifests to exclude.\<close>

definition excluded_manifests :: "platform \<Rightarrow> text_files \<Rightarrow> string \<Rightarrow> string list \<Rightarrow> lcb_manifest list res" where
  "excluded_manifests P files exclusions paths =
     rbind (case dget files exclusions of None \<Rightarrow> Inr [] | Some body \<Rightarrow> rbind (json_loads body) excluded_of_json)
       (\<lambda>_. rmap (manifest_at P files) paths)"

definition prepare_manifest ::
  "platform \<Rightarrow> (string \<Rightarrow> lcb_host) \<Rightarrow> 's rng \<Rightarrow> string \<Rightarrow> namespace \<Rightarrow> text_files \<Rightarrow> lcb_manifest res" where
  "prepare_manifest P data G data_dir ns files =
     (let exclusions = or_default (arg_str ns ''exclusions'') ''configs/manifests/excluded_ids.json'' in
      rbind (excluded_manifests P files exclusions (arg_list ns ''exclude_manifest'')) (\<lambda>old.
        fst (prepare_lcb P (data data_dir) G (prepare_args_of ns) (dget files exclusions) old [])))"

definition prepare_output :: "string \<Rightarrow> lcb_manifest \<Rightarrow> string list" where
  "prepare_output path m =
     [''Wrote '' @ py_str_int (int (length (mf_entries m))) @ '' tasks to '' @ path,
      ''manifest_sha256='' @ (case mf_sha256 m of None \<Rightarrow> ''None'' | Some h \<Rightarrow> h)]"

definition save_manifest :: "platform \<Rightarrow> string \<Rightarrow> lcb_manifest \<Rightarrow> (text_files, lcb_manifest) io" where
  "save_manifest P path m files = (Inr m, dset path (saved_manifest P m) files)"

definition prepare_program ::
  "platform \<Rightarrow> (string \<Rightarrow> lcb_host) \<Rightarrow> 's rng \<Rightarrow> string option \<Rightarrow> string dict \<Rightarrow> string list
     \<Rightarrow> text_files \<Rightarrow> program_end \<times> text_files" where
  "prepare_program P data G env_file env argv =
     with_env env_file env (\<lambda>env'.
       after_parsing prepare_options argv (\<lambda>ns files.
         let data_dir = (case arg_str ns ''data_dir'' of None \<Rightarrow> dget env' ''LCB_DATA_DIR'' | Some d \<Rightarrow> Some d);
             path = the (arg_str ns ''output'')
         in if \<not> given data_dir then (UsageFailed, files)
            else ending (prepare_output path)
                   (bnd (lift (prepare_manifest P data G (the data_dir) ns files)) (save_manifest P path)) files))"

section \<open>The command line of a run\<close>

definition joined_option :: "option_spec \<Rightarrow> arg_value \<Rightarrow> written_option" where
  "joined_option sp v = \<lparr>wo_name = hd (op_names sp), wo_spec = sp, wo_value = v, wo_joined = True\<rparr>"

lemma assigned_joined [simp]: "assigned (joined_option sp v) = (op_dest sp, v)"
  by (simp add: joined_option_def assigned_def)

text \<open>Every option as \<open>--name=value\<close>, so that any text can be a value.\<close>

definition run_line :: "run_args \<Rightarrow> string \<Rightarrow> written_option list" where
  "run_line A config_path =
     (let str_option = (\<lambda>n d. case d of None \<Rightarrow> [] | Some v \<Rightarrow> [joined_option (run_options ! n) (ArgStr v)]);
          flag_option = (\<lambda>n b. if b then [joined_option (run_options ! n) ArgTrue] else [])
      in joined_option (run_options ! 0) (ArgStr config_path) # str_option 1 (ra_task_id A)
        @ (case ra_limit A of None \<Rightarrow> [] | Some i \<Rightarrow> [joined_option (run_options ! 2) (ArgInt i)])
        @ flag_option 3 (ra_mock_llm A) @ flag_option 4 (ra_dry_run A) @ flag_option 5 (ra_force_rerun A)
        @ flag_option 6 (ra_allow_drift A) @ str_option 7 (ra_run_id A))"

definition run_argv :: "run_args \<Rightarrow> string \<Rightarrow> string list" where
  "run_argv A config_path = concat (map written (run_line A config_path))"

lemma long_run_options: "long_options run_options"
  by (simp add: long_options_def run_options_def option_table_def argument_parser_def help_option_def)

lemma joined_writable:
  assumes "sp \<in> set specs" "op_names sp \<noteq> []" "value_fits (op_kind sp) v" "case v of ArgInt i \<Rightarrow> short_int i | _ \<Rightarrow> True"
  shows "writable_option specs (joined_option sp v)"
  using assms by (auto simp: writable_option_def joined_option_def option_table_def intro!: bexI [of _ sp])

lemma run_option_shapes:
  "run_options ! 0 \<in> set run_options" "op_names (run_options ! 0) \<noteq> []" "op_kind (run_options ! 0) = Store"
  "run_options ! 1 \<in> set run_options" "op_names (run_options ! 1) \<noteq> []" "op_kind (run_options ! 1) = Store"
  "run_options ! 2 \<in> set run_options" "op_names (run_options ! 2) \<noteq> []" "op_kind (run_options ! 2) = StoreInt"
  "run_options ! 7 \<in> set run_options" "op_names (run_options ! 7) \<noteq> []" "op_kind (run_options ! 7) = Store"
  "k \<in> {3, 4, 5, 6} \<Longrightarrow> run_options ! k \<in> set run_options \<and> op_names (run_options ! k) \<noteq> [] \<and> op_kind (run_options ! k) = StoreTrue"
  by (auto simp: run_options_def)

lemma run_line_writable:
  assumes "pred_option short_int (ra_limit A)"
  shows "\<forall>x \<in> set (run_line A p). writable_option run_options x"
proof -
  have "writable_option run_options (joined_option (run_options ! k) (ArgStr v))" if "k \<in> {0, 1, 7}" for k v
    using that by (auto intro!: joined_writable simp: run_option_shapes(1-6,10-12) simp del: One_nat_def)
  moreover have "writable_option run_options (joined_option (run_options ! 2) (ArgInt i))" if "ra_limit A = Some i" for i
    using assms that by (intro joined_writable) (simp_all add: run_option_shapes(7-9))
  moreover have "writable_option run_options (joined_option (run_options ! k) ArgTrue)" if "k \<in> {3, 4, 5, 6}" for k
    using run_option_shapes(13) [OF that] by (intro joined_writable) simp_all
  ultimately show ?thesis by (auto simp: run_line_def Let_def simp del: One_nat_def split: option.splits)
qed

definition maybe :: "string \<Rightarrow> arg_value option \<Rightarrow> namespace" where
  "maybe d y = (case y of None \<Rightarrow> [] | Some v \<Rightarrow> [(d, v)])"

lemma run_line_values:
  "map assigned (run_line A p) = maybe ''config'' (Some (ArgStr p))
     @ maybe ''task_id'' (map_option ArgStr (ra_task_id A)) @ maybe ''limit'' (map_option ArgInt (ra_limit A))
     @ maybe ''mock_llm'' (if ra_mock_llm A then Some ArgTrue else None)
     @ maybe ''dry_run'' (if ra_dry_run A then Some ArgTrue else None)
     @ maybe ''force_rerun'' (if ra_force_rerun A then Some ArgTrue else None)
     @ maybe ''allow_config_drift'' (if ra_allow_drift A then Some ArgTrue else None)
     @ maybe ''run_id'' (map_option ArgStr (ra_run_id A))"
  by (simp add: run_line_def Let_def run_options_def maybe_def split: option.splits)

definition or_else :: "'a option \<Rightarrow> 'a option \<Rightarrow> 'a option" where
  "or_else x y = (case x of None \<Rightarrow> y | Some v \<Rightarrow> Some v)"

lemma or_else_None [simp]: "or_else x None = x" "or_else None y = y"
  by (auto simp: or_else_def split: option.splits)

lemma last_value_maybe:
  "last_value (maybe d y) k = (if k = d then y else None)"
  "last_value (xs @ ys) k = or_else (last_value ys k) (last_value xs k)"
  by (auto simp: last_value_def maybe_def map_add_def or_else_def split: option.splits)

lemma option_same: "(case x of None \<Rightarrow> None | Some v \<Rightarrow> Some v) = x" "((if b then Some ArgTrue else None) = Some ArgTrue) = b"
  by (auto split: option.splits)

lemma run_line_args: "run_args_of (map assigned (run_line A p)) = A" "arg_str (map assigned (run_line A p)) ''config'' = Some p"
  unfolding run_line_values run_args_of_def arg_str_def arg_int_def arg_flag_def
  by (simp_all add: last_value_maybe option_same option.case_eq_if option.map_sel del: if_split)

lemma run_argv_parsed:
  assumes "pred_option short_int (ra_limit A)"
  shows "parse_args run_options (run_argv A p) = Parsed (map assigned (run_line A p))"
  unfolding run_argv_def
proof (rule parse_written [OF long_run_options])
  show "\<forall>x \<in> set (run_line A p). writable_option run_options x" by (rule run_line_writable [OF assms])
  have "''config'' \<in> fst ` set (map assigned (run_line A p))" 
    unfolding run_line_values by (simp add: maybe_def [of "''config''"] del: if_split)
  then show "\<forall>sp \<in> set run_options. op_required sp \<longrightarrow> op_dest sp \<in> fst ` assigned ` set (run_line A p)"
    by (simp add: run_options_def)
qed

lemma run_program_line:
  assumes "pred_option short_int (ra_limit A)"
  shows "run_program M env_file env (run_argv A p) =
    with_env env_file env (\<lambda>env'. ending (run_output M env' A p) (run_command M env' A p))"
proof
  fix w
  show "run_program M env_file env (run_argv A p) w =
      with_env env_file env (\<lambda>env'. ending (run_output M env' A p) (run_command M env' A p)) w"
    unfolding run_program_def after_parsing_def run_argv_parsed [OF assms] parse_end.case Let_def run_line_args
      option.sel by (rule refl)
qed

section \<open>Nothing happens before the command line is accepted\<close>

lemma after_parsing_quiet: "\<nexists>ns. parse_args specs argv = Parsed ns \<Longrightarrow> snd (after_parsing specs argv f w) = w"
  by (cases "parse_args specs argv") (simp_all add: after_parsing_def)

lemma with_env_keeps: "(\<And>env'. snd (f env' w) = w) \<Longrightarrow> snd (with_env env_file env f w) = w"
  by (auto simp: with_env_def split: prod.splits sum.splits)

lemma refused_quiet:
  "\<nexists>ns. parse_args run_options argv = Parsed ns \<Longrightarrow> snd (run_program M env_file env argv w) = w"
  "\<nexists>ns. parse_args run_dir_options argv = Parsed ns \<Longrightarrow> snd (evaluate_program X env_file env argv w) = w"
  "\<nexists>ns. parse_args run_dir_options argv = Parsed ns \<Longrightarrow> snd (summarize_program S argv w) = w"
  "\<nexists>ns. parse_args prepare_options argv = Parsed ns \<Longrightarrow> snd (prepare_program P data G env_file env argv files) = files"
  unfolding run_program_def evaluate_program_def summarize_program_def prepare_program_def
  by (auto intro!: with_env_keeps after_parsing_quiet)

lemma validate_quiet: "snd (validate_program M env_file env argv w) = w"
  unfolding validate_program_def
  by (rule with_env_keeps) (auto simp: after_parsing_def ending_def lift_def split: parse_end.splits sum.splits)

section \<open>What the preparation writes\<close>

lemma endingD: "ending out m w = (Done l, w') \<Longrightarrow> \<exists>x. m w = (Inr x, w') \<and> l = out x"
  by (auto simp: ending_def split: prod.splits sum.splits)

lemma prepare_programE:
  assumes "prepare_program P data G env_file env argv files = (Done out, files')"
  obtains ns env' dir path m where "load_env_file env_file env = (Inr (), env')" "parse_args prepare_options argv = Parsed ns"
    "arg_str ns ''output'' = Some path" "prepare_manifest P data G dir ns files = Inr m"
    "files' = dset path (saved_manifest P m) files" "out = prepare_output path m"
proof -
  obtain u env' where e: "load_env_file env_file env = (Inr u, env')"
    "after_parsing prepare_options argv (\<lambda>ns files.
         let data_dir = (case arg_str ns ''data_dir'' of None \<Rightarrow> dget env' ''LCB_DATA_DIR'' | Some d \<Rightarrow> Some d);
             path = the (arg_str ns ''output'')
         in if \<not> given data_dir then (UsageFailed, files)
            else ending (prepare_output path)
                   (bnd (lift (prepare_manifest P data G (the data_dir) ns files)) (save_manifest P path)) files) files
      = (Done out, files')"
    using assms by (auto simp: prepare_program_def with_env_def split: prod.splits sum.splits)
  obtain ns where ns: "parse_args prepare_options argv = Parsed ns"
    using e(2) by (auto simp: after_parsing_def split: parse_end.splits)
  obtain dir m where r: "prepare_manifest P data G dir ns files = Inr m"
      "files' = dset (the (arg_str ns ''output'')) (saved_manifest P m) files"
      "out = prepare_output (the (arg_str ns ''output'')) m"
    using e(2) unfolding after_parsing_def ns parse_end.case Let_def
    by (auto dest!: endingD simp: bnd_eq_Inr save_manifest_def split: if_splits)
  have "typed prepare_options ns" "''output'' \<in> fst ` set ns"
    using parse_args_ParsedD(2) [OF ns, of "option_of [''--output'', ''--manifest''] ''output'' Store True"]
      parse_args_typed [OF ns] by (simp_all add: prepare_options_def)
  then obtain path where "arg_str ns ''output'' = Some path"
    by (rule typed_text) (auto simp: prepare_options_def)
  then have "arg_str ns ''output'' = Some (the (arg_str ns ''output''))" by simp
  with e(1) ns r that show thesis by auto
qed

text \<open>A manifest that was saved is read back, so the next preparation can exclude its questions.\<close>

lemma saved_manifest_back:
  assumes "pydantic_ok (pyd P)" "writable (float_repr P) (dump_manifest m)" "dget files p = Some (saved_manifest P m)"
  shows "manifest_at P files p = Inr m"
  using assms by (simp add: manifest_at_def saved_manifest_def read_dump_file validate_manifest_dump)

lemma rmap_elem: "rmap f xs = Inr ys \<Longrightarrow> x \<in> set xs \<Longrightarrow> \<exists>y \<in> set ys. f x = Inr y"
  by (induction xs arbitrary: ys) (auto simp: res_simps)

lemma prepare_manifestE:
  assumes "rng_ok G" "prepare_manifest P data G dir ns files = Inr m"
  shows "distinct (map me_question_id (mf_entries m))"
    and "\<And>d n. (d, n) \<in> set (prepare_counts (prepare_args_of ns)) \<Longrightarrow> 0 \<le> n \<Longrightarrow>
           int (length (filter (\<lambda>e. me_difficulty e = d) (mf_entries m))) = n"
    and "\<And>p. p \<in> set (arg_list ns ''exclude_manifest'') \<Longrightarrow> \<exists>old. manifest_at P files p = Inr old
           \<and> set (map me_question_id (mf_entries m)) \<inter> set (map me_question_id (mf_entries old)) = {}"
proof -
  obtain old q where r: "rmap (manifest_at P files) (arg_list ns ''exclude_manifest'') = Inr old"
      "prepare_lcb P (data dir) G (prepare_args_of ns)
        (dget files (or_default (arg_str ns ''exclusions'') ''configs/manifests/excluded_ids.json'')) old [] = (Inr m, q)"
    using assms(2) by (auto simp: prepare_manifest_def excluded_manifests_def Let_def res_simps) (metis prod.collapse)
  note R = prepare_lcb_result [OF assms(1) r(2)]
  show "distinct (map me_question_id (mf_entries m))" by (rule R(1))
  show "int (length (filter (\<lambda>e. me_difficulty e = d) (mf_entries m))) = n"
    if "(d, n) \<in> set (prepare_counts (prepare_args_of ns))" "0 \<le> n" for d n
    by (rule R(3) [OF that])
  show "\<exists>old. manifest_at P files p = Inr old
           \<and> set (map me_question_id (mf_entries m)) \<inter> set (map me_question_id (mf_entries old)) = {}"
    if p: "p \<in> set (arg_list ns ''exclude_manifest'')" for p
  proof -
    obtain o' where "o' \<in> set old" "manifest_at P files p = Inr o'" using rmap_elem [OF r(1) p] by blast
    then show ?thesis using R(2) by fastforce
  qed
qed

lemma prepare_fresh:
  assumes "rng_ok G" "pydantic_ok (pyd P)" "prepare_program P data G env_file env argv files = (Done out, files')"
    and "parse_args prepare_options argv = Parsed ns" "p \<in> set (arg_list ns ''exclude_manifest'')"
    and "dget files p = Some (saved_manifest P old)" "writable (float_repr P) (dump_manifest old)"
  obtains m path where "arg_str ns ''output'' = Some path" "files' = dset path (saved_manifest P m) files"
    "out = prepare_output path m" "distinct (map me_question_id (mf_entries m))"
    "set (map me_question_id (mf_entries m)) \<inter> set (map me_question_id (mf_entries old)) = {}"
    "\<And>d n. (d, n) \<in> set (prepare_counts (prepare_args_of ns)) \<Longrightarrow> 0 \<le> n \<Longrightarrow>
       int (length (filter (\<lambda>e. me_difficulty e = d) (mf_entries m))) = n"
proof -
  obtain dir path m where r: "arg_str ns ''output'' = Some path" "prepare_manifest P data G dir ns files = Inr m"
      "files' = dset path (saved_manifest P m) files" "out = prepare_output path m"
    using assms(3,4) by (auto elim!: prepare_programE)
  note R = prepare_manifestE [OF assms(1) r(2)]
  have "manifest_at P files p = Inr old" by (rule saved_manifest_back [OF assms(2,7,6)])
  then have "set (map me_question_id (mf_entries m)) \<inter> set (map me_question_id (mf_entries old)) = {}"
    using R(3) [OF assms(5)] by simp
  then show thesis using that [OF r(1,3,4) R(1) _ R(2)] by blast
qed

end
