(* ===== verification/Run_Live.thy ===== *)
theory Run_Live
  imports Run_Correct
begin

text \<open>
  A run that must succeed: on a compiled graph without conditions whose nodes have one
  output slot, when every node answers inputs of the declared schemas with an output of the
  declared schema, a fresh run returns, whatever the number of nodes a wave may hold.
\<close>

section \<open>The assumptions on nodes and artifacts\<close>

definition fits :: "platform \<Rightarrow> string \<Rightarrow> envelope \<Rightarrow> bool" where
  "fits P ty a \<longleftrightarrow> valid_artifact P a \<and> artifact_type a = ty"

definition typed_inputs :: "platform \<Rightarrow> node_spec \<Rightarrow> envelope dict \<Rightarrow> bool" where
  "typed_inputs P n inputs \<longleftrightarrow> set (dkeys inputs) = set (dkeys (input_slots n))
     \<and> (\<forall>slot ty. dget (input_slots n) slot = Some ty \<longrightarrow> (\<exists>a. dget inputs slot = Some a \<and> fits P ty a))"

definition answers :: "runtime \<Rightarrow> run_context \<Rightarrow> node_spec \<Rightarrow> bool" where
  "answers R ctx n \<longleftrightarrow> (\<forall>inputs. typed_inputs (plat (rt_host R)) n inputs \<longrightarrow>
     (\<exists>r slot ty a. execute_safely (plat (rt_host R)) (rt_services R) (rt_executors R) ctx n inputs = Inr r
        \<and> succeeded r \<and> output_slots n = [(slot, ty)] \<and> outputs r = [(slot, a)]
        \<and> fits (plat (rt_host R)) ty a))"

text \<open>
  The graph: unconditional edges, one output slot per node, and input slots that agree with
  the initial artifact of their name. The compiler checks the last two only in part.
\<close>

definition plain_graph :: "orchestra_graph \<Rightarrow> bool" where
  "plain_graph g \<longleftrightarrow> (\<forall>e \<in> set (edges g). condition e = None)
     \<and> (\<forall>n \<in> set (nodes g). \<exists>slot ty. output_slots n = [(slot, ty)])
     \<and> (\<forall>n \<in> set (nodes g). \<forall>slot ty ty'. dget (input_slots n) slot = Some ty \<longrightarrow>
          dget (initial_artifact_slots g) slot = Some ty' \<longrightarrow> ty' = ty)"

definition typed_output :: "host \<Rightarrow> world \<Rightarrow> node_spec \<Rightarrow> string dict \<Rightarrow> bool" where
  "typed_output H w nd outs \<longleftrightarrow> (\<exists>slot ty a. output_slots nd = [(slot, ty)] \<and> outs = [(slot, artifact_id a)]
     \<and> stored_artifact H w (artifact_id a) = Some a \<and> fits (plat H) ty a)"

text \<open>What holds between the waves of such a run, beside the invariant.\<close>

definition on_track :: "host \<Rightarrow> orchestra_graph \<Rightarrow> string \<Rightarrow> (string \<Rightarrow> stamp) \<Rightarrow> runtime_state \<Rightarrow> world \<Rightarrow> bool" where
  "on_track H g task stamps st w \<longleftrightarrow>
     (\<forall>n \<in> set (node_ids g). dget (node_status st) n \<in> {Some Pending, Some Succeeded})
     \<and> (\<forall>slot ty. dget (initial_artifact_slots g) slot = Some ty \<longrightarrow>
          (\<exists>aid a. dget (initial_artifacts st) slot = Some aid \<and> stored_artifact H w aid = Some a \<and> fits (plat H) ty a))
     \<and> (\<forall>slot. dget (initial_artifacts st) slot \<noteq> None \<longrightarrow> dget (initial_artifact_slots g) slot \<noteq> None)
     \<and> (\<forall>nd \<in> set (nodes g). \<forall>outs. dget (node_outputs st) (node_id nd) = Some outs \<longrightarrow> typed_output H w nd outs)
     \<and> (\<forall>n \<in> set (node_ids g). dget (node_status st) n = Some Pending \<longrightarrow>
          stored_artifact H w (artifact_name task stamps n) = None)"

lemma on_trackD:
  assumes "on_track H g task stamps st w"
  shows "n \<in> set (node_ids g) \<Longrightarrow> dget (node_status st) n \<in> {Some Pending, Some Succeeded}"
    and "dget (initial_artifact_slots g) slot = Some ty \<Longrightarrow>
      \<exists>aid a. dget (initial_artifacts st) slot = Some aid \<and> stored_artifact H w aid = Some a \<and> fits (plat H) ty a"
    and "dget (initial_artifacts st) slot \<noteq> None \<Longrightarrow> dget (initial_artifact_slots g) slot \<noteq> None"
    and "nd \<in> set (nodes g) \<Longrightarrow> dget (node_outputs st) (node_id nd) = Some outs \<Longrightarrow> typed_output H w nd outs"
    and "n \<in> set (node_ids g) \<Longrightarrow> dget (node_status st) n = Some Pending \<Longrightarrow>
      stored_artifact H w (artifact_name task stamps n) = None"
  using assms unfolding on_track_def by blast+

lemma on_trackI:
  assumes "\<And>n. n \<in> set (node_ids g) \<Longrightarrow> dget (node_status st) n \<in> {Some Pending, Some Succeeded}"
    and "\<And>slot ty. dget (initial_artifact_slots g) slot = Some ty \<Longrightarrow>
      \<exists>aid a. dget (initial_artifacts st) slot = Some aid \<and> stored_artifact H w aid = Some a \<and> fits (plat H) ty a"
    and "\<And>slot. dget (initial_artifacts st) slot \<noteq> None \<Longrightarrow> dget (initial_artifact_slots g) slot \<noteq> None"
    and "\<And>nd outs. nd \<in> set (nodes g) \<Longrightarrow> dget (node_outputs st) (node_id nd) = Some outs \<Longrightarrow> typed_output H w nd outs"
    and "\<And>n. n \<in> set (node_ids g) \<Longrightarrow> dget (node_status st) n = Some Pending \<Longrightarrow>
      stored_artifact H w (artifact_name task stamps n) = None"
  shows "on_track H g task stamps st w"
  using assms unfolding on_track_def by blast

section \<open>Nobody is skipped, somebody is ready\<close>

lemma plain_inactive:
  assumes "state_inv g st" "plain_graph g"
  shows "inactive_edges st = {}"
proof -
  have d: "edges_decided g st" using assms(1) by (simp add: state_inv_def)
  have "i \<in> active_edges st" if "i \<in> inactive_edges st" for i
  proof -
    have "i \<in> set (edge_ids g)" using that d by (auto simp: edges_decided_def)
    then obtain e where "e \<in> set (edges g)" "i = edge_id e" by (auto simp: edge_ids_def)
    then show ?thesis using d assms(2) by (simp add: edges_decided_def plain_graph_def)
  qed
  moreover have "active_edges st \<inter> inactive_edges st = {}" using d by (simp add: edges_decided_def)
  ultimately show ?thesis by blast
qed

lemma no_impossible:
  assumes "compile env g = Inr cg" "state_inv g st" "plain_graph g"
    and "\<And>n. n \<in> set (node_ids g) \<Longrightarrow> dget (node_status st) n \<in> {Some Pending, Some Running, Some Succeeded}"
  shows "impossible_nodes g st = Inr []"
proof -
  have src: "source_node e \<in> set (node_ids g)" if "e \<in> set (edges g)" for e
    using compiled_distinct(4) [OF assms(1) that] by blast
  obtain dead where dead: "impossible_nodes g st = Inr dead"
    using impossible_total [of g st] src assms(2) by (auto simp: state_inv_def)
  have "nid \<notin> set dead" for nid
  proof
    assume "nid \<in> set dead"
    then obtain n slot where n: "incoming g nid slot \<noteq> []"
      "\<forall>e \<in> set (incoming g nid slot). edge_id e \<in> inactive_edges st \<or>
         (\<exists>s. dget (node_status st) (source_node e) = Some s \<and> dead_status s)"
      by (rule impossible_memberD [OF dead])
    then obtain e where e: "e \<in> set (incoming g nid slot)" by (cases "incoming g nid slot") auto
    then have "source_node e \<in> set (node_ids g)" using src by (simp add: incoming_def)
    from assms(4) [OF this] show False
      using bspec [OF n(2) e] plain_inactive [OF assms(2,3)] by (auto simp: dead_status_def)
  qed
  then have "dead = []" by (cases dead) auto
  then show ?thesis using dead by simp
qed

lemma artifact_name_nonempty [simp]: "artifact_name task stamps n \<noteq> []"
  by (simp add: artifact_name_def)

lemma plain_edge:
  assumes "compile env g = Inr cg" "e \<in> set (edges g)" "plain_graph g"
  obtains src dst ty where "src \<in> set (nodes g)" "node_id src = source_node e" "output_slots src = [(source_output e, ty)]"
    "dst \<in> set (nodes g)" "node_id dst = destination_node e" "dget (input_slots dst) (destination_input e) = Some ty"
proof -
  have d: "distinct (node_ids g)" by (rule compiled_distinct(1) [OF assms(1)])
  obtain src dst ty where s: "dget (node_map g) (source_node e) = Some src"
    "dget (node_map g) (destination_node e) = Some dst"
    "dget (output_slots src) (source_output e) = Some ty" "dget (input_slots dst) (destination_input e) = Some ty"
    using assms(1,2) unfolding compile_Inr_iff edge_ok_def by blast
  have src: "src \<in> set (nodes g)" "node_id src = source_node e" using node_map_SomeD [OF d s(1)] by simp_all
  moreover obtain slot ty' where "output_slots src = [(slot, ty')]"
    using assms(3) src(1) unfolding plain_graph_def by blast
  ultimately show thesis using that [of src ty dst] s node_map_SomeD [OF d s(2)] by (simp split: if_splits)
qed

text \<open>A successful source resolves the slot its edge feeds.\<close>

lemma resolve_succeeded:
  assumes "compile env g = Inr cg" "state_inv g st" "plain_graph g" "e \<in> set (incoming g nid slot)"
    and out: "\<And>nd outs. nd \<in> set (nodes g) \<Longrightarrow> dget (node_outputs st) (node_id nd) = Some outs \<Longrightarrow> output_stored H g w task (node_id nd) outs"
    and "dget (node_status st) (source_node e) = Some Succeeded"
  shows "resolve_slot g st nid slot \<noteq> None"
proof -
  have e: "e \<in> set (edges g)" using assms(4) by (simp add: incoming_def)
  obtain src ty where src: "src \<in> set (nodes g)" "node_id src = source_node e"
    "output_slots src = [(source_output e, ty)]" by (rule plain_edge [OF assms(1) e assms(3)])
  obtain outs where outs: "dget (node_outputs st) (source_node e) = Some outs"
    using assms(2,6) unfolding state_inv_def outputs_succeeded_def by (metis not_Some_eq)
  have "output_stored H g w task (node_id src) outs" using out [OF src(1)] outs src(2) by simp
  then obtain nd slot' aid where nd: "nd \<in> set (nodes g)" "node_id nd = node_id src"
    "\<exists>ty rest. output_slots nd = (slot', ty) # rest" "outs = [(slot', aid)]" "aid \<noteq> []"
    unfolding output_stored_def by (metis append_is_Nil_conv list.distinct(1))
  have "nd = src"
    using nd(1,2) src(1) compiled_distinct(1) [OF assms(1)] by (auto simp: node_ids_def distinct_map dest: inj_onD)
  then have "dget outs (source_output e) = Some aid" using nd src(3) by auto
  moreover have "edge_id e \<in> active_edges st"
    using assms(2,3) e by (simp add: state_inv_def edges_decided_def plain_graph_def)
  ultimately have "edge_artifact st e = Some aid" using outs nd(5) by (simp add: edge_artifact_Some)
  then have "first_artifact st (incoming g nid slot) \<noteq> None"
    using assms(4) first_artifact_None [of st "incoming g nid slot"] by auto
  then show ?thesis by (simp add: resolve_slot_def split: option.splits)
qed

lemma somebody_ready:
  assumes comp: "compile env g = Inr cg" and inv: "run_inv H g task st w" and plain: "plain_graph g"
    and track: "on_track H g task stamps st w" and going: "\<not> frozen st" and m: "0 < m"
    and ready: "find_ready_nodes m g st = Inr ready"
  shows "ready \<noteq> []"
proof
  assume "ready = []"
  then have none: "find_ready_nodes m g st = Inr []" using ready by simp
  have sinv: "state_inv g st" using inv by (simp add: run_inv_def run_core_def)
  have out: "output_stored H g w task n outs" if "dget (node_outputs st) n = Some outs" for n outs
    using inv that by (simp add: run_inv_def run_core_def)
  have W: "\<forall>e \<in> set (edges g). wave_index (waves cg) (source_node e) < wave_index (waves cg) (destination_node e)"
    using compiled_waves [OF comp] by blast
  have d: "distinct (node_ids g)" by (rule compiled_distinct(1) [OF comp])
  have finished: "dget (node_status st) (node_id nd) = Some Succeeded" if "nd \<in> set (nodes g)" for nd
    using that
  proof (induction "wave_index (waves cg) (node_id nd)" arbitrary: nd rule: less_induct)
    case less
    show ?case
    proof (rule ccontr)
      assume "dget (node_status st) (node_id nd) \<noteq> Some Succeeded"
      then have "dget (node_status st) (node_id nd) = Some Pending"
        using on_trackD(1) [OF track, of "node_id nd"] less.prems by (auto simp: node_ids_def)
      then obtain slot where slot: "slot \<in> set (dkeys (input_slots nd))" "resolve_slot g st (node_id nd) slot = None"
        using ready_empty [OF d none m less.prems] by blast
      then have "dget (initial_artifacts st) slot = None" by (simp add: resolve_slot_def split: option.splits)
      then have "dget (initial_artifact_slots g) slot = None"
        using on_trackD(2) [OF track, of slot] by (cases "dget (initial_artifact_slots g) slot") auto
      then obtain e where e: "e \<in> set (edges g)" "destination_node e = node_id nd" "destination_input e = slot"
        using compiled_bound [OF comp] less.prems slot(1) by blast
      obtain src where src: "src \<in> set (nodes g)" "node_id src = source_node e"
        by (rule plain_edge [OF comp e(1) plain])
      have "wave_index (waves cg) (node_id src) < wave_index (waves cg) (node_id nd)"
        using W e(1,2) src(2) by metis
      from less.hyps [OF this src(1)] have "dget (node_status st) (source_node e) = Some Succeeded"
        using src(2) by simp
      moreover have "e \<in> set (incoming g (node_id nd) slot)" using e by (simp add: incoming_def)
      ultimately show False
        using resolve_succeeded [OF comp sinv plain _ out] slot(2) by blast
    qed
  qed
  obtain nd where nd: "nd \<in> set (nodes g)" "final_output_slot g \<in> set (dkeys (output_slots nd))"
    using compiled_reachable [OF comp] by blast
  obtain slot ty where slot: "output_slots nd = [(slot, ty)]" using plain nd(1) unfolding plain_graph_def by blast
  obtain outs where outs: "dget (node_outputs st) (node_id nd) = Some outs"
    using finished [OF nd(1)] sinv unfolding state_inv_def outputs_succeeded_def by (metis not_Some_eq)
  have "dget outs (final_output_slot g) \<noteq> None"
    using on_trackD(4) [OF track nd(1) outs] slot nd(2) by (auto simp: typed_output_def)
  then have "final_slot_of g st (node_id nd) \<noteq> None" using outs by (simp add: final_slot_of_def)
  then show False using sinv going by (auto simp: state_inv_def frozen_final_def)
qed


section \<open>The inputs of a ready node\<close>

lemma resolved_fits:
  assumes comp: "compile env g = Inr cg" and plain: "plain_graph g" and track: "on_track H g task stamps st w"
    and n: "n \<in> set (nodes g)" "dget (input_slots n) slot = Some ty" and r: "resolve_slot g st (node_id n) slot = Some aid"
  shows "\<exists>a. stored_artifact H w aid = Some a \<and> fits (plat H) ty a"
proof (cases "dget (initial_artifacts st) slot")
  case (Some i)
  then have i: "i = aid" using r by (simp add: resolve_slot_def)
  obtain ty' where ty': "dget (initial_artifact_slots g) slot = Some ty'"
    using on_trackD(3) [OF track, of slot] Some by auto
  then have "ty' = ty" using plain n unfolding plain_graph_def by blast
  then show ?thesis using on_trackD(2) [OF track ty'] Some i by auto
next
  case None
  then obtain e where e: "e \<in> set (incoming g (node_id n) slot)" "edge_artifact st e = Some aid"
    using r by (auto simp: resolve_slot_def dest: first_artifact_Some)
  then have edge: "e \<in> set (edges g)" "destination_node e = node_id n" "destination_input e = slot"
    by (simp_all add: incoming_def)
  obtain src dst t where s: "src \<in> set (nodes g)" "node_id src = source_node e" "output_slots src = [(source_output e, t)]"
    "dst \<in> set (nodes g)" "node_id dst = destination_node e" "dget (input_slots dst) (destination_input e) = Some t"
    by (rule plain_edge [OF comp edge(1) plain])
  have "dst = n"
    using s(4,5) n(1) edge(2) compiled_distinct(1) [OF comp] by (auto simp: node_ids_def distinct_map dest: inj_onD)
  then have t: "t = ty" using s(6) n(2) edge(3) by simp
  obtain outs where outs: "dget (node_outputs st) (node_id src) = Some outs" "dget outs (source_output e) = Some aid"
    using e(2) s(2) by (auto simp: edge_artifact_Some)
  show ?thesis using on_trackD(4) [OF track s(1) outs(1)] outs(2) s(3) t by (auto simp: typed_output_def)
qed

lemma resolve_cong:
  assumes "initial_artifacts st' = initial_artifacts st" "node_outputs st' = node_outputs st"
    "active_edges st' = active_edges st"
  shows "resolve_slots g st' n nid = resolve_slots g st n nid"
proof -
  have "edge_artifact st' e = edge_artifact st e" for e using assms by (simp add: edge_artifact_def)
  then have "first_artifact st' es = first_artifact st es" for es
    by (induction es) (auto split: option.splits)
  then have "resolve_slot g st' nid slot = resolve_slot g st nid slot" for slot
    unfolding resolve_slot_def assms(1) by (cases "dget (initial_artifacts st) slot") simp_all
  then have "resolve_slot g st' nid = resolve_slot g st nid" by (rule ext)
  then show ?thesis by (simp add: resolve_slots_def)
qed

lemma dict_of_keys_distinct: "distinct (dkeys (dict_of kvs))"
proof -
  have "distinct (dkeys (fold (\<lambda>(k, v). dset k v) kvs d))" if "distinct (dkeys d)" for d
    using that by (induction kvs arbitrary: d) (auto simp: distinct_update)
  then show ?thesis by (simp add: dict_of_def)
qed

lemma resolve_slots_distinct: "distinct (dkeys (resolve_slots g st n nid))"
  by (simp add: resolve_slots_def dict_of_keys_distinct)

text \<open>What \<open>load_inputs\<close> reads, as a function of what the store returns.\<close>

definition loaded_from :: "(string \<Rightarrow> envelope option) \<Rightarrow> string dict \<Rightarrow> envelope dict" where
  "loaded_from look ids = map (\<lambda>(slot, aid). (slot, the (look aid))) ids"

lemma collect_stored:
  "\<forall>(slot, aid) \<in> set ids. stored_artifact H w aid \<noteq> None \<Longrightarrow>
     collect (\<lambda>(slot, aid). bnd (get_artifact H aid) (\<lambda>a. ret (slot, a))) ids w
       = (Inr (loaded_from (stored_artifact H w) ids), w)"
proof (induction ids)
  case (Cons sa ids)
  obtain slot aid where sa: "sa = (slot, aid)" by (cases sa)
  then obtain a where "read_artifact H w aid = Inr a" "stored_artifact H w aid = Some a"
    using Cons.prems by (auto simp: stored_artifact_def split: sum.splits)
  then show ?case using Cons sa by (simp add: bnd_def get_artifact_def loaded_from_def)
qed (simp add: loaded_from_def)

lemma load_inputs_ok:
  assumes "find_node g nid = Some n" "\<forall>(slot, aid) \<in> set (resolve_slots g st n nid). stored_artifact H w aid \<noteq> None"
  shows "load_inputs H g st nid w = (Inr (loaded_from (stored_artifact H w) (resolve_slots g st n nid)), w)"
  using collect_stored [OF assms(2)] assms(1) by (simp add: load_inputs_def resolve_input_ids_def bnd_def)

lemma emit_result: "emit ctx g ty f w = (Inr (), snd (emit ctx g ty f w))"
  by (simp add: emit_def)

lemma emit_stored [simp]: "stored_artifact H (snd (emit ctx g ty f w)) = stored_artifact H w"
  by (simp add: emit_def)

lemma prepare_ok:
  assumes "\<forall>nid \<in> set ids. \<exists>n. find_node g nid = Some n
      \<and> (\<forall>(slot, aid) \<in> set (resolve_slots g st n nid). look aid \<noteq> None)"
    and "stored_artifact H w = look" "initial_artifacts st' = initial_artifacts st"
    "node_outputs st' = node_outputs st" "active_edges st' = active_edges st"
  shows "\<exists>inputs' w'. prepare H g ctx ids st' inputs w = (Inr (mark Running ids st', inputs'), w')
    \<and> stored_artifact H w' = look
    \<and> (\<forall>nid. dget inputs' nid = (if nid \<in> set ids
          then Some (loaded_from look (resolve_slots g st (the (find_node g nid)) nid)) else dget inputs nid))"
  using assms
proof (induction ids arbitrary: st' inputs w)
  case (Cons nid ids)
  let ?st = "st'\<lparr>node_status := dset nid Running (node_status st')\<rparr>"
  let ?here = "\<lambda>e. e\<lparr>ev_wave_id := Some (wave_id st'), ev_node_id := Some nid\<rparr>"
  obtain n where n: "find_node g nid = Some n" "\<forall>(slot, aid) \<in> set (resolve_slots g st n nid). look aid \<noteq> None"
    using Cons.prems(1) by auto
  have same: "resolve_slots g ?st n nid = resolve_slots g st n nid"
    using Cons.prems(3-5) by (intro resolve_cong) simp_all
  let ?loaded = "loaded_from look (resolve_slots g st n nid)"
  have ld: "load_inputs H g ?st nid w = (Inr ?loaded, w)"
    using load_inputs_ok [OF n(1), of ?st H w] n(2) Cons.prems(2) same by simp
  define w2 where "w2 = snd (emit ctx g ''NODE_STARTED'' ?here (snd (emit ctx g ''NODE_READY'' ?here w)))"
  have run: "prepare H g ctx (nid # ids) st' inputs w = prepare H g ctx ids ?st (dset nid ?loaded inputs) w2"
    by (simp add: Let_def bnd_def thn_def ld w2_def emit_def)
  have "\<exists>inputs' w'. prepare H g ctx ids ?st (dset nid ?loaded inputs) w2 = (Inr (mark Running ids ?st, inputs'), w')
    \<and> stored_artifact H w' = look
    \<and> (\<forall>k. dget inputs' k = (if k \<in> set ids
          then Some (loaded_from look (resolve_slots g st (the (find_node g k)) k)) else dget (dset nid ?loaded inputs) k))"
    by (rule Cons.IH) (use Cons.prems in \<open>simp_all add: w2_def\<close>)
  then obtain inputs' w' where I: "prepare H g ctx ids ?st (dset nid ?loaded inputs) w2 = (Inr (mark Running ids ?st, inputs'), w')"
    "stored_artifact H w' = look"
    "\<And>k. dget inputs' k = (if k \<in> set ids
          then Some (loaded_from look (resolve_slots g st (the (find_node g k)) k)) else dget (dset nid ?loaded inputs) k)"
    by blast
  have "mark Running ids ?st = mark Running (nid # ids) st'" by (simp add: mark_def)
  then show ?case unfolding run using n(1) I
    by (intro exI [of _ inputs'] exI [of _ w']) (simp add: dget_dset)
qed (simp add: mark_def)

lemma loaded_get: "dget (loaded_from look ids) slot = map_option (\<lambda>aid. the (look aid)) (dget ids slot)"
  by (induction ids) (auto simp: loaded_from_def)

lemma loaded_keys: "dkeys (loaded_from look ids) = dkeys ids"
  by (simp add: loaded_from_def comp_def case_prod_beta')

lemma ready_typed:
  assumes comp: "compile env g = Inr cg" and plain: "plain_graph g" and track: "on_track H g task stamps st w"
    and ready: "find_ready_nodes m g st = Inr ready" and nid: "nid \<in> set ready"
  obtains n where "n \<in> set (nodes g)" "node_id n = nid" "find_node g nid = Some n"
    "\<forall>(slot, aid) \<in> set (resolve_slots g st n nid). stored_artifact H w aid \<noteq> None"
    "typed_inputs (plat H) n (loaded_from (stored_artifact H w) (resolve_slots g st n nid))"
proof -
  have d: "distinct (node_ids g)" by (rule compiled_distinct(1) [OF comp])
  obtain n where n: "n \<in> set (nodes g)" "node_id n = nid"
    "\<forall>slot \<in> set (dkeys (input_slots n)). resolve_slot g st nid slot \<noteq> None"
    by (rule ready_memberD [OF d ready nid])
  have fit: "\<exists>a. stored_artifact H w aid = Some a \<and> fits (plat H) ty a"
    if "dget (input_slots n) slot = Some ty" "resolve_slot g st nid slot = Some aid" for slot ty aid
    using resolved_fits [OF comp plain track n(1) that(1)] that(2) n(2) by simp
  have ids: "dget (resolve_slots g st n nid) slot = Some aid" if "(slot, aid) \<in> set (resolve_slots g st n nid)" for slot aid
    using that by (intro map_of_is_SomeI) (simp_all add: resolve_slots_distinct del: distinct_map)
  have "stored_artifact H w aid \<noteq> None" if mem: "(slot, aid) \<in> set (resolve_slots g st n nid)" for slot aid
  proof -
    have r: "resolve_slot g st nid slot = Some aid" "slot \<in> set (dkeys (input_slots n))"
      using ids [OF mem] by (simp_all add: resolve_slots_lookup split: if_splits)
    then obtain ty where "dget (input_slots n) slot = Some ty"
      by (metis map_of_eq_None_iff list.set_map not_None_eq)
    then show ?thesis using fit [OF _ r(1)] by auto
  qed
  then have stored: "\<forall>(slot, aid) \<in> set (resolve_slots g st n nid). stored_artifact H w aid \<noteq> None"
    by blast
  have "typed_inputs (plat H) n (loaded_from (stored_artifact H w) (resolve_slots g st n nid))"
    unfolding typed_inputs_def
  proof (intro conjI allI impI)
    show "set (dkeys (loaded_from (stored_artifact H w) (resolve_slots g st n nid))) = set (dkeys (input_slots n))"
      unfolding loaded_keys resolve_slots_keys using n(3) by auto
    fix slot ty assume ty: "dget (input_slots n) slot = Some ty"
    then have mem: "slot \<in> set (dkeys (input_slots n))" by (metis map_of_eq_None_iff list.set_map option.distinct(1))
    then obtain aid where aid: "resolve_slot g st nid slot = Some aid" using n(3) by auto
    obtain a where "stored_artifact H w aid = Some a" "fits (plat H) ty a" using fit [OF ty aid] by blast
    then show "\<exists>a. dget (loaded_from (stored_artifact H w) (resolve_slots g st n nid)) slot = Some a \<and> fits (plat H) ty a"
      using mem aid by (simp add: loaded_get resolve_slots_lookup)
  qed
  moreover have "find_node g nid = Some n" using find_node_distinct [OF d n(1)] n(2) by simp
  ultimately show thesis using that n(1,2) stored by blast
qed


section \<open>A turn succeeds\<close>

lemma rmap_all: "(\<And>x. x \<in> set xs \<Longrightarrow> \<exists>y. f x = Inr y \<and> Q x y) \<Longrightarrow>
  \<exists>ys. rmap f xs = Inr ys \<and> list_all2 (\<lambda>x y. f x = Inr y \<and> Q x y) xs ys"
proof (induction xs)
  case (Cons x xs)
  have "\<exists>y. f x = Inr y \<and> Q x y" by (rule Cons.prems) simp
  moreover have "\<exists>ys. rmap f xs = Inr ys \<and> list_all2 (\<lambda>x y. f x = Inr y \<and> Q x y) xs ys"
    by (rule Cons.IH) (rule Cons.prems, simp)
  ultimately show ?case by auto
qed simp

text \<open>What the result of a ready node looks like in such a run.\<close>

definition good_result :: "runtime \<Rightarrow> orchestra_graph \<Rightarrow> run_context \<Rightarrow> node_result \<Rightarrow> bool" where
  "good_result R g ctx r \<longleftrightarrow> succeeded r \<and> (\<exists>n slot ty a. n \<in> set (nodes g) \<and> node_id n = res_node_id r
     \<and> output_slots n = [(slot, ty)] \<and> outputs r = [(slot, a)] \<and> fits (plat (rt_host R)) ty a
     \<and> env_task_id a = ctx_task_id ctx
     \<and> artifact_id a = artifact_name (ctx_task_id ctx) (stamp_for (rt_services R)) (res_node_id r))"

lemma answers_good:
  assumes "pydantic_ok (pyd (plat (rt_host R)))" "answers R ctx n" "n \<in> set (nodes g)"
    "typed_inputs (plat (rt_host R)) n inputs"
  shows "\<exists>r. execute_safely (plat (rt_host R)) (rt_services R) (rt_executors R) ctx n inputs = Inr r
    \<and> good_result R g ctx r \<and> res_node_id r = node_id n"
proof -
  obtain r slot ty a where r: "execute_safely (plat (rt_host R)) (rt_services R) (rt_executors R) ctx n inputs = Inr r"
    "succeeded r" "output_slots n = [(slot, ty)]" "outputs r = [(slot, a)]" "fits (plat (rt_host R)) ty a"
    using assms(2,4) unfolding answers_def by blast
  have "produced (plat (rt_host R)) (ctx_task_id ctx) (stamp_for (rt_services R)) n inputs r"
    by (rule registry.run_produced [OF assms(1) r(1)])
  then have "res_node_id r = node_id n" "env_task_id a = ctx_task_id ctx"
    "artifact_id a = artifact_name (ctx_task_id ctx) (stamp_for (rt_services R)) (node_id n)"
    using r(2-4) by (auto simp: produced_def)
  then show ?thesis using r assms(3) unfolding good_result_def by auto
qed

lemma commit_results_ok:
  assumes "\<forall>e \<in> set (edges g). condition e = None"
  shows "\<exists>c'. commit_results g rs c = Inr c'"
proof -
  have edges: "decide_edges r es c = Inr c" if "set es \<subseteq> set (edges g)" for r es c
    using that assms by (induction es) (auto simp: decide_edge_def)
  have "\<exists>c'. commit_result g r c = Inr c'" for r c
    by (simp add: commit_result_def Let_def edges)
  then show ?thesis by (induction rs arbitrary: c) (simp, metis commit_results.simps(2) rbind.simps(2))
qed

lemma good_outputs:
  assumes "\<forall>r \<in> set rs. good_result R g ctx r" "a \<in> set (wave_outputs rs)"
  obtains r where "r \<in> set rs" "artifact_id a = artifact_name (ctx_task_id ctx) (stamp_for (rt_services R)) (res_node_id r)"
    "valid_artifact (plat (rt_host R)) a" "dvalues (outputs r) = [a]"
proof -
  obtain r where r: "r \<in> set rs" "succeeded r" "a \<in> set (dvalues (outputs r))"
    using assms(2) unfolding wave_outputs_set by blast
  have "good_result R g ctx r" using assms(1) r(1) by blast
  then obtain slot ty b where b: "outputs r = [(slot, b)]" "fits (plat (rt_host R)) ty b"
    "artifact_id b = artifact_name (ctx_task_id ctx) (stamp_for (rt_services R)) (res_node_id r)"
    unfolding good_result_def by blast
  then have "a = b" using r(3) by simp
  then show thesis using that [OF r(1)] b by (simp add: fits_def)
qed

lemma put_wave_ok:
  assumes inv: "store_inv H w" "ids_free task g w" and H: "H = rt_host R" and task: "task = ctx_task_id ctx"
    and wr: "wave_results H g task rs" and good: "\<forall>r \<in> set rs. good_result R g ctx r"
    and inj: "inj_on (artifact_name task (stamp_for (rt_services R))) (set (node_ids g))"
    and fresh: "\<forall>r \<in> set rs. stored_artifact H w (artifact_name task (stamp_for (rt_services R)) (res_node_id r)) = None"
  shows "\<exists>w'. for_each (put_artifact H) (wave_outputs rs) w = (Inr (), w')"
proof -
  have adm: "\<forall>a \<in> set (wave_outputs rs). admits_artifact w a \<and> env_task_id a = task"
    using wave_results_admitted [OF wr inv(2)] by (simp add: wave_admitted_def)
  have ok: "valid_artifact (plat H) a \<and> stored_artifact H w (artifact_id a) \<in> {None, Some a}"
    if "a \<in> set (wave_outputs rs)" for a
    by (rule good_outputs [OF good that]) (use fresh H task in auto)
  have "inj_on artifact_id (set (wave_outputs rs))"
  proof (rule inj_onI)
    fix a b assume ab: "a \<in> set (wave_outputs rs)" "b \<in> set (wave_outputs rs)" "artifact_id a = artifact_id b"
    obtain r where r: "r \<in> set rs" "artifact_id a = artifact_name (ctx_task_id ctx) (stamp_for (rt_services R)) (res_node_id r)"
      "dvalues (outputs r) = [a]" by (rule good_outputs [OF good ab(1)])
    obtain s where s: "s \<in> set rs" "artifact_id b = artifact_name (ctx_task_id ctx) (stamp_for (rt_services R)) (res_node_id s)"
      "dvalues (outputs s) = [b]" by (rule good_outputs [OF good ab(2)])
    have "res_node_id r = res_node_id s"
      using inj_onD [OF inj, of "res_node_id r" "res_node_id s"] ab(3) r s task wave_results_nodes [OF wr] by simp
    then have "r = s" using wr r(1) s(1) by (auto simp: wave_results_def distinct_map dest: inj_onD)
    then show "a = b" using r(3) s(3) by simp
  qed
  then show ?thesis using file_store.put_all_iff [OF inv(1) adm] ok by blast
qed

text \<open>The state a turn leaves is on track again.\<close>

lemma commit_on_track:
  assumes track: "on_track H g task stamps st w" and H: "H = rt_host R" and task: "task = ctx_task_id ctx"
    and stamps: "stamps = stamp_for (rt_services R)"
    and d: "distinct (map res_node_id rs)" and good: "\<forall>r \<in> set rs. good_result R g ctx r"
    and ids: "distinct (node_ids g)" and inj: "inj_on (artifact_name task stamps) (set (node_ids g))"
    and ap: "apply_results g (mark Running (map res_node_id rs) st) rs = Inr c"
    and stored: "\<forall>a \<in> set (wave_outputs rs). stored_artifact H w' (artifact_id a) = Some a"
    and keep: "\<And>i a. stored_artifact H w i = Some a \<Longrightarrow> stored_artifact H w' i = Some a"
    and other: "\<And>i. i \<notin> artifact_id ` set (wave_outputs rs) \<Longrightarrow> stored_artifact H w' i = stored_artifact H w i"
    and run: "same_run st (c_state c)"
    and noskip: "\<And>n. dget (node_status (c_state c)) n \<noteq> Some Skipped"
    and ready: "\<forall>r \<in> set rs. res_node_id r \<in> set (node_ids g)"
  shows "on_track H g task stamps (c_state c) w'"
proof -
  let ?prev = "mark Running (map res_node_id rs) st"
  have status: "dget (node_status (c_state c)) n = (if n \<in> res_node_id ` set rs then Some Succeeded else dget (node_status st) n)" for n
  proof (cases "n \<in> res_node_id ` set rs")
    case True
    then obtain r where "r \<in> set rs" "n = res_node_id r" by blast
    then show ?thesis using apply_results_status(1) [OF ap d, of r] good by (auto simp: outcome_def good_result_def)
  next
    case False
    then show ?thesis using apply_results_status(2) [OF ap d False] noskip [of n] by (auto simp: mark_status)
  qed
  have typed: "typed_output H w' nd outs"
    if nd: "nd \<in> set (nodes g)" and outs: "dget (node_outputs (c_state c)) (node_id nd) = Some outs" for nd outs
    using apply_results_outputs [OF ap d outs]
  proof
    assume "dget (node_outputs ?prev) (node_id nd) = Some outs"
    then have "typed_output H w nd outs" using on_trackD(4) [OF track nd] by simp
    then show ?thesis using keep unfolding typed_output_def by blast
  next
    assume "\<exists>r \<in> set rs. res_node_id r = node_id nd \<and> succeeded r \<and> outs = output_ids r"
    then obtain r where r: "r \<in> set rs" "res_node_id r = node_id nd" "outs = output_ids r" by blast
    then obtain n slot ty a where n: "n \<in> set (nodes g)" "node_id n = node_id nd" "output_slots n = [(slot, ty)]"
      "outputs r = [(slot, a)]" "fits (plat H) ty a" "succeeded r"
      using bspec [OF good r(1)] H unfolding good_result_def by auto
    have "n = nd" using n(1,2) nd ids by (auto simp: node_ids_def distinct_map dest: inj_onD)
    moreover have "a \<in> set (wave_outputs rs)" using r(1) n(4,6) by (auto simp: wave_outputs_set)
    ultimately show ?thesis using n r(3) stored by (auto simp: typed_output_def output_ids_def)
  qed
    have fresh: "stored_artifact H w' (artifact_name task stamps n) = None"
    if n: "n \<in> set (node_ids g)" "dget (node_status (c_state c)) n = Some Pending" for n
  proof -
    have old: "n \<notin> res_node_id ` set rs" "dget (node_status st) n = Some Pending"
      using n(2) status [of n] by (auto split: if_splits)
    have "artifact_name task stamps n \<notin> artifact_id ` set (wave_outputs rs)"
    proof
      assume "artifact_name task stamps n \<in> artifact_id ` set (wave_outputs rs)"
      then obtain a where a: "a \<in> set (wave_outputs rs)" "artifact_id a = artifact_name task stamps n" by auto
      obtain r where r: "r \<in> set rs" "artifact_id a = artifact_name (ctx_task_id ctx) (stamp_for (rt_services R)) (res_node_id r)"
        by (rule good_outputs [OF good a(1)])
      have "n = res_node_id r"
        using inj_onD [OF inj _ n(1), of "res_node_id r"] a(2) r ready task stamps by auto
      then show False using old(1) r(1) by blast
    qed
    then show ?thesis using other on_trackD(5) [OF track n(1) old(2)] by simp
  qed
  have same: "initial_artifacts (c_state c) = initial_artifacts st" using run by (simp add: same_run_def)
  have pend: "dget (node_status (c_state c)) n \<in> {Some Pending, Some Succeeded}" if "n \<in> set (node_ids g)" for n
    using status [of n] on_trackD(1) [OF track that] by auto
  have init: "\<exists>aid a. dget (initial_artifacts (c_state c)) slot = Some aid \<and> stored_artifact H w' aid = Some a \<and> fits (plat H) ty a"
    if "dget (initial_artifact_slots g) slot = Some ty" for slot ty
    unfolding same using on_trackD(2) [OF track that] keep by blast
  show ?thesis
    by (rule on_trackI [OF pend init _ typed fresh]) (use on_trackD(3) [OF track] same in auto)
qed

lemma apply_results_good:
  assumes comp: "compile env g = Inr cg" and plain: "plain_graph g" and inv: "state_inv g prev"
    and wave: "wave_of g prev rs" and good: "\<forall>r \<in> set rs. succeeded r"
    and st: "\<And>n. n \<in> set (node_ids g) \<Longrightarrow> dget (node_status prev) n \<in> {Some Pending, Some Running, Some Succeeded}"
  shows "\<exists>c. apply_results g prev rs = Inr c \<and> same_run prev (c_state c)
    \<and> (\<forall>n. dget (node_status (c_state c)) n \<noteq> Some Skipped)"
proof -
  let ?c0 = "\<lparr>c_state = prev, c_committed = [], c_activated = [], c_disabled = []\<rparr>"
  have d: "distinct (map res_node_id (sort_key res_node_id rs))"
    using wave by (simp add: wave_of_def sorted_wave)
  obtain c1 where c1: "commit_results g (sort_key res_node_id rs) ?c0 = Inr c1"
    using commit_results_ok plain unfolding plain_graph_def by blast
  have C: "state_inv g (c_state c1)" "state_le prev (c_state c1)"
    using commit_results_inv [OF c1 _ compiled_distinct(2) [OF comp]] inv wave_of_sorted [OF wave] by simp_all
  have status: "dget (node_status (c_state c1)) n \<in> {Some Pending, Some Running, Some Succeeded}"
    if "n \<in> set (node_ids g)" for n
  proof (cases "find (\<lambda>r. res_node_id r = n) (sort_key res_node_id rs)")
    case None
    then show ?thesis using commit_results_status [OF c1 d, of n] st [OF that] by simp
  next
    case (Some r)
    then show ?thesis using commit_results_status [OF c1 d, of n] good find_SomeD [OF Some] by (simp add: outcome_def)
  qed
  have "impossible_nodes g (c_state c1) = Inr []" by (rule no_impossible [OF comp C(1) plain status])
  then have "apply_results g prev rs = Inr (c1\<lparr>c_state := (c_state c1)\<lparr>wave_id := wave_id (c_state c1) + 1,
      checkpoint_count := checkpoint_count (c_state c1) + 1\<rparr>\<rparr>)"
    using c1 by (simp add: apply_results_def skip_nodes_def)
  moreover have "dget (node_status (c_state c1)) n \<noteq> Some Skipped" for n
    using status [of n] knows_lookup [of g "c_state c1" n] C(1) by (auto simp: state_inv_def)
  moreover have "same_run prev (c_state c1)" using C(2) by (simp add: state_le_def)
  ultimately show ?thesis by (auto simp: same_run_def)
qed


text \<open>The whole of what the theorem assumes about the program and the graph.\<close>

definition live_setup :: "runtime \<Rightarrow> compiler_env \<Rightarrow> compiled_graph \<Rightarrow> run_context \<Rightarrow> bool" where
  "live_setup R env cg ctx \<longleftrightarrow> compile env (graph cg) = Inr cg \<and> pydantic_ok (pyd (plat (rt_host R)))
     \<and> plain_graph (graph cg) \<and> (\<forall>n \<in> set (nodes (graph cg)). answers R ctx n)
     \<and> inj_on (artifact_name (ctx_task_id ctx) (stamp_for (rt_services R))) (set (node_ids (graph cg)))
     \<and> 0 < max_parallel_nodes_per_task (limits ctx)"

lemma live_setup_sound: "live_setup R env cg ctx \<Longrightarrow> sound_setup R (graph cg)"
  using compiled_distinct(1,2) by (auto simp: live_setup_def sound_setup_def)

abbreviation tracked :: "runtime \<Rightarrow> compiled_graph \<Rightarrow> run_context \<Rightarrow> runtime_state \<Rightarrow> world \<Rightarrow> bool" where
  "tracked R cg ctx st w \<equiv>
     on_track (rt_host R) (graph cg) (ctx_task_id ctx) (stamp_for (rt_services R)) st w"

lemma run_wave_good:
  assumes live: "live_setup R env cg ctx"
    and inputs: "\<forall>nid \<in> set ready. \<exists>n loaded. n \<in> set (nodes (graph cg)) \<and> node_id n = nid
      \<and> dget inputs nid = Some loaded \<and> typed_inputs (plat (rt_host R)) n loaded"
  shows "\<exists>rs. run_wave R (graph cg) ctx inputs ready = Inr rs \<and> map res_node_id rs = ready
    \<and> (\<forall>r \<in> set rs. good_result R (graph cg) ctx r)"
proof -
  let ?g = "graph cg"
  have d: "distinct (node_ids ?g)" and pyd: "pydantic_ok (pyd (plat (rt_host R)))"
    using live_setup_sound [OF live] by (simp_all add: sound_setup_def)
  have "\<exists>r. run_node R ?g ctx inputs nid = Inr r \<and> (good_result R ?g ctx r \<and> res_node_id r = nid)"
    if nid: "nid \<in> set ready" for nid
  proof -
    obtain n loaded where n: "n \<in> set (nodes ?g)" "node_id n = nid" "dget inputs nid = Some loaded"
      "typed_inputs (plat (rt_host R)) n loaded" using bspec [OF inputs nid] by blast
    have "answers R ctx n" using live n(1) by (simp add: live_setup_def)
    then obtain r where "execute_safely (plat (rt_host R)) (rt_services R) (rt_executors R) ctx n loaded = Inr r"
      "good_result R ?g ctx r" "res_node_id r = node_id n"
      using answers_good [OF pyd _ n(1,4)] by blast
    then show ?thesis using n(2,3) node_map_lookup [OF d n(1)] by (auto simp: run_node_def dindex_def)
  qed
  from rmap_all [of ready "run_node R ?g ctx inputs", OF this]
  obtain rs where rs: "rmap (run_node R ?g ctx inputs) ready = Inr rs"
    "list_all2 (\<lambda>x y. run_node R ?g ctx inputs x = Inr y \<and> good_result R ?g ctx y \<and> res_node_id y = x) ready rs"
    by blast
  have "map res_node_id rs = ready \<and> (\<forall>r \<in> set rs. good_result R ?g ctx r)"
    using rs(2) by (induction rule: list_all2_induct) auto
  then show ?thesis using rs(1) by (simp add: run_wave_def)
qed

lemma wave_step_succeeds:
  assumes live: "live_setup R env cg ctx" and inv: "run_inv (rt_host R) (graph cg) (ctx_task_id ctx) st w"
    and track: "tracked R cg ctx st w" and going: "\<not> frozen st"
  shows "\<exists>st' w'. wave_step R (graph cg) ctx st w = (Inr (More st'), w') \<and> tracked R cg ctx st' w'"
proof -
  let ?g = "graph cg" and ?H = "rt_host R" and ?t = "ctx_task_id ctx" and ?m = "max_parallel_nodes_per_task (limits ctx)"
  have comp: "compile env ?g = Inr cg" and plain: "plain_graph ?g" and m: "0 < ?m"
    and inj: "inj_on (artifact_name ?t (stamp_for (rt_services R))) (set (node_ids ?g))"
    and pyd: "pydantic_ok (pyd (plat ?H))"
    using live by (simp_all add: live_setup_def)
  have ids: "distinct (node_ids ?g)" using compiled_distinct(1) [OF comp] .
  have sinv: "state_inv ?g st" and store: "store_inv ?H w" and free: "ids_free ?t ?g w"
    using inv by (simp_all add: run_inv_def run_core_def)
  have dead: "impossible_nodes ?g st = Inr []"
    by (rule no_impossible [OF comp sinv plain]) (use on_trackD(1) [OF track] in blast)
  have sk: "skip_impossible ?g ctx st w = (Inr st, w)"
    using dead by (simp add: skip_impossible_def bnd_def thn_def skip_nodes_def)
  obtain ready where ready: "find_ready_nodes ?m ?g st = Inr ready"
    using find_ready_total [OF ids] sinv by (auto simp: state_inv_def)
  have ne: "ready \<noteq> []" by (rule somebody_ready [OF comp inv plain track going m ready])
  define w1 where "w1 = snd (emit ctx ?g ''WAVE_STARTED'' (\<lambda>e. e\<lparr>ev_wave_id := Some (wave_id st),
       ev_metadata := [(''ready_nodes'', JList (map JStr ready))]\<rparr>) w)"
  let ?look = "stored_artifact ?H w"
  have refs: "\<forall>nid \<in> set ready. \<exists>n. find_node ?g nid = Some n
      \<and> (\<forall>(slot, aid) \<in> set (resolve_slots ?g st n nid). ?look aid \<noteq> None)"
    using ready_typed [OF comp plain track ready] by metis
  obtain inputs w2 where prep: "prepare ?H ?g ctx ready st [] w1 = (Inr (mark Running ready st, inputs), w2)"
    and look2: "stored_artifact ?H w2 = ?look"
    and inputs: "\<And>nid. dget inputs nid = (if nid \<in> set ready
          then Some (loaded_from ?look (resolve_slots ?g st (the (find_node ?g nid)) nid)) else None)"
    using prepare_ok [OF refs, of ?H w1 st ctx "[]"] by (auto simp: w1_def)
  have typed: "\<forall>nid \<in> set ready. \<exists>n loaded. n \<in> set (nodes ?g) \<and> node_id n = nid
      \<and> dget inputs nid = Some loaded \<and> typed_inputs (plat ?H) n loaded"
  proof
    fix nid assume nid: "nid \<in> set ready"
    obtain n where "n \<in> set (nodes ?g)" "node_id n = nid" "find_node ?g nid = Some n"
      "typed_inputs (plat ?H) n (loaded_from ?look (resolve_slots ?g st n nid))"
      by (rule ready_typed [OF comp plain track ready nid])
    then show "\<exists>n loaded. n \<in> set (nodes ?g) \<and> node_id n = nid
      \<and> dget inputs nid = Some loaded \<and> typed_inputs (plat ?H) n loaded"
      using inputs [of nid] nid by auto
  qed
  obtain rs where run: "run_wave R ?g ctx inputs ready = Inr rs" and rids: "map res_node_id rs = ready"
    and good: "\<forall>r \<in> set rs. good_result R ?g ctx r"
    using run_wave_good [OF live typed] by blast
  have dready: "distinct ready" by (rule ready_distinct(1) [OF ids ready])
  have wr: "wave_results ?H ?g ?t rs" by (rule wave_results_run [OF ids pyd run dready])
  have same: "same_artifacts w w2"
    using quiet.keeps_snd [OF emit_quiet] quiet.keepsD [OF prepare_quiet prep] quiet.le_trans
    unfolding w1_def by blast
  note store2 = same_artifacts_store(1) [OF same store]
  have free2: "ids_free ?t ?g w2" using free same by (simp add: ids_free_def same_artifacts_def)
  have pend: "set ready \<subseteq> pending_nodes st" by (rule ready_pending [OF ready])
  have nodes: "res_node_id ` set rs = set ready" using rids by (metis list.set_map)
  have known: "\<forall>r \<in> set rs. res_node_id r \<in> set (node_ids ?g)" using wave_results_nodes [OF wr] by blast
  have fresh: "\<forall>r \<in> set rs. stored_artifact ?H w2 (artifact_name ?t (stamp_for (rt_services R)) (res_node_id r)) = None"
  proof
    fix r assume r: "r \<in> set rs"
    then have "res_node_id r \<in> set ready" using nodes by blast
    then have "dget (node_status st) (res_node_id r) = Some Pending" using pend by (auto simp: pending_nodes_def)
    then show "stored_artifact ?H w2 (artifact_name ?t (stamp_for (rt_services R)) (res_node_id r)) = None"
      using on_trackD(5) [OF track] known r look2 by simp
  qed
  obtain w3 where put: "for_each (put_artifact ?H) (wave_outputs rs) w2 = (Inr (), w3)"
    using put_wave_ok [OF store2 free2 refl refl wr good inj fresh] by blast
  have adm: "\<forall>a \<in> set (wave_outputs rs). admits_artifact w2 a \<and> env_task_id a = ?t"
    using wave_results_admitted [OF wr free2] by (simp add: wave_admitted_def)
  let ?prev = "mark Running ready st"
  have inv2: "state_inv ?g ?prev"
    using pend ready_known [OF ready sinv] by (intro mark_inv [OF sinv]) (auto simp: pending_nodes_def)
  have wave: "wave_of ?g ?prev rs"
    using wr known nodes by (auto simp: wave_of_def wave_results_def mark_status)
  have succ: "\<forall>r \<in> set rs. succeeded r" using good by (simp add: good_result_def)
  have prev: "dget (node_status ?prev) n \<in> {Some Pending, Some Running, Some Succeeded}" if "n \<in> set (node_ids ?g)" for n
    using on_trackD(1) [OF track that] by (auto simp: mark_status)
  obtain c where ap: "apply_results ?g ?prev rs = Inr c" and sr: "same_run ?prev (c_state c)"
    and noskip: "\<And>n. dget (node_status (c_state c)) n \<noteq> Some Skipped"
    using apply_results_good [OF comp plain inv2 wave succ prev] by blast
  have cw: "commit_wave ?H ?g ?prev rs w2 = (Inr c, w3)"
    using put ap by (simp add: commit_wave_def thn_def bnd_def persist_wave_batch)
  obtain w' where rp: "report_commit ?H ?g ctx rs c w3 = (Inr (), w')"
    using report_never_raises(3) unfolding never_raises_def by (metis old.unit.exhaust)
  have step: "wave_step R ?g ctx st w = (Inr (More (c_state c)), w')"
    using sk ready ne prep run cw rp
    by (simp add: wave_step_def run_ready_def Let_def bnd_def thn_def emit_def w1_def)
  have "on_track ?H ?g ?t (stamp_for (rt_services R)) (c_state c) w3"
  proof (rule commit_on_track [OF track refl refl refl _ good ids inj])
    show "distinct (map res_node_id rs)" using rids dready by simp
    show "apply_results ?g (mark Running (map res_node_id rs) st) rs = Inr c" using ap rids by simp
    show "\<forall>a \<in> set (wave_outputs rs). stored_artifact ?H w3 (artifact_id a) = Some a"
      "\<And>i a. stored_artifact ?H w i = Some a \<Longrightarrow> stored_artifact ?H w3 i = Some a"
      using file_store.put_all [OF put store2 adm] look2 by auto
    show "\<And>i. i \<notin> artifact_id ` set (wave_outputs rs) \<Longrightarrow> stored_artifact ?H w3 i = stored_artifact ?H w i"
      using file_store.put_all_other [OF put store2 adm] look2 by simp
    show "same_run st (c_state c)" using sr by (simp add: same_run_def mark_def)
  qed (use noskip known in auto)
  moreover have "same_artifacts w3 w'" by (rule quiet.keepsD [OF report_commit_quiet rp])
  moreover have "store_inv ?H w3" using file_store.put_all [OF put store2 adm] by blast
  ultimately have "on_track ?H ?g ?t (stamp_for (rt_services R)) (c_state c) w'"
    using same_artifacts_store(2) by (simp add: on_track_def typed_output_def)
  then show ?thesis using step by blast
qed

text \<open>The loop, and the whole run.\<close>

lemma run_loop_succeeds:
  assumes live: "live_setup R env cg ctx"
  shows "run_inv (rt_host R) (graph cg) (ctx_task_id ctx) st w \<Longrightarrow> tracked R cg ctx st w \<Longrightarrow>
    \<exists>st' w'. run_loop R (graph cg) ctx st w = (Inr st', w')"
proof (induction R\<equiv>R "graph cg" ctx\<equiv>ctx st w rule: run_loop.induct)
  case (1 st w)
  have comp: "compile env (graph cg) = Inr cg" using live by (simp add: live_setup_def)
  show ?case
  proof (cases "frozen st")
    case True
    then show ?thesis by (simp add: run_loop.simps)
  next
    case False
    obtain st' w' where step: "wave_step R (graph cg) ctx st w = (Inr (More st'), w')"
      and track: "tracked R cg ctx st' w'"
      using wave_step_succeeds [OF live "1.prems" False] by blast
    have "run_inv (rt_host R) (graph cg) (ctx_task_id ctx) st' w'"
      by (rule wave_step_inv(1) [OF "1.prems"(1) compiled_distinct(1,2) [OF comp] step])
    then have "\<exists>st'' w''. run_loop R (graph cg) ctx st' w' = (Inr st'', w'')"
      using "1.hyps" [OF False step [symmetric] refl refl _ track] by blast
    then show ?thesis using False step by (simp add: run_loop.simps [of _ _ _ st w])
  qed
qed

definition typed_bundle :: "platform \<Rightarrow> orchestra_graph \<Rightarrow> envelope dict \<Rightarrow> bool" where
  "typed_bundle P g bundle \<longleftrightarrow> set (dkeys bundle) = set (dkeys (initial_artifact_slots g))
     \<and> (\<forall>slot ty. dget (initial_artifact_slots g) slot = Some ty \<longrightarrow>
          (\<exists>a. dget bundle slot = Some a \<and> artifact_type a = ty))"

text \<open>The identifiers of the bundle and of the outputs to come are new to the store.\<close>

definition new_ids :: "runtime \<Rightarrow> orchestra_graph \<Rightarrow> run_context \<Rightarrow> envelope dict \<Rightarrow> world \<Rightarrow> bool" where
  "new_ids R g ctx bundle w \<longleftrightarrow> inj_on artifact_id (set (dvalues bundle))
     \<and> (\<forall>a \<in> set (dvalues bundle). valid_artifact (plat (rt_host R)) a \<and> stored_artifact (rt_host R) w (artifact_id a) = None)
     \<and> (\<forall>n \<in> set (node_ids g).
          artifact_name (ctx_task_id ctx) (stamp_for (rt_services R)) n \<notin> artifact_id ` set (dvalues bundle)
          \<and> stored_artifact (rt_host R) w (artifact_name (ctx_task_id ctx) (stamp_for (rt_services R)) n) = None)"

lemma pending_lookup: "n \<in> set (node_ids g) \<Longrightarrow> dget (map (\<lambda>n. (node_id n, x)) (nodes g)) n = Some x"
proof -
  have "n \<in> node_id ` set ns \<Longrightarrow> dget (map (\<lambda>n. (node_id n, x)) ns) n = Some x" for ns
    by (induction ns) auto
  then show "n \<in> set (node_ids g) \<Longrightarrow> dget (map (\<lambda>n. (node_id n, x)) (nodes g)) n = Some x"
    by (simp add: node_ids_def)
qed

lemma initial_on_track:
  assumes ids: "distinct (node_ids g)"
    and put: "for_each (put_artifact (rt_host R)) (dvalues bundle) w = (Inr (), w')"
    and w: "store_inv (rt_host R) w" "bundle_ok (ctx_task_id ctx) w bundle"
    and b: "typed_bundle (plat (rt_host R)) g bundle" "new_ids R g ctx bundle w"
  shows "on_track (rt_host R) g (ctx_task_id ctx) (stamp_for (rt_services R))
    (initial_state (plat (rt_host R)) g bundle ctx) w'"
proof -
  let ?st = "initial_state (plat (rt_host R)) g bundle ctx" and ?H = "rt_host R"
  have adm: "\<forall>a \<in> set (dvalues bundle). admits_artifact w a \<and> env_task_id a = ctx_task_id ctx"
    using w(2) by (simp add: bundle_ok_def)
  have ns: "node_status ?st = map (\<lambda>n. (node_id n, Pending)) (nodes g)"
    using ids by (simp add: initial_state_def dict_of_distinct node_ids_def comp_def)
  have ia: "dget (initial_artifacts ?st) slot = map_option artifact_id (dget bundle slot)" for slot
    by (simp add: initial_state_def dget_map_snd)
  show ?thesis
  proof (rule on_trackI)
    fix n assume "n \<in> set (node_ids g)"
    then show "dget (node_status ?st) n \<in> {Some Pending, Some Succeeded}"
      unfolding ns by (simp add: pending_lookup)
  next
    fix slot ty assume "dget (initial_artifact_slots g) slot = Some ty"
    then obtain a where a: "dget bundle slot = Some a" "artifact_type a = ty" using b(1) unfolding typed_bundle_def by blast
    then have mem: "a \<in> set (dvalues bundle)" by (force dest: map_of_SomeD)
    then have "stored_artifact ?H w' (artifact_id a) = Some a"
      using file_store.put_all [OF put w(1) adm] by blast
    moreover have "valid_artifact (plat ?H) a" using b(2) mem unfolding new_ids_def by blast
    ultimately show "\<exists>aid a. dget (initial_artifacts ?st) slot = Some aid \<and> stored_artifact ?H w' aid = Some a
        \<and> fits (plat ?H) ty a"
      using a by (simp add: ia fits_def)
  next
    fix slot assume "dget (initial_artifacts ?st) slot \<noteq> None"
    then show "dget (initial_artifact_slots g) slot \<noteq> None"
      using b(1) unfolding ia typed_bundle_def by (metis map_of_eq_None_iff list.set_map option.map_disc_iff)
  next
    fix n assume "n \<in> set (node_ids g)"
    then show "stored_artifact ?H w' (artifact_name (ctx_task_id ctx) (stamp_for (rt_services R)) n) = None"
      using file_store.put_all_other [OF put w(1) adm] b(2) unfolding new_ids_def by metis
  qed (simp add: initial_state_def)
qed

lemma execute_succeeds:
  assumes live: "live_setup R env cg ctx"
    and w: "store_inv (rt_host R) w" "ids_free (ctx_task_id ctx) (graph cg) w"
      "file_at w (CheckpointFile (ctx_task_id ctx)) = None"
    and b: "bundle_ok (ctx_task_id ctx) w bundle" "typed_bundle (plat (rt_host R)) (graph cg) bundle"
      "new_ids R (graph cg) ctx bundle w"
  shows "\<exists>res w'. execute R cg bundle ctx w = (Inr res, w')"
proof -
  let ?g = "graph cg" and ?H = "rt_host R"
  let ?st = "initial_state (plat ?H) ?g bundle ctx"
  have comp: "compile env ?g = Inr cg" using live by (simp add: live_setup_def)
  note ids = compiled_distinct(1,2) [OF comp]
  have adm: "\<forall>a \<in> set (dvalues bundle). admits_artifact w a \<and> env_task_id a = ctx_task_id ctx"
    using b(1) by (simp add: bundle_ok_def)
  obtain w1 where put: "for_each (put_artifact ?H) (dvalues bundle) w = (Inr (), w1)"
    using file_store.put_all_iff [OF w(1) adm] b(3) unfolding new_ids_def by blast
  have start: "start_state R ?g bundle ctx w = (Inr ?st, w1)"
    using put w(3) by (simp add: start_state_def Let_def load_checkpoint_def read_checkpoint_def bnd_def thn_def)
  have inv: "run_inv ?H ?g (ctx_task_id ctx) ?st w1" by (rule initial_run_inv [OF ids put w(1,2) b(1)])
  have "tracked R cg ctx ?st w1" by (rule initial_on_track [OF ids(1) put w(1) b])
  then obtain st' w2 where loop: "run_loop R ?g ctx ?st w1 = (Inr st', w2)"
    using run_loop_succeeds [OF live inv] by blast
  show ?thesis using start loop
    by (cases "frozen ?st"; cases "frozen st'") (simp_all add: execute_def bnd_def thn_def emit_def)
qed

end
