(* ===== verification/Batch_Live.thy ===== *)
theory Batch_Live
  imports Batch_Run Run_Live
begin

text \<open>
  A batch that finishes: when every node of a plain graph answers, a batch on fresh tasks
  returns, and every task of it ends with a frozen result. The tasks before leave a world in
  which the next one can start.
\<close>

definition fresh_task :: "string \<Rightarrow> world \<Rightarrow> bool" where
  "fresh_task q w \<longleftrightarrow> file_at w (CheckpointFile q) = None \<and> (\<forall>i. file_at w (ArtifactFile q i) = None)"

text \<open>The name of the input artifact of a task.\<close>

definition input_name :: "batch_setup \<Rightarrow> string \<Rightarrow> string" where
  "input_name B q = q @ ''-'' @ ''__input__'' @ ''-'' @ uuid_hex (bt_stamp B q)"

definition task_ready :: "batch_setup \<Rightarrow> compiler_env \<Rightarrow> lcb_task dict \<Rightarrow> string \<Rightarrow> bool" where
  "task_ready B env tasks q \<longleftrightarrow> live_setup (bt_runtime B) env (bt_compiled B) (task_context B q)
     \<and> initial_artifact_slots (graph_of B) = [(''problem'', ''ProblemArtifact'')]
     \<and> (\<exists>t. dget tasks q = Some t \<and> wf_problem (lt_problem t))
     \<and> (\<forall>n \<in> set (node_ids (graph_of B)).
          artifact_name q (stamp_for (rt_services (bt_runtime B))) n \<noteq> input_name B q)"

lemma fresh_not_stored:
  assumes "store_inv H w" "names_ok w" "plain_id q" "fresh_task q w" "named_for q i"
  shows "stored_artifact H w i = None"
proof -
  have "file_at w (ArtifactFile t i) = None" for t
    using names_other_free [OF assms(2,3,5), of t] assms(4) by (cases "t = q") (auto simp: fresh_task_def)
  then show ?thesis using stored_artifact_None [OF assms(1)] by blast
qed

lemma fresh_log [simp]: "fresh_task q (w\<lparr>log := l\<rparr>) \<longleftrightarrow> fresh_task q w"
  by (simp add: fresh_task_def file_at_def)

lemma task_executes:
  assumes ready: "task_ready B env tasks q" and t: "dget tasks q = Some t" "wf_problem (lt_problem t)"
    and w: "batch_ok (host_of B) (graph_of B) ids w" "q \<in> set ids" "fresh_task q w"
  shows "\<exists>res w'. execute (bt_runtime B) (bt_compiled B) (initial_bundle B t q) (task_context B q) w = (Inr res, w')"
proof -
  let ?R = "bt_runtime B" and ?b = "initial_bundle B t q"
  define a where "a = create_artifact (plat (rt_host ?R)) (bt_stamp B q) (MProblem (lt_problem t)) ''__input__'' q []"
  have live: "live_setup ?R env (bt_compiled B) (task_context B q)" using ready by (simp add: task_ready_def)
  have P: "pydantic_ok (pyd (plat (rt_host ?R)))" using live by (simp add: live_setup_def)
  have q: "plain_id q" "names_ok w" "store_inv (host_of B) w" "ids_free q (graph_of B) w"
    using w(1,2) by (simp_all add: batch_ok_def resumable_def)
  have a: "artifact_id a = input_name B q" "artifact_type a = ''ProblemArtifact''"
    by (simp_all add: a_def create_artifact_def Let_def input_name_def)
  have b: "?b = [(''problem'', a)]" by (simp add: initial_bundle_def a_def)
  have valid: "valid_artifact (plat (rt_host ?R)) a" unfolding a_def by (rule valid_create) (use P t(2) in simp_all)
  have free: "stored_artifact (host_of B) w i = None" if "named_for q i" for i
    by (rule fresh_not_stored [OF q(3,2,1) w(3) that])
  have named: "named_for q (input_name B q)" "named_for q (artifact_name q s n)" for s n
    unfolding input_name_def artifact_name_def by (rule named_forI)+
  show ?thesis
  proof (rule execute_succeeds [OF live])
    show "bundle_ok (ctx_task_id (task_context B q)) w ?b" using initial_bundle_ok [OF q(2,1)] by simp
    show "typed_bundle (plat (rt_host ?R)) (graph_of B) ?b"
      using ready by (simp add: typed_bundle_def task_ready_def b a(2))
    show "new_ids ?R (graph_of B) (task_context B q) ?b w"
      using ready valid free named by (auto simp: new_ids_def b a(1) task_ready_def)
  qed (use q(3,4) w(3) in \<open>simp_all add: fresh_task_def\<close>)
qed

lemma task_finishes:
  assumes "task_ready B env tasks q" "batch_ok (host_of B) (graph_of B) ids w" "q \<in> set ids" "fresh_task q w"
  shows "\<exists>res w'. run_one B tasks q w = (Inr (Some res), w')"
proof -
  obtain t where t: "dget tasks q = Some t" "wf_problem (lt_problem t)"
    using assms(1) by (auto simp: task_ready_def)
  obtain l where l: "emit (task_context B q) (graph_of B) ''TASK_STARTED'' (\<lambda>e. e) w = (Inr (), w\<lparr>log := l\<rparr>)"
    by (simp add: emit_def)
  obtain res w1 where "execute (bt_runtime B) (bt_compiled B) (initial_bundle B t q) (task_context B q) (w\<lparr>log := l\<rparr>) = (Inr res, w1)"
    using task_executes [OF assms(1) t batch_ok_log [OF assms(2)] assms(3)] assms(4) by fastforce
  then show ?thesis using t(1) l
    by (simp add: run_one_def dindex_def bnd_def thn_def execute_task_def record_result_def write_file_def emit_def)
qed

lemma collect_finishes:
  assumes S: "setup_sound B" and ready: "\<forall>q \<in> set qs. task_ready B env tasks q"
  shows "set qs \<subseteq> set ids \<Longrightarrow> distinct qs \<Longrightarrow> batch_ok (host_of B) (graph_of B) ids w \<Longrightarrow>
    \<forall>q \<in> set qs. fresh_task q w \<Longrightarrow>
    \<exists>rs w'. collect (tagged_run B tasks) qs w = (Inr rs, w') \<and> (\<forall>(q, r) \<in> set rs. r \<noteq> None)"
  using ready
proof (induction qs arbitrary: w)
  case (Cons q qs)
  obtain res w1 where r: "run_one B tasks q w = (Inr (Some res), w1)"
    using task_finishes [of B env tasks q ids w] Cons.prems by auto
  have step: "task_step B ids q w w1"
    using run_one_step [OF S Cons.prems(3) _ r] Cons.prems(1) by simp
  then have ok: "batch_ok (host_of B) (graph_of B) ids w1" by (simp add: task_step_def)
  have "fresh_task q' w1" if "q' \<in> set qs" for q'
  proof -
    have "q' \<noteq> q" "fresh_task q' w" using that Cons.prems(2,4) by auto
    then show ?thesis using step by (simp add: fresh_task_def task_step_def)
  qed
  then obtain rs w' where "collect (tagged_run B tasks) qs w1 = (Inr rs, w')" "\<forall>(q, r) \<in> set rs. r \<noteq> None"
    using Cons.IH [OF _ _ ok] Cons.prems by auto
  moreover have "tagged_run B tasks q w = (Inr (q, Some res), w1)" using r by (simp add: tagged_run_def bnd_def)
  ultimately show ?case by (simp add: bnd_def)
qed simp

lemma run_batch_finishes:
  assumes "setup_sound B" "distinct ids" "batch_ok (host_of B) (graph_of B) ids w"
    and "\<forall>q \<in> set ids. task_ready B env tasks q \<and> fresh_task q w"
  shows "\<exists>rs w'. run_batch B tasks ids w = (Inr rs, w') \<and> (\<forall>(q, r) \<in> set rs. r \<noteq> None)"
proof -
  obtain l where l: "run_event B ''RUN_STARTED'' w = (Inr (), w\<lparr>log := l\<rparr>)" by (simp add: run_event_def emit_def)
  have "\<exists>rs w'. collect (tagged_run B tasks) ids (w\<lparr>log := l\<rparr>) = (Inr rs, w') \<and> (\<forall>(q, r) \<in> set rs. r \<noteq> None)"
    by (rule collect_finishes [OF assms(1) _ subset_refl assms(2) batch_ok_log [OF assms(3)]]) (use assms(4) in auto)
  then show ?thesis using l by (auto simp: run_batch_def thn_def bnd_def in_group_def run_event_def emit_def)
qed

end
