(* ===== verification/Mock_Run.thy ===== *)
theory Mock_Run
  imports Command_Line Batch_Live
begin

text \<open>
  What a run of \<open>cli/run.py\<close> leaves, and that a run with \<open>--mock-llm\<close> finishes: every node
  of a plain graph that the scripted client can answer succeeds, so that every task of the
  batch ends frozen.
\<close>

section \<open>Nodes the scripted client answers\<close>

definition scripted_transform :: "node_spec \<Rightarrow> string \<Rightarrow> bool" where
  "scripted_transform n t \<longleftrightarrow>
     t = ''identity_code'' \<and> dget (input_slots n) ''code'' = Some ''CodeArtifact'' \<and> dvalues (output_slots n) = [''CodeArtifact'']
     \<or> t = ''freeze_code'' \<and> dget (input_slots n) ''code'' = Some ''CodeArtifact'' \<and> dvalues (output_slots n) = [''FinalCodeArtifact'']
     \<or> t = ''repair_to_code'' \<and> dget (input_slots n) ''repair'' = Some ''RepairArtifact'' \<and> dvalues (output_slots n) = [''CodeArtifact'']"

definition scripted_agent :: "agent_contract dict \<Rightarrow> node_spec \<Rightarrow> string \<Rightarrow> bool" where
  "scripted_agent cs n cid \<longleftrightarrow> (case dget cs cid of
     None \<Rightarrow> False
   | Some c \<Rightarrow> ct_id c = cid \<and> (cid, ct_parser_id c, ct_output_schema c) \<in> set shipped_contracts
       \<and> ct_allowed_tools c = [] \<and> dvalues (output_slots n) = [ct_output_schema c])"

definition scripted_node :: "agent_contract dict \<Rightarrow> node_spec \<Rightarrow> bool" where
  "scripted_node cs n \<longleftrightarrow> (case node_kind n of
     AgentNode cid \<Rightarrow> scripted_agent cs n cid
   | TransformNode t \<Rightarrow> scripted_transform n t
   | _ \<Rightarrow> False)"

text \<open>A node whose payload has the schema of its only slot answers.\<close>

lemma finished_answer:
  assumes "pydantic_ok (pyd P)" "wf_model m" "output_slots n = [(slot, type_name m)]"
    and "execute_safely P S X ctx n inputs = Inr (finish P S ctx n inputs u slot m)"
  shows "\<exists>r slot ty a. execute_safely P S X ctx n inputs = Inr r \<and> succeeded r
    \<and> output_slots n = [(slot, ty)] \<and> outputs r = [(slot, a)] \<and> fits P ty a"
  using assms by (simp add: finish_def ok_result_def fits_def valid_create)

lemma fits_class:
  assumes "fits P ty a" "ty \<in> set (dkeys payload_schemas)"
  shows "\<exists>m. validate_class (pyd P) ty (payload a) = Some m"
proof -
  obtain m where "validate_payload P a = Inr m" using assms by (auto simp: fits_def valid_artifact_def)
  then show ?thesis using assms
    by (auto simp: validate_payload_def model_validate_def fits_def res_simps split: if_splits option.splits)
qed

lemma single_slot: "dvalues d = [ty] \<Longrightarrow> \<exists>slot. d = [(slot, ty)]"
  by (cases d) auto

lemma transform_answers:
  assumes P: "pydantic_ok (pyd (plat (rt_host R)))" and n: "node_kind n = TransformNode t" "scripted_transform n t"
  shows "answers R ctx n"
  unfolding answers_def
proof (intro allI impI)
  let ?P = "plat (rt_host R)"
  fix inputs assume I: "typed_inputs ?P n inputs"
  have input: "\<exists>a. dget inputs slot = Some a \<and> fits ?P ty a" if "dget (input_slots n) slot = Some ty" for slot ty
    using I that by (auto simp: typed_inputs_def)
  have "\<exists>m ty. transform_payload ?P n t inputs = Inr m \<and> wf_model m \<and> dvalues (output_slots n) = [ty] \<and> type_name m = ty"
    using n(2) unfolding scripted_transform_def
  proof (elim disjE conjE)
    assume t: "t = ''identity_code''" "dget (input_slots n) ''code'' = Some ''CodeArtifact''" "dvalues (output_slots n) = [''CodeArtifact'']"
    obtain a where a: "dget inputs ''code'' = Some a" "fits ?P ''CodeArtifact'' a" using input [OF t(2)] by blast
    obtain c where "validate_code (pyd ?P) (payload a) = Some c"
      using fits_class [OF a(2)] by (auto simp: validate_class_def payload_schemas_def)
    with a(1) show ?thesis using t validate_code_wf [of "pyd ?P" "payload a" c]
      by (simp add: transform_payload_def read_as_def validate_as_def dindex_def wf_code_def)
  next
    assume t: "t = ''freeze_code''" "dget (input_slots n) ''code'' = Some ''CodeArtifact''" "dvalues (output_slots n) = [''FinalCodeArtifact'']"
    obtain a where a: "dget inputs ''code'' = Some a" "fits ?P ''CodeArtifact'' a" using input [OF t(2)] by blast
    obtain c where "validate_code (pyd ?P) (payload a) = Some c"
      using fits_class [OF a(2)] by (auto simp: validate_class_def payload_schemas_def)
    with a(1) show ?thesis using t by (simp add: transform_payload_def validate_as_def dindex_def wf_final_code_def)
  next
    assume t: "t = ''repair_to_code''" "dget (input_slots n) ''repair'' = Some ''RepairArtifact''" "dvalues (output_slots n) = [''CodeArtifact'']"
    obtain a where a: "dget inputs ''repair'' = Some a" "fits ?P ''RepairArtifact'' a" using input [OF t(2)] by blast
    obtain c where "validate_repair (pyd ?P) (payload a) = Some c"
      using fits_class [OF a(2)] by (auto simp: validate_class_def payload_schemas_def)
    with a(1) show ?thesis using t by (simp add: transform_payload_def read_as_def validate_as_def dindex_def code_of_def wf_code_def)
  qed
  then obtain m slot where m: "transform_payload ?P n t inputs = Inr m" "wf_model m" "output_slots n = [(slot, type_name m)]"
    using single_slot by metis
  then have "execute_safely ?P (rt_services R) (rt_executors R) ctx n inputs = Inr (finish ?P (rt_services R) ctx n inputs no_usage slot m)"
    using n(1) by (simp add: execute_safely_def dispatch_def transform_execute_def first_output_def)
  from finished_answer [OF P m(2,3) this]
  show "\<exists>r slot ty a. execute_safely ?P (rt_services R) (rt_executors R) ctx n inputs = Inr r \<and> succeeded r
    \<and> output_slots n = [(slot, ty)] \<and> outputs r = [(slot, a)] \<and> fits ?P ty a" .
qed

lemma agent_answers:
  assumes P: "pydantic_ok (pyd (plat (rt_host R)))" and n: "node_kind n = AgentNode cid"
    and c: "scripted_agent (ex_contracts (rt_executors R)) n cid"
    and g: "generate (rt_services R) = scripted_generate fr ms"
  shows "answers R ctx n"
  unfolding answers_def
proof (intro allI impI)
  let ?P = "plat (rt_host R)"
  fix inputs assume "typed_inputs ?P n inputs"
  obtain k where k: "dget (ex_contracts (rt_executors R)) cid = Some k" "ct_id k = cid"
      "(cid, ct_parser_id k, ct_output_schema k) \<in> set shipped_contracts" "ct_allowed_tools k = []"
      "dvalues (output_slots n) = [ct_output_schema k]"
    using c by (auto simp: scripted_agent_def split: option.splits)
  obtain slot where slot: "output_slots n = [(slot, ct_output_schema k)]" using single_slot [OF k(5)] by blast
  obtain body m where t: "dget (mock_answers fr) cid = Some body"
      "parse_output ?P (ct_parser_id k) body (ct_output_schema k) (node_id n) = Inr m" "type_name m = ct_output_schema k"
    using scripted_answers_parse [OF P k(3)] by blast
  let ?rq = "agent_request ?P ctx k n inputs"
  have "contract_of ?rq = cid" by (simp add: contract_of_def agent_request_def k(2))
  then have "generate (rt_services R) ?rq = Inr (mock_response ?rq (ms ?rq) body)"
    using scripted_generate_known [of fr ?rq body ms] t(1) by (simp add: g)
  then have run: "execute_safely ?P (rt_services R) (rt_executors R) ctx n inputs
      = Inr (finish ?P (rt_services R) ctx n inputs (rs_usage (mock_response ?rq (ms ?rq) body)) slot m)"
    using n k t slot
    by (simp add: execute_safely_def dispatch_def agent_execute_def dindex_def agent_slot_def mock_response_def Let_def)
  show "\<exists>r slot ty a. execute_safely ?P (rt_services R) (rt_executors R) ctx n inputs = Inr r \<and> succeeded r
    \<and> output_slots n = [(slot, ty)] \<and> outputs r = [(slot, a)] \<and> fits ?P ty a"
    by (rule finished_answer [OF P parse_output_wf [OF t(2)] _ run]) (simp add: slot t(3))
qed

lemma scripted_node_answers:
  assumes "pydantic_ok (pyd (plat (rt_host R)))" "scripted_node (ex_contracts (rt_executors R)) n"
    and "generate (rt_services R) = scripted_generate fr ms"
  shows "answers R ctx n"
  using assms transform_answers agent_answers by (cases "node_kind n") (auto simp: scripted_node_def)

section \<open>A scripted run finishes\<close>

text \<open>
  What the theorem asks of the plan and of the data: a plain graph of nodes the scripted
  client answers, loaded tasks for all identifiers, and stamps that give every artifact its
  own name.
\<close>

definition scripted_plan :: "run_machine \<Rightarrow> run_plan \<Rightarrow> bool" where
  "scripted_plan M pl \<longleftrightarrow> plain_graph (graph (rp_compiled pl))
     \<and> initial_artifact_slots (graph (rp_compiled pl)) = [(''problem'', ''ProblemArtifact'')]
     \<and> (\<forall>n \<in> set (nodes (graph (rp_compiled pl))). scripted_node (rp_contracts pl) n)
     \<and> 0 < max_parallel_nodes_per_task (xc_runtime (rp_config pl))"

definition stamps_ok :: "run_machine \<Rightarrow> run_plan \<Rightarrow> bool" where
  "stamps_ok M pl \<longleftrightarrow> (\<forall>q \<in> set (rp_ids pl).
     inj_on (artifact_name q (stamp_for (rm_services M))) (set (node_ids (graph (rp_compiled pl))))
     \<and> (\<forall>n \<in> set (node_ids (graph (rp_compiled pl))).
          artifact_name q (stamp_for (rm_services M)) n \<noteq> q @ ''-'' @ ''__input__'' @ ''-'' @ uuid_hex (rm_stamp M q)))"

definition tasks_loaded :: "run_machine \<Rightarrow> run_plan \<Rightarrow> lcb_task list \<Rightarrow> bool" where
  "tasks_loaded M pl tasks \<longleftrightarrow> fst (loaded (rm_machine M) (rp_config pl) (rp_ids pl) []) = Inr tasks
     \<and> (\<forall>q \<in> set (rp_ids pl). \<exists>t. dget (task_map tasks) q = Some t \<and> wf_problem (lt_problem t))"

lemma scripted_ready:
  assumes "pydantic_ok (pyd (rm_plat M))" "plan_run M env A p = Inr pl" "scripted_plan M pl" "stamps_ok M pl"
    and "tasks_loaded M pl tasks" "q \<in> set (rp_ids pl)"
  shows "task_ready (batch_of M A pl rid Scripted UseMock) (build_compiler (rp_contracts pl)) (task_map tasks) q"
proof -
  let ?B = "batch_of M A pl rid Scripted UseMock"
  have comp: "compile (build_compiler (rp_contracts pl)) (graph (rp_compiled pl)) = Inr (rp_compiled pl)"
    by (rule plan_runE [OF assms(2)]) simp
  have fields: "rt_host (bt_runtime ?B) = rm_host M" "ex_contracts (rt_executors (bt_runtime ?B)) = rp_contracts pl"
    "generate (rt_services (bt_runtime ?B)) = scripted_generate (float_repr (rm_plat M)) (rm_call_ms M)"
    "stamp_for (rt_services (bt_runtime ?B)) = stamp_for (rm_services M)"
    "limits (task_context ?B q) = xc_runtime (rp_config pl)"
    by (simp_all add: batch_of_def services_of_def task_context_def)
  have "answers (bt_runtime ?B) (task_context ?B q) n" if "n \<in> set (nodes (graph (rp_compiled pl)))" for n
    by (rule scripted_node_answers [OF _ _ fields(3)]) (use assms(1,3) that fields in \<open>simp_all add: scripted_plan_def\<close>)
  then have "live_setup (bt_runtime ?B) (build_compiler (rp_contracts pl)) (bt_compiled ?B) (task_context ?B q)"
    using assms(1,3,4,6) comp fields by (simp add: live_setup_def scripted_plan_def stamps_ok_def)
  then show ?thesis
    using assms(3-6) fields(4)
    by (simp add: task_ready_def scripted_plan_def stamps_ok_def tasks_loaded_def input_name_def batch_of_def)
qed

text \<open>
  With \<open>--mock-llm\<close> every selected task of a fresh directory is finished, and none of them
  waits for a model, a container or a worker.
\<close>

lemma mock_run_finishes:
  assumes "pydantic_ok (pyd (rm_plat M))" "ra_mock_llm A" "\<not> ra_dry_run A"
    and "plan_run M env A p = Inr pl" "distinct (rp_ids pl)" "scripted_plan M pl" "stamps_ok M pl" "tasks_loaded M pl tasks"
    and "choose_run_id (rm_plat M) A (rp_config pl) (rp_manifest pl) (graph (rp_compiled pl)) = Inr rid"
    and "startable A (rm_host M) (graph (rp_compiled pl)) (rp_ids pl) w" "\<forall>q \<in> set (rp_ids pl). ra_force_rerun A \<or> fresh_task q w"
  shows "\<exists>rs w'. run_command M env A p w = (Inr (Finished rs), w') \<and> map fst rs = rp_ids pl
    \<and> (\<forall>(q, r) \<in> set rs. \<exists>res. r = Some res \<and> frozen (final_state res))"
proof -
  let ?B = "batch_of M A pl rid Scripted UseMock"
  obtain w1 where w1: "prepare_run A (plan_manifest M pl rid) (rp_ids pl) w = (Inr (), w1)"
      "batch_ok (rm_host M) (graph (rp_compiled pl)) (rp_ids pl) w1"
      "\<And>p. p \<noteq> manifest_file \<Longrightarrow> file_at w1 p = None \<or> file_at w1 p = file_at w p"
      "\<And>q p. ra_force_rerun A \<Longrightarrow> q \<in> set (rp_ids pl) \<Longrightarrow> path_task p = Some q \<Longrightarrow> file_at w1 p = None"
    using prepare_ready [OF assms(10), of "plan_manifest M pl rid"] by blast
  have fresh: "fresh_task q w1" if q: "q \<in> set (rp_ids pl)" for q
  proof -
    have "file_at w1 p = None" if p: "p = CheckpointFile q \<or> (\<exists>i. p = ArtifactFile q i)" for p
      using p assms(11) q w1(3) [of p] w1(4) [OF _ q, of p] by (auto simp: fresh_task_def)
    then show ?thesis by (simp add: fresh_task_def)
  qed
  have S: "setup_sound ?B" by (rule planned_sound [OF assms(1,4)])
  have "\<exists>rs w'. run_batch ?B (task_map tasks) (rp_ids pl) w1 = (Inr rs, w') \<and> (\<forall>(q, r) \<in> set rs. r \<noteq> None)"
    by (rule run_batch_finishes [OF S assms(5)])
      (use w1(2) fresh scripted_ready [OF assms(1,4,6,7,8)] in auto)
  then obtain rs w' where rs: "run_batch ?B (task_map tasks) (rp_ids pl) w1 = (Inr rs, w')" "\<forall>(q, r) \<in> set rs. r \<noteq> None"
    by blast
  have run: "run_command M env A p w = (Inr (Finished rs), w')"
    using assms(2-4,8,9) w1(1) rs(1)
    by (simp add: run_command_def start_run_def tasks_loaded_def bnd_def thn_def choose_client_def choose_sandbox_def Let_def)
  note out = run_leaves(1,2) [OF assms(1,4,5,10) run]
  have "\<exists>res. r = Some res \<and> frozen (final_state res)" if "(q, r) \<in> set rs" for q r
    using out(2) [OF that] rs(2) that by (cases r) auto
  then show ?thesis using run out(1) by blast
qed

end
