(* ===== verification/Examples.thy ===== *)
theory Examples
  imports Compiler_Props Storage
begin

text \<open>
  Concrete inputs: the graphs \<open>configs/graphs/b0_direct.yaml\<close> and
  \<open>configs/graphs/b1_single_harness.yaml\<close>, the contracts they name, and a host whose
  codecs are a table. They show that the hypotheses of the theorems can be met.
\<close>

abbreviation (input) node ::
  "string \<Rightarrow> node_kind \<Rightarrow> string dict \<Rightarrow> string dict \<Rightarrow> py_float option \<Rightarrow> node_spec" where
  "node n k i out t \<equiv> \<lparr>node_id = n, node_kind = k, input_slots = i, output_slots = out, timeout_seconds = t\<rparr>"

abbreviation (input) edge ::
  "string \<Rightarrow> string \<Rightarrow> string \<Rightarrow> string \<Rightarrow> string \<Rightarrow> edge_condition option \<Rightarrow> edge_spec" where
  "edge e s so d di c \<equiv> \<lparr>edge_id = e, source_node = s, source_output = so, destination_node = d,
     destination_input = di, condition = c\<rparr>"

definition b0 :: orchestra_graph where
  "b0 = \<lparr>graph_id = ''b0_direct'', version = ''1.0'',
     nodes = [
       node ''direct_coder'' (AgentNode ''direct_coder'') [(''problem'', ''ProblemArtifact'')]
         [(''code'', ''CodeArtifact'')] (Some 150),
       node ''code_parser'' (TransformNode ''identity_code'') [(''code'', ''CodeArtifact'')]
         [(''code'', ''CodeArtifact'')] None,
       node ''freeze'' (TransformNode ''freeze_code'') [(''code'', ''CodeArtifact'')]
         [(''final_code'', ''FinalCodeArtifact'')] None],
     edges = [
       edge ''coder_to_parser'' ''direct_coder'' ''code'' ''code_parser'' ''code'' None,
       edge ''parser_to_freeze'' ''code_parser'' ''code'' ''freeze'' ''code'' None],
     initial_artifact_slots = [(''problem'', ''ProblemArtifact'')],
     final_output_slot = ''final_code'',
     metadata = [(''baseline'', JStr ''B0_DIRECT'')]\<rparr>"

definition on_passed :: "operator \<Rightarrow> edge_condition option" where
  "on_passed op = Some \<lparr>source_field = ''passed'', operator = op, cond_value = JNull\<rparr>"

definition b1 :: orchestra_graph where
  "b1 = \<lparr>graph_id = ''b1_single_harness'', version = ''1.0'',
     nodes = [
       node ''direct_coder'' (AgentNode ''direct_coder'') [(''problem'', ''ProblemArtifact'')]
         [(''code'', ''CodeArtifact'')] (Some 150),
       node ''public_harness_initial'' (HarnessNode ''public_code_harness'')
         [(''problem'', ''ProblemArtifact''), (''code'', ''CodeArtifact'')]
         [(''result'', ''PublicHarnessResultArtifact'')] None,
       node ''freeze_initial'' (TransformNode ''freeze_code'')
         [(''code'', ''CodeArtifact''), (''gate'', ''PublicHarnessResultArtifact'')]
         [(''final_code'', ''FinalCodeArtifact'')] None,
       node ''same_coder_repair'' (AgentNode ''single_agent_repair'')
         [(''problem'', ''ProblemArtifact''), (''previous_code'', ''CodeArtifact''),
          (''public_result'', ''PublicHarnessResultArtifact'')]
         [(''repair'', ''RepairArtifact'')] (Some 150),
       node ''repair_to_code'' (TransformNode ''repair_to_code'') [(''repair'', ''RepairArtifact'')]
         [(''code'', ''CodeArtifact'')] None,
       node ''public_harness_repaired'' (HarnessNode ''public_code_harness'')
         [(''problem'', ''ProblemArtifact''), (''code'', ''CodeArtifact'')]
         [(''result'', ''PublicHarnessResultArtifact'')] None,
       node ''selector'' (SelectorNode ''deterministic_code_selector'')
         [(''initial_code'', ''CodeArtifact''), (''initial_result'', ''PublicHarnessResultArtifact''),
          (''repaired_code'', ''CodeArtifact''), (''repaired_result'', ''PublicHarnessResultArtifact'')]
         [(''code'', ''CodeArtifact'')] None,
       node ''freeze_selected'' (TransformNode ''freeze_code'') [(''code'', ''CodeArtifact'')]
         [(''final_code'', ''FinalCodeArtifact'')] None],
     edges = [
       edge ''coder_to_initial_harness'' ''direct_coder'' ''code'' ''public_harness_initial'' ''code'' None,
       edge ''coder_to_initial_freeze'' ''direct_coder'' ''code'' ''freeze_initial'' ''code'' None,
       edge ''initial_pass_to_freeze'' ''public_harness_initial'' ''result'' ''freeze_initial'' ''gate'' (on_passed IsTrue),
       edge ''coder_to_repair'' ''direct_coder'' ''code'' ''same_coder_repair'' ''previous_code'' None,
       edge ''initial_fail_to_repair'' ''public_harness_initial'' ''result'' ''same_coder_repair'' ''public_result'' (on_passed IsFalse),
       edge ''repair_to_conversion'' ''same_coder_repair'' ''repair'' ''repair_to_code'' ''repair'' None,
       edge ''repaired_code_to_harness'' ''repair_to_code'' ''code'' ''public_harness_repaired'' ''code'' None,
       edge ''initial_code_to_selector'' ''direct_coder'' ''code'' ''selector'' ''initial_code'' None,
       edge ''initial_result_to_selector'' ''public_harness_initial'' ''result'' ''selector'' ''initial_result'' None,
       edge ''repaired_code_to_selector'' ''repair_to_code'' ''code'' ''selector'' ''repaired_code'' None,
       edge ''repaired_result_to_selector'' ''public_harness_repaired'' ''result'' ''selector'' ''repaired_result'' None,
       edge ''selector_to_freeze'' ''selector'' ''code'' ''freeze_selected'' ''code'' None],
     initial_artifact_slots = [(''problem'', ''ProblemArtifact'')],
     final_output_slot = ''final_code'',
     metadata = [(''baseline'', JStr ''B1_SINGLE_HARNESS'')]\<rparr>"

definition contract_for :: "string \<Rightarrow> string \<Rightarrow> string \<Rightarrow> string \<Rightarrow> agent_contract" where
  "contract_for cid inp out parser =
     \<lparr>ct_id = cid, ct_role = cid, ct_system_prompt = ''You are an expert.'',
      ct_user_prompt = ''Solve: {artifacts_json}'', ct_model = ''m'', ct_temperature = 0,
      ct_max_tokens = 4000, ct_timeout_seconds = 120, ct_allowed_tools = [],
      ct_input_schema = inp, ct_output_schema = out, ct_parser_id = parser, ct_memory_scope = ''local''\<rparr>"

definition example_contracts :: "agent_contract dict" where
  "example_contracts = [
     (''direct_coder'', contract_for ''direct_coder'' ''ProblemArtifact'' ''CodeArtifact'' ''python_code''),
     (''single_agent_repair'', contract_for ''single_agent_repair'' ''ArtifactBundle'' ''RepairArtifact'' ''json'')]"

definition example_env :: compiler_env where
  "example_env = \<lparr>contracts = example_contracts, harness_ids = [''public_code_harness''],
     transform_ids = [''identity_code'', ''freeze_code'', ''repair_to_code'', ''merge_analysis_artifacts''],
     selector_ids = [''deterministic_code_selector'']\<rparr>"

definition b0_compiled :: compiled_graph where
  "b0_compiled = \<lparr>graph = b0, entry_nodes = [''direct_coder''],
     waves = [[''direct_coder''], [''code_parser''], [''freeze'']], conditional_branches = 0,
     final_producers = [''freeze'']\<rparr>"

lemma b0_compiles: "compile example_env b0 = Inr b0_compiled"
  by code_simp

definition b1_compiled :: compiled_graph where
  "b1_compiled = \<lparr>graph = b1, entry_nodes = [''direct_coder''],
     waves = [[''direct_coder''], [''public_harness_initial''], [''freeze_initial'', ''same_coder_repair''],
       [''repair_to_code''], [''public_harness_repaired''], [''selector''], [''freeze_selected'']],
     conditional_branches = 2, final_producers = [''freeze_initial'', ''freeze_selected'']\<rparr>"

lemma b1_compiles: "compile example_env b1 = Inr b1_compiled"
  by code_simp

lemma b0_tables:
  obtains t where "scan_edges (node_map b0) (edges b0) empty_tables = Inr t" "distinct (node_ids b0)"
    "length (concat (kahn (adjacency t) (indegree t) (sort (filter (\<lambda>n. indegree t n = 0) (node_ids b0))))) = 3"
proof
  show "scan_edges (node_map b0) (edges b0) empty_tables = Inr (tables_of b0)"
    using b0_compiles unfolding scan_edges_Inr compile_Inr_iff by blast
  show "distinct (node_ids b0)" by (rule compiled_distinct [OF b0_compiles])
  show "length (concat (kahn (adjacency (tables_of b0)) (indegree (tables_of b0))
      (sort (filter (\<lambda>n. indegree (tables_of b0) n = 0) (node_ids b0))))) = 3"
    by code_simp
qed

end
