(* ===== verification/Codec.thy ===== *)
theory Codec
  imports Storage
begin

text \<open>
  A host: a self-delimiting text form of JSON values, and with it of envelopes and states,
  whose decoder inverts its encoder. It shows that the laws assumed of the host's codecs
  (\<open>host_ok\<close>) can be met by computable functions; nothing else of it is used.
\<close>

section \<open>Strings and numbers\<close>

fun enc_str :: "string \<Rightarrow> string" where
  "enc_str [] = ''.''"
| "enc_str (c # cs) = CHR ''s'' # c # enc_str cs"

fun dec_str :: "string \<Rightarrow> (string \<times> string) option" where
  "dec_str [] = None"
| "dec_str [t] = (if t = CHR ''.'' then Some ([], []) else None)"
| "dec_str (t # c # r) =
     (if t = CHR ''.'' then Some ([], c # r)
      else map_option (\<lambda>(s, q). (c # s, q)) (dec_str r))"

lemma dec_enc_str [simp]: "dec_str (enc_str s @ r) = Some (s, r)"
proof (induction s)
  case Nil
  then show ?case by (cases r) simp_all
qed simp

definition dec_int :: "string \<Rightarrow> int" where
  "dec_int s =
     (case s of c # cs \<Rightarrow> if c = CHR ''-'' then - int (digits_value 0 cs) else int (digits_value 0 s)
              | [] \<Rightarrow> 0)"

lemma dec_int_str [simp]: "dec_int (py_str_int i) = i"
proof (cases "i < 0")
  case True
  then show ?thesis by (simp add: py_str_int_def dec_int_def nat_digits_value)
next
  case False
  obtain c cs where c: "nat_digits (nat i) = c # cs" "is_digit c"
    using nat_digits_nonempty [of "nat i"] nat_digits_digits [of "nat i"] by (cases "nat_digits (nat i)") auto
  then have "c \<noteq> CHR ''-''" by (auto simp: is_digit_def)
  then show ?thesis using False c nat_digits_value [of "nat i"] by (simp add: py_str_int_def dec_int_def)
qed

section \<open>JSON values\<close>

fun enc :: "json \<Rightarrow> string" where
  "enc JNull = ''N''"
| "enc (JBool b) = (if b then ''T'' else ''F'')"
| "enc (JInt i) = CHR ''I'' # enc_str (py_str_int i)"
| "enc (JFloat x) = (case quotient_of x of (p, q) \<Rightarrow> CHR ''D'' # enc_str (py_str_int p) @ enc_str (py_str_int q))"
| "enc (JStr s) = CHR ''S'' # enc_str s"
| "enc (JList xs) = CHR ''L'' # concat (map (\<lambda>x. CHR '','' # enc x) xs) @ ''.''"
| "enc (JObj kvs) = CHR ''O'' # concat (map (\<lambda>(k, v). CHR '','' # enc_str k @ enc v) kvs) @ ''.''"

fun dec :: "nat \<Rightarrow> string \<Rightarrow> (json \<times> string) option"
and dec_items :: "nat \<Rightarrow> string \<Rightarrow> (json list \<times> string) option"
and dec_pairs :: "nat \<Rightarrow> string \<Rightarrow> (json dict \<times> string) option"
where
  "dec 0 s = None"
| "dec (Suc f) s =
     (case s of
        [] \<Rightarrow> None
      | t # r \<Rightarrow>
          if t = CHR ''N'' then Some (JNull, r)
          else if t = CHR ''T'' then Some (JBool True, r)
          else if t = CHR ''F'' then Some (JBool False, r)
          else if t = CHR ''I'' then map_option (\<lambda>(s, q). (JInt (dec_int s), q)) (dec_str r)
          else if t = CHR ''D'' then
            (case dec_str r of None \<Rightarrow> None | Some (a, q) \<Rightarrow>
               map_option (\<lambda>(b, q'). (JFloat (of_int (dec_int a) / of_int (dec_int b)), q')) (dec_str q))
          else if t = CHR ''S'' then map_option (\<lambda>(s, q). (JStr s, q)) (dec_str r)
          else if t = CHR ''L'' then map_option (\<lambda>(xs, q). (JList xs, q)) (dec_items f r)
          else if t = CHR ''O'' then map_option (\<lambda>(xs, q). (JObj xs, q)) (dec_pairs f r)
          else None)"
| "dec_items 0 s = None"
| "dec_items (Suc f) s =
     (case s of
        [] \<Rightarrow> None
      | t # r \<Rightarrow>
          if t = CHR ''.'' then Some ([], r)
          else (case dec f r of None \<Rightarrow> None | Some (x, q) \<Rightarrow>
                  map_option (\<lambda>(xs, q'). (x # xs, q')) (dec_items f q)))"
| "dec_pairs 0 s = None"
| "dec_pairs (Suc f) s =
     (case s of
        [] \<Rightarrow> None
      | t # r \<Rightarrow>
          if t = CHR ''.'' then Some ([], r)
          else (case dec_str r of None \<Rightarrow> None | Some (k, p) \<Rightarrow>
                (case dec f p of None \<Rightarrow> None | Some (x, q) \<Rightarrow>
                  map_option (\<lambda>(xs, q'). ((k, x) # xs, q')) (dec_pairs f q))))"

lemma dec_items_enc:
  assumes "\<And>x f r. x \<in> set xs \<Longrightarrow> length (enc x) \<le> f \<Longrightarrow> dec f (enc x @ r) = Some (x, r)"
    and "length (concat (map (\<lambda>x. CHR '','' # enc x) xs)) < f"
  shows "dec_items f (concat (map (\<lambda>x. CHR '','' # enc x) xs) @ CHR ''.'' # r) = Some (xs, r)"
  using assms
proof (induction xs arbitrary: f)
  case Nil
  then show ?case by (cases f) simp_all
next
  case (Cons x xs)
  obtain f' where f: "f = Suc f'" using Cons.prems(2) by (cases f) auto
  have "dec f' (enc x @ q) = Some (x, q)" for q
    using Cons.prems(1) [of x f' q] Cons.prems(2) f by simp
  moreover have "dec_items f' (concat (map (\<lambda>x. CHR '','' # enc x) xs) @ CHR ''.'' # r) = Some (xs, r)"
    by (rule Cons.IH) (use Cons.prems f in auto)
  ultimately show ?case using f by simp
qed

lemma dec_pairs_enc:
  assumes "\<And>k x f r. (k, x) \<in> set xs \<Longrightarrow> length (enc x) \<le> f \<Longrightarrow> dec f (enc x @ r) = Some (x, r)"
    and "length (concat (map (\<lambda>(k, v). CHR '','' # enc_str k @ enc v) xs)) < f"
  shows "dec_pairs f (concat (map (\<lambda>(k, v). CHR '','' # enc_str k @ enc v) xs) @ CHR ''.'' # r) = Some (xs, r)"
  using assms
proof (induction xs arbitrary: f)
  case Nil
  then show ?case by (cases f) simp_all
next
  case (Cons kx xs)
  obtain k x where kx: "kx = (k, x)" by (cases kx)
  obtain f' where f: "f = Suc f'" using Cons.prems(2) by (cases f) auto
  have "dec f' (enc x @ q) = Some (x, q)" for q
    using Cons.prems(1) [of k x f' q] Cons.prems(2) f kx by simp
  moreover have "dec_pairs f' (concat (map (\<lambda>(k, v). CHR '','' # enc_str k @ enc v) xs) @ CHR ''.'' # r) = Some (xs, r)"
    by (rule Cons.IH) (use Cons.prems f kx in auto)
  ultimately show ?case using f kx by simp
qed

lemma quotient_back: "quotient_of x = (p, q) \<Longrightarrow> (of_int p / of_int q :: rat) = x"
  using quotient_of_div [of x p q] by simp

lemma dec_enc: "length (enc v) \<le> f \<Longrightarrow> dec f (enc v @ r) = Some (v, r)"
proof (induction v arbitrary: f r)
  case (JFloat x)
  obtain p q where pq: "quotient_of x = (p, q)" by (cases "quotient_of x")
  then show ?case using JFloat quotient_back [OF pq] by (cases f) (simp_all)
next
  case (JList xs)
  obtain f' where f: "f = Suc f'" using JList.prems by (cases f) auto
  have "dec_items f' (concat (map (\<lambda>x. CHR '','' # enc x) xs) @ CHR ''.'' # r) = Some (xs, r)"
    by (rule dec_items_enc) (use JList f in auto)
  then show ?case using f by simp
next
  case (JObj kvs)
  obtain f' where f: "f = Suc f'" using JObj.prems by (cases f) auto
  have "dec_pairs f' (concat (map (\<lambda>(k, v). CHR '','' # enc_str k @ enc v) kvs) @ CHR ''.'' # r) = Some (kvs, r)"
    by (rule dec_pairs_enc) (use JObj f in auto)
  then show ?case using f by simp
next
  case JNull
  then show ?case by (cases f) simp_all
next
  case (JBool b)
  then show ?case by (cases f; cases b) simp_all
next
  case (JInt i)
  then show ?case by (cases f) simp_all
next
  case (JStr s)
  then show ?case by (cases f) simp_all
qed

definition decode :: "string \<Rightarrow> json option" where
  "decode s = map_option fst (dec (length s) s)"

lemma decode_enc [simp]: "decode (enc v) = Some v"
  using dec_enc [of v "length (enc v)" "[]"] by (simp add: decode_def)

section \<open>Envelopes and states\<close>

definition strs :: "string list \<Rightarrow> json" where
  "strs xs = JList (map JStr xs)"

fun str_of :: "json \<Rightarrow> string" where
  "str_of (JStr s) = s"
| "str_of _ = []"

fun int_of :: "json \<Rightarrow> int" where
  "int_of (JInt i) = i"
| "int_of _ = 0"

fun strs_of :: "json \<Rightarrow> string list" where
  "strs_of (JList xs) = map str_of xs"
| "strs_of _ = []"

fun dict_json :: "json \<Rightarrow> json dict" where
  "dict_json (JObj d) = d"
| "dict_json _ = []"

definition map_dict :: "('a \<Rightarrow> 'b) \<Rightarrow> 'a dict \<Rightarrow> 'b dict" where
  "map_dict f d = map (\<lambda>(k, v). (k, f v)) d"

lemma map_dict_inverse [simp]: "(\<And>x. g (f x) = x) \<Longrightarrow> map_dict g (map_dict f d) = d"
  by (induction d) (auto simp: map_dict_def)

lemma strs_back [simp]: "strs_of (strs xs) = xs"
  by (induction xs) (auto simp: strs_def)

definition envelope_json :: "envelope \<Rightarrow> json" where
  "envelope_json e = JList [JStr (artifact_id e), JStr (artifact_type e), JStr (envelope_version e),
     JStr (producer_node_id e), JStr (env_task_id e), JStr (created_at e), payload e,
     strs (parent_artifact_ids e), JStr (content_hash e)]"

definition json_envelope :: "json \<Rightarrow> envelope option" where
  "json_envelope v =
     (case v of
        JList [a, b, c, d, e, f, p, ps, h] \<Rightarrow>
          Some \<lparr>artifact_id = str_of a, artifact_type = str_of b, envelope_version = str_of c,
            producer_node_id = str_of d, env_task_id = str_of e, created_at = str_of f, payload = p,
            parent_artifact_ids = strs_of ps, content_hash = str_of h\<rparr>
      | _ \<Rightarrow> None)"

lemma json_envelope_back: "json_envelope (envelope_json e) = Some e"
  by (simp add: json_envelope_def envelope_json_def)

definition status_of :: "string \<Rightarrow> node_status" where
  "status_of s = (case find (\<lambda>x. status_value x = s)
     [Pending, Ready, Running, Succeeded, Failed, Skipped, Cancelled] of Some x \<Rightarrow> x | None \<Rightarrow> Pending)"

lemma status_back [simp]: "status_of (status_value s) = s"
  by (cases s) (simp_all add: status_of_def)

definition state_json :: "runtime_state \<Rightarrow> json" where
  "state_json s = JList [JStr (run_id s), JStr (task_id s), JStr (st_graph_id s), JStr (graph_hash s),
     JStr (contract_hash s), JObj (map_dict (\<lambda>x. JStr (status_value x)) (node_status s)),
     JObj (map_dict (\<lambda>d. JObj (map_dict JStr d)) (node_outputs s)),
     JObj (map_dict JStr (initial_artifacts s)),
     strs (sorted_list_of_set (active_edges s)), strs (sorted_list_of_set (inactive_edges s)),
     dump_opt JStr (final_output_artifact_id s), JBool (frozen s), JInt (wave_id s),
     JInt (checkpoint_count s), JObj (map_dict JInt (node_latencies_ms s))]"

definition json_state :: "json \<Rightarrow> runtime_state option" where
  "json_state v =
     (case v of
        JList [a, b, c, d, e, ns, outs, ini, act, ina, fin, fr, w, k, lat] \<Rightarrow>
          Some \<lparr>run_id = str_of a, task_id = str_of b, st_graph_id = str_of c, graph_hash = str_of d,
            contract_hash = str_of e, node_status = map_dict (\<lambda>x. status_of (str_of x)) (dict_json ns),
            node_outputs = map_dict (\<lambda>x. map_dict str_of (dict_json x)) (dict_json outs),
            initial_artifacts = map_dict str_of (dict_json ini),
            active_edges = set (strs_of act), inactive_edges = set (strs_of ina),
            final_output_artifact_id = (if fin = JNull then None else Some (str_of fin)),
            frozen = (fr = JBool True), wave_id = int_of w, checkpoint_count = int_of k,
            node_latencies_ms = map_dict int_of (dict_json lat)\<rparr>
      | _ \<Rightarrow> None)"

lemma json_state_back:
  "finite (active_edges s) \<Longrightarrow> finite (inactive_edges s) \<Longrightarrow> json_state (state_json s) = Some s"
  by (cases "final_output_artifact_id s") (simp_all add: json_state_def state_json_def dump_opt_def)

text \<open>The digest and the float notation of the example are the identity and the codec.\<close>

definition example_platform :: platform where
  "example_platform = \<lparr>pyd = strict_pydantic, float_repr = (\<lambda>x. enc (JFloat x)), sha256_hex = (\<lambda>s. s)\<rparr>"

definition example_host :: host where
  "example_host = \<lparr>plat = example_platform,
     dump_envelope = (\<lambda>e. enc (envelope_json e)),
     load_envelope = (\<lambda>s. case decode s of None \<Rightarrow> None | Some v \<Rightarrow> json_envelope v),
     dump_state = (\<lambda>s. enc (state_json s)),
     load_state = (\<lambda>s. case decode s of None \<Rightarrow> None | Some v \<Rightarrow> json_state v)\<rparr>"

lemma example_host_ok: "host_ok example_host"
  by (simp add: host_ok_def example_host_def example_platform_def strict_pydantic_ok
      json_envelope_back json_state_back finite_edges_def)

end
