(* ===== verification/Example_Run.thy ===== *)
theory Example_Run
  imports Examples Codec Runtime
begin

text \<open>
  A run of \<open>b0_direct\<close> on an empty world: a client that always answers with the same code
  block, a sandbox that passes everything, the host of the codec.
\<close>

definition empty_world :: world where
  "empty_world = \<lparr>fs = [], log = []\<rparr>"

lemma empty_world_inv [simp]: "store_inv example_host empty_world"
  by (simp add: store_inv_def example_host_ok empty_world_def file_at_def)

lemma empty_world_admits [simp]: "admits_artifact empty_world a"
  by (simp add: admits_artifact_def empty_world_def file_at_def)

definition example_context :: run_context where
  "example_context = \<lparr>ctx_run_id = ''r'', ctx_task_id = ''t'', limits = default_limits,
     ctx_contract_hash = ''c'', allow_config_drift = False\<rparr>"

definition example_answer :: llm_response where
  "example_answer = \<lparr>rs_text = fence @ ''python'' @ newline # ''pass'' @ fence, rs_model = ''m'',
     rs_latency_ms = 3, rs_usage = no_usage, rs_request_id = None\<rparr>"

definition example_run :: sandbox_result where
  "example_run = \<lparr>sb_compiled = True, sb_passed_count = 2, sb_total_count = 2, sb_runtime_errors = 0,
     sb_timeouts = 0, sb_stderr_summary = None, sb_results = [], sb_duration_ms = 1,
     sb_worker_metadata = []\<rparr>"

definition example_services :: services where
  "example_services = \<lparr>generate = (\<lambda>_. Inr example_answer), evaluate_public = (\<lambda>_ _ _. Inr example_run),
     py_compile = (\<lambda>_. Inr None), parse_datetime = Some, elapsed_ms = (\<lambda>_. 5),
     stamp_for = (\<lambda>n. \<lparr>uuid_hex = n, utc_now = ''now''\<rparr>)\<rparr>"

definition example_executors :: executors where
  "example_executors = \<lparr>ex_contracts = example_contracts, ex_harness_timeout = 10\<rparr>"

definition example_problem :: problem_artifact where
  "example_problem = \<lparr>pr_schema_version = ''1.0'', pr_question_id = ''q'', pr_title = ''T'',
     pr_statement = ''S'', pr_starter_code = [], pr_difficulty = ''easy'', pr_platform = ''p'',
     pr_contest_date = [], pr_public_examples = [], pr_function_name = None\<rparr>"

definition example_bundle :: "envelope dict" where
  "example_bundle = [(''problem'', create_artifact example_platform \<lparr>uuid_hex = ''0'', utc_now = ''now''\<rparr>
     (MProblem example_problem) ''adapter'' ''t'' [])]"

definition example_runtime :: runtime where
  "example_runtime = \<lparr>rt_host = example_host, rt_services = example_services,
     rt_executors = example_executors, rt_wall_ms = 9\<rparr>"

lemma example_agent_run:
  obtains r where
    "execute_safely example_platform example_services example_executors example_context (hd (nodes b0)) [] = Inr r"
    "succeeded r"
proof -
  have "py_strip ''pass'' = ''pass''" by code_simp
  moreover have "parse_output example_platform ''python_code'' (rs_text example_answer) ''CodeArtifact'' ''direct_coder''
      = Inr (MCode (code_of ''pass'' ''direct_coder''))"
    using parse_code_answer [of "[]" "''pass''" "[]" "''python''" "''CodeArtifact''" example_platform "''direct_coder''"]
    by (simp add: example_answer_def payload_schemas_def \<open>py_strip ''pass'' = ''pass''\<close>)
  ultimately have "\<exists>r. execute_safely example_platform example_services example_executors example_context (hd (nodes b0)) [] = Inr r
      \<and> succeeded r"
    by (simp add: execute_safely_def dispatch_def agent_execute_def b0_def example_executors_def
        example_contracts_def contract_for_def example_services_def agent_slot_def finish_def ok_result_def dindex_def)
  then show thesis using that by blast
qed

text \<open>A wave of two failed nodes.\<close>

definition fail_a :: node_result where
  "fail_a = failed_result ''code_parser'' (value_error ''x'') 1"

definition fail_b :: node_result where
  "fail_b = failed_result ''direct_coder'' (value_error ''y'') 2"

definition two_running :: runtime_state where
  "two_running = (initial_state example_platform b0 example_bundle example_context)
     \<lparr>node_status := [(''direct_coder'', Running), (''code_parser'', Running), (''freeze'', Pending)]\<rparr>"

definition both_failed :: commit where
  "both_failed = \<lparr>c_state = two_running
     \<lparr>node_status := [(''direct_coder'', Failed), (''code_parser'', Failed), (''freeze'', Skipped)],
      node_latencies_ms := [(''code_parser'', 1), (''direct_coder'', 2)],
      wave_id := 1, checkpoint_count := 1\<rparr>,
     c_committed = [], c_activated = [], c_disabled = []\<rparr>"

lemma both_failed_commit:
  "commit_wave example_host b0 two_running [fail_a, fail_b] empty_world = (Inr both_failed, empty_world)"
proof -
  have "persist_wave example_host [fail_a, fail_b] = ret ()"
    by (rule ext) (simp add: persist_wave_def persist_result_def fail_a_def fail_b_def failed_result_def io_simps)
  moreover have "sort_key res_node_id [fail_a, fail_b] = [fail_a, fail_b]"
    by (simp add: fail_a_def fail_b_def failed_result_def)
  ultimately show ?thesis
    by (simp add: commit_wave_def apply_results_def fail_a_def fail_b_def failed_result_def io_simps
        commit_result_def impossible_nodes_def two_running_def initial_state_def b0_def both_failed_def Let_def
        node_impossible_def slot_impossible_def edge_dead_def skip_nodes_def dindex_def incoming_def dead_status_def example_bundle_def)
qed


lemma both_failed_wave [simp]:
  "wave_admitted empty_world t [fail_a, fail_b]"
  "mset [fail_a, fail_b] = mset [fail_b, fail_a]"
  by (simp_all add: fail_a_def fail_b_def failed_result_def wave_admitted_def wave_outputs_def)


lemma both_failed_ids: "res_node_id fail_a = ''code_parser''" "res_node_id fail_b = ''direct_coder''"
  by (simp_all add: fail_a_def fail_b_def failed_result_def)

end
