(* ===== verification/Run_Events.thy ===== *)
theory Run_Events
  imports Run_Correct
begin

text \<open>
  What the log and the result of a run say: a node is announced as started at most once,
  and the critical path of the result is the greatest latency along a path of the graph.
\<close>

section \<open>A node starts at most once\<close>

definition starts :: "string \<Rightarrow> string \<Rightarrow> world \<Rightarrow> nat" where
  "starts task n w = length (filter (\<lambda>e. event_type e = ''NODE_STARTED'' \<and> ev_task_id e = Some task
     \<and> ev_node_id e = Some n) (log w))"

definition same_starts :: "string \<Rightarrow> string \<Rightarrow> world \<Rightarrow> world \<Rightarrow> bool" where
  "same_starts task n w w' \<longleftrightarrow> starts task n w' = starts task n w"

interpretation calm: world_view "same_starts task n" "starts task n" for task n
  by unfold_locales (auto simp: same_starts_def)

lemma get_calm [intro]: "calm.keeps t n (get_artifact H i)"
  by (auto simp: calm.keeps_def get_artifact_def calm.le_refl)

lemma put_calm [intro]: "calm.keeps t n (put_artifact H a)"
  by (auto simp: calm.keeps_def put_artifact_cases put_state_def same_starts_def starts_def
      split: sum.splits option.splits if_splits)

lemma save_calm [intro]: "calm.keeps t n (save_checkpoint H st)"
  by (auto simp: calm.keeps_def save_checkpoint_def same_starts_def starts_def)

lemma load_calm [intro]: "calm.keeps t n (load_checkpoint H tk g c a)"
  by (auto simp: calm.keeps_def load_checkpoint_def calm.le_refl)

text \<open>An emitted event counts when its type is \<open>NODE_STARTED\<close> and it names the node.\<close>

definition keeps_head :: "(event \<Rightarrow> event) \<Rightarrow> bool" where
  "keeps_head f \<longleftrightarrow> (\<forall>e. event_type (f e) = event_type e \<and> ev_task_id (f e) = ev_task_id e)"

lemma emit_calm: "keeps_head f \<Longrightarrow> ty \<noteq> ''NODE_STARTED'' \<Longrightarrow> calm.keeps t n (emit ctx g ty f)"
  by (auto simp: calm.keeps_def emit_def same_starts_def starts_def base_event_def keeps_head_def)

lemma emit_calm_ifs [intro]:
  "calm.keeps t n (emit ctx g ''NODE_SKIPPED'' (\<lambda>e. e\<lparr>ev_wave_id := wv, ev_node_id := nd\<rparr>))"
  "calm.keeps t n (emit ctx g ''NODE_READY'' (\<lambda>e. e\<lparr>ev_wave_id := wv, ev_node_id := nd\<rparr>))"
  "calm.keeps t n (emit ctx g ''WAVE_STARTED'' (\<lambda>e. e\<lparr>ev_wave_id := wv, ev_metadata := md\<rparr>))"
  "calm.keeps t n (emit ctx g ''FINAL_OUTPUT_FROZEN'' (\<lambda>e. e))"
  by (rule emit_calm; simp add: keeps_head_def)+

lemma load_inputs_calm [intro]: "calm.keeps t n (load_inputs H g st nd)"
  unfolding load_inputs_def by (auto simp: case_prod_beta')

lemma skip_calm [intro]: "calm.keeps t n (skip_impossible g ctx st)"
  unfolding skip_impossible_def by blast

lemma commit_calm [intro]: "calm.keeps t n (commit_wave H g prev rs)"
  unfolding commit_wave_def persist_wave_eq by blast

lemma report_calm [intro]: "calm.keeps t n (report_commit H g ctx rs c)"
proof -
  have "calm.keeps t n (report_result g ctx wv r)" for wv r
    unfolding report_result_def
    by (intro calm.keeps_thn calm.keeps_for_each emit_calm) (auto simp: keeps_head_def)
  moreover have "calm.keeps t n (report_edges g ctx wv ty ids)" if "ty \<noteq> ''NODE_STARTED''" for wv ty ids
    unfolding report_edges_def using that by (intro calm.keeps_for_each emit_calm) (auto simp: keeps_head_def)
  ultimately show ?thesis unfolding report_commit_def Let_def
    by (intro calm.keeps_thn calm.keeps_for_each save_calm emit_calm) (auto simp: keeps_head_def)
qed

text \<open>Preparing a wave announces each of its nodes at most once, also when it raises.\<close>

lemma emit_start:
  "starts (ctx_task_id ctx) n (snd (emit ctx g ''NODE_STARTED'' (\<lambda>e. e\<lparr>ev_wave_id := wv, ev_node_id := Some nd\<rparr>) w))
     = starts (ctx_task_id ctx) n w + (if nd = n then 1 else 0)"
  by (simp add: emit_def starts_def base_event_def)

lemma prepare_starts:
  "prepare H g ctx ids st inputs w = (r, w') \<Longrightarrow>
     starts (ctx_task_id ctx) n w' \<le> starts (ctx_task_id ctx) n w + count_list ids n"
proof (induction ids arbitrary: st inputs w)
  case (Cons nd ids)
  let ?st = "st\<lparr>node_status := dset nd Running (node_status st)\<rparr>"
  let ?here = "\<lambda>e. e\<lparr>ev_wave_id := Some (wave_id st), ev_node_id := Some nd\<rparr>"
  obtain q w1 where q: "load_inputs H g ?st nd w = (q, w1)" by (cases "load_inputs H g ?st nd w")
  have w1: "starts (ctx_task_id ctx) n w1 = starts (ctx_task_id ctx) n w"
    using calm.keepsD [OF load_inputs_calm q] by (simp add: same_starts_def)
  show ?case
  proof (cases q)
    case (Inl e)
    then show ?thesis using Cons.prems q w1 by (simp add: bnd_def Let_def)
  next
    case (Inr loaded)
    define w2 where "w2 = snd (emit ctx g ''NODE_READY'' ?here w1)"
    define w3 where "w3 = snd (emit ctx g ''NODE_STARTED'' ?here w2)"
    have "prepare H g ctx ids ?st (dset nd loaded inputs) w3 = (r, w')"
      using Cons.prems q Inr by (simp add: bnd_def thn_def Let_def w2_def w3_def emit_def)
    from Cons.IH [OF this] have "starts (ctx_task_id ctx) n w' \<le> starts (ctx_task_id ctx) n w3 + count_list ids n" .
    moreover have "starts (ctx_task_id ctx) n w2 = starts (ctx_task_id ctx) n w1"
      using calm.view_after [OF emit_calm_ifs(2)] unfolding w2_def by blast
    moreover have "starts (ctx_task_id ctx) n w3 = starts (ctx_task_id ctx) n w2 + (if nd = n then 1 else 0)"
      unfolding w3_def by (rule emit_start)
    ultimately show ?thesis using w1 by (simp split: if_splits)
  qed
qed simp

lemma count_list_distinct: "distinct xs \<Longrightarrow> count_list xs x = (if x \<in> set xs then 1 else 0)"
  by (induction xs) auto

lemma run_ready_starts:
  assumes "run_ready R g ctx st ready w = (r, w')"
  shows "starts (ctx_task_id ctx) n w' \<le> starts (ctx_task_id ctx) n w + count_list ready n"
proof -
  let ?H = "rt_host R" and ?t = "ctx_task_id ctx"
  let ?tail = "\<lambda>x. bnd (lift (run_wave R g ctx (snd x) ready)) (\<lambda>results.
       bnd (commit_wave ?H g (fst x) results) (\<lambda>c.
       thn (report_commit ?H g ctx results c) (ret (More (c_state c)))))"
  define w1 where "w1 = snd (emit ctx g ''WAVE_STARTED'' (\<lambda>e. e\<lparr>ev_wave_id := Some (wave_id st),
             ev_metadata := [(''ready_nodes'', JList (map JStr ready))]\<rparr>) w)"
  have w1: "starts ?t n w1 = starts ?t n w"
    using calm.view_after [OF emit_calm_ifs(3)] unfolding w1_def by blast
  have tail: "calm.keeps ?t n (?tail x)" for x
    by (intro calm.keeps_bnd calm.keeps_thn calm.keeps_lift calm.keeps_ret commit_calm report_calm)
  obtain q w2 where q: "prepare ?H g ctx ready st [] w1 = (q, w2)" by (cases "prepare ?H g ctx ready st [] w1")
  have w2: "starts ?t n w2 \<le> starts ?t n w1 + count_list ready n" by (rule prepare_starts [OF q])
  let ?em = "emit ctx g ''WAVE_STARTED'' (\<lambda>e. e\<lparr>ev_wave_id := Some (wave_id st),
             ev_metadata := [(''ready_nodes'', JList (map JStr ready))]\<rparr>)"
  have "?em w = (Inr (), w1)" by (simp add: w1_def emit_def)
  then have "thn ?em k w = k w1" for k :: "(world, turn) io" by (rule thn_InrI)
  then have run: "bnd (prepare ?H g ctx ready st []) ?tail w1 = (r, w')"
    using assms by (simp add: run_ready_def Let_def case_prod_beta')
  show ?thesis
  proof (cases q)
    case (Inl e)
    then show ?thesis using run q w1 w2 by (simp add: bnd_def)
  next
    case (Inr x)
    then have "?tail x w2 = (r, w')" using run q by (simp add: bnd_def)
    then have "starts ?t n w' = starts ?t n w2" using calm.keepsD [OF tail] by (simp add: same_starts_def)
    then show ?thesis using w1 w2 by simp
  qed
qed

lemma wave_step_parts:
  assumes "wave_step R g ctx st w = (r, w')"
  obtains (stops) "same_starts (ctx_task_id ctx) n w w'" "\<nexists>st'. r = Inr (More st')"
  | (runs) dead ready w1 where "same_starts (ctx_task_id ctx) n w w1"
      "find_ready_nodes (max_parallel_nodes_per_task (limits ctx)) g (mark Skipped dead st) = Inr ready"
      "run_ready R g ctx (mark Skipped dead st) ready w1 = (r, w')"
proof -
  obtain q w1 where q: "skip_impossible g ctx st w = (q, w1)" by (cases "skip_impossible g ctx st w")
  have w1: "same_starts (ctx_task_id ctx) n w w1" by (rule calm.keepsD [OF skip_calm q])
  show thesis
  proof (cases q)
    case (Inl e)
    then show thesis using assms q w1 stops by (auto simp: wave_step_def bnd_def)
  next
    case (Inr st1)
    then obtain dead where dead: "st1 = mark Skipped dead st"
      using q by (auto simp: skip_impossible_def io_simps skip_mark)
    show thesis
    proof (cases "find_ready_nodes (max_parallel_nodes_per_task (limits ctx)) g st1")
      case (Inl e)
      then show thesis using assms q \<open>q = Inr st1\<close> w1 stops by (auto simp: wave_step_def bnd_def)
    next
      case ready: (Inr ready)
      show thesis
      proof (cases "ready = []")
        case True
        then show thesis using assms q Inr ready w1 stops
          by (auto simp: wave_step_def bnd_def split: if_splits)
      next
        case False
        then have "run_ready R g ctx st1 ready w1 = (r, w')"
          using assms q Inr ready by (simp add: wave_step_def bnd_def)
        then show thesis using w1 ready dead runs by blast
      qed
    qed
  qed
qed

lemma run_ready_pending:
  assumes "run_ready R g ctx st ready w = (Inr (More st'), w')"
  shows "pending_nodes st' \<subseteq> pending_nodes st - set ready"
proof -
  obtain st2 inputs w1 w2 results c w3 where
    p: "prepare (rt_host R) g ctx ready st [] w1 = (Inr (st2, inputs), w2)"
    and cw: "commit_wave (rt_host R) g st2 results w2 = (Inr c, w3)" and st': "st' = c_state c"
    using assms by (auto simp: run_ready_def Let_def bnd_eq_Inr thn_eq_Inr)
  have "apply_results g st2 results = Inr c" by (rule commit_waveE [OF cw])
  from apply_results_pending [OF this] show ?thesis
    using prepare_state [OF p] mark_pending [of Running ready st] st' by simp
qed

lemma wave_step_starts:
  assumes step: "wave_step R g ctx st w = (r, w')" and ids: "distinct (node_ids g)"
  shows "starts (ctx_task_id ctx) n w'
      + (case r of Inr (More st') \<Rightarrow> if n \<in> pending_nodes st' then 1 else 0 | _ \<Rightarrow> 0)
    \<le> starts (ctx_task_id ctx) n w + (if n \<in> pending_nodes st then 1 else 0)"
proof (rule wave_step_parts [OF step, where n = n])
  assume "same_starts (ctx_task_id ctx) n w w'" "\<nexists>st'. r = Inr (More st')"
  then show ?thesis by (auto simp: same_starts_def split: sum.splits turn.splits)
next
  fix dead ready w1
  assume same: "same_starts (ctx_task_id ctx) n w w1"
    and ready: "find_ready_nodes (max_parallel_nodes_per_task (limits ctx)) g (mark Skipped dead st) = Inr ready"
    and run: "run_ready R g ctx (mark Skipped dead st) ready w1 = (r, w')"
  have sub: "set ready \<subseteq> pending_nodes (mark Skipped dead st)" by (rule ready_pending [OF ready])
  have pend: "pending_nodes (mark Skipped dead st) \<subseteq> pending_nodes st" by (simp add: mark_pending)
  have count: "starts (ctx_task_id ctx) n w' \<le> starts (ctx_task_id ctx) n w + (if n \<in> set ready then 1 else 0)"
    using run_ready_starts [OF run, of n] count_list_distinct [OF ready_distinct(1) [OF ids ready], of n] same
    by (simp add: same_starts_def)
  show ?thesis
  proof (cases "\<exists>st'. r = Inr (More st')")
    case True
    then obtain st' where st': "r = Inr (More st')" by blast
    have "pending_nodes st' \<subseteq> pending_nodes (mark Skipped dead st) - set ready"
      by (rule run_ready_pending) (use run st' in simp)
    then show ?thesis using count sub pend st' by (auto split: if_splits)
  next
    case False
    then show ?thesis using count sub pend by (auto split: sum.splits turn.splits if_splits)
  qed
qed

lemma run_loop_starts:
  assumes "distinct (node_ids g)"
  shows "starts (ctx_task_id ctx) n (snd (run_loop R g ctx st w))
    \<le> starts (ctx_task_id ctx) n w + (if n \<in> pending_nodes st then 1 else 0)"
proof (induction R\<equiv>R g\<equiv>g ctx\<equiv>ctx st w rule: run_loop.induct)
  case (1 st w)
  show ?case
  proof (cases "frozen st")
    case True
    then show ?thesis by (simp add: run_loop.simps)
  next
    case False
    obtain r w1 where r: "wave_step R g ctx st w = (r, w1)" by (cases "wave_step R g ctx st w")
    note S = wave_step_starts [OF r assms, of n]
    show ?thesis
    proof (cases "\<exists>st'. r = Inr (More st')")
      case True
      then obtain st' where st': "r = Inr (More st')" by blast
      have "starts (ctx_task_id ctx) n (snd (run_loop R g ctx st' w1))
          \<le> starts (ctx_task_id ctx) n w1 + (if n \<in> pending_nodes st' then 1 else 0)"
        using "1.hyps" [OF False r [symmetric] st' refl] .
      then show ?thesis using S st' r False by (simp add: run_loop.simps [of _ _ _ st w])
    next
      case neither: False
      then have "snd (run_loop R g ctx st w) = w1"
        using r False by (auto simp: run_loop.simps [of _ _ _ st w] split: sum.splits turn.splits)
      then show ?thesis using S neither by (auto split: sum.splits turn.splits)
    qed
  qed
qed

lemma execute_starts:
  assumes "distinct (node_ids (graph cg))"
  shows "starts (ctx_task_id ctx) n (snd (execute R cg bundle ctx w)) \<le> starts (ctx_task_id ctx) n w + 1"
proof -
  let ?g = "graph cg"
  have start: "calm.keeps (ctx_task_id ctx) n (start_state R ?g bundle ctx)"
    unfolding start_state_def Let_def by (intro calm.keeps_bnd load_calm) (auto split: option.splits)
  obtain r w1 where r: "start_state R ?g bundle ctx w = (r, w1)" by (cases "start_state R ?g bundle ctx w")
  have w1: "starts (ctx_task_id ctx) n w1 = starts (ctx_task_id ctx) n w"
    using calm.keepsD [OF start r] by (simp add: same_starts_def)
  show ?thesis
  proof (cases "\<exists>st. r = Inr st \<and> \<not> frozen st")
    case False
    then show ?thesis using r w1 by (auto simp: execute_def bnd_def split: sum.splits)
  next
    case True
    then obtain st where st: "start_state R ?g bundle ctx w = (Inr st, w1)" "\<not> frozen st" using r by auto
    obtain q w2 where q: "run_loop R ?g ctx st w1 = (q, w2)" by (cases "run_loop R ?g ctx st w1")
    have w2: "starts (ctx_task_id ctx) n w2 \<le> starts (ctx_task_id ctx) n w1 + 1"
      using run_loop_starts [OF assms, of ctx n R st w1] q by (simp split: if_splits)
    have "starts (ctx_task_id ctx) n (snd (emit ctx ?g ''FINAL_OUTPUT_FROZEN'' (\<lambda>e. e) w2)) = starts (ctx_task_id ctx) n w2"
      using calm.view_after [OF emit_calm_ifs(4)] by blast
    then show ?thesis using st q w1 w2
      by (auto simp: execute_def bnd_def thn_def emit_def split: sum.splits)
  qed
qed

end
