(* ===== verification/Critical_Path.thy ===== *)
theory Critical_Path
  imports Runtime
begin

text \<open>
  The critical path of a result (\<open>NativeAsyncRuntime._result\<close>): one pass over the waves
  computes, for every node, the greatest sum of latencies along a path that ends there.
\<close>

section \<open>Paths\<close>

definition is_path :: "orchestra_graph \<Rightarrow> string list \<Rightarrow> bool" where
  "is_path g ns \<longleftrightarrow> ns \<noteq> [] \<and> set ns \<subseteq> set (node_ids g) \<and> successively (\<lambda>u v. (u, v) \<in> edge_rel g) ns"

definition path_latency :: "runtime_state \<Rightarrow> string list \<Rightarrow> int" where
  "path_latency st ns = sum_list (map (latency_of st) ns)"

text \<open>\<open>x\<close> is the greatest latency of a path that ends in \<open>n\<close>.\<close>

definition best_at :: "orchestra_graph \<Rightarrow> runtime_state \<Rightarrow> string \<Rightarrow> int \<Rightarrow> bool" where
  "best_at g st n x \<longleftrightarrow> (\<exists>ns. is_path g ns \<and> last ns = n \<and> path_latency st ns = x)
     \<and> (\<forall>ns. is_path g ns \<and> last ns = n \<longrightarrow> path_latency st ns \<le> x)"

lemma is_path_single: "n \<in> set (node_ids g) \<Longrightarrow> is_path g [n]"
  by (simp add: is_path_def)

lemma is_path_snoc:
  "is_path g (ns @ [n]) \<longleftrightarrow> n \<in> set (node_ids g) \<and> (ns = [] \<or> is_path g ns \<and> (last ns, n) \<in> edge_rel g)"
  by (auto simp: is_path_def successively_append_iff)

lemma path_latency_snoc: "path_latency st (ns @ [n]) = path_latency st ns + latency_of st n"
  by (simp add: path_latency_def)

lemma path_latency_nonneg: "\<forall>n. 0 \<le> latency_of st n \<Longrightarrow> 0 \<le> path_latency st ns"
  unfolding path_latency_def by (intro sum_list_nonneg) auto

section \<open>The order of the waves\<close>

lemma layered_before:
  assumes "layered es P ws" "concat ws = pre @ x # post" "e \<in> set es" "destination_node e = x"
  shows "source_node e \<in> set (P @ pre)"
  using assms(1,2)
proof (induction ws arbitrary: P pre)
  case (Cons w ws)
  show ?case
  proof (cases "x \<in> set w")
    case True
    then show ?thesis using Cons.prems(1) assms(3,4) by auto
  next
    case False
    obtain us where "pre = w @ us" "concat ws = us @ x # post"
      using Cons.prems(2) False by (auto simp: append_eq_append_conv2 append_eq_Cons_conv)
    then show ?thesis using Cons.IH [of "P @ w" us] Cons.prems(1) by simp
  qed
qed simp

lemma compiled_layered:
  assumes "compile env g = Inr cg"
  shows "layered (edges g) [] (waves cg)"
proof -
  have d: "distinct (node_ids g)" and ok: "\<forall>e \<in> set (edges g). edge_ok (node_map g) e"
    and w: "waves cg = layers_of g"
    using assms unfolding compile_Inr_iff by (blast, blast, metis compiled_graph.select_convs(3))
  show ?thesis using layers_correct [OF d ok] w by simp
qed

section \<open>The pass\<close>

lemma foldl_max: "foldl max (x::int) xs = Max (insert x (set xs))"
proof (induction xs arbitrary: x)
  case (Cons y ys)
  have "foldl max x (y # ys) = Max (insert (max x y) (set ys))" by (simp add: Cons)
  also have "\<dots> = Max (insert x (insert y (set ys)))"
    by (cases "ys = []") (simp_all add: Max_insert2 max.assoc)
  finally show ?case by simp
qed simp

lemma max_default_Max: "xs \<noteq> [] \<Longrightarrow> max_default xs = Max (set xs)"
  by (cases xs) (simp_all add: max_default_def foldl_max)

lemma max_default_Nil [simp]: "max_default [] = 0"
  by (simp add: max_default_def)

definition parents_of :: "orchestra_graph \<Rightarrow> string \<Rightarrow> string list" where
  "parents_of g n = map source_node (filter (\<lambda>e. destination_node e = n) (edges g))"

lemma parents_edge: "p \<in> set (parents_of g n) \<longleftrightarrow> (p, n) \<in> edge_rel g"
  by (auto simp: parents_of_def edge_rel_def)

lemma path_step_get:
  "dget (path_step g st n longest) k =
     (if k = n then Some (latency_of st n + max_default (map (longest_of longest) (parents_of g n)))
      else dget longest k)"
  by (simp add: path_step_def dget_dset parents_of_def comp_def)

lemma path_ends:
  assumes "is_path g ns" "last ns = n"
  obtains ms where "ns = ms @ [n]"
proof -
  have "butlast ns @ [last ns] = ns" using assms(1) by (simp add: is_path_def)
  then show thesis using assms(2) that [of "butlast ns"] by simp
qed

lemma best_step:
  assumes n: "n \<in> set (node_ids g)" and lat: "\<forall>n. 0 \<le> latency_of st n"
    and par: "\<forall>p \<in> set (parents_of g n). best_at g st p (longest_of longest p)"
  shows "best_at g st n (latency_of st n + max_default (map (longest_of longest) (parents_of g n)))"
proof (cases "parents_of g n = []")
  case True
  then have none: "(p, n) \<notin> edge_rel g" for p by (metis parents_edge empty_iff list.set(1))
  have only: "ns = [n]" if ns: "is_path g ns" "last ns = n" for ns
  proof -
    obtain ms where "ns = ms @ [n]" by (rule path_ends [OF ns])
    then show ?thesis using ns(1) none by (auto simp: is_path_snoc)
  qed
  have "path_latency st [n] = latency_of st n" by (simp add: path_latency_def)
  moreover have "path_latency st ns \<le> latency_of st n" if ns: "is_path g ns" "last ns = n" for ns
    unfolding only [OF ns] by (simp add: path_latency_def)
  ultimately show ?thesis using True is_path_single [OF n] unfolding best_at_def
    by (intro conjI exI [of _ "[n]"]) simp_all
next
  case False
  let ?L = "map (longest_of longest) (parents_of g n)"
  have mx: "max_default ?L = Max (set ?L)" using False by (simp add: max_default_Max)
  have "Max (set ?L) \<in> set ?L" using False by (intro Max_in) auto
  then obtain p where p: "p \<in> set (parents_of g n)" "max_default ?L = longest_of longest p" using mx by auto
  then obtain ns where ns: "is_path g ns" "last ns = p" "path_latency st ns = longest_of longest p"
    using par by (auto simp: best_at_def)
  have "is_path g (ns @ [n])" using ns p n by (simp add: is_path_snoc parents_edge)
  moreover have "path_latency st (ns @ [n]) = latency_of st n + max_default ?L"
    using ns(3) p(2) by (simp add: path_latency_snoc)
  moreover have "path_latency st ms \<le> latency_of st n + max_default ?L" if ms: "is_path g ms" "last ms = n" for ms
  proof -
    obtain ks where ks: "ms = ks @ [n]" by (rule path_ends [OF ms])
    have "path_latency st ks \<le> max_default ?L"
    proof (cases "ks = []")
      case True
      have "0 \<le> longest_of longest p"
        using ns(3) path_latency_nonneg [OF lat, of ns] by simp
      then show ?thesis using True p(2) by (simp add: path_latency_def)
    next
      case False
      then have k: "is_path g ks" "last ks \<in> set (parents_of g n)"
        using ms(1) ks by (auto simp: is_path_snoc parents_edge)
      then have "path_latency st ks \<le> longest_of longest (last ks)" using par by (auto simp: best_at_def)
      also have "\<dots> \<le> Max (set ?L)" using k(2) by (intro Max_ge) auto
      finally show ?thesis using mx by simp
    qed
    then show ?thesis using ks by (simp add: path_latency_snoc)
  qed
  ultimately show ?thesis unfolding best_at_def
    by (intro conjI exI [of _ "ns @ [n]"]) simp_all
qed

definition parents_first :: "orchestra_graph \<Rightarrow> string list \<Rightarrow> bool" where
  "parents_first g order \<longleftrightarrow>
     (\<forall>pre x post p. order = pre @ x # post \<longrightarrow> p \<in> set (parents_of g x) \<longrightarrow> p \<in> set pre)"

lemma longest_pass:
  assumes "\<forall>n. 0 \<le> latency_of st n"
    and "parents_first g order"
    and "set order \<subseteq> set (node_ids g)" "distinct order"
  shows "dget (fold (path_step g st) order []) n = None \<longleftrightarrow> n \<notin> set order"
    and "dget (fold (path_step g st) order []) n = Some x \<Longrightarrow> best_at g st n x"
proof -
  have "\<forall>n. (dget (fold (path_step g st) order []) n = None \<longleftrightarrow> n \<notin> set order)
      \<and> (\<forall>x. dget (fold (path_step g st) order []) n = Some x \<longrightarrow> best_at g st n x)"
  using assms(2-4)
proof (induction order rule: rev_induct)
  case (snoc n order)
  let ?L = "fold (path_step g st) order []"
  have IH: "\<forall>n. (dget ?L n = None \<longleftrightarrow> n \<notin> set order) \<and> (\<forall>x. dget ?L n = Some x \<longrightarrow> best_at g st n x)"
  proof (rule snoc.IH)
    show "parents_first g order"
      using snoc.prems(1) unfolding parents_first_def by (metis append_Cons append_assoc)
  qed (use snoc.prems in auto)
  have "best_at g st p (longest_of ?L p)" if "p \<in> set (parents_of g n)" for p
  proof -
    have "p \<in> set order" using snoc.prems(1) that by (simp add: parents_first_def)
    then obtain x where "dget ?L p = Some x" "best_at g st p x"
      using IH by fastforce
    then show ?thesis by (simp add: longest_of_def)
  qed
  then have "best_at g st n (latency_of st n + max_default (map (longest_of ?L) (parents_of g n)))"
    using snoc.prems(2) by (intro best_step assms(1)) auto
  then show ?case using IH by (simp add: path_step_get)
qed simp
  then show "dget (fold (path_step g st) order []) n = None \<longleftrightarrow> n \<notin> set order"
    "dget (fold (path_step g st) order []) n = Some x \<Longrightarrow> best_at g st n x" by blast+
qed

lemma values_of_dict:
  assumes "distinct (dkeys d)"
  shows "x \<in> set (dvalues d) \<longleftrightarrow> (\<exists>k. dget d k = Some x)"
proof
  assume "x \<in> set (dvalues d)"
  then obtain k where "(k, x) \<in> set d" by auto
  then show "\<exists>k. dget d k = Some x" using map_of_is_SomeI [OF assms] by blast
qed (force dest: map_of_SomeD)

lemma path_fold_keys: "distinct (dkeys d) \<Longrightarrow> distinct (dkeys (fold (path_step g st) order d))"
  by (induction order arbitrary: d) (simp_all add: path_step_def distinct_update)

lemma longest_path_latency:
  assumes "compile env g = Inr cg" "\<forall>n. 0 \<le> latency_of st n"
  shows "(\<exists>ns. is_path g ns \<and> path_latency st ns = critical_path_latency_ms (make_result cg st wall))
    \<and> (\<forall>ns. is_path g ns \<longrightarrow> path_latency st ns \<le> critical_path_latency_ms (make_result cg st wall))"
proof -
  have gr: "graph cg = g" by (rule compiled_distinct(3) [OF assms(1)])
  have W: "distinct (concat (waves cg))" "set (concat (waves cg)) = set (node_ids g)"
    using compiled_waves [OF assms(1)] by blast+
  let ?L = "longest_paths cg st"
  have "parents_first g (concat (waves cg))"
    using layered_before [OF compiled_layered [OF assms(1)]] by (fastforce simp: parents_first_def parents_of_def)
  note P = longest_pass [OF assms(2) this _ W(1)]
  have some: "\<exists>x. dget ?L n = Some x" if "n \<in> set (node_ids g)" for n
    using P(1) [where n = n] that W(2) by (auto simp: longest_paths_def gr)
  have best: "best_at g st n x" if "dget ?L n = Some x" for n x
    using P(2) [where n = n and x = x] that W(2) by (simp add: longest_paths_def gr)
  have vals: "x \<in> set (dvalues ?L) \<longleftrightarrow> (\<exists>k. dget ?L k = Some x)" for x
    by (intro values_of_dict) (simp add: longest_paths_def path_fold_keys)
  have "entry_nodes cg \<noteq> []" using compiled_bound [OF assms(1)] by blast
  then obtain m where "m \<in> set (node_ids g)"
    using compiled_bound [OF assms(1)] by (auto simp: node_ids_def filter_empty_conv)
  then obtain y where "dget ?L m = Some y" using some by blast
  then have ne: "dvalues ?L \<noteq> []" by auto
  have crit: "critical_path_latency_ms (make_result cg st wall) = Max (set (dvalues ?L))"
    using ne by (simp add: make_result_def Let_def max_default_Max)
  have "Max (set (dvalues ?L)) \<in> set (dvalues ?L)" using ne by (intro Max_in) auto
  then obtain k where "dget ?L k = Some (Max (set (dvalues ?L)))" using vals by auto
  then have "best_at g st k (Max (set (dvalues ?L)))" by (rule best)
  moreover have "path_latency st ns \<le> Max (set (dvalues ?L))" if "is_path g ns" for ns
  proof -
    have "last ns \<in> set (node_ids g)" using that by (auto simp: is_path_def)
    then obtain x where x: "dget ?L (last ns) = Some x" "best_at g st (last ns) x"
      using some best by blast
    then have "path_latency st ns \<le> x" using that by (simp add: best_at_def)
    also have "\<dots> \<le> Max (set (dvalues ?L))" using x(1) vals by (intro Max_ge) auto
    finally show ?thesis .
  qed
  ultimately show ?thesis unfolding crit best_at_def by blast
qed

end
