(* ===== verification/Example_Live.thy ===== *)
theory Example_Live
  imports Example_Run Run_Live Run_Events Critical_Path
begin

text \<open>
  The hypotheses of the run theorems hold for \<open>b0_direct\<close> with the services of
  \<open>Example_Run\<close>, on an empty world.
\<close>

lemma b0_nodes:
  "node_id (nodes b0 ! 0) = ''direct_coder''" "node_id (nodes b0 ! Suc 0) = ''code_parser''" "node_id (nodes b0 ! 2) = ''freeze''"
  "output_slots (nodes b0 ! 0) = [(''code'', ''CodeArtifact'')]"
  "output_slots (nodes b0 ! Suc 0) = [(''code'', ''CodeArtifact'')]"
  "output_slots (nodes b0 ! 2) = [(''final_code'', ''FinalCodeArtifact'')]"
  "input_slots (nodes b0 ! 0) = [(''problem'', ''ProblemArtifact'')]"
  "input_slots (nodes b0 ! Suc 0) = [(''code'', ''CodeArtifact'')]"
  "input_slots (nodes b0 ! 2) = [(''code'', ''CodeArtifact'')]"
  "node_kind (nodes b0 ! 0) = AgentNode ''direct_coder''"
  "node_kind (nodes b0 ! Suc 0) = TransformNode ''identity_code''"
  "node_kind (nodes b0 ! 2) = TransformNode ''freeze_code''"
  by (simp_all add: b0_def)

lemma b0_edges:
  "initial_artifact_slots b0 = [(''problem'', ''ProblemArtifact'')]" "final_output_slot b0 = ''final_code''"
  by (simp_all add: b0_def)

lemma b0_plain: "plain_graph b0"
  by (simp add: plain_graph_def b0_def)

lemma coder_answers: "answers example_runtime example_context (nodes b0 ! 0)"
  unfolding answers_def
proof (intro allI impI)
  fix inputs
  have "py_strip ''pass'' = ''pass''" by code_simp
  moreover have "parse_output example_platform ''python_code'' (rs_text example_answer) ''CodeArtifact'' ''direct_coder''
      = Inr (MCode (code_of ''pass'' ''direct_coder''))"
    using parse_code_answer [of "[]" "''pass''" "[]" "''python''" "''CodeArtifact''" example_platform "''direct_coder''"]
    by (simp add: example_answer_def payload_schemas_def \<open>py_strip ''pass'' = ''pass''\<close>)
  ultimately have "execute_safely example_platform example_services example_executors example_context (nodes b0 ! 0) inputs
      = Inr (finish example_platform example_services example_context (nodes b0 ! 0) inputs (rs_usage example_answer) ''code''
          (MCode (code_of ''pass'' ''direct_coder'')))"
    by (simp add: execute_safely_def dispatch_def agent_execute_def b0_nodes example_executors_def
        example_contracts_def contract_for_def example_services_def agent_slot_def dindex_def)
  then show "\<exists>r slot ty a. execute_safely (plat (rt_host example_runtime)) (rt_services example_runtime)
        (rt_executors example_runtime) example_context (nodes b0 ! 0) inputs = Inr r
        \<and> succeeded r \<and> output_slots (nodes b0 ! 0) = [(slot, ty)] \<and> outputs r = [(slot, a)]
        \<and> fits (plat (rt_host example_runtime)) ty a"
    by (simp add: example_runtime_def example_host_def b0_nodes finish_def ok_result_def fits_def valid_create
        example_platform_def strict_pydantic_ok code_of_def wf_code_def)
qed


lemma example_platform_ok [simp]: "pydantic_ok (pyd example_platform)" "plat example_host = example_platform"
  by (simp_all add: example_host_def example_platform_def strict_pydantic_ok)

text \<open>A stored or produced code artifact reads back as code.\<close>

lemma fits_code:
  assumes "fits P ''CodeArtifact'' a"
  obtains c where "validate_code (pyd P) (payload a) = Some c" "wf_code c"
proof -
  obtain m where "validate_payload P a = Inr m" using assms by (auto simp: fits_def valid_artifact_def)
  then have "\<exists>c. validate_code (pyd P) (payload a) = Some c"
    using assms
    by (auto simp: validate_payload_def model_validate_def validate_class_def fits_def res_simps split: if_splits option.splits)
  then show thesis using that validate_code_wf by blast
qed

lemma parser_answers: "answers example_runtime example_context (nodes b0 ! Suc 0)"
  unfolding answers_def
proof (intro allI impI)
  fix inputs assume "typed_inputs (plat (rt_host example_runtime)) (nodes b0 ! Suc 0) inputs"
  then obtain a where a: "dget inputs ''code'' = Some a" "fits example_platform ''CodeArtifact'' a"
    by (auto simp: typed_inputs_def b0_nodes example_runtime_def split: if_splits)
  obtain c where c: "validate_code (pyd example_platform) (payload a) = Some c" "wf_code c" by (rule fits_code [OF a(2)])
  have "execute_safely example_platform example_services example_executors example_context (nodes b0 ! Suc 0) inputs
      = Inr (finish example_platform example_services example_context (nodes b0 ! Suc 0) inputs no_usage ''code''
          (MCode (c\<lparr>co_source_node := ''code_parser''\<rparr>)))"
    using a c by (simp add: execute_safely_def dispatch_def transform_execute_def transform_payload_def b0_nodes
        read_as_def validate_as_def dindex_def first_output_def)
  then show "\<exists>r slot ty a. execute_safely (plat (rt_host example_runtime)) (rt_services example_runtime)
        (rt_executors example_runtime) example_context (nodes b0 ! Suc 0) inputs = Inr r
        \<and> succeeded r \<and> output_slots (nodes b0 ! Suc 0) = [(slot, ty)] \<and> outputs r = [(slot, a)]
        \<and> fits (plat (rt_host example_runtime)) ty a"
    using c(2) by (simp add: example_runtime_def b0_nodes finish_def ok_result_def fits_def valid_create
        example_platform_def strict_pydantic_ok wf_code_def)
qed

lemma freeze_answers: "answers example_runtime example_context (nodes b0 ! 2)"
  unfolding answers_def
proof (intro allI impI)
  fix inputs assume "typed_inputs (plat (rt_host example_runtime)) (nodes b0 ! 2) inputs"
  then obtain a where a: "dget inputs ''code'' = Some a" "fits example_platform ''CodeArtifact'' a"
    by (auto simp: typed_inputs_def b0_nodes example_runtime_def split: if_splits)
  obtain c where c: "validate_code (pyd example_platform) (payload a) = Some c" "wf_code c" by (rule fits_code [OF a(2)])
  have "execute_safely example_platform example_services example_executors example_context (nodes b0 ! 2) inputs
      = Inr (finish example_platform example_services example_context (nodes b0 ! 2) inputs no_usage ''final_code''
          (MFinalCode \<lparr>fc_schema_version = ''1.0'', fc_language = ''python'', fc_code = co_code c,
             fc_source_artifact_id = artifact_id a\<rparr>))"
    using a c by (simp add: execute_safely_def dispatch_def transform_execute_def transform_payload_def b0_nodes
        read_as_def validate_as_def dindex_def first_output_def)
  then show "\<exists>r slot ty a. execute_safely (plat (rt_host example_runtime)) (rt_services example_runtime)
        (rt_executors example_runtime) example_context (nodes b0 ! 2) inputs = Inr r
        \<and> succeeded r \<and> output_slots (nodes b0 ! 2) = [(slot, ty)] \<and> outputs r = [(slot, a)]
        \<and> fits (plat (rt_host example_runtime)) ty a"
    by (simp add: example_runtime_def b0_nodes finish_def ok_result_def fits_def valid_create
        example_platform_def strict_pydantic_ok wf_final_code_def)
qed

lemma b0_compiled_graph: "graph b0_compiled = b0"
  by (rule compiled_distinct(3) [OF b0_compiles])

lemma b0_live: "live_setup example_runtime example_env b0_compiled example_context"
proof -
  have nodes: "set (nodes b0) = {nodes b0 ! 0, nodes b0 ! Suc 0, nodes b0 ! 2}" by (simp add: b0_def)
  have ids: "set (node_ids b0) = {''direct_coder'', ''code_parser'', ''freeze''}" by (simp add: b0_def node_ids_def)
  have "inj_on (artifact_name ''t'' (stamp_for example_services)) (set (node_ids b0))"
    unfolding ids by (simp add: artifact_name_def example_services_def)
  then show ?thesis
    using b0_compiles b0_plain coder_answers parser_answers freeze_answers
    unfolding live_setup_def b0_compiled_graph nodes
    by (simp add: example_runtime_def example_context_def default_limits_def)
qed

lemma b0_sound: "sound_setup example_runtime (graph b0_compiled)"
  by (rule live_setup_sound [OF b0_live])

lemma empty_world_files [simp]: "file_at empty_world p = None"
  by (simp add: empty_world_def file_at_def)

lemma empty_world_stored [simp]: "stored_artifact example_host empty_world i = None"
  using stored_artifact_None [OF empty_world_inv] by simp

lemma empty_world_resumable: "resumable example_host g task empty_world"
  by (simp add: resumable_def ids_free_def)

lemma named_t: "named_for ''t'' ''t-adapter-0''" "named_for ''t'' ''t-direct_coder-1''"
  unfolding named_for_def by (rule exI [of _ "''adapter''"], rule exI [of _ "''0''"], simp)
    (rule exI [of _ "''direct_coder''"], rule exI [of _ "''1''"], simp)

lemma example_bundle_ok: "bundle_ok ''t'' empty_world example_bundle"
  by (simp add: bundle_ok_def example_bundle_def named_t)

lemma example_problem_valid:
  "valid_artifact example_platform (create_artifact example_platform st (MProblem example_problem) n t ps)"
  by (rule valid_create) (simp_all add: example_platform_def strict_pydantic_ok wf_problem_def example_problem_def)

lemma example_new_ids: "new_ids example_runtime b0 example_context example_bundle empty_world"
proof -
  have ids: "set (node_ids b0) = {''direct_coder'', ''code_parser'', ''freeze''}" by (simp add: b0_def node_ids_def)
  show ?thesis unfolding new_ids_def ids
    by (simp add: example_bundle_def example_runtime_def example_problem_valid artifact_name_def example_services_def
        example_context_def)
qed

lemma example_typed_bundle: "typed_bundle example_platform b0 example_bundle"
  by (simp add: typed_bundle_def example_bundle_def b0_edges)

lemma example_fields [simp]:
  "rt_host example_runtime = example_host" "ctx_task_id example_context = ''t''"
  by (simp_all add: example_runtime_def example_context_def)

lemma example_returns:
  obtains res w' where "execute example_runtime b0_compiled example_bundle example_context empty_world = (Inr res, w')"
proof -
  have "\<exists>res w'. execute example_runtime b0_compiled example_bundle example_context empty_world = (Inr res, w')"
    by (rule execute_succeeds [OF b0_live])
      (simp_all add: b0_compiled_graph ids_free_def example_bundle_ok example_typed_bundle example_new_ids)
  then show thesis using that by blast
qed

section \<open>The first wave\<close>

text \<open>Only the coder can start, and the run is not frozen after it.\<close>

lemma example_start:
  obtains w1 where
    "start_state example_runtime (graph b0_compiled) example_bundle example_context empty_world
       = (Inr (initial_state example_platform b0 example_bundle example_context), w1)"
    "run_inv example_host b0 ''t'' (initial_state example_platform b0 example_bundle example_context) w1"
    "tracked example_runtime b0_compiled example_context (initial_state example_platform b0 example_bundle example_context) w1"
proof -
  have adm: "\<forall>a \<in> set (dvalues example_bundle). admits_artifact empty_world a \<and> env_task_id a = ''t''"
    using example_bundle_ok by (simp add: bundle_ok_def)
  have "\<exists>w1. for_each (put_artifact example_host) (dvalues example_bundle) empty_world = (Inr (), w1)"
    unfolding file_store.put_all_iff [OF empty_world_inv adm]
    by (simp add: example_bundle_def example_problem_valid)
  then obtain w1 where put: "for_each (put_artifact example_host) (dvalues example_bundle) empty_world = (Inr (), w1)" by blast
  have ids: "distinct (node_ids b0)" "distinct (edge_ids b0)" using compiled_distinct(1,2) [OF b0_compiles] .
  have "run_inv example_host b0 ''t'' (initial_state example_platform b0 example_bundle example_context) w1"
    using initial_run_inv [OF ids put, of example_context example_platform] example_bundle_ok by (simp add: ids_free_def)
  moreover have "tracked example_runtime b0_compiled example_context (initial_state example_platform b0 example_bundle example_context) w1"
    using initial_on_track [OF ids(1), of example_runtime example_bundle empty_world w1 example_context] put
      example_bundle_ok example_typed_bundle example_new_ids by (simp add: b0_compiled_graph)
  moreover have "start_state example_runtime (graph b0_compiled) example_bundle example_context empty_world
       = (Inr (initial_state example_platform b0 example_bundle example_context), w1)"
    using put by (simp add: start_state_def Let_def load_checkpoint_def read_checkpoint_def bnd_def thn_def b0_compiled_graph)
  ultimately show thesis using that by blast
qed


lemma example_ready:
  "find_ready_nodes 4 b0 (initial_state example_platform b0 example_bundle example_context) = Inr [''direct_coder'']"
  by (simp add: find_ready_nodes_def b0_def initial_state_def example_bundle_def node_ready_def dindex_def
      resolve_input_ids_def find_node_def resolve_slots_def resolve_slot_def incoming_def edge_artifact_def
      dict_of_def py_prefix_def)

lemma example_first_wave:
  obtains w1 st1 w2 where
    "start_state example_runtime (graph b0_compiled) example_bundle example_context empty_world
       = (Inr (initial_state example_platform b0 example_bundle example_context), w1)"
    "run_inv example_host b0 ''t'' (initial_state example_platform b0 example_bundle example_context) w1"
    "wave_step example_runtime b0 example_context (initial_state example_platform b0 example_bundle example_context) w1
       = (Inr (More st1), w2)"
    "\<not> frozen st1" "\<not> frozen (initial_state example_platform b0 example_bundle example_context)"
proof -
  let ?st = "initial_state example_platform b0 example_bundle example_context"
  obtain w1 where w1: "start_state example_runtime (graph b0_compiled) example_bundle example_context empty_world
       = (Inr ?st, w1)" "run_inv example_host b0 ''t'' ?st w1" "tracked example_runtime b0_compiled example_context ?st w1"
    by (rule example_start)
  have nf: "\<not> frozen ?st" by (simp add: initial_state_def)
  obtain st1 w2 where step: "wave_step example_runtime b0 example_context ?st w1 = (Inr (More st1), w2)"
    using wave_step_succeeds [OF b0_live, unfolded b0_compiled_graph, of ?st w1] w1(2,3) nf
    by (auto simp: b0_compiled_graph)
  have ids: "distinct (node_ids b0)" "distinct (edge_ids b0)" using compiled_distinct(1,2) [OF b0_compiles] .
  have inv1: "run_inv example_host b0 ''t'' st1 w2"
    using wave_step_inv(1) [of example_runtime b0 example_context ?st w1, OF _ ids step] w1(2) by simp
  have "\<not> frozen st1"
  proof
    assume "frozen st1"
    then obtain nd ty rest where nd: "nd \<in> set (nodes b0)" "output_slots nd = (final_output_slot b0, ty) # rest"
      "dget (node_status st1) (node_id nd) = Some Succeeded" by (rule frozen_final_artifact [OF inv1])
    then have freeze: "node_id nd = ''freeze''" by (auto simp: b0_def)
    obtain dead ready inputs results c v0 v1 v2 v3 v4 where
      dead: "impossible_nodes b0 ?st = Inr dead"
      and ready: "find_ready_nodes (max_parallel_nodes_per_task (limits example_context)) b0 (mark Skipped dead ?st) = Inr ready"
      and rs: "run_wave example_runtime b0 example_context inputs ready = Inr results"
      and cw: "commit_wave example_host b0 (mark Running ready (mark Skipped dead ?st)) results v2 = (Inr c, v3)"
      and st1: "st1 = c_state c"
      by (rule wave_step_MoreE [OF step, unfolded example_fields])
    have "state_inv b0 ?st" using w1(2) by (simp add: run_inv_def run_core_def)
    then have "impossible_nodes b0 ?st = Inr []"
      by (rule no_impossible [OF b0_compiles _ b0_plain]) (use on_trackD(1) [OF w1(3)] in \<open>auto simp: b0_compiled_graph\<close>)
    then have "dead = []" using dead by simp
    then have "ready = [''direct_coder'']"
      using ready example_ready by (simp add: mark_def example_context_def default_limits_def)
    then have ids2: "map res_node_id results = [''direct_coder'']"
      using run_wave_produced(1) [OF ids(1) _ rs] by simp
    have "res_node_id ` set results = set (map res_node_id results)" by simp
    then have d: "distinct (map res_node_id results)" "''freeze'' \<notin> res_node_id ` set results"
      unfolding ids2 by simp_all
    have "apply_results b0 (mark Running ready (mark Skipped dead ?st)) results = Inr c" by (rule commit_waveE [OF cw])
    from apply_results_status(2) [OF this d] have "dget (node_status st1) ''freeze'' \<noteq> Some Succeeded"
      by (auto simp: st1 mark_status initial_state_def b0_def dict_of_def \<open>dead = []\<close> \<open>ready = _\<close>)
    then show False using nd(3) freeze by simp
  qed
  then show thesis using that [OF w1(1,2) step _ nf] by blast
qed


lemma wave_step_logs: "wave_step R g ctx st w = (Inr (More st'), w') \<Longrightarrow> log w' \<noteq> []"
proof -
  assume step: "wave_step R g ctx st w = (Inr (More st'), w')"
  obtain dead ready inputs results c v0 v1 v2 v3 v4 where
    em: "emit ctx g ''WAVE_STARTED'' (\<lambda>e. e\<lparr>ev_wave_id := Some (wave_id st),
       ev_metadata := [(''ready_nodes'', JList (map JStr ready))]\<rparr>) v0 = (Inr (), v1)"
    and pr: "prepare (rt_host R) g ctx ready (mark Skipped dead st) [] v1
       = (Inr (mark Running ready (mark Skipped dead st), inputs), v2)"
    and cw: "commit_wave (rt_host R) g (mark Running ready (mark Skipped dead st)) results v2 = (Inr c, v3)"
    and rp: "report_commit (rt_host R) g ctx results c v3 = (Inr (), w')"
    by (rule wave_step_MoreE [OF step])
  have "log v1 \<noteq> []" using em by (auto simp: emit_def)
  moreover have "log_le v1 w'"
    using append_only.keepsD [OF prepare_keeps(2) pr] append_only.keepsD [OF commit_keeps(2) cw]
      append_only.keepsD [OF report_commit_keeps(2) rp] append_only.le_trans by blast
  ultimately show ?thesis by (auto simp: log_le_def)
qed

section \<open>A run resumed after its last wave, with a decided edge\<close>

definition gated :: orchestra_graph where
  "gated = \<lparr>graph_id = ''gated'', version = ''1.0'',
     nodes = [
       \<lparr>node_id = ''direct_coder'', node_kind = AgentNode ''direct_coder'', input_slots = [(''problem'', ''ProblemArtifact'')],
        output_slots = [(''code'', ''CodeArtifact'')], timeout_seconds = None\<rparr>,
       \<lparr>node_id = ''code_parser'', node_kind = TransformNode ''identity_code'', input_slots = [(''code'', ''CodeArtifact'')],
        output_slots = [(''parsed'', ''CodeArtifact'')], timeout_seconds = None\<rparr>],
     edges = [\<lparr>edge_id = ''e'', source_node = ''direct_coder'', source_output = ''code'', destination_node = ''code_parser'',
       destination_input = ''code'', condition = Some \<lparr>source_field = ''language'', operator = Equals, cond_value = JStr ''python''\<rparr>\<rparr>],
     initial_artifact_slots = [(''problem'', ''ProblemArtifact'')],
     final_output_slot = ''code'', metadata = []\<rparr>"

definition gated_compiled :: compiled_graph where
  "gated_compiled = \<lparr>graph = gated, entry_nodes = [''direct_coder''], waves = [[''direct_coder''], [''code_parser'']],
     conditional_branches = 1, final_producers = [''direct_coder'']\<rparr>"

definition gated_code :: envelope where
  "gated_code = create_artifact example_platform \<lparr>uuid_hex = ''1'', utc_now = ''now''\<rparr>
     (MCode (code_of ''pass'' ''direct_coder'')) ''direct_coder'' ''t'' []"

definition gated_state :: runtime_state where
  "gated_state = \<lparr>run_id = ''r'', task_id = ''t'', st_graph_id = ''gated'', graph_hash = graph_digest example_platform gated,
     contract_hash = ''c'', node_status = [(''direct_coder'', Succeeded), (''code_parser'', Pending)],
     node_outputs = [(''direct_coder'', [(''code'', artifact_id gated_code)])], initial_artifacts = [],
     active_edges = {''e''}, inactive_edges = {}, final_output_artifact_id = Some (artifact_id gated_code), frozen = True,
     wave_id = 1, checkpoint_count = 1, node_latencies_ms = [(''direct_coder'', 5)]\<rparr>"

definition gated_world :: world where
  "gated_world = snd (save_checkpoint example_host gated_state (snd (put_artifact example_host gated_code empty_world)))"

lemma gated_sound: "sound_setup example_runtime (graph gated_compiled)"
  by (simp add: sound_setup_def gated_compiled_def gated_def node_ids_def edge_ids_def)

lemma gated_stored:
  "store_inv example_host gated_world" "stored_artifact example_host gated_world (artifact_id gated_code) = Some gated_code"
  "ids_free ''t'' gated gated_world"
  "file_at gated_world (CheckpointFile ''t'') = Some (dump_state example_host gated_state)"
proof -
  have "valid_artifact (plat example_host) gated_code"
    by (simp add: gated_code_def valid_create code_of_def wf_code_def)
  then obtain w1 where w1: "put_artifact example_host gated_code empty_world = (Inr (), w1)" "store_inv example_host w1"
      "stored_artifact example_host w1 = [artifact_id gated_code \<mapsto> gated_code]"
    using file_store.put_new [OF empty_world_inv] by fastforce
  then show "store_inv example_host gated_world" "stored_artifact example_host gated_world (artifact_id gated_code) = Some gated_code"
    using store_inv_save [OF w1(2)] stored_artifact_save [OF w1(2)] by (simp_all add: gated_world_def)
  have "others_same ''t'' empty_world w1"
    using isolated.keepsD [OF put_isolated w1(1)] by (simp add: gated_code_def named_t)
  moreover have "isolated.keeps ''t'' (save_checkpoint example_host gated_state)"
    by (rule save_isolated) (simp add: gated_state_def)
  from isolated.keeps_snd [OF this, of w1] have "others_same ''t'' w1 gated_world"
    using w1(1) by (simp add: gated_world_def)
  ultimately show "ids_free ''t'' gated gated_world" by (simp add: ids_free_def others_same_def)
  show "file_at gated_world (CheckpointFile ''t'') = Some (dump_state example_host gated_state)"
    by (simp add: gated_world_def) (simp add: gated_state_def)
qed

lemma gated_inv: "run_inv example_host gated ''t'' gated_state gated_world"
proof -
  have lookup: "dget (node_outputs gated_state) n = Some outs \<longleftrightarrow> n = ''direct_coder'' \<and> outs = [(''code'', artifact_id gated_code)]"
    for n outs by (auto simp: gated_state_def split: if_splits)
  have inv: "state_inv gated gated_state"
    by (auto simp: state_inv_def knows_nodes_def outputs_succeeded_def edges_decided_def edge_decided_def edge_ids_def
        frozen_final_def final_slot_of_def gated_state_def gated_def node_ids_def)
  have "output_stored example_host gated gated_world ''t'' ''direct_coder'' [(''code'', artifact_id gated_code)]"
    unfolding output_stored_def using gated_stored(2)
    by (intro exI [of _ "hd (nodes gated)"] exI [of _ "''code''"] exI [of _ "''CodeArtifact''"] exI [of _ "[]"] exI [of _ gated_code])
      (simp add: gated_def gated_code_def)
  moreover have "edges_true gated (stored_artifact example_host gated_world) gated_state"
    using gated_stored(2)
    by (simp add: edges_true_def condition_holds_def gated_def)
      (simp add: gated_state_def gated_code_def dump_code_def code_of_def evaluate_def)
  moreover have "settled gated_state" by (auto simp: settled_def gated_state_def split: if_splits)
  ultimately show ?thesis
    using inv gated_stored by (simp add: run_inv_def run_core_def lookup) (simp add: gated_state_def)
qed

lemma gated_resumable: "resumable example_host gated ''t'' gated_world"
  using gated_stored gated_inv by (auto simp: resumable_def)

lemma gated_returns:
  obtains res where "execute example_runtime gated_compiled [] example_context gated_world = (Inr res, gated_world)"
    "final_state res = gated_state"
proof -
  have g: "graph gated_compiled = gated" by (simp add: gated_compiled_def)
  have "config_ok example_runtime gated example_context gated_state"
    by (simp add: config_ok_def gated_state_def example_context_def)
  from restart_state [OF _ this]
  have "start_state example_runtime gated [] example_context gated_world = (Inr gated_state, gated_world)"
    using gated_inv gated_stored(4) by simp
  then have "execute example_runtime gated_compiled [] example_context gated_world
      = (Inr (make_result gated_compiled gated_state (rt_wall_ms example_runtime)), gated_world)"
    by (simp add: execute_def bnd_def g) (simp add: gated_state_def)
  then show thesis using that by (simp add: make_result_def Let_def)
qed

section \<open>A harness that reports a failed public test\<close>

definition example_case :: public_example where
  "example_case = \<lparr>ex_input = ''1'', ex_output = ''2'', ex_testtype = ''stdin''\<rparr>"

definition failing_run :: sandbox_result where
  "failing_run = \<lparr>sb_compiled = True, sb_passed_count = 0, sb_total_count = 1, sb_runtime_errors = 0,
     sb_timeouts = 0, sb_stderr_summary = None,
     sb_results = [\<lparr>tr_index = 0, tr_passed = False, tr_timed_out = False, tr_runtime_error = None, tr_actual_output = Some ''3''\<rparr>],
     sb_duration_ms = 1, sb_worker_metadata = []\<rparr>"

lemma failing_report:
  obtains h where "harness_report (example_problem\<lparr>pr_public_examples := [example_case]\<rparr>) failing_run = Inr h"
    "vf_public_input (hr_failure_summary h) = Some ''1''"
  by (simp add: harness_report_def failing_run_def py_index_def failure_of_def example_case_def)

end
