(* ===== verification/Example_Batch.thy ===== *)
theory Example_Batch
  imports Example_Live Json_Roundtrip Summary
begin

text \<open>
  Concrete batches: one task of \<open>b0_direct\<close> run by the services of \<open>Example_Run\<close>, and a
  finished task with its evaluation and its summary. They show that the hypotheses of the
  properties about batches, evaluations and summaries can hold.
\<close>

section \<open>A batch of one task\<close>

definition state_text :: "runtime_state \<Rightarrow> json" where
  "state_text st = JObj [(''checkpoint_count'', JInt 1),
     (''raw'', JStr (dump_state example_host st))]"

definition result_json :: "runtime_state \<Rightarrow> json" where
  "result_json st = JObj [(''wall_latency_ms'', JInt 9), (''sum_node_latency_ms'', JInt 15),
     (''critical_path_latency_ms'', JInt 15), (''concurrency_speedup'', JInt 1),
     (''failed_node_count'', JInt 0), (''skipped_node_count'', JInt 0), (''state'', state_text st)]"

abbreviation "frepr \<equiv> float_repr example_platform"

definition read_state :: "json \<Rightarrow> runtime_state option" where
  "read_state v = (case py_item v ''raw'' of Inr (JStr s) \<Rightarrow> load_state example_host s | _ \<Rightarrow> None)"

definition example_task :: lcb_task where
  "example_task = \<lparr>lt_schema_version = ''1.0'', lt_question_id = ''t'', lt_release_version = ''release_v6'',
     lt_problem = example_problem, lt_metadata = []\<rparr>"

definition example_batch :: batch_setup where
  "example_batch = \<lparr>bt_runtime = example_runtime, bt_compiled = b0_compiled, bt_run_id = ''r'',
     bt_limits = default_limits, bt_contract_hash = ''c'', bt_drift = False,
     bt_stamp = (\<lambda>_. \<lparr>uuid_hex = ''0'', utc_now = ''now''\<rparr>),
     bt_dump_result = (\<lambda>res. dumps frepr (result_json (final_state res)))\<rparr>"

abbreviation "example_tasks \<equiv> task_map [example_task]"

lemma example_batch_fields [simp]:
  "bt_runtime example_batch = example_runtime" "bt_compiled example_batch = b0_compiled"
  "task_context example_batch ''t'' = example_context"
  by (simp_all add: example_batch_def task_context_def example_context_def)

lemma example_batch_bundle:
  "initial_bundle example_batch example_task ''t''
     = [(''problem'', create_artifact example_platform \<lparr>uuid_hex = ''0'', utc_now = ''now''\<rparr>
          (MProblem example_problem) ''__input__'' ''t'' [])]"
  by (simp add: initial_bundle_def example_batch_def example_task_def)

lemma example_batch_ok: "batch_ok example_host b0 [''t''] empty_world"
  by (simp add: batch_ok_def names_ok_def empty_world_resumable plain_id_def)

lemma example_batch_result:
  obtains rs w' res where "run_batch example_batch example_tasks [''t''] empty_world = (Inr rs, w')" "(''t'', Some res) \<in> set rs"
proof -
  let ?b = "initial_bundle example_batch example_task ''t''"
  define w1 where "w1 = snd (emit example_context b0 ''TASK_STARTED'' (\<lambda>e. e) (snd (run_event example_batch ''RUN_STARTED'' empty_world)))"
  have files: "file_at w1 p = None" for p
    by (simp add: emit_snd run_event_def w1_def)
  have inv: "store_inv example_host w1" by (simp add: emit_snd run_event_def w1_def)
  have "names_ok w1" by (simp add: names_ok_def files)
  then have ok: "bundle_ok ''t'' w1 ?b"
    using initial_bundle_ok [of w1 "''t''" example_batch example_task] by (simp add: plain_id_def)
  have stored: "stored_artifact example_host w1 i = None" for i
    using stored_artifact_None [OF inv] files by simp
  have ids: "set (node_ids b0) = {''direct_coder'', ''code_parser'', ''freeze''}" by (simp add: b0_def node_ids_def)
  have new: "new_ids example_runtime b0 example_context ?b w1"
    unfolding new_ids_def ids
    by (simp add: example_batch_bundle example_runtime_def example_problem_valid artifact_name_def example_services_def
        example_context_def stored)
  have "\<exists>res w'. execute example_runtime b0_compiled ?b example_context w1 = (Inr res, w')"
    by (rule execute_succeeds [OF b0_live])
      (use ok new inv files in \<open>simp_all add: b0_compiled_graph ids_free_def typed_bundle_def example_batch_bundle b0_edges resumable_def\<close>)
  then obtain res w2 where "execute example_runtime b0_compiled ?b example_context w1 = (Inr res, w2)" by blast
  then have "\<exists>w'. run_batch example_batch example_tasks [''t''] empty_world = (Inr [(''t'', Some res)], w')"
    by (simp add: run_batch_def in_group_def tagged_run_def run_one_def execute_task_def record_result_def
        write_file_def thn_def bnd_def emit_def run_event_def task_map_def dict_of_def example_task_def dindex_def
        b0_compiled_graph emit_snd w1_def)
  then show thesis using that by fastforce
qed

lemma example_batch_runs:
  obtains rs w' where "run_batch example_batch example_tasks [''t''] empty_world = (Inr rs, w')"
  using example_batch_result by metis

section \<open>A finished task\<close>

text \<open>Envelopes as JSON objects, as the summary reads them.\<close>

definition json_host :: host where
  "json_host = example_host\<lparr>
     dump_envelope := (\<lambda>e. dumps frepr (JObj [(''artifact_type'', JStr (artifact_type e)),
        (''raw'', JStr (dump_envelope example_host e))])),
     load_envelope := (\<lambda>s. case json_loads s of Inl _ \<Rightarrow> None
        | Inr v \<Rightarrow> (case py_item v ''raw'' of Inr (JStr r) \<Rightarrow> load_envelope example_host r | _ \<Rightarrow> None))\<rparr>"

lemma json_host_ok: "host_ok json_host"
  using example_host_ok by (simp add: host_ok_def json_host_def json_loads_dumps dindex_def del: dumps.simps)

definition frozen_code :: envelope where
  "frozen_code = create_artifact example_platform \<lparr>uuid_hex = ''2'', utc_now = ''now''\<rparr>
     (MFinalCode \<lparr>fc_schema_version = ''1.0'', fc_language = ''python'', fc_code = ''pass'', fc_source_artifact_id = ''s''\<rparr>)
     ''freeze'' ''t'' []"

definition finished_state :: runtime_state where
  "finished_state = gated_state\<lparr>active_edges := {}, final_output_artifact_id := Some (artifact_id frozen_code)\<rparr>"

definition finished_world :: world where
  "finished_world = write_text (result_file ''t'') (dumps frepr (result_json finished_state))
     (snd (put_artifact json_host frozen_code empty_world))"

definition quiet_process :: process where
  "quiet_process = \<lparr>environ = [(''PATH'', ''/bin''), (''OPENAI_API_KEY'', ''k'')],
     rlimits = (\<lambda>_. (rlim_infinity, rlim_infinity)), euid = 0, egid = 0, groups = [0], sys_path = []\<rparr>"

definition example_worker :: official_sandbox where
  "example_worker = \<lparr>os_limits = default_sandbox_limits, os_processes = 1,
     os_runner = \<lparr>rn_repository = ''/lcb'', rn_limits = default_sandbox_limits, rn_grace = 5, rn_max_wall = 60\<rparr>\<rparr>"

definition example_codec :: client_codec where
  "example_codec = \<lparr>encode_public = (\<lambda>_. []), encode_private = (\<lambda>_. []), decode_report = (\<lambda>_. None),
     decode_final_result = (\<lambda>_. Some (final_result_of True []))\<rparr>"

definition example_job :: evaluation_job where
  "example_job = \<lparr>vj_host = json_host, vj_state_of = read_state,
     vj_dump = (\<lambda>fe. dumps frepr (JObj [(''question_id'', JStr (fe_question_id fe)), (''passed'', JBool (fe_passed fe))])),
     vj_launch = (\<lambda>_ _ _. Inr (Exited 0 [] (Some ''ok''))), vj_codec = example_codec, vj_parent = quiet_process,
     vj_evaluator = \<lparr>el_private_repository = [(''t'', \<lparr>pt_question_id = ''t'', pt_private_tests = [], pt_public_tests = [],
         pt_function_name = None\<rparr>)], el_evaluator_commit = ''c'', el_worker = example_worker, el_per_test_timeout = 6\<rparr>,
     vj_graph_id = ''b0_direct''\<rparr>"

lemma example_verdicts: "verdicts_kept example_job"
  by (simp add: verdicts_kept_def example_job_def json_loads_dumps del: dumps.simps)

lemma json_host_plat [simp]: "plat json_host = example_platform"
  by (simp add: json_host_def)

lemma frozen_code_valid: "valid_artifact example_platform frozen_code"
  by (simp add: frozen_code_def valid_create wf_final_code_def)

lemma empty_json_inv: "store_inv json_host empty_world"
  by (simp add: store_inv_def json_host_ok empty_world_def file_at_def)

lemma finished_store:
  "store_inv json_host finished_world"
  "stored_artifact json_host finished_world (artifact_id frozen_code) = Some frozen_code"
proof -
  have "stored_artifact json_host empty_world (artifact_id frozen_code) = None"
    using stored_artifact_None [OF empty_json_inv] by simp
  then obtain w1 where w1: "put_artifact json_host frozen_code empty_world = (Inr (), w1)" "store_inv json_host w1"
      "stored_artifact json_host w1 = (stored_artifact json_host empty_world)(artifact_id frozen_code \<mapsto> frozen_code)"
    using file_store.put_new [OF empty_json_inv, of frozen_code] frozen_code_valid by auto
  have "same_artifacts w1 finished_world"
    unfolding finished_world_def w1(1) by (auto intro: write_file_quiet)
  from same_artifacts_store [OF this w1(2)] w1(3)
  show "store_inv json_host finished_world"
    "stored_artifact json_host finished_world (artifact_id frozen_code) = Some frozen_code" by simp_all
qed

lemma result_loads: "json_loads (dumps frepr (result_json st)) = Inr (result_json st)"
  by (rule json_loads_dumps) (simp add: result_json_def state_text_def nat_digits.simps)

lemma state_reads:
  assumes "finite_edges st"
  shows "state_in_result example_job (dumps frepr (result_json st)) = Inr st"
proof -
  have "load_state example_host (dump_state example_host st) = Some st"
    using example_host_ok assms by (simp add: host_ok_def)
  then show ?thesis
    by (simp add: state_in_result_def result_loads del: dumps.simps)
      (simp add: result_json_def state_text_def dindex_def example_job_def read_state_def)
qed

text \<open>The same job over the host of the batch.\<close>

lemma example_reads: "reads_batch (example_job\<lparr>vj_host := example_host\<rparr>) example_batch"
  using state_reads
  by (simp add: reads_batch_def state_in_result_def example_batch_def example_runtime_def del: dumps.simps)

lemma finished_state_read: "state_in_result example_job (dumps frepr (result_json finished_state)) = Inr finished_state"
  by (rule state_reads) (simp add: finite_edges_def finished_state_def gated_state_def)

text \<open>The world holds the artifact and the result file.\<close>

lemma finished_files:
  "fs finished_world = [(ArtifactFile ''t'' (artifact_id frozen_code), dump_envelope json_host frozen_code),
     (result_file ''t'', dumps frepr (result_json finished_state))]"
  "log finished_world = []"
proof -
  obtain m where "validate_payload (plat json_host) frozen_code = Inr m"
    using frozen_code_valid by (auto simp: valid_artifact_def)
  moreover have "env_task_id frozen_code = ''t''" by (simp add: frozen_code_def)
  ultimately show "fs finished_world = [(ArtifactFile ''t'' (artifact_id frozen_code), dump_envelope json_host frozen_code),
     (result_file ''t'', dumps frepr (result_json finished_state))]"
    "log finished_world = []"
    by (simp_all add: finished_world_def put_artifact_def thn_def bnd_def Let_def empty_world_def write_via_tmp_def
        write_text_def replace_file_def file_at_def del: dumps.simps)
qed

lemma update_new: "k \<notin> fst ` set d \<Longrightarrow> AList.update k v d = d @ [(k, v)]"
  by (induction d) auto

lemma finished_evaluates:
  obtains w' fe body where "evaluate_run example_job [''t''] finished_world = (Inr (1, 1), w')"
    "own_verdicts example_job finished_world"
    "fs w' = fs finished_world @ [(evaluation_file ''t'', vj_dump example_job fe), (RunFile ''predictions.json'', body)]"
    "map event_type (log w') = [''PRIVATE_EVALUATION_STARTED'', ''PRIVATE_EVALUATION_COMPLETED'']"
proof -
  have files: "file_at finished_world (result_file ''t'') = Some (dumps frepr (result_json finished_state))"
    "file_at finished_world (evaluation_file q) = None" for q
    by (simp_all add: file_at_def finished_files)
  have store: "read_artifact json_host finished_world (artifact_id frozen_code) = Inr frozen_code"
    using finished_store(2) by (simp add: read_artifact_iff)
  have out: "frozen_output ''t'' finished_state = Inr (artifact_id frozen_code)"
    by (simp add: frozen_output_def given_def finished_state_def gated_state_def frozen_code_def create_artifact_def Let_def)
  have code: "code_in_artifact example_platform frozen_code = Inr ''pass''"
    by (simp add: code_in_artifact_def frozen_code_def create_artifact_def Let_def wf_final_code_def
        example_platform_def strict_pydantic_ok validate_final_code_dump)
  have fz: "frozen finished_state" "final_output_artifact_id finished_state = Some (artifact_id frozen_code)"
    by (simp_all add: finished_state_def gated_state_def)
  have job: "vj_host example_job = json_host" by (simp add: example_job_def)
  have new: "p \<notin> fst ` set (fs finished_world)" if "file_at finished_world p = None" for p
    using that by (simp add: file_at_def map_of_eq_None_iff)
  note log = finished_files(2)
  have "\<exists>fe. evaluate_frozen_run (vj_launch example_job) (vj_codec example_job) (vj_parent example_job)
      (vj_evaluator example_job) finished_state ''pass'' ''t'' = Inr fe \<and> fe_passed fe"
    using fz by (simp add: evaluate_frozen_run_def get_for_final_evaluation_def dindex_def example_job_def
        final_evaluate_def runner_run_def Let_def example_codec_def final_result_of_def)
  then obtain fe where fe: "evaluate_frozen_run (vj_launch example_job) (vj_codec example_job) (vj_parent example_job)
      (vj_evaluator example_job) finished_state ''pass'' ''t'' = Inr fe" "fe_passed fe" by blast
  define w1 where "w1 = snd (evaluate_new example_job finished_state ''t'' ''pass'' finished_world)"
  have w1: "verdict_for example_job finished_state ''t'' ''pass'' finished_world = (Inr 1, w1)"
      "fs w1 = fs finished_world @ [(evaluation_file ''t'', vj_dump example_job fe)]"
      "map event_type (log w1) = [''PRIVATE_EVALUATION_STARTED'', ''PRIVATE_EVALUATION_COMPLETED'']"
    using fe log update_new [OF new [OF files(2)]]
    by (simp_all add: verdict_for_def files evaluate_new_def thn_def bnd_def private_event_def write_file_def
        write_text_def w1_def del: dumps.simps)
  then obtain p where "evaluate_task example_job ''t'' finished_world = (Inr (p, 1), w1)"
    by (auto simp: evaluate_task_def bnd_def read_file_def files finished_state_read out get_artifact_def job store code)
  then have "\<exists>w' body. evaluate_run example_job [''t''] finished_world = (Inr (1, 1), w')
      \<and> w' = write_text (RunFile ''predictions.json'') body w1"
    by (auto simp: evaluate_run_def thn_def bnd_def export_predictions_def write_file_def pass_rate_def py_truediv_same)
  then obtain w' body where w': "evaluate_run example_job [''t''] finished_world = (Inr (1, 1), w')"
      "w' = write_text (RunFile ''predictions.json'') body w1" by blast
  have "file_at finished_world (RunFile n) = None" for n
    by (simp add: file_at_def finished_files)
  then have "RunFile ''predictions.json'' \<notin> set (map fst (fs w1))" using new by (simp add: w1(2))
  then have "fs w' = fs w1 @ [(RunFile ''predictions.json'', body)]"
    by (simp add: w'(2) write_text_def update_new)
  moreover have "log w' = log w1" by (simp add: w'(2))
  ultimately show thesis using that [OF w'(1) _ _ _] files(2) w1(2,3) by (auto simp: own_verdicts_def)
qed

section \<open>Its summary\<close>

definition example_summary_host :: summary_host where
  "example_summary_host = \<lparr>sh_repr = frepr, sh_read_float = (\<lambda>_. None),
     sh_dump_event = (\<lambda>e. dumps frepr (JObj [(''event_type'', JStr (event_type e))]))\<rparr>"

lemma private_lines:
  "list_all (\<lambda>c. \<not> line_break c) (dumps frepr (JObj [(''event_type'', JStr ''PRIVATE_EVALUATION_STARTED'')]))"
  "list_all (\<lambda>c. \<not> line_break c) (dumps frepr (JObj [(''event_type'', JStr ''PRIVATE_EVALUATION_COMPLETED'')]))"
  by code_simp+

lemma finished_figures:
  assumes "fs w = fs finished_world @ [(evaluation_file ''t'', vj_dump example_job fe), (RunFile ''predictions.json'', body)]"
  shows "task_names w = [''t'']" "\<exists>F. add_tasks w (task_names w) no_figures = Inr F
    \<and> fg_wall F = [JInt 9] \<and> fg_node F = [JInt 15] \<and> fg_critical F = [JInt 15] \<and> fg_speedup F = [JInt 1]
    \<and> fg_hidden F = [fe_passed fe] \<and> fg_initial F = [] \<and> fg_repaired F = [] \<and> fg_compiled F = []"
proof -
  show names: "task_names w = [''t'']"
    by (simp add: task_names_def assms finished_files List.map_filter_def)
  have files: "file_at w (evaluation_file ''t'') = Some (vj_dump example_job fe)"
    "file_at w (result_file ''t'') = Some (dumps frepr (result_json finished_state))"
    by (simp_all add: file_at_def assms finished_files)
  have texts: "artifact_texts w ''t'' = [dump_envelope json_host frozen_code]"
    by (simp add: artifact_texts_def assms finished_files)
  have "artifact_type frozen_code = ''FinalCodeArtifact''" by (simp add: frozen_code_def create_artifact_def Let_def)
  then have "harness_artifacts w ''t'' = Inr []"
    by (simp add: harness_artifacts_def texts json_host_def json_loads_dumps is_harness_result_def sort_by_stamp_def del: dumps.simps)
  moreover obtain d where "json_loads (vj_dump example_job fe) = Inr (JObj d)" "dget d ''passed'' = Some (JBool (fe_passed fe))"
    using example_verdicts unfolding verdicts_kept_def by blast
  ultimately show "\<exists>F. add_tasks w (task_names w) no_figures = Inr F
    \<and> fg_wall F = [JInt 9] \<and> fg_node F = [JInt 15] \<and> fg_critical F = [JInt 15] \<and> fg_speedup F = [JInt 1]
    \<and> fg_hidden F = [fe_passed fe] \<and> fg_initial F = [] \<and> fg_repaired F = [] \<and> fg_compiled F = []"
    by (simp add: names add_task_def add_evaluation_def files dindex_def add_result_def result_loads del: dumps.simps)
      (simp add: result_json_def state_text_def add_run_result_def dindex_def add_value_def add_public_def no_figures_def)
qed

lemma finished_summary:
  assumes "fs w = fs finished_world @ [(evaluation_file ''t'', vj_dump example_job fe), (RunFile ''predictions.json'', body)]"
    and "map event_type (log w) = [''PRIVATE_EVALUATION_STARTED'', ''PRIVATE_EVALUATION_COMPLETED'']"
  shows "\<exists>s w'. summarize_run example_summary_host w = (Inr s, w')"
proof -
  obtain a b where l: "log w = [a, b]" "event_type a = ''PRIVATE_EVALUATION_STARTED''" "event_type b = ''PRIVATE_EVALUATION_COMPLETED''"
    using assms(2) by (auto simp: map_eq_Cons_conv)
  have "split_lines (log_text (sh_dump_event example_summary_host) (log w)) = map (sh_dump_event example_summary_host) (log w)"
    by (rule split_lines_log) (use private_lines in \<open>simp add: l example_summary_host_def list_all_iff\<close>)
  then have "count_lines frepr (\<lambda>_. None) (split_lines (log_text (sh_dump_event example_summary_host) (log w))) no_tokens = Inr no_tokens"
    by (simp add: l example_summary_host_def count_line_def json_loads_dumps dindex_def is_node_event_def del: dumps.simps)
  moreover obtain F where F: "add_tasks w (task_names w) no_figures = Inr F"
    "fg_wall F = [JInt 9]" "fg_node F = [JInt 15]" "fg_critical F = [JInt 15]" "fg_speedup F = [JInt 1]"
    "fg_hidden F = [fe_passed fe]" "fg_initial F = []" "fg_repaired F = []" "fg_compiled F = []"
    using finished_figures(2) [OF assms(1)] by blast
  moreover obtain s where "summary_of (length (task_names w)) F no_tokens = Inr s"
    using F by (auto simp: summary_of_def mean_of_def add_value_def bool_float_def no_tokens_def)
  ultimately show ?thesis
    by (simp add: summarize_run_def l example_summary_host_def thn_def bnd_def write_file_def del: dumps.simps dumps_indent.simps)
qed

end
