(* ===== verification/Example_Data.thy ===== *)
theory Example_Data
  imports Example_Live Json_Roundtrip LCB_Manifest
begin

text \<open>
  A benchmark of one problem, with two choices of hidden tests, and a worker that judges it.
  They show that the hypotheses of the properties about the data set, the manifest and the
  worker can hold.
\<close>

section \<open>Two benchmarks that differ in their hidden tests\<close>

definition example_row :: "json \<Rightarrow> json" where
  "example_row private = JObj [(''question_id'', JStr ''q''), (''contest_date'', JStr ''2024-01-02''),
     (''difficulty'', JStr ''Easy''), (''platform'', JStr ''atcoder''), (''metadata'', JStr []),
     (''public_test_cases'', JList [JObj [(''input'', JStr ''1''), (''output'', JStr ''2'')]]),
     (''private_test_cases'', JList [JObj [(''input'', private), (''output'', JStr ''9'')]])]"

definition example_data :: "json \<Rightarrow> lcb_host" where
  "example_data private = \<lparr>
     shard_lines = (\<lambda>_. Some [dumps (float_repr example_platform) (example_row private)]),
     unpickle = (\<lambda>_. Inl (value_error [])), row_pydantic = strict_pydantic,
     row_repr = float_repr example_platform, row_datetime = Some\<rparr>"

lemma example_row_loads:
  "json_loads (dumps (float_repr example_platform) (example_row (JStr s))) = Inr (example_row (JStr s))"
  by (rule json_loads_dumps) (simp add: example_row_def)

definition loaded_problem :: problem_artifact where
  "loaded_problem = \<lparr>pr_schema_version = ''1.0'', pr_question_id = ''q'', pr_title = [], pr_statement = [],
     pr_starter_code = [], pr_difficulty = ''easy'', pr_platform = ''atcoder'', pr_contest_date = ''2024-01-02'',
     pr_public_examples = [\<lparr>ex_input = ''1'', ex_output = ''2'', ex_testtype = ''stdin''\<rparr>], pr_function_name = None\<rparr>"

definition loaded_task :: lcb_task where
  "loaded_task = \<lparr>lt_schema_version = ''1.0'', lt_question_id = ''q'', lt_release_version = ''release_v1'',
     lt_problem = loaded_problem, lt_metadata = [(''contest_id'', JStr [])]\<rparr>"

definition hidden_task :: "string \<Rightarrow> private_task" where
  "hidden_task s = \<lparr>pt_question_id = ''q'',
     pt_private_tests = [\<lparr>pc_input = s, pc_output = ''9'', pc_testtype = ''stdin''\<rparr>],
     pt_public_tests = pr_public_examples loaded_problem, pt_function_name = None\<rparr>"

lemma example_head:
  "read_head (example_data p) (example_row (JStr s)) = Inr \<lparr>rh_qid = ''q'', rh_date = ''2024-01-02'', rh_difficulty = ''easy'', rh_platform = ''atcoder''\<rparr>"
  "head_selected no_filters \<lparr>rh_qid = ''q'', rh_date = ''2024-01-02'', rh_difficulty = ''easy'', rh_platform = ''atcoder''\<rparr>"
proof -
  have "py_lower ''Easy'' = ''easy''" "py_lower ''atcoder'' = ''atcoder''" by code_simp+
  then show "read_head (example_data p) (example_row (JStr s)) = Inr \<lparr>rh_qid = ''q'', rh_date = ''2024-01-02'', rh_difficulty = ''easy'', rh_platform = ''atcoder''\<rparr>"
    by (simp add: read_head_def example_row_def text_field_def dindex_def)
qed (simp add: head_selected_def row_selected_def no_filters_def date_allows_def set_allows_def)

lemma example_read_row:
  "read_row (example_data p) no_filters ''release_v1'' (example_row (JStr s)) = Inr (Some (loaded_task, hidden_task s))"
proof -
  have "read_visible_part (example_data p) (example_row (JStr s)) = Inr (JObj [], pr_public_examples loaded_problem)"
    by (simp add: read_visible_part_def example_row_def parse_json_field_def read_public_example_def text_field_def loaded_problem_def)
  moreover have "read_private_part (example_data p) (example_row (JStr s)) = Inr (pt_private_tests (hidden_task s))"
    by (simp add: read_private_part_def example_row_def parse_private_tests_def parse_json_field_def read_private_case_def
        text_field_def hidden_task_def)
  moreover have "read_problem_part (example_data p) (example_row (JStr s))
      \<lparr>rh_qid = ''q'', rh_date = ''2024-01-02'', rh_difficulty = ''easy'', rh_platform = ''atcoder''\<rparr>
      (pr_public_examples loaded_problem) JNull = Inr loaded_problem"
    by (simp add: read_problem_part_def example_row_def text_field_def py_or_def example_data_def loaded_problem_def as_opt_def)
  ultimately show ?thesis
    using example_head
    by (simp add: read_row_def) (simp add: example_row_def loaded_task_def hidden_task_def loaded_problem_def)
qed

lemma py_strip_empty: "py_strip s = [] \<longleftrightarrow> (\<forall>c \<in> set s. is_space c)"
proof
  assume "py_strip s = []"
  then have "\<forall>c \<in> set (dropWhile is_space s). is_space c" by (simp add: py_strip_def dropWhile_eq_Nil_conv)
  then have "dropWhile is_space s = []" by (metis hd_dropWhile hd_in_set)
  then show "\<forall>c \<in> set s. is_space c" by (simp add: dropWhile_eq_Nil_conv)
next
  assume "\<forall>c \<in> set s. is_space c"
  then have "dropWhile is_space s = []" by (simp only: dropWhile_eq_Nil_conv)
  then show "py_strip s = []" by (simp only: py_strip_def) simp
qed

lemma example_load:
  "load_tasks (example_data (JStr s)) ''release_v1'' no_filters r = (Inr [loaded_task], repo_add (hidden_task s) r)"
proof -
  let ?line = "dumps (float_repr example_platform) (example_row (JStr s))"
  have "CHR ''{'' \<in> set ?line" by (simp add: example_row_def)
  moreover have "\<not> is_space CHR ''{''" by code_simp
  ultimately have strip: "py_strip ?line \<noteq> []" unfolding py_strip_empty by blast
  have "dindex release_files ''release_v1'' = Inr [''test.jsonl'']" by code_simp
  then show ?thesis using strip example_row_loads [of s] example_read_row [of "JStr s" s]
    by (simp add: load_tasks_def bnd_def thn_def example_data_def)
qed

lemma example_visible:
  "\<exists>out. load_visible (example_data (JStr s)) ''release_v1'' no_filters [] = (Inr out, [(''q'', hidden_task s)])"
proof -
  have "row_datetime (example_data (JStr s)) = Some" by (simp add: example_data_def)
  moreover have "pt_question_id (hidden_task s) = ''q''" by (simp add: hidden_task_def)
  ultimately show ?thesis
    by (simp add: load_visible_def bnd_def example_load visible_task_of_def repo_add_def Let_def)
qed

lemma example_same_data:
  "same_reader (example_data (JStr a)) (example_data (JStr b))" "same_shards (example_data (JStr a)) (example_data (JStr b))"
proof -
  show "same_reader (example_data (JStr a)) (example_data (JStr b))" by (simp add: same_reader_def example_data_def)
  have nonblank: "py_strip (dumps (float_repr example_platform) (example_row (JStr s))) \<noteq> []" for s
  proof -
    have "CHR ''{'' \<in> set (dumps (float_repr example_platform) (example_row (JStr s)))" by (simp add: example_row_def)
    moreover have "\<not> is_space CHR ''{''" by code_simp
    ultimately show ?thesis unfolding py_strip_empty by blast
  qed
  have "same_line (dumps (float_repr example_platform) (example_row (JStr a)))
      (dumps (float_repr example_platform) (example_row (JStr b)))"
    unfolding same_line_def example_row_loads using nonblank by (simp add: hide_def example_row_def del: dumps.simps)
  then show "same_shards (example_data (JStr a)) (example_data (JStr b))"
    by (simp add: same_shards_def example_data_def del: dumps.simps)
qed

text \<open>A generator that does not shuffle.\<close>

definition still_rng :: "unit rng" where
  "still_rng = \<lparr>seed_state = (\<lambda>_. ()), shuffle = (\<lambda>s xs. (xs, s))\<rparr>"

definition example_prepare :: prepare_args where
  "example_prepare = \<lparr>pa_release = ''release_v1'', pa_easy = 1, pa_medium = 0, pa_hard = 0, pa_seed = 42\<rparr>"

lemma example_prepares_past:
  assumes "\<forall>old \<in> set past. ''q'' \<notin> me_question_id ` set (mf_entries old)"
  obtains m q where "prepare_lcb example_platform (example_data (JStr s)) still_rng example_prepare None past [] = (Inr m, q)"
    "map me_question_id (mf_entries m) = [''q'']"
proof -
  let ?ex = "set ([] :: string list) \<union> set (concat (map (\<lambda>m. map me_question_id (mf_entries m)) past))"
  have "''q'' \<notin> ?ex" using assms by auto
  then have c: "candidates_for [loaded_task] ?ex ''easy'' = [loaded_task]" "candidates_for [loaded_task] ?ex ''medium'' = []"
    "candidates_for [loaded_task] ?ex ''hard'' = []"
    by (simp_all add: candidates_for_def loaded_task_def loaded_problem_def del: set_concat)
  have l: "loader_init ''release_v1'' = Inr ''release_v1''" by code_simp
  have "sample_loop still_rng [loaded_task] ?ex (prepare_counts example_prepare) (seed_state still_rng 42) = Inr [loaded_task]"
    using c by (simp add: prepare_counts_def example_prepare_def sample_loop.simps still_rng_def py_prefix_def del: set_concat)
  then have "\<exists>m q. prepare_lcb example_platform (example_data (JStr s)) still_rng example_prepare None past [] = (Inr m, q)
      \<and> map me_question_id (mf_entries m) = [''q'']"
    by (simp add: prepare_lcb_def bnd_def example_load sample_manifest_def finalized_def entry_of_def l Let_def
        example_prepare_def [THEN arg_cong [of _ _ pa_release]] example_prepare_def [THEN arg_cong [of _ _ pa_seed]] del: set_concat)
      (simp add: loaded_task_def)
  then show thesis by (elim exE conjE) (rule that)
qed

lemma example_prepares:
  obtains m q where "prepare_lcb example_platform (example_data (JStr s)) still_rng example_prepare None [] [] = (Inr m, q)"
    "map me_question_id (mf_entries m) = [''q'']"
  by (rule example_prepares_past [of "[]"]) simp_all

section \<open>A worker\<close>

text \<open>The checker passes one program on one test.\<close>

definition example_worker_host :: worker_host where
  "example_worker_host = \<lparr>nobody_uid = 65534, nobody_gid = 65534, resolve_path = (\<lambda>p. p),
     compile_code = (\<lambda>_. Inr None), check_correctness = (\<lambda>_ _ code _. Inr ([JBool (code = ''pass'')], [])),
     checker_ms = 3, worker_repr = float_repr example_platform\<rparr>"

definition root_process :: process where
  "root_process = \<lparr>environ = [(''PATH'', ''/bin''), (''OPENAI_API_KEY'', ''k'')],
     rlimits = (\<lambda>_. (rlim_infinity, rlim_infinity)), euid = 0, egid = 0, groups = [0], sys_path = []\<rparr>"

definition example_final_request :: "string \<Rightarrow> final_request" where
  "example_final_request s = \<lparr>req_code = ''pass'', req_timeout = 6, req_repository = ''/lcb'', req_processes = 1,
     req_limits = default_sandbox_limits, req_question_id = ''q'',
     req_tests = [\<lparr>wt_input = s, wt_output = ''9'', wt_testtype = ''stdin''\<rparr>], req_function_name = None\<rparr>"

lemma example_private:
  obtains r p where "worker_private example_worker_host (example_final_request s) root_process = (Inr r, p)" "fin_passed r"
proof -
  have "\<exists>r p. worker_private example_worker_host (example_final_request s) root_process = (Inr r, p) \<and> fin_passed r"
    by (simp add: worker_private_def bnd_def security_setup_def example_final_request_def case_prod_unfold
        private_outcome_def compile_error_def Let_def example_worker_host_def final_result_of_def all_pass_def counts_as_pass_def)
  then show thesis using that by blast
qed

lemma example_setup:
  obtains meta q where "security_setup example_worker_host (example_final_request s) root_process = (Inr meta, q)"
  using that by (simp add: security_setup_def example_final_request_def case_prod_unfold Let_def)

end
