(* ===== verification/Example_Command.thy ===== *)
theory Example_Command
  imports Mock_Run Example_Batch Example_Data
begin

text \<open>
  A machine on which a whole mock run can be made: a manifest of two tasks of which one is
  selected, the contract and the graph of the first baseline, and the benchmark of
  \<open>Example_Data\<close>.
\<close>

definition cmd_platform :: platform where
  "cmd_platform = example_platform\<lparr>float_repr := (\<lambda>_. ''1.0'')\<rparr>"

definition cmd_host :: host where
  "cmd_host = example_host\<lparr>plat := cmd_platform\<rparr>"

definition cmd_graph :: orchestra_graph where
  "cmd_graph = b0\<lparr>nodes := map (\<lambda>n. n\<lparr>timeout_seconds := None\<rparr>) (nodes b0)\<rparr>"

definition cmd_contract :: agent_contract where
  "cmd_contract = contract_for ''direct_coder'' ''ProblemArtifact'' ''CodeArtifact'' ''python_code''"

definition cmd_compiled :: compiled_graph where
  "cmd_compiled = b0_compiled\<lparr>graph := cmd_graph\<rparr>"

lemma cmd_compiles: "compile (build_compiler [(''direct_coder'', cmd_contract)]) cmd_graph = Inr cmd_compiled"
  by code_simp

definition cmd_config :: experiment_config where
  "cmd_config = \<lparr>
     xc_experiment = \<lparr>xs_name = ''b0'', xs_seed = 42, xs_graph_config = ''g.yaml'', xs_contracts_dir = ''contracts'', xs_output_root = ''out''\<rparr>,
     xc_benchmark = \<lparr>bs_manifest = ''m.json'', bs_data_dir = ''data'', bs_repository_path = ''/lcb''\<rparr>,
     xc_runtime = default_limits,
     xc_sandbox = \<lparr>ss_backend = ''mock'', ss_per_test_timeout = 1, ss_worker_grace = 1, ss_max_worker_wall = 1,
       ss_limits = default_sandbox_limits, ss_image = ''i''\<rparr>,
     xc_evaluation = [], xc_logging = []\<rparr>"

definition cmd_entry :: "string \<Rightarrow> manifest_entry" where
  "cmd_entry q = \<lparr>me_question_id = q, me_title = q, me_difficulty = ''easy'', me_platform = ''p'', me_contest_date = ''2024-01-02''\<rparr>"

definition cmd_manifest :: lcb_manifest where
  "cmd_manifest = \<lparr>mf_schema_version = ''1.0'', mf_release_version = ''release_v6'', mf_seed = 42,
     mf_entries = [cmd_entry ''q'', cmd_entry ''z''], mf_commit = ''c'', mf_sha256 = Some ''0123456789''\<rparr>"

definition cmd_machine :: machine where
  "cmd_machine = \<lparr>mx_host = cmd_host, mx_lcb = (\<lambda>_. example_data (JStr ''h'')), mx_resolve = (\<lambda>p. p),
     mx_checkout = (\<lambda>_. True), mx_launch = (\<lambda>_ _ _. Inr (Exited 0 [] (Some ''ok''))), mx_codec = example_codec,
     mx_process = quiet_process, mx_state_of = read_state, mx_dump_evaluation = (\<lambda>_. [])\<rparr>"

definition cmd_run :: run_machine where
  "cmd_run = \<lparr>rm_machine = cmd_machine,
     rm_yaml = (\<lambda>p. if p = ''c.yaml'' then Inr (dump_config cmd_config) else Inr (dump_graph cmd_graph)),
     rm_contract_files = (\<lambda>_. Inr [dump_contract cmd_contract]), rm_json = (\<lambda>_. Inr (dump_manifest cmd_manifest)),
     rm_has_docker = False, rm_docker = \<lparr>container = (\<lambda>_ _ _ _. Inl (value_error [])), temp_dir = [], docker_ms = 0\<rparr>,
     rm_status_ok = (\<lambda>_. False), rm_post = (\<lambda>_ _ _. Raised (value_error [])), rm_call_ms = (\<lambda>_. 1),
     rm_dump_contract = (\<lambda>c. ct_id c), rm_services = example_services,
     rm_stamp = (\<lambda>_. \<lparr>uuid_hex = ''0'', utc_now = ''now''\<rparr>), rm_wall_ms = 9,
     rm_dump_result = (\<lambda>res. dumps frepr (result_json (final_state res)))\<rparr>"

definition cmd_args :: run_args where
  "cmd_args = \<lparr>ra_task_id = Some ''q'', ra_limit = None, ra_mock_llm = True, ra_dry_run = False,
     ra_force_rerun = False, ra_allow_drift = False, ra_run_id = None\<rparr>"

definition cmd_plan :: run_plan where
  "cmd_plan = \<lparr>rp_config = cmd_config, rp_manifest = cmd_manifest, rp_contracts = [(''direct_coder'', cmd_contract)],
     rp_compiled = cmd_compiled, rp_ids = [''q'']\<rparr>"

lemma cmd_fields [simp]:
  "rm_host cmd_run = cmd_host" "plat cmd_host = cmd_platform" "rm_machine cmd_run = cmd_machine"
  "mx_host cmd_machine = cmd_host" "graph cmd_compiled = cmd_graph"
  by (simp_all add: cmd_run_def cmd_machine_def cmd_host_def cmd_compiled_def)

lemma cmd_pydantic [simp]: "pydantic_ok (pyd cmd_platform)"
  by (simp add: cmd_platform_def example_platform_def strict_pydantic_ok)

lemma cmd_no_dollar:
  "no_dollar (dump_config cmd_config)" "no_dollar (dump_contract cmd_contract)"
  by (simp_all add: dump_config_def cmd_config_def dump_experiment_section_def dump_benchmark_section_def
      dump_runtime_limits_def dump_sandbox_section_def dump_sandbox_limits_def default_limits_def
      default_sandbox_limits_def dump_contract_def cmd_contract_def contract_for_def)

lemma cmd_planned: "plan_run cmd_run env cmd_args ''c.yaml'' = Inr cmd_plan"
proof -
  have P: "pydantic_ok (pyd (rm_plat cmd_run))" by simp
  have cfg: "load_experiment_config (pyd (rm_plat cmd_run)) env (dump_config cmd_config) = Inr cmd_config"
    using validate_config_dump [OF P, of cmd_config] cmd_no_dollar(1)
    by (simp add: load_experiment_config_def expand_json_plain wf_config_def cmd_config_def)
  have man: "load_manifest (pyd (rm_plat cmd_run)) (dump_manifest cmd_manifest) = Inr cmd_manifest"
    using validate_manifest_dump [OF P] by (simp add: load_manifest_def)
  have gr: "read_graph cmd_run ''g.yaml'' = Inr cmd_graph"
    using validate_graph_dump [OF P] by (simp add: read_graph_def load_graph_def cmd_run_def)
  have "load_contract (pyd (rm_plat cmd_run)) env (dump_contract cmd_contract) = Inr cmd_contract"
    using validate_contract_dump [OF P, of cmd_contract] cmd_no_dollar(2)
    by (simp add: load_contract_def expand_json_plain cmd_contract_def contract_for_def)
  then have cs: "read_contracts cmd_run env d = Inr [(''direct_coder'', cmd_contract)]" for d
    by (simp add: read_contracts_def cmd_run_def load_contract_files_def cmd_contract_def contract_for_def)
  have "select_ids cmd_args cmd_manifest = [''q'']"
    by (simp add: select_ids_def cmd_args_def cmd_manifest_def cmd_entry_def given_def Let_def)
  moreover have "rm_yaml cmd_run ''c.yaml'' = Inr (dump_config cmd_config)" "rm_json cmd_run f = Inr (dump_manifest cmd_manifest)" for f
    by (simp_all add: cmd_run_def)
  moreover have "xs_graph_config (xc_experiment cmd_config) = ''g.yaml''" by (simp add: cmd_config_def)
  ultimately show ?thesis using cfg man gr cs cmd_compiles by (simp add: plan_run_def cmd_plan_def)
qed

section \<open>The hypotheses of a mock run\<close>

lemma cmd_scripted: "scripted_plan cmd_run cmd_plan"
proof -
  have "plain_graph cmd_graph" by (simp add: plain_graph_def cmd_graph_def b0_def)
  moreover have "\<forall>n \<in> set (nodes cmd_graph). scripted_node [(''direct_coder'', cmd_contract)] n"
    by (simp add: cmd_graph_def b0_def scripted_node_def scripted_agent_def scripted_transform_def cmd_contract_def
        contract_for_def shipped_contracts_def)
  moreover have "initial_artifact_slots cmd_graph = [(''problem'', ''ProblemArtifact'')]"
    by (simp add: cmd_graph_def b0_def)
  moreover have "0 < max_parallel_nodes_per_task (xc_runtime cmd_config)"
    by (simp add: cmd_config_def default_limits_def)
  ultimately show ?thesis by (simp add: scripted_plan_def cmd_plan_def)
qed

lemma cmd_stamps: "stamps_ok cmd_run cmd_plan"
proof -
  have ids: "set (node_ids cmd_graph) = {''direct_coder'', ''code_parser'', ''freeze''}"
    by (simp add: cmd_graph_def b0_def node_ids_def)
  show ?thesis
    by (simp add: stamps_ok_def cmd_plan_def ids artifact_name_def cmd_run_def example_services_def)
qed

text \<open>The row is in every shard, so it is loaded six times; the dictionary keeps one task.\<close>

definition cmd_task :: lcb_task where
  "cmd_task = loaded_task\<lparr>lt_release_version := ''release_v6''\<rparr>"

lemma cmd_row:
  assumes "head_selected F \<lparr>rh_qid = ''q'', rh_date = ''2024-01-02'', rh_difficulty = ''easy'', rh_platform = ''atcoder''\<rparr>"
  shows "read_row (example_data p) F ''release_v6'' (example_row (JStr s)) = Inr (Some (cmd_task, hidden_task s))"
proof -
  let ?h = "\<lparr>rh_qid = ''q'', rh_date = ''2024-01-02'', rh_difficulty = ''easy'', rh_platform = ''atcoder''\<rparr>"
  have h: "read_head (example_data p) (example_row (JStr s)) = Inr ?h" "head_selected no_filters ?h" by (rule example_head)+
  obtain meta public priv fname problem contest where r:
      "read_visible_part (example_data p) (example_row (JStr s)) = Inr (meta, public)"
      "read_private_part (example_data p) (example_row (JStr s)) = Inr priv"
      "py_get meta ''func_name'' JNull = Inr fname"
      "read_problem_part (example_data p) (example_row (JStr s)) ?h public fname = Inr problem"
      "py_get (example_row (JStr s)) ''contest_id'' (JStr []) = Inr contest"
    using example_read_row [of p s] h by (auto simp: read_row_def res_simps)
  then have task: "loaded_task = \<lparr>lt_schema_version = ''1.0'', lt_question_id = ''q'', lt_release_version = ''release_v1'',
        lt_problem = problem, lt_metadata = [(''contest_id'', contest)]\<rparr>"
      and hidden: "hidden_task s = \<lparr>pt_question_id = ''q'', pt_private_tests = priv, pt_public_tests = public,
        pt_function_name = pr_function_name problem\<rparr>"
    using example_read_row [of p s] h by (simp_all add: read_row_def)
  have "cmd_task = \<lparr>lt_schema_version = ''1.0'', lt_question_id = ''q'', lt_release_version = ''release_v6'',
        lt_problem = problem, lt_metadata = [(''contest_id'', contest)]\<rparr>"
    unfolding cmd_task_def task by simp
  then show ?thesis using assms h r hidden by (simp add: read_row_def)
qed

lemma cmd_shards:
  assumes "head_selected F \<lparr>rh_qid = ''q'', rh_date = ''2024-01-02'', rh_difficulty = ''easy'', rh_platform = ''atcoder''\<rparr>"
  shows "\<exists>r'. load_shards (example_data (JStr s)) F ''release_v6'' names r = (Inr (replicate (length names) cmd_task), r')"
proof (induction names arbitrary: r)
  case (Cons name names)
  have "CHR ''{'' \<in> set (dumps (float_repr example_platform) (example_row (JStr s)))" by (simp add: example_row_def)
  moreover have "\<not> is_space CHR ''{''" by code_simp
  ultimately have "py_strip (dumps (float_repr example_platform) (example_row (JStr s))) \<noteq> []" unfolding py_strip_empty by blast
  moreover have "shard_lines (example_data (JStr s)) name = Some [dumps (float_repr example_platform) (example_row (JStr s))]"
    by (simp add: example_data_def)
  ultimately have "load_shards (example_data (JStr s)) F ''release_v6'' (name # names) r
      = bnd (load_shards (example_data (JStr s)) F ''release_v6'' names) (\<lambda>more. ret ([cmd_task] @ more)) (repo_add (hidden_task s) r)"
    using example_row_loads [of s] cmd_row [OF assms, of "JStr s" s]
    by (simp add: bnd_def thn_def del: dumps.simps split: prod.split sum.split)
  then show ?case using Cons.IH [of "repo_add (hidden_task s) r"] by (auto simp: bnd_def)
qed simp

lemma cmd_loaded: "tasks_loaded cmd_run cmd_plan (replicate 6 cmd_task)"
proof -
  let ?F = "no_filters\<lparr>task_ids := Some (set (rp_ids cmd_plan))\<rparr>"
  have sel: "head_selected ?F \<lparr>rh_qid = ''q'', rh_date = ''2024-01-02'', rh_difficulty = ''easy'', rh_platform = ''atcoder''\<rparr>"
    by (simp add: head_selected_def row_selected_def no_filters_def date_allows_def set_allows_def cmd_plan_def)
  obtain names where names: "dindex release_files ''release_v6'' = Inr names" "length names = 6"
  proof -
    have "dindex release_files ''release_v6'' = Inr shards" by code_simp
    then show thesis using that by (simp add: shards_def)
  qed
  obtain r' where "load_shards (example_data (JStr ''h'')) ?F ''release_v6'' names [] = (Inr (replicate 6 cmd_task), r')"
    using cmd_shards [OF sel, of "''h''" names "[]"] names(2) by auto
  then have "load_tasks (example_data (JStr ''h'')) ''release_v6'' ?F [] = (Inr (replicate 6 cmd_task), r')"
    using names(1) by (simp add: load_tasks_def bnd_def numeral_eq_Suc)
  moreover have "loader_init ''release_v6'' = Inr ''release_v6''" by code_simp
  ultimately have "fst (loaded cmd_machine cmd_config (rp_ids cmd_plan) []) = Inr (replicate 6 cmd_task)"
    by (simp add: loaded_def bnd_def cmd_machine_def)
  moreover have "dget (task_map (replicate 6 cmd_task)) ''q'' = Some cmd_task"
    by (simp add: task_map_def dict_of_def numeral_eq_Suc cmd_task_def loaded_task_def)
  moreover have "wf_problem (lt_problem cmd_task)"
    by (simp add: cmd_task_def loaded_task_def loaded_problem_def wf_problem_def wf_example_def)
  ultimately show ?thesis by (simp add: tasks_loaded_def) (simp add: cmd_plan_def)
qed

lemma cmd_startable: "startable cmd_args cmd_host cmd_graph [''q''] empty_world"
proof -
  have "store_inv cmd_host empty_world"
    using example_host_ok by (simp add: store_inv_def host_ok_def cmd_host_def empty_world_def file_at_def cmd_platform_def)
  then show ?thesis by (simp add: startable_def names_ok_def plain_id_def resumable_def ids_free_def)
qed

lemma cmd_run_id: "choose_run_id (rm_plat cmd_run) cmd_args cmd_config cmd_manifest cmd_graph
    = Inr (''b0-01234567-'' @ take 8 (graph_digest cmd_platform cmd_graph))"
  by (simp add: choose_run_id_def cmd_args_def given_def cmd_manifest_def cmd_config_def)

lemma cmd_finishes:
  obtains rs w' where "run_command cmd_run env cmd_args ''c.yaml'' empty_world = (Inr (Finished rs), w')"
proof -
  have "\<exists>rs w'. run_command cmd_run env cmd_args ''c.yaml'' empty_world = (Inr (Finished rs), w') \<and> map fst rs = rp_ids cmd_plan
      \<and> (\<forall>(q, r) \<in> set rs. \<exists>res. r = Some res \<and> frozen (final_state res))"
  proof (rule mock_run_finishes [OF _ _ _ cmd_planned _ cmd_scripted cmd_stamps cmd_loaded])
    show "startable cmd_args (rm_host cmd_run) (graph (rp_compiled cmd_plan)) (rp_ids cmd_plan) empty_world"
      using cmd_startable by (simp add: cmd_plan_def)
    show "choose_run_id (rm_plat cmd_run) cmd_args (rp_config cmd_plan) (rp_manifest cmd_plan) (graph (rp_compiled cmd_plan))
        = Inr (''b0-01234567-'' @ take 8 (graph_digest cmd_platform cmd_graph))"
      using cmd_run_id by (simp add: cmd_plan_def)
  qed (simp_all add: cmd_args_def cmd_plan_def fresh_task_def)
  then show thesis using that by blast
qed

section \<open>The manifest of the run can be written\<close>

lemma one_digit_reads_back:
  assumes "fr x = d # ''.0''" "d \<in> {CHR ''1'', CHR ''6''}" "make_number False [d] (Some ''0'') None = Inr (JFloat x)"
  shows "reads_back fr x"
proof -
  have "parse_value (Suc f) (d # ''.0'' @ rest) = Inr (JFloat x, rest)" if "stop rest" for f rest
  proof -
    have "scan_frac (CHR ''.'' # CHR ''0'' # rest) = (Some ''0'', rest)"
      using stop_facts(1,2) [OF that] by (simp add: scan_frac_def scan_digits_def is_digit_def)
    moreover have "scan_int (d # ''.0'' @ rest) = Some ([d], CHR ''.'' # CHR ''0'' # rest)"
      using assms(2) by (auto simp: scan_int_def scan_digits_def is_digit_def)
    ultimately have "scan_number (d # ''.0'' @ rest) = Inr (JFloat x, rest)"
      using stop_facts(4) [OF that] assms(2,3) by (auto simp: scan_number_def)
    then show ?thesis using assms(2) by (auto simp: starts_nonfinite_def)
  qed
  then show ?thesis using assms(1,2) by (auto simp: reads_back_def skip_ws_def json_space_def simp del: parse_value.simps)
qed

lemma one_reads_back: "reads_back (\<lambda>_. ''1.0'') 1"
proof (rule one_digit_reads_back)
  show "make_number False ''1'' (Some ''0'') None = Inr (JFloat 1)" by code_simp
qed simp_all

lemma cmd_writable: "plan_writable cmd_run cmd_plan"
proof -
  let ?w = "writable (\<lambda>_. ''1.0'')"
  have "?w (dump_config cmd_config)"
    using one_reads_back
    by (simp add: dump_config_def cmd_config_def dump_experiment_section_def dump_benchmark_section_def
        dump_runtime_limits_def dump_sandbox_section_def dump_sandbox_limits_def default_limits_def
        default_sandbox_limits_def nat_digits.simps)
  moreover have "?w (dump_manifest cmd_manifest)"
    by (simp add: dump_manifest_def cmd_manifest_def dump_entry_def cmd_entry_def dump_opt_def nat_digits.simps)
  moreover have "?w (dump_graph cmd_graph)"
    by (simp add: dump_graph_def cmd_graph_def b0_def dump_node_def dump_edge_def dump_slots_def dump_opt_def)
  moreover have "float_repr cmd_platform = (\<lambda>_. ''1.0'')" by (simp add: cmd_platform_def)
  ultimately show ?thesis
    by (simp add: plan_writable_def run_manifest_def cmd_plan_def del: writable.simps(4)) simp
qed

end
