(* ===== verification/Example_Programs.thy ===== *)
theory Example_Programs
  imports Programs Example_Command
begin

text \<open>
  Command lines, files and logs on which the programs can be run: a mock run of one task, the
  preparation of a manifest that leaves out the questions of an older one, the log of a node,
  and a request for the worker with a key too many.
\<close>

section \<open>A mock run from its command line\<close>

definition cmd_argv :: "string list" where
  "cmd_argv = [''--config=c.yaml'', ''--task-id=q'', ''--mock-llm'']"

lemma cmd_argv_line: "run_argv cmd_args ''c.yaml'' = cmd_argv"
  by code_simp

lemma no_env_file: "\<exists>env'. load_env_file None [] = (Inr (), env')"
  by (simp add: load_env_file_def thn_def bnd_def default_settings_def set_default_def default_repository_def)

section \<open>A preparation\<close>

definition past_manifest :: lcb_manifest where
  "past_manifest = \<lparr>mf_schema_version = ''1.0'', mf_release_version = ''release_v1'', mf_seed = 1,
     mf_entries = [cmd_entry ''old''], mf_commit = ''c'', mf_sha256 = None\<rparr>"

definition past_files :: text_files where
  "past_files = [(''old.json'', saved_manifest example_platform past_manifest)]"

definition prepare_argv :: "string list" where
  "prepare_argv = [''--manifest'', ''new.json'', ''--release-version=release_v1'', ''--num-easy=1'',
     ''--num-medium=0'', ''--num-hard=0'', ''--data-dir'', ''d'', ''--exclude-m'', ''old.json'']"

definition prepare_namespace :: namespace where
  "prepare_namespace = [(''output'', ArgStr ''new.json''), (''release_version'', ArgStr ''release_v1''),
     (''num_easy'', ArgInt 1), (''num_medium'', ArgInt 0), (''num_hard'', ArgInt 0), (''data_dir'', ArgStr ''d''),
     (''exclude_manifest'', ArgStr ''old.json'')]"

lemma prepare_argv_parsed: "parse_args prepare_options prepare_argv = Parsed prepare_namespace"
  by code_simp

lemma past_writable: "writable (float_repr example_platform) (dump_manifest past_manifest)"
  by (simp add: dump_manifest_def past_manifest_def dump_entry_def cmd_entry_def dump_opt_def nat_digits.simps)

lemma prepare_namespace_reads:
  "arg_str prepare_namespace ''output'' = Some ''new.json''" "arg_str prepare_namespace ''data_dir'' = Some ''d''"
  "arg_str prepare_namespace ''exclusions'' = None" "arg_list prepare_namespace ''exclude_manifest'' = [''old.json'']"
  "prepare_args_of prepare_namespace = example_prepare"
proof -
  show "prepare_args_of prepare_namespace = example_prepare" unfolding example_prepare_def by code_simp
qed code_simp+

lemma example_pydantic: "pydantic_ok (pyd example_platform)"
  using example_host_ok by (simp add: host_ok_def)

lemma prepare_runs:
  "\<exists>out files'. prepare_program example_platform (\<lambda>_. example_data (JStr ''1'')) still_rng None [] prepare_argv past_files
     = (Done out, files')"
proof -
  obtain env' where env: "load_env_file None [] = (Inr (), env')" using no_env_file by blast
  have old: "manifest_at example_platform past_files ''old.json'' = Inr past_manifest"
    by (rule saved_manifest_back [OF example_pydantic past_writable]) (simp add: past_files_def)
  obtain m q where m: "prepare_lcb example_platform (example_data (JStr ''1'')) still_rng example_prepare None [past_manifest] []
      = (Inr m, q)"
    by (rule example_prepares_past [of "[past_manifest]"]) (simp_all add: past_manifest_def cmd_entry_def)
  have "prepare_manifest example_platform (\<lambda>_. example_data (JStr ''1'')) still_rng ''d'' prepare_namespace past_files = Inr m"
    using old m by (simp add: prepare_manifest_def excluded_manifests_def prepare_namespace_reads or_default_def Let_def)
      (simp add: past_files_def)
  then show ?thesis
    by (simp add: prepare_program_def with_env_def env after_parsing_def prepare_argv_parsed prepare_namespace_reads
        given_def ending_def bnd_def save_manifest_def Let_def)
qed

section \<open>A log\<close>

definition node_done :: event where
  "node_done = \<lparr>ev_run_id = ''r'', ev_task_id = Some ''q'', ev_graph_id = ''g'', event_type = ''NODE_COMPLETED'',
     ev_wave_id = Some 0, ev_node_id = Some ''n'', ev_artifact_ids = [''a''], ev_latency_ms = Some 5,
     ev_prompt_tokens = Some 7, ev_completion_tokens = Some 3, ev_estimated_cost_usd = None, ev_status = Some ''succeeded'',
     ev_metadata = []\<rparr>"

definition node_failed :: event where
  "node_failed = node_done\<lparr>event_type := ''NODE_FAILED'', ev_prompt_tokens := None,
     ev_metadata := [(''error'', JStr ''ParseError: no block'')]\<rparr>"

definition task_done :: event where
  "task_done = node_done\<lparr>event_type := ''TASK_COMPLETED''\<rparr>"

lemma example_events:
  assumes "e \<in> {node_done, node_failed, task_done}"
  shows "writable fr (dump_event ''2024'' e)" "plain fr (dump_event ''2024'' e)"
  using assms
  by (auto simp: node_failed_def task_done_def node_done_def dump_event_def dump_opt_def nat_digits.simps no_nel_def)

lemma example_totals: "log_tokens fr [node_done, task_done, node_failed]
    = \<lparr>tk_prompt = 7, tk_completion = 6, tk_costs = [], tk_parse_failures = 1, tk_node_events = 2\<rparr>"
proof -
  have "contains ''parse'' (py_lower ''ParseError: no block'')" by code_simp
  then show ?thesis
    by (simp add: log_tokens_def node_event_def node_failed_def task_done_def node_done_def or_zero_def parse_error_def
        List.map_filter_def)
qed

section \<open>Requests\<close>

text \<open>A public request whose task carries a private test.\<close>

definition smuggled_task :: "json dict" where
  "smuggled_task = [(''question_id'', JStr ''q''), (''private_test_cases'', JList [JStr ''1''])]"

definition smuggling_request :: "json dict" where
  "smuggling_request = [(''mode'', JStr ''public''), (''code'', JStr ''pass''), (''task'', JObj smuggled_task)]"

lemma smuggling_text: "json_loads (dumps fr (JObj smuggling_request)) = Inr (JObj smuggling_request)"
  by (rule json_loads_dumps) (simp add: smuggling_request_def smuggled_task_def)

text \<open>A private request, and the result of a checker that passes it.\<close>

definition wire_repr :: "py_float \<Rightarrow> string" where
  "wire_repr x = (if x = 6 then ''6.0'' else ''1.0'')"

lemma wire_reads_back: "reads_back wire_repr 6" "reads_back wire_repr 1"
proof -
  have "make_number False ''6'' (Some ''0'') None = Inr (JFloat 6)" by code_simp
  then show "reads_back wire_repr 6" by (intro one_digit_reads_back) (simp_all add: wire_repr_def)
  have "make_number False ''1'' (Some ''0'') None = Inr (JFloat 1)" by code_simp
  then show "reads_back wire_repr 1" by (intro one_digit_reads_back) (simp_all add: wire_repr_def)
qed

abbreviation "wire_request \<equiv> final_request_for example_worker ''q'' (hidden_task ''1'') ''pass'' 6"

lemma wire_request_writable: "writable wire_repr (dump_final_request wire_request)"
  using wire_reads_back
  by (simp add: dump_final_request_def dump_request_def final_request_for_def example_worker_def hidden_task_def
      dump_sandbox_limits_def default_sandbox_limits_def nat_digits.simps dump_opt_def dump_worker_test_def
      loaded_problem_def worker_test_of_def)

definition wire_metadata :: "json dict" where
  "wire_metadata = [(''redacted_environment_names'', JList []), (''sensitive_env_present'', JList []),
     (''resource_limits'', JObj [(''memory_bytes'', JInt 2147483648), (''max_processes'', JInt 32),
        (''max_open_files'', JInt 128), (''max_file_size_bytes'', JInt 16777216)]),
     (''num_process_evaluate'', JInt 1), (''worker_identity'', JObj [(''uid'', JInt 65534), (''gid'', JInt 65534)])]"

lemma wire_result:
  "fst (worker_private example_worker_host wire_request (child_process (os_runner example_worker) quiet_process))
     = Inr (final_result_of True wire_metadata)"
proof -
  have "fst (security_setup example_worker_host wire_request (child_process (os_runner example_worker) quiet_process))
      = Inr wire_metadata"
    unfolding wire_metadata_def by code_simp
  then obtain q where q: "security_setup example_worker_host wire_request (child_process (os_runner example_worker) quiet_process)
      = (Inr wire_metadata, q)"
    by (metis prod.collapse)
  have "req_code wire_request = ''pass''" by (simp add: final_request_for_def)
  then show ?thesis
    by (simp add: worker_private_def bnd_def q)
      (simp add: private_outcome_def compile_error_def example_worker_host_def all_pass_def counts_as_pass_def)
qed

lemma wire_result_writable: "writable wire_repr (dump_final_result (final_result_of True wire_metadata))"
  using wire_reads_back by (simp add: dump_final_result_def final_result_of_def wire_metadata_def nat_digits.simps)

end
