(* ===== verification/Semaphores.thy ===== *)
theory Semaphores
  imports Sandbox LLM_Clients
begin

text \<open>
  The concurrency limits of a batch (\<open>runtime/limits.py\<close>): one semaphore for the tasks
  (\<open>cli/run.py\<close>, \<open>run_one\<close>), one for model calls (\<open>executors/agent.py\<close>) and one for
  sandbox runs (\<open>executors/harness.py\<close>). A batch is a transition system: tasks wait for a slot,
  run, start nodes that queue for a slot of their kind, and finish when none of their nodes is
  left. Which of the enabled steps comes next is open, so the statements hold for every
  interleaving. The counters of the mock client and the mock sandbox observe the calls in
  progress.
\<close>

section \<open>Semaphores\<close>

record semaphores =
  sem_task :: int
  sem_llm :: int
  sem_sandbox :: int

definition make_semaphore :: "int \<Rightarrow> int res" where
  "make_semaphore n =
     (if n < 0 then Inl (value_error ''Semaphore initial value must be >= 0'') else Inr n)"

text \<open>\<open>RuntimeSemaphores.__init__\<close>.\<close>

definition runtime_semaphores :: "runtime_limits \<Rightarrow> semaphores res" where
  "runtime_semaphores l =
     rbind (make_semaphore (max_parallel_benchmark_tasks l)) (\<lambda>t.
     rbind (make_semaphore (max_parallel_llm_calls l)) (\<lambda>m.
     rbind (make_semaphore (max_parallel_sandboxes l)) (\<lambda>s.
       Inr \<lparr>sem_task = t, sem_llm = m, sem_sandbox = s\<rparr>)))"

section \<open>The system\<close>

datatype slot = LlmSlot | SandboxSlot

type_synonym job = "string \<times> string \<times> slot"

abbreviation job_task :: "job \<Rightarrow> string" where
  "job_task j \<equiv> fst j"

abbreviation job_slot :: "job \<Rightarrow> slot" where
  "job_slot j \<equiv> snd (snd j)"

record batch =
  sems :: semaphores
  waiting_tasks :: "string list"
  running_tasks :: "string list"
  done_tasks :: "string list"
  queued :: "job list"
  holding :: "job list"
  client :: mock_client
  box :: mock_sandbox

definition holders :: "slot \<Rightarrow> batch \<Rightarrow> int" where
  "holders k b = int (length (filter (\<lambda>j. job_slot j = k) (holding b)))"

definition jobs_of :: "string \<Rightarrow> batch \<Rightarrow> job list" where
  "jobs_of t b = filter (\<lambda>j. job_task j = t) (queued b @ holding b)"

definition start_batch :: "semaphores \<Rightarrow> string list \<Rightarrow> source dict \<Rightarrow> py_float \<Rightarrow> batch" where
  "start_batch s ids responses delay =
     \<lparr>sems = s, waiting_tasks = ids, running_tasks = [], done_tasks = [], queued = [], holding = [],
      client = mock_client_init responses,
      box = \<lparr>delay_seconds = delay, active = 0, max_active = 0\<rparr>\<rparr>"

text \<open>Taking a job off the queue, and the steps of one job.\<close>

definition take_slot :: "job \<Rightarrow> batch \<Rightarrow> batch" where
  "take_slot j b = b\<lparr>queued := remove1 j (queued b), holding := j # holding b\<rparr>"

definition drop_slot :: "job \<Rightarrow> batch \<Rightarrow> batch" where
  "drop_slot j b = b\<lparr>holding := remove1 j (holding b)\<rparr>"

inductive batch_step :: "int \<Rightarrow> batch \<Rightarrow> batch \<Rightarrow> bool" for max_nodes where
  enter_task: "t \<in> set (waiting_tasks b) \<Longrightarrow> 0 < sem_task (sems b) \<Longrightarrow>
    batch_step max_nodes b (b\<lparr>sems := (sems b)\<lparr>sem_task := sem_task (sems b) - 1\<rparr>,
      waiting_tasks := remove1 t (waiting_tasks b), running_tasks := t # running_tasks b\<rparr>)"
| start_node: "t \<in> set (running_tasks b) \<Longrightarrow> int (length (jobs_of t b)) < max_nodes \<Longrightarrow>
    batch_step max_nodes b (b\<lparr>queued := queued b @ [(t, n, k)]\<rparr>)"
| enter_llm: "j \<in> set (queued b) \<Longrightarrow> job_slot j = LlmSlot \<Longrightarrow> 0 < sem_llm (sems b) \<Longrightarrow>
    batch_step max_nodes b ((take_slot j b)\<lparr>sems := (sems b)\<lparr>sem_llm := sem_llm (sems b) - 1\<rparr>,
      client := enter_call (client b)\<rparr>)"
| leave_llm: "j \<in> set (holding b) \<Longrightarrow> job_slot j = LlmSlot \<Longrightarrow>
    batch_step max_nodes b ((drop_slot j b)\<lparr>sems := (sems b)\<lparr>sem_llm := sem_llm (sems b) + 1\<rparr>,
      client := leave_call (client b)\<rparr>)"
| enter_sandbox: "j \<in> set (queued b) \<Longrightarrow> job_slot j = SandboxSlot \<Longrightarrow> 0 < sem_sandbox (sems b) \<Longrightarrow>
    batch_step max_nodes b ((take_slot j b)\<lparr>sems := (sems b)\<lparr>sem_sandbox := sem_sandbox (sems b) - 1\<rparr>,
      box := mock_enter (box b)\<rparr>)"
| leave_sandbox: "j \<in> set (holding b) \<Longrightarrow> job_slot j = SandboxSlot \<Longrightarrow>
    batch_step max_nodes b ((drop_slot j b)\<lparr>sems := (sems b)\<lparr>sem_sandbox := sem_sandbox (sems b) + 1\<rparr>,
      box := mock_leave (box b)\<rparr>)"
| leave_task: "t \<in> set (running_tasks b) \<Longrightarrow> jobs_of t b = [] \<Longrightarrow>
    batch_step max_nodes b (b\<lparr>sems := (sems b)\<lparr>sem_task := sem_task (sems b) + 1\<rparr>,
      running_tasks := remove1 t (running_tasks b), done_tasks := t # done_tasks b\<rparr>)"

inductive batch_reaches :: "int \<Rightarrow> batch \<Rightarrow> batch \<Rightarrow> bool" for max_nodes b0 where
  batch_start: "batch_reaches max_nodes b0 b0"
| batch_more: "batch_reaches max_nodes b0 b \<Longrightarrow> batch_step max_nodes b b' \<Longrightarrow> batch_reaches max_nodes b0 b'"

section \<open>The invariant\<close>

definition limits_hold :: "runtime_limits \<Rightarrow> batch \<Rightarrow> bool" where
  "limits_hold l b \<longleftrightarrow>
     0 \<le> sem_task (sems b) \<and> sem_task (sems b) = max_parallel_benchmark_tasks l - int (length (running_tasks b))
     \<and> 0 \<le> sem_llm (sems b) \<and> sem_llm (sems b) = max_parallel_llm_calls l - holders LlmSlot b
     \<and> 0 \<le> sem_sandbox (sems b) \<and> sem_sandbox (sems b) = max_parallel_sandboxes l - holders SandboxSlot b"

definition counters_hold :: "runtime_limits \<Rightarrow> batch \<Rightarrow> bool" where
  "counters_hold l b \<longleftrightarrow>
     mc_active (client b) = holders LlmSlot b \<and> mc_max_active (client b) \<le> max_parallel_llm_calls l
     \<and> active (box b) = holders SandboxSlot b \<and> max_active (box b) \<le> max_parallel_sandboxes l"

definition jobs_hold :: "runtime_limits \<Rightarrow> batch \<Rightarrow> bool" where
  "jobs_hold l b \<longleftrightarrow>
     (\<forall>j \<in> set (queued b) \<union> set (holding b). job_task j \<in> set (running_tasks b))
     \<and> (\<forall>t. int (length (jobs_of t b)) \<le> max 0 (max_parallel_nodes_per_task l))"

definition tasks_hold :: "string list \<Rightarrow> batch \<Rightarrow> bool" where
  "tasks_hold ids b \<longleftrightarrow> distinct (waiting_tasks b @ running_tasks b @ done_tasks b)
     \<and> set (waiting_tasks b) \<union> set (running_tasks b) \<union> set (done_tasks b) = set ids"

definition batch_inv :: "runtime_limits \<Rightarrow> string list \<Rightarrow> batch \<Rightarrow> bool" where
  "batch_inv l ids b \<longleftrightarrow> limits_hold l b \<and> counters_hold l b \<and> jobs_hold l b \<and> tasks_hold ids b"

lemma remove1_Suc: "x \<in> set xs \<Longrightarrow> length xs = Suc (length (remove1 x xs))"
  by (induction xs) auto

lemma length_remove1_filter:
  "x \<in> set xs \<Longrightarrow> int (length (filter p (remove1 x xs))) = int (length (filter p xs)) - (if p x then 1 else 0)"
proof (induction xs)
  case (Cons y ys)
  then show ?case
    by (cases "x = y") (auto dest: length_pos_if_in_set)
qed simp

lemma holders_take: "holders k (take_slot j b) = holders k b + (if job_slot j = k then 1 else 0)"
  by (simp add: holders_def take_slot_def)

lemma holders_drop:
  "j \<in> set (holding b) \<Longrightarrow> holders k (drop_slot j b) = holders k b - (if job_slot j = k then 1 else 0)"
  by (simp add: holders_def drop_slot_def length_remove1_filter)

lemma jobs_of_take:
  "j \<in> set (queued b) \<Longrightarrow> length (jobs_of t (take_slot j b)) = length (jobs_of t b)"
  using length_remove1_filter [of j "queued b" "\<lambda>j. job_task j = t"]
  by (simp add: jobs_of_def take_slot_def split: if_splits)

lemma jobs_of_drop:
  "j \<in> set (holding b) \<Longrightarrow> length (jobs_of t (drop_slot j b)) \<le> length (jobs_of t b)"
  using length_remove1_filter [of j "holding b" "\<lambda>j. job_task j = t"]
  by (simp add: jobs_of_def drop_slot_def split: if_splits)

lemma slot_frames [simp]:
  "sems (take_slot j b) = sems b" "client (take_slot j b) = client b" "box (take_slot j b) = box b"
  "running_tasks (take_slot j b) = running_tasks b" "waiting_tasks (take_slot j b) = waiting_tasks b"
  "done_tasks (take_slot j b) = done_tasks b"
  "sems (drop_slot j b) = sems b" "client (drop_slot j b) = client b" "box (drop_slot j b) = box b"
  "running_tasks (drop_slot j b) = running_tasks b" "waiting_tasks (drop_slot j b) = waiting_tasks b"
  "done_tasks (drop_slot j b) = done_tasks b"
  by (simp_all add: take_slot_def drop_slot_def)

lemma view_frames [simp]:
  "holders k (b\<lparr>sems := s\<rparr>) = holders k b" "holders k (b\<lparr>client := c\<rparr>) = holders k b"
  "holders k (b\<lparr>box := x\<rparr>) = holders k b" "holders k (b\<lparr>queued := q\<rparr>) = holders k b"
  "holders k (b\<lparr>waiting_tasks := w\<rparr>) = holders k b" "holders k (b\<lparr>running_tasks := r\<rparr>) = holders k b"
  "holders k (b\<lparr>done_tasks := d\<rparr>) = holders k b"
  "jobs_of t (b\<lparr>sems := s\<rparr>) = jobs_of t b" "jobs_of t (b\<lparr>client := c\<rparr>) = jobs_of t b"
  "jobs_of t (b\<lparr>box := x\<rparr>) = jobs_of t b" "jobs_of t (b\<lparr>waiting_tasks := w\<rparr>) = jobs_of t b"
  "jobs_of t (b\<lparr>running_tasks := r\<rparr>) = jobs_of t b" "jobs_of t (b\<lparr>done_tasks := d\<rparr>) = jobs_of t b"
  by (simp_all add: holders_def jobs_of_def)

lemma holders_nonneg: "0 \<le> holders k b"
  by (simp add: holders_def)

lemma step_limits: "batch_step n b b' \<Longrightarrow> limits_hold l b \<Longrightarrow> limits_hold l b'"
proof (induction rule: batch_step.induct)
  case (leave_task t b)
  have "int (length (remove1 t (running_tasks b))) = int (length (running_tasks b)) - 1"
    using remove1_Suc [OF leave_task.hyps(1)] by simp
  then show ?case using leave_task.prems by (simp add: limits_hold_def)
qed (auto simp: limits_hold_def holders_take holders_drop)

lemma step_counters: "batch_step n b b' \<Longrightarrow> limits_hold l b \<Longrightarrow> counters_hold l b \<Longrightarrow> counters_hold l b'"
  by (induction rule: batch_step.induct)
    (auto simp: limits_hold_def counters_hold_def holders_take holders_drop enter_call_def leave_call_def
      mock_enter_def mock_leave_def Let_def)

lemma jobs_of_memberD: "jobs_of t b = [] \<Longrightarrow> j \<in> set (queued b) \<union> set (holding b) \<Longrightarrow> job_task j \<noteq> t"
  by (auto simp: jobs_of_def filter_empty_conv)

lemma take_members:
  "j \<in> set (queued b) \<Longrightarrow>
     set (queued (take_slot j b)) \<union> set (holding (take_slot j b)) \<subseteq> set (queued b) \<union> set (holding b)"
  using set_remove1_subset [of j "queued b"] by (auto simp: take_slot_def)

lemma drop_members:
  "set (queued (drop_slot j b)) \<union> set (holding (drop_slot j b)) \<subseteq> set (queued b) \<union> set (holding b)"
  using set_remove1_subset [of j "holding b"] by (auto simp: drop_slot_def)

lemma take_jobs: "jobs_hold l b \<Longrightarrow> j \<in> set (queued b) \<Longrightarrow> jobs_hold l (take_slot j b)"
  using take_members [of j b] unfolding jobs_hold_def slot_frames jobs_of_take by blast

lemma drop_jobs:
  assumes "jobs_hold l b" "j \<in> set (holding b)"
  shows "jobs_hold l (drop_slot j b)"
proof -
  have "int (length (jobs_of t (drop_slot j b))) \<le> max 0 (max_parallel_nodes_per_task l)" for t
    using jobs_of_drop [OF assms(2), of t] assms(1) unfolding jobs_hold_def
    by (meson of_nat_mono order_trans)
  then show ?thesis using drop_members [of j b] assms(1) unfolding jobs_hold_def slot_frames by blast
qed

lemma jobs_hold_frames [simp]:
  "jobs_hold l (b\<lparr>sems := s\<rparr>) = jobs_hold l b" "jobs_hold l (b\<lparr>client := c\<rparr>) = jobs_hold l b"
  "jobs_hold l (b\<lparr>box := x\<rparr>) = jobs_hold l b"
  by (simp_all add: jobs_hold_def)

lemma step_jobs:
  "batch_step (max_parallel_nodes_per_task l) b b' \<Longrightarrow> jobs_hold l b \<Longrightarrow> jobs_hold l b'"
proof (induction rule: batch_step.induct)
  case (start_node t b n k)
  then show ?case by (auto simp: jobs_hold_def jobs_of_def)
next
  case (leave_task t b)
  then show ?case
    using jobs_of_memberD [OF leave_task.hyps(2)] by (auto simp: jobs_hold_def in_set_remove1)
qed (auto simp: take_jobs drop_jobs, auto simp: jobs_hold_def)

lemma step_tasks: "batch_step n b b' \<Longrightarrow> tasks_hold ids b \<Longrightarrow> tasks_hold ids b'"
  by (induction rule: batch_step.induct) (auto simp: tasks_hold_def distinct_remove1 dest: notin_set_remove1)

lemma start_inv:
  assumes "runtime_semaphores l = Inr s" "distinct ids"
  shows "batch_inv l ids (start_batch s ids responses delay)"
  using assms
  by (auto simp: batch_inv_def limits_hold_def counters_hold_def jobs_hold_def tasks_hold_def start_batch_def
      runtime_semaphores_def make_semaphore_def res_simps holders_def jobs_of_def mock_client_init_def
      split: if_splits)

lemma step_inv:
  "batch_step (max_parallel_nodes_per_task l) b b' \<Longrightarrow> batch_inv l ids b \<Longrightarrow> batch_inv l ids b'"
  unfolding batch_inv_def using step_limits step_counters step_jobs step_tasks by blast

lemma reaches_inv:
  assumes "batch_reaches (max_parallel_nodes_per_task l) b0 b" "batch_inv l ids b0"
  shows "batch_inv l ids b"
  using assms by (induction rule: batch_reaches.induct) (auto intro: step_inv)

section \<open>Progress\<close>

text \<open>
  Work in the system. Starting a node adds to it; every other step takes from it, and while
  anything is left one of those is enabled.
\<close>

definition work :: "batch \<Rightarrow> nat" where
  "work b = 2 * length (waiting_tasks b) + length (running_tasks b) + 2 * length (queued b) + length (holding b)"

lemma step_work:
  "batch_step n b b' \<Longrightarrow> work b' < work b \<or> (\<exists>t m k. b' = b\<lparr>queued := queued b @ [(t, m, k)]\<rparr>)"
proof (induction rule: batch_step.induct)
  case (enter_task t b)
  then show ?case using remove1_Suc [of t "waiting_tasks b"] by (simp add: work_def)
next
  case (enter_llm j b)
  then show ?case using remove1_Suc [of j "queued b"] by (simp add: work_def take_slot_def)
next
  case (enter_sandbox j b)
  then show ?case using remove1_Suc [of j "queued b"] by (simp add: work_def take_slot_def)
next
  case (leave_llm j b)
  then show ?case using remove1_Suc [of j "holding b"] by (simp add: work_def drop_slot_def)
next
  case (leave_sandbox j b)
  then show ?case using remove1_Suc [of j "holding b"] by (simp add: work_def drop_slot_def)
next
  case (leave_task t b)
  then show ?case using remove1_Suc [of t "running_tasks b"] by (simp add: work_def)
qed auto

lemma step_possible:
  assumes "batch_inv l ids b" "0 < work b"
    and "0 < max_parallel_benchmark_tasks l" "0 < max_parallel_llm_calls l" "0 < max_parallel_sandboxes l"
  shows "\<exists>b'. batch_step n b b' \<and> work b' < work b"
proof -
  have L: "limits_hold l b" "jobs_hold l b" using assms(1) by (simp_all add: batch_inv_def)
  have fewer: ?thesis if "batch_step n b b'" "queued b' = queued b \<or> length (queued b') < length (queued b)" for b'
  proof -
    have "work b' < work b" using step_work [OF that(1)] that(2) by auto
    then show ?thesis using that(1) by blast
  qed
  consider (hold) j where "j \<in> set (holding b)" | (queue) j where "holding b = []" "j \<in> set (queued b)"
    | (run) t where "holding b = []" "queued b = []" "t \<in> set (running_tasks b)"
    | (wait) t where "holding b = []" "queued b = []" "running_tasks b = []" "t \<in> set (waiting_tasks b)"
    using assms(2) unfolding work_def
    by (cases "holding b"; cases "queued b"; cases "running_tasks b"; cases "waiting_tasks b") auto
  then show ?thesis
  proof cases
    case hold
    show ?thesis
    proof (cases "job_slot j")
      case LlmSlot
      show ?thesis by (rule fewer [OF leave_llm [OF hold LlmSlot]]) (simp add: drop_slot_def)
    next
      case SandboxSlot
      show ?thesis by (rule fewer [OF leave_sandbox [OF hold SandboxSlot]]) (simp add: drop_slot_def)
    qed
  next
    case queue
    have len: "length (remove1 j (queued b)) < length (queued b)"
      using remove1_Suc [OF queue(2)] by simp
    have h: "holders k b = 0" for k using queue(1) by (simp add: holders_def)
    show ?thesis
    proof (cases "job_slot j")
      case LlmSlot
      have "0 < sem_llm (sems b)" using L(1) h assms(4) by (simp add: limits_hold_def)
      from fewer [OF enter_llm [OF queue(2) LlmSlot this]] len show ?thesis by (simp add: take_slot_def)
    next
      case SandboxSlot
      have "0 < sem_sandbox (sems b)" using L(1) h assms(5) by (simp add: limits_hold_def)
      from fewer [OF enter_sandbox [OF queue(2) SandboxSlot this]] len show ?thesis by (simp add: take_slot_def)
    qed
  next
    case run
    have "jobs_of t b = []" using run by (simp add: jobs_of_def)
    from fewer [OF leave_task [OF run(3) this]] show ?thesis by simp
  next
    case wait
    have "0 < sem_task (sems b)" using L(1) wait assms(3) by (simp add: limits_hold_def)
    from fewer [OF enter_task [OF wait(4) this]] show ?thesis by simp
  qed
qed

text \<open>When no work is left, every task is done and every slot is free again.\<close>

lemma no_work:
  assumes "batch_inv l ids b" "work b = 0"
  shows "set (done_tasks b) = set ids" "sem_task (sems b) = max_parallel_benchmark_tasks l"
    "sem_llm (sems b) = max_parallel_llm_calls l" "sem_sandbox (sems b) = max_parallel_sandboxes l"
  using assms by (simp_all add: batch_inv_def tasks_hold_def limits_hold_def holders_def work_def)

inductive_cases batch_stepE [elim]: "batch_step n b b'"

end
