(* ===== verification/Spec2Isabelle.thy ===== *)
theory Spec2Isabelle
  imports Example_Programs Semaphores
begin

text \<open>
  A model of \<open>orchestra\<close> (\<open>src/src/orchestra\<close>), a runtime that executes a graph of
  language-model agents, code transforms, test harnesses and selectors on one programming
  task at a time, stores every artifact they exchange, and can resume after a crash.

  How the parts fit. A graph (\<open>ir/graph.py\<close>, \<open>ir/nodes.py\<close>, \<open>ir/edges.py\<close>) names nodes with
  typed input and output slots and edges between slots, some of them gated by a condition on
  the artifact they carry. \<open>GraphCompiler\<close> checks it and sorts it into waves.
  \<open>NativeAsyncRuntime.execute\<close> keeps a \<open>RuntimeState\<close>; every turn of its loop asks the
  scheduler which nodes can never start and which are ready, runs the ready nodes through the
  executors, hands the results to \<open>WaveCommitter\<close>, which stores their artifacts and computes
  the next state, saves a checkpoint and logs events. The turn that fills the final slot
  freezes the run.

  The theories, in the order of their imports.

  \<^item> \<open>Prelude\<close>: the shared lists, dictionaries (\<open>'a dict\<close>, an association list with Python's
    insertion order), results (\<open>exc + 'a\<close>, every raise a value), and state actions
    (\<open>('w, 'a) io\<close>), with the locale \<open>world_order\<close> for relations that actions keep and
    \<open>world_view\<close> for the views of a world they leave alone.
  \<^item> \<open>PyFloat\<close>, \<open>PyText\<close>: binary64 division rounded to nearest even; \<open>str.strip\<close>, \<open>split\<close>.
  \<^item> \<open>Json\<close>, \<open>Json_Parse\<close>, \<open>Json_Roundtrip\<close>, \<open>Json_Layouts\<close>: \<open>json.dumps\<close>, its key-sorted
    canonical form, \<open>json.loads\<close>, and that reading gives back what was written. \<open>spelled\<close> is the
    relation between a value and its writings, with any blanks and any escapes; every layout
    the program writes (compact, with separators, indented, ASCII) is one of them.
  \<^item> \<open>Schemas\<close>, \<open>Artifacts\<close>: the payload classes of \<open>schemas/artifacts.py\<close> with their
    validation, and envelopes with a content hash (\<open>ir/artifacts.py\<close>).
  \<^item> \<open>Graph_IR\<close>, \<open>Graph_Dump\<close>, \<open>Graph_Load\<close>: graphs, conditions, contracts, the hash of a graph,
    and \<open>load_graph\<close> and \<open>load_contract\<close> from the parsed YAML on, with the classes' checks.
  \<^item> \<open>Compiler\<close>, \<open>Compiler_Props\<close>: \<open>GraphCompiler.compile\<close> and what it guarantees.
  \<^item> \<open>Runtime_State\<close>, \<open>Storage\<close>: the state records, the artifact store, checkpoints and event
    log over an explicit map from paths to contents.
  \<^item> \<open>Scheduler\<close>, \<open>Committer\<close>: \<open>runtime/scheduler.py\<close> and \<open>runtime/committer.py\<close>, with the
    invariant of the states between waves.
  \<^item> \<open>Prompts\<close>, \<open>Executors\<close>: the parsers of model answers and the four executors behind
    \<open>NodeExecutorRegistry\<close>, with the locale \<open>node_executor\<close> for what a result promises.
  \<^item> \<open>Runtime\<close>, \<open>Runtime_Props\<close>: \<open>runtime/native_async.py\<close> and what a run guarantees;
    \<open>Run_Invariant\<close>, \<open>Run_Correct\<close>, \<open>Run_Events\<close>, \<open>Run_Live\<close>, \<open>Critical_Path\<close>: the invariant of a
    run over state and world, restarts, what the log says, when a run returns, and the longest
    path of its result.
  \<^item> \<open>Py_Values\<close>: the operations of Python's built-in types on parsed JSON.
  \<^item> \<open>Sandbox\<close>, \<open>Worker\<close>, \<open>Official_Sandbox\<close>: the backends behind the harness. The locale
    \<open>sandbox_backend\<close> says what a report must satisfy; the mock and the docker backend are
    interpretations, and \<open>official_backend\<close> shows it for client and worker together.
  \<^item> \<open>LLM_Clients\<close>: the mock client and the HTTP client with its retries.
  \<^item> \<open>Semaphores\<close>: the limits of \<open>runtime/limits.py\<close> under every interleaving of a batch, as a
    step relation with an invariant and a progress lemma.
  \<^item> \<open>LCB_Data\<close>, \<open>LCB_Manifest\<close>: the data set (\<open>adapters/livecodebench/loader.py\<close>), where private
    tests go to a repository of their own, and the manifest of a benchmark (\<open>mapper.py\<close>,
    \<open>cli/prepare_lcb.py\<close>).
  \<^item> \<open>Config_Env\<close>: \<open>config.py\<close>, \<open>settings.py\<close> and the files of \<open>ir/contracts.py\<close>.
  \<^item> \<open>Batch_Run\<close>: \<open>cli/run.py\<close>: the tasks of a batch one after another, and that the invariant of
    each survives the others; \<open>Batch_Live\<close>: when such a batch returns.
  \<^item> \<open>Final_Evaluation\<close>, \<open>Summary\<close>: \<open>cli/evaluate.py\<close> with the evaluator and the exporter, and
    \<open>telemetry/summary.py\<close>, which reads back what both commands wrote.
  \<^item> \<open>Worker_Protocol\<close>: the two JSON files between the sandbox and its worker process
    (\<open>sandbox/lcb_protocol.py\<close>, \<open>sandbox/result.py\<close>), as codecs for client and worker.
  \<^item> \<open>Run_Files\<close>, \<open>Event_Log\<close>: envelopes, states, results, evaluations and events as the JSON text
    of their files, each read back, and what the summary counts in the text of the log.
  \<^item> \<open>Run_Manifest\<close>: \<open>run_manifest.json\<close>, the one file that carries the run command's plan to the
    evaluation command, written by \<open>cli/run.py\<close> and validated again by \<open>cli/evaluate.py\<close>.
  \<^item> \<open>Command_Line\<close>, \<open>Mock_Run\<close>: the run command as a whole, from its arguments and parsed input
    files to its exit (\<open>plan_run\<close>, the dry run, the choice of client and sandbox, the batch), the
    scripted answers of \<open>--mock-llm\<close>, and \<open>cli/validate_graph.py\<close>.
  \<^item> \<open>Argparse\<close>: the part of \<open>argparse\<close> the commands use, abbreviations, clusters and separators
    included; \<open>Programs\<close>: the five \<open>main\<close> functions with their options, printed lines and
    exit status.
  \<^item> \<open>Codec\<close>, \<open>Examples\<close>, \<open>Example_Run\<close>, \<open>Example_Live\<close>, \<open>Example_Batch\<close>, \<open>Example_Data\<close>,
    \<open>Example_Command\<close>, \<open>Example_Programs\<close>: concrete platforms, graphs, services, worlds and data; they show that the hypotheses of the
    properties can hold.

  What is a parameter. The record \<open>platform\<close> holds what the code takes from libraries it does
  not contain: \<open>sha256\<close>, the text of a float, and the scalar coercions of pydantic, of which
  the hypothesis \<open>pydantic_ok\<close> states only that a value of the declared type is accepted
  unchanged. The record \<open>services\<close> holds the model client, the sandbox, \<open>py_compile\<close>, the
  clock and the stamps of artifacts. The record \<open>host\<close> adds how a file's text is written and
  read; \<open>host_ok\<close> asks that reading gives back what was written. \<open>Run_Files\<close> has the JSON formats
  the code uses; they give back every value that is well formed (a time stamp pydantic writes as
  it read it, an object as payload) and that JSON can hold (distinct keys, integers of at most
  4300 digits, floats that their text determines).

  Fuel and termination. The JSON reader takes fuel, and \<open>json_loads\<close> gives it as much as the
  text is long, which \<open>json_loads_fuel\<close> shows to be enough. The loop over waves, the loop of
  Kahn's algorithm and the reachability loop are total functions with their measures.

  Interleaving. The nodes of a wave run as concurrent tasks. They read the inputs they were
  given and return a result; none of them writes to the store, the log or the state, so the
  model runs them in order and the order in which results arrive is a permutation. The tasks
  of a batch write only under their own directory (\<open>execute_isolated\<close>); \<open>run_batch\<close> takes them
  in order, and \<open>Semaphores\<close> has the interleavings with respect to the limits.

  What crosses components. The run command leaves worlds the other commands can read:
  \<open>run_outcome\<close> and \<open>frozen_evaluated\<close> follow a task from the run into its evaluation,
  \<open>run_handover\<close> follows the configuration, the tasks and the graph through the manifest of the
  run, \<open>evaluation_again\<close> and \<open>score_agrees\<close> follow the evaluation into a second one and into the
  summary. Private tests leave the repository only towards the worker (\<open>hidden_tests\<close>) and come
  back as one bit (\<open>one_bit\<close>); \<open>worker_wire\<close> and \<open>worker_refuses\<close> say what the request file carries.
  \<open>command_line\<close> leads from the text of the options to the run, \<open>prepare_excludes\<close> from one prepared
  manifest to the next, \<open>log_totals\<close> from the log on disk to the summary. \<open>mock_finishes\<close>
  composes the scripted client, the prompts and parsers, the executors, the runtime and the batch
  into a run that returns.

  Not modelled: \<open>yaml.safe_load\<close> (the input files start as parsed values), the clock,
  directories, owners and temporary files, the container, HTTP and hashing libraries, the
  pinned checker, the texts of usage and help messages and of tracebacks. Identifiers are taken
  to be free of path and glob characters (\<open>FileArtifactStore.get\<close> looks them up with a glob).
  \<open>CodingInputArtifact\<close>, \<open>ArtifactProvenance\<close>, \<open>TERMINAL\<close> and \<open>OrchestraGraph.clone\<close> are not used by any
  code; the abstract classes and protocols are the locales \<open>artifact_store\<close>, \<open>node_executor\<close> and
  \<open>sandbox_backend\<close>, and the constructors that only keep their arguments are the records of the model.
\<close>

section \<open>Properties\<close>

text \<open>
  C1: In a graph the compiler accepts, every edge leaves a declared output slot and enters a
  declared input slot of the same schema, and its condition, if any, starts at a field the
  schema declares.
\<close>

theorem compile_edges:
  assumes "compile env g = Inr cg" "e \<in> set (edges g)"
  shows "\<exists>src dst ty. dget (node_map g) (source_node e) = Some src
    \<and> dget (node_map g) (destination_node e) = Some dst
    \<and> dget (output_slots src) (source_output e) = Some ty
    \<and> dget (input_slots dst) (destination_input e) = Some ty
    \<and> (\<forall>c. condition e = Some c \<longrightarrow>
         (\<exists>fs. dget payload_schemas ty = Some fs \<and> hd (split_on CHR ''.'' (source_field c)) \<in> set fs))"
  using assms unfolding compile_Inr_iff edge_ok_def by blast

theorem compile_edges_witness:
  "\<exists>src dst ty. dget (node_map b0) ''direct_coder'' = Some src \<and> dget (node_map b0) ''code_parser'' = Some dst
    \<and> dget (output_slots src) ''code'' = Some ty \<and> dget (input_slots dst) ''code'' = Some ty"
  using compile_edges [OF b0_compiles, of "hd (edges b0)"] by (auto simp: b0_def)

text \<open>
  C2: The waves of a compiled graph contain every node exactly once, none is empty, and
  every edge leads from a wave to a strictly later one.
\<close>

theorem compile_waves:
  assumes "compile env g = Inr cg"
  shows "distinct (concat (waves cg)) \<and> set (concat (waves cg)) = set (node_ids g)
    \<and> (\<forall>w \<in> set (waves cg). w \<noteq> [])
    \<and> (\<forall>e \<in> set (edges g). wave_index (waves cg) (source_node e) < wave_index (waves cg) (destination_node e))"
  by (rule compiled_waves [OF assms])

theorem compile_waves_witness:
  "distinct (concat (waves b1_compiled)) \<and> set (concat (waves b1_compiled)) = set (node_ids b1)
    \<and> wave_index (waves b1_compiled) ''same_coder_repair'' < wave_index (waves b1_compiled) ''repair_to_code''"
  using compile_waves [OF b1_compiles] by (auto simp: b1_def)

text \<open>
  C3: On a graph with distinct node identifiers and checked edges, the loop that counts down
  in-degrees visits every node exactly when the edges form an acyclic relation.
\<close>

theorem compile_cycles:
  assumes "distinct (node_ids g)" "scan_edges (node_map g) (edges g) empty_tables = Inr t"
  shows "length (concat (kahn (adjacency t) (indegree t)
      (sort (filter (\<lambda>n. indegree t n = 0) (node_ids g))))) = length (node_ids g)
    \<longleftrightarrow> acyclic ((\<lambda>e. (source_node e, destination_node e)) ` set (edges g))"
  by (rule visited_iff_acyclic [OF assms])

theorem compile_cycles_witness:
  "acyclic ((\<lambda>e. (source_node e, destination_node e)) ` set (edges b0))"
proof -
  obtain t where t: "scan_edges (node_map b0) (edges b0) empty_tables = Inr t"
    "distinct (node_ids b0)"
    "length (concat (kahn (adjacency t) (indegree t) (sort (filter (\<lambda>n. indegree t n = 0) (node_ids b0))))) = 3"
    by (rule b0_tables)
  then show ?thesis using compile_cycles [OF t(2,1)] by (simp add: b0_def node_ids_def)
qed

text \<open>
  C4: An artifact that \<open>create_artifact\<close> makes from a model whose literal
  fields have declared values can be put into the file store under an identifier no file
  has; getting it parses the JSON text of its file and returns exactly this envelope, and
  its payload passes the check of its digest and gives the model back.
\<close>

theorem artifact_round_trip:
  assumes "pydantic_ok (pyd P)" "wf_model m" "D (JStr (utc_now st)) = Some (utc_now st)"
    and "a = create_artifact P st m producer task parents" "writable (float_repr P) (dump_artifact_envelope a)"
    and "artifact_matches w (artifact_id a) = []"
  shows "\<exists>w'. put_artifact (json_run_host P D ord) a w = (Inr (), w')
    \<and> get_artifact (json_run_host P D ord) (artifact_id a) w' = (Inr a, w')
    \<and> validate_payload P a = Inr m"
proof -
  have v: "validate_payload P a = Inr m" unfolding assms(4) by (rule validate_create [OF assms(1,2)])
  have "wf_envelope D a" unfolding assms(4) by (rule wf_created) (rule assms(3))
  from json_put_get [OF assms(1) this assms(5) _ assms(6)] v show ?thesis by (simp add: valid_artifact_def)
qed

theorem artifact_round_trip_witness:
  "\<exists>a w'. put_artifact (json_run_host example_platform (\<lambda>_. Some ''now'') sorted_list_of_set) a empty_world = (Inr (), w')
     \<and> get_artifact (json_run_host example_platform (\<lambda>_. Some ''now'') sorted_list_of_set) (artifact_id a) w' = (Inr a, w')
     \<and> validate_payload example_platform a = Inr (MCode (code_of ''pass'' ''n''))"
proof -
  let ?st = "\<lparr>uuid_hex = ''0a'', utc_now = ''now''\<rparr>"
  let ?a = "create_artifact example_platform ?st (MCode (code_of ''pass'' ''n'')) ''n'' ''t'' []"
  have "wf_model (MCode (code_of ''pass'' ''n''))" by (simp add: code_of_def wf_code_def)
  moreover have "writable (float_repr example_platform) (dump_artifact_envelope ?a)"
    by (simp add: dump_artifact_envelope_def dump_code_def code_of_def dump_opt_def)
  moreover have "artifact_matches empty_world (artifact_id ?a) = []" by (simp add: artifact_matches_def empty_world_def)
  ultimately show ?thesis
    using artifact_round_trip [OF example_pydantic _ _ refl, of "MCode (code_of ''pass'' ''n'')" "\<lambda>_. Some ''now''" ?st] by fastforce
qed

text \<open>
  C5: A JSON answer surrounded by prose that has no opening brace before it and no closing
  brace after it is parsed to exactly the model it spells out. The JSON may have blanks
  anywhere JSON allows them and any escapes in its strings (spelled); the layouts json.dumps
  produces, compact, with separators, or indented, in ASCII or not, are among these
  writings.
\<close>

theorem parse_json_round_trip:
  assumes "pydantic_ok (pyd P)" "wf_model m" "writable repr (model_dump m)"
    and "spelled repr (model_dump m) t \<or> t \<in> {dumps repr (model_dump m), dumps_plain repr (model_dump m),
      dumps_indent ascii_json_string repr 0 (model_dump m), dumps_indent json_string repr 0 (model_dump m)}"
    and "CHR ''{'' \<notin> set pre" "CHR ''}'' \<notin> set post" "pid \<noteq> ''python_code''"
  shows "parse_output P pid (pre @ t @ post) (type_name m) src = Inr m"
proof (rule parse_json_spelled [OF assms(1,2) _ assms(5-7)])
  show "spelled repr (model_dump m) t"
    using assms(4) dumps_spelled [OF assms(3)] dumps_plain_spelled [OF assms(3)]
      dumps_indent_spelled [OF spells_ascii assms(3)] dumps_indent_spelled [OF spells_json_string assms(3)] by auto
qed

theorem parse_json_round_trip_witness:
  "let m = MRepair \<lparr>re_schema_version = ''1.0'', re_diagnosis = ''d'', re_changes = [''c''], re_revised_code = ''pass''\<rparr>
   in parse_output example_platform ''json'' (''Sure: '' @ dumps_indent ascii_json_string (\<lambda>x. []) 0 (model_dump m) @ '' done'')
        ''RepairArtifact'' ''n'' = Inr m"
  using parse_json_round_trip [of example_platform "MRepair
     \<lparr>re_schema_version = ''1.0'', re_diagnosis = ''d'', re_changes = [''c''], re_revised_code = ''pass''\<rparr>"
     "\<lambda>x. []" _ "''Sure: ''" "'' done''" "''json''" "''n''"]
  by (simp add: example_platform_def strict_pydantic_ok dump_repair_def Let_def del: dumps.simps dumps_indent.simps)

text \<open>
  C6: Committing a wave is independent of the order of its results: with one result per node
  and artifacts that belong to the task, any permutation yields the same state and lists and
  a store that returns the same artifacts.
\<close>

theorem commit_order:
  assumes "mset rs = mset rs'" "distinct (map res_node_id rs)" "store_inv H w" "wave_admitted w t rs"
    and "commit_wave H g prev rs w = (Inr c, w1)"
  shows "\<exists>w2. commit_wave H g prev rs' w = (Inr c, w2) \<and> stored_artifact H w2 = stored_artifact H w1"
  by (rule commit_wave_perm [OF assms])

theorem commit_order_witness:
  "\<exists>w2. commit_wave example_host b0 two_running [fail_b, fail_a] empty_world
      = (Inr both_failed, w2) \<and> stored_artifact example_host w2 = stored_artifact example_host empty_world"
  by (rule commit_order [where rs = "[fail_a, fail_b]" and t = "''t''"])
    (simp_all add: both_failed_commit both_failed_ids)


text \<open>
  C8: Whatever a model or a sandbox answers, a result the registry returns names its node;
  if it succeeded it carries exactly one valid artifact, in the node's first output slot, of
  the task, produced by the node from the artifacts it was given; if it failed it carries
  none.
\<close>

theorem executor_output:
  assumes "pydantic_ok (pyd P)" "execute_safely P S X ctx n inputs = Inr r"
  shows "res_node_id r = node_id n \<and> (\<not> succeeded r \<longrightarrow> outputs r = [])
    \<and> (succeeded r \<longrightarrow> (\<exists>slot ty rest a. output_slots n = (slot, ty) # rest \<and> outputs r = [(slot, a)]
         \<and> (\<exists>m. validate_payload P a = Inr m) \<and> env_task_id a = ctx_task_id ctx \<and> producer_node_id a = node_id n
         \<and> artifact_id a = ctx_task_id ctx @ ''-'' @ node_id n @ ''-'' @ uuid_hex (stamp_for S (node_id n))
         \<and> parent_artifact_ids a = map artifact_id (dvalues inputs)))"
  using registry.run_produced [OF assms] unfolding produced_def valid_artifact_def artifact_name_def .

theorem executor_output_witness:
  "\<exists>r. execute_safely example_platform example_services example_executors example_context (hd (nodes b0)) [] = Inr r
    \<and> res_node_id r = ''direct_coder'' \<and> succeeded r"
proof -
  obtain r where r: "execute_safely example_platform example_services example_executors example_context (hd (nodes b0)) [] = Inr r"
    "succeeded r" by (rule example_agent_run)
  then show ?thesis using executor_output [OF _ r(1)] by (auto simp: example_platform_def strict_pydantic_ok b0_def)
qed

text \<open>
  C9: Whatever the executors answer, a run that returns, fresh or resumed, returns a frozen
  state whose final output is an artifact in the store, of the task, written into the final
  slot by a node that succeeded.
\<close>

theorem run_final_output:
  assumes "execute R cg bundle ctx w = (Inr res, w')" "sound_setup R (graph cg)"
    and "resumable (rt_host R) (graph cg) (ctx_task_id ctx) w" "bundle_ok (ctx_task_id ctx) w bundle"
  shows "frozen (final_state res) \<and> (\<exists>a nd ty rest.
      final_output_artifact_id (final_state res) = Some (artifact_id a)
    \<and> stored_artifact (rt_host R) w' (artifact_id a) = Some a \<and> env_task_id a = ctx_task_id ctx
    \<and> nd \<in> set (nodes (graph cg)) \<and> producer_node_id a = node_id nd
    \<and> output_slots nd = (final_output_slot (graph cg), ty) # rest
    \<and> dget (node_status (final_state res)) (node_id nd) = Some Succeeded)"
  using execute_returns [OF assms] frozen_final_artifact by metis

theorem run_final_output_witness:
  "\<exists>res w' a. execute example_runtime b0_compiled example_bundle example_context empty_world = (Inr res, w')
    \<and> final_output_artifact_id (final_state res) = Some (artifact_id a) \<and> stored_artifact example_host w' (artifact_id a) = Some a"
proof -
  obtain res w' where r: "execute example_runtime b0_compiled example_bundle example_context empty_world = (Inr res, w')"
    by (rule example_returns)
  show ?thesis using run_final_output [OF r b0_sound] empty_world_resumable example_bundle_ok r by fastforce
qed

text \<open>
  C10: In the state a run returns, a conditional edge is active exactly when the artifact
  its source stored satisfies its condition; it is decided exactly when the source
  succeeded, and never both ways.
\<close>

theorem run_branches:
  assumes "execute R cg bundle ctx w = (Inr res, w')" "sound_setup R (graph cg)"
    and "resumable (rt_host R) (graph cg) (ctx_task_id ctx) w" "bundle_ok (ctx_task_id ctx) w bundle"
    and "e \<in> set (edges (graph cg))" "condition e = Some cond"
  shows "(edge_id e \<in> active_edges (final_state res) \<longleftrightarrow>
      (\<exists>outs aid a. dget (node_outputs (final_state res)) (source_node e) = Some outs \<and> dget outs (source_output e) = Some aid
        \<and> stored_artifact (rt_host R) w' aid = Some a \<and> evaluate cond (payload a) = Inr True))
    \<and> (edge_id e \<in> active_edges (final_state res) \<union> inactive_edges (final_state res) \<longleftrightarrow>
        dget (node_status (final_state res)) (source_node e) = Some Succeeded)
    \<and> active_edges (final_state res) \<inter> inactive_edges (final_state res) = {}"
proof -
  have C: "run_core (rt_host R) (graph cg) (ctx_task_id ctx) (final_state res) w'"
    using execute_returns(2) [OF assms(1-4)] by (simp add: run_inv_def)
  have T: "edge_id e \<in> active_edges (final_state res)
      \<longleftrightarrow> condition_holds (stored_artifact (rt_host R) w') (final_state res) e"
    using C assms(5,6) unfolding run_core_def edges_true_def by blast
  have D: "edges_decided (graph cg) (final_state res)" using C unfolding run_core_def state_inv_def by blast
  show ?thesis
    using T D assms(5,6) unfolding condition_holds_def edges_decided_def edge_decided_def by auto
qed

theorem run_branches_witness:
  "\<exists>outs aid a. dget (node_outputs gated_state) ''direct_coder'' = Some outs \<and> dget outs ''code'' = Some aid
    \<and> stored_artifact example_host gated_world aid = Some a
    \<and> evaluate \<lparr>source_field = ''language'', operator = Equals, cond_value = JStr ''python''\<rparr> (payload a) = Inr True"
proof -
  obtain res where r: "execute example_runtime gated_compiled [] example_context gated_world = (Inr res, gated_world)"
    "final_state res = gated_state" by (rule gated_returns)
  have "hd (edges gated) \<in> set (edges gated)" by (simp add: gated_def)
  from run_branches [OF r(1) gated_sound, of "hd (edges gated)"] this show ?thesis
    using r(2) gated_resumable by (simp add: bundle_ok_def gated_compiled_def) (simp add: gated_def gated_state_def)
qed

text \<open>
  C11: A run that starts in a resumable world ends in one, whether it returns or raises: the
  store is consistent and the checkpoint, if there is one, was written by a state that
  satisfies the invariant of a run.
\<close>

theorem crash_safe:
  assumes "sound_setup R (graph cg)" "resumable (rt_host R) (graph cg) (ctx_task_id ctx) w" "bundle_ok (ctx_task_id ctx) w bundle"
  shows "resumable (rt_host R) (graph cg) (ctx_task_id ctx) (snd (execute R cg bundle ctx w))"
  by (rule execute_resumable [OF assms])

theorem crash_safe_witness:
  "resumable example_host b0 ''t'' (snd (execute example_runtime b0_compiled example_bundle example_context empty_world))"
  using crash_safe [of example_runtime b0_compiled example_context empty_world example_bundle]
  by (simp add: b0_sound [unfolded b0_compiled_graph] empty_world_resumable example_bundle_ok b0_compiled_graph)



text \<open>
  C13: After any number of completed waves the invariant of a run holds, nothing decided or
  produced before was taken back, and either no wave ran or the checkpoint on disk is the
  state of the last one.
\<close>

theorem wave_invariant:
  assumes "waves_done R g ctx st w st' w'" "sound_setup R g" "run_inv (rt_host R) g (ctx_task_id ctx) st w"
  shows "run_inv (rt_host R) g (ctx_task_id ctx) st' w' \<and> state_le st st'
    \<and> (st' = st \<and> w' = w \<or> file_at w' (CheckpointFile (ctx_task_id ctx)) = Some (dump_state (rt_host R) st'))"
  by (rule waves_done_inv [OF assms])

theorem wave_invariant_witness:
  "\<exists>st w. run_inv example_host b0 ''t'' st w \<and> wave_id st = 1"
proof -
  obtain w1 st1 w2 where w: "run_inv example_host b0 ''t'' (initial_state example_platform b0 example_bundle example_context) w1"
    "wave_step example_runtime b0 example_context (initial_state example_platform b0 example_bundle example_context) w1
       = (Inr (More st1), w2)"
    "\<not> frozen (initial_state example_platform b0 example_bundle example_context)"
    by (rule example_first_wave)
  have waves: "waves_done example_runtime b0 example_context
      (initial_state example_platform b0 example_bundle example_context) w1 st1 w2"
    by (rule waves_done.one_more [OF waves_done.no_wave w(3,2)])
  have ids: "distinct (node_ids b0)" "distinct (edge_ids b0)" using compiled_distinct(1,2) [OF b0_compiles] .
  have "wave_id st1 = 1"
    using wave_step_inv(3) [of example_runtime b0 example_context _ w1, OF _ ids w(2)] w(1) by (simp add: initial_state_def)
  then show ?thesis using wave_invariant [OF waves] b0_sound w(1) by (auto simp: b0_compiled_graph)
qed

text \<open>
  C14: The number of waves completed plus the nodes still pending never exceeds the nodes
  pending at the start: the loop ends, and the checkpoint counter counts the waves.
\<close>

theorem wave_bound:
  assumes "waves_done R g ctx st w st' w'" "sound_setup R g" "run_inv (rt_host R) g (ctx_task_id ctx) st w"
  shows "(wave_id st' - wave_id st) + int (card (pending_nodes st')) \<le> int (card (pending_nodes st))
    \<and> wave_id st' - wave_id st = checkpoint_count st' - checkpoint_count st"
  using waves_done_count [OF assms] by linarith

theorem wave_bound_witness:
  "\<exists>st1. int (card (pending_nodes st1)) < int (card (pending_nodes (initial_state example_platform b0 example_bundle example_context)))"
proof -
  obtain w1 st1 w2 where w: "run_inv example_host b0 ''t'' (initial_state example_platform b0 example_bundle example_context) w1"
    "wave_step example_runtime b0 example_context (initial_state example_platform b0 example_bundle example_context) w1
       = (Inr (More st1), w2)"
    "\<not> frozen (initial_state example_platform b0 example_bundle example_context)"
    by (rule example_first_wave)
  have waves: "waves_done example_runtime b0 example_context
      (initial_state example_platform b0 example_bundle example_context) w1 st1 w2"
    by (rule waves_done.one_more [OF waves_done.no_wave w(3,2)])
  have ids: "distinct (node_ids b0)" "distinct (edge_ids b0)" using compiled_distinct(1,2) [OF b0_compiles] .
  have "wave_id st1 = wave_id (initial_state example_platform b0 example_bundle example_context) + 1"
    using wave_step_inv(3) [of example_runtime b0 example_context _ w1, OF _ ids w(2)] w(1) by simp
  then show ?thesis using wave_bound [OF waves] b0_sound w(1) by (auto simp: b0_compiled_graph intro!: exI [of _ st1])
qed

text \<open>
  C15: On a compiled graph with unconditional edges and one output slot per node, when every
  node answers inputs of its declared schemas with an output of its declared schema and
  identifiers are fresh, a run returns: there is no deadlock and no exception.
\<close>

theorem run_succeeds:
  assumes "live_setup R env cg ctx" "store_inv (rt_host R) w" "ids_free (ctx_task_id ctx) (graph cg) w"
    and "file_at w (CheckpointFile (ctx_task_id ctx)) = None" "bundle_ok (ctx_task_id ctx) w bundle"
    and "typed_bundle (plat (rt_host R)) (graph cg) bundle" "new_ids R (graph cg) ctx bundle w"
  shows "\<exists>res w'. execute R cg bundle ctx w = (Inr res, w')"
  by (rule execute_succeeds [OF assms])

theorem run_succeeds_witness:
  "\<exists>res w'. execute example_runtime b0_compiled example_bundle example_context empty_world = (Inr res, w')"
  by (rule run_succeeds [OF b0_live])
    (simp_all add: b0_compiled_graph ids_free_def example_bundle_ok example_typed_bundle example_new_ids)

text \<open>
  C16: Whatever the executors answer and however the run ends, every artifact stored before
  keeps its text and the log only grows at its end.
\<close>

theorem nothing_taken_back:
  "artifacts_le w (snd (execute R cg bundle ctx w)) \<and> log_le w (snd (execute R cg bundle ctx w))"
  using immutable.keeps_snd [OF execute_keeps(1)] append_only.keeps_snd [OF execute_keeps(2)] by blast

text \<open>
  C17: With nonnegative latencies, the critical path latency of the result is the latency of
  some path of the graph, and no path of the graph has a greater one.
\<close>

theorem critical_path:
  assumes "compile env g = Inr cg" "\<forall>n. 0 \<le> latency_of st n"
  shows "(\<exists>ns. is_path g ns \<and> path_latency st ns = critical_path_latency_ms (make_result cg st wall))
    \<and> (\<forall>ns. is_path g ns \<longrightarrow> path_latency st ns \<le> critical_path_latency_ms (make_result cg st wall))"
  by (rule longest_path_latency [OF assms])

theorem critical_path_witness:
  "3 \<le> critical_path_latency_ms (make_result b0_compiled (two_running\<lparr>node_latencies_ms := [(''code_parser'', 3)]\<rparr>) 9)"
proof -
  let ?st = "two_running\<lparr>node_latencies_ms := [(''code_parser'', 3)]\<rparr>"
  have "\<forall>n. 0 \<le> latency_of ?st n" by (simp add: latency_of_def)
  moreover have "is_path b0 [''code_parser'']" "path_latency ?st [''code_parser''] = 3"
    by (simp_all add: is_path_def b0_def node_ids_def path_latency_def latency_of_def)
  ultimately show ?thesis using critical_path [OF b0_compiles, of ?st 9] by metis
qed

text \<open>
  C18: The ready nodes are distinct, sorted, at most \<open>max_parallel\<close> many, all
  pending with every input resolved; when there are fewer than \<open>max_parallel\<close>,
  every node of that kind is among them.
\<close>

theorem ready_nodes:
  assumes "distinct (node_ids g)" "find_ready_nodes m g st = Inr ready" "0 \<le> m"
  shows "distinct ready \<and> sorted ready \<and> int (length ready) \<le> m
    \<and> (\<forall>nid \<in> set ready. \<exists>n \<in> set (nodes g). node_id n = nid \<and> dget (node_status st) nid = Some Pending
         \<and> (\<forall>slot \<in> set (dkeys (input_slots n)). resolve_slot g st nid slot \<noteq> None))
    \<and> (int (length ready) < m \<longrightarrow> (\<forall>n \<in> set (nodes g). dget (node_status st) (node_id n) = Some Pending
         \<and> (\<forall>slot \<in> set (dkeys (input_slots n)). resolve_slot g st (node_id n) slot \<noteq> None) \<longrightarrow> node_id n \<in> set ready))"
  using ready_distinct [OF assms(1,2)] ready_length [OF assms(2,3)] ready_complete [OF assms]
    ready_memberD [OF assms(1,2)] by metis

theorem ready_nodes_witness:
  "int (length [''direct_coder'']) \<le> (4::int) \<and> dget (node_status (initial_state example_platform b0 example_bundle example_context)) ''direct_coder'' = Some Pending"
  using ready_nodes [OF compiled_distinct(1) [OF b0_compiles] example_ready] by force





text \<open>
  C21: The file store refines a map from identifiers to artifacts: putting a valid artifact
  under a free identifier adds exactly that entry, putting it again changes nothing, putting
  a different one under its identifier or an invalid one raises and changes nothing, and
  getting reads the entry or raises.
\<close>

theorem store_contract:
  assumes "store_inv H w" "admits_artifact w a"
  shows "(valid_artifact (plat H) a \<and> stored_artifact H w (artifact_id a) = None \<longrightarrow>
        (\<exists>w'. put_artifact H a w = (Inr (), w') \<and> store_inv H w' \<and> stored_artifact H w' = (stored_artifact H w)(artifact_id a \<mapsto> a)))
    \<and> (valid_artifact (plat H) a \<and> stored_artifact H w (artifact_id a) = Some a \<longrightarrow> put_artifact H a w = (Inr (), w))
    \<and> (\<not> valid_artifact (plat H) a \<or> (\<exists>b. stored_artifact H w (artifact_id a) = Some b \<and> b \<noteq> a) \<longrightarrow>
        (\<exists>e. put_artifact H a w = (Inl e, w)))
    \<and> (case stored_artifact H w i of Some b \<Rightarrow> get_artifact H i w = (Inr b, w) | None \<Rightarrow> \<exists>e. get_artifact H i w = (Inl e, w))"
proof -
  have "\<exists>e. put_artifact H a w = (Inl e, w)" if "stored_artifact H w (artifact_id a) = Some b" "b \<noteq> a" for b
    using file_store.put_invalid [of H a w] file_store.put_conflict [OF assms(1) _ assms(2) that] by blast
  then show ?thesis
    using file_store.put_new [OF assms(1) _ assms(2)] file_store.put_same [OF assms(1) _ assms(2)]
      file_store.put_invalid [of H a w] file_store.get_stored [OF assms(1)] file_store.get_missing [OF assms(1)]
    by (auto split: option.split)
qed

theorem store_contract_witness:
  "\<exists>w'. put_artifact example_host (snd (hd example_bundle)) empty_world = (Inr (), w')
    \<and> stored_artifact example_host w' (artifact_id (snd (hd example_bundle))) = Some (snd (hd example_bundle))"
  using store_contract [OF empty_world_inv, of "snd (hd example_bundle)" "[]"]
  by (auto simp: example_bundle_def example_problem_valid)





text \<open>
  C24: In a directory that holds the manifest a run wrote, the evaluation command sets
  itself up with exactly the configuration, the task identifiers of the whole manifest, the
  commit and the graph identifier of the plan: what was dumped, printed with indentation and
  in ASCII, is parsed and validated back to the same values.
\<close>

theorem run_handover:
  assumes "pydantic_ok (pyd (rm_plat M))" "plan_run M env A p = Inr pl" "plan_writable M pl"
    and "file_at w manifest_file = Some (plan_manifest M pl rid)"
  shows "evaluate_command (rm_machine M) w =
    bnd (lift (evaluation_setup (rm_machine M)
          \<lparr>rr_config = rp_config pl, rr_ids = map me_question_id (mf_entries (rp_manifest pl)),
           rr_commit = mf_commit (rp_manifest pl), rr_graph_id = graph_id (graph (rp_compiled pl))\<rparr>))
      (\<lambda>J. evaluate_run J (map me_question_id (mf_entries (rp_manifest pl)))) w"
  using run_then_evaluate [OF assms] by (simp add: plan_record_def)

lemma run_handover_witness:
  "evaluate_command cmd_machine (write_text manifest_file (plan_manifest cmd_run cmd_plan ''r'') empty_world) =
    bnd (lift (evaluation_setup cmd_machine
          \<lparr>rr_config = cmd_config, rr_ids = [''q'', ''z''], rr_commit = ''c'', rr_graph_id = ''b0_direct''\<rparr>))
      (\<lambda>J. evaluate_run J [''q'', ''z'']) (write_text manifest_file (plan_manifest cmd_run cmd_plan ''r'') empty_world)"
proof -
  have "file_at (write_text manifest_file t empty_world) manifest_file = Some t" for t by simp
  from run_handover [OF _ cmd_planned cmd_writable this] show ?thesis
    by (simp add: cmd_plan_def cmd_manifest_def cmd_entry_def) (simp add: cmd_graph_def b0_def)
qed

text \<open>
  C25: After a run with --task-id or --limit that left out a task of the manifest, which had
  no result before, the evaluation command always raises, because it goes through all tasks
  of the manifest; it has then written verdicts only, so that predictions.json is as it was.
  Tasks that were evaluated before the failure keep their verdict.
\<close>

theorem partial_evaluation:
  assumes "pydantic_ok (pyd (rm_plat M))" "plan_run M env A p = Inr pl" "distinct (rp_ids pl)" "plan_writable M pl"
    and "startable A (rm_host M) (graph (rp_compiled pl)) (rp_ids pl) w"
    and "run_command M env A p w = (Inr (Finished rs), w1)"
    and "q \<in> set (map me_question_id (mf_entries (rp_manifest pl)))" "q \<notin> set (select_ids A (rp_manifest pl))"
    and "file_at w (result_file q) = None"
  shows "\<exists>e w2. evaluate_command (rm_machine M) w1 = (Inl e, w2)
    \<and> file_at w2 (RunFile ''predictions.json'') = file_at w1 (RunFile ''predictions.json'')"
proof -
  have ids: "rp_ids pl = select_ids A (rp_manifest pl)" by (rule plan_runE [OF assms(2)])
  obtain rid where m: "file_at w1 manifest_file = Some (plan_manifest M pl rid)"
    using run_leaves(3) [OF assms(1-3,5,6)] by blast
  have "file_at w1 (result_file q) = None"
    by (rule run_leaves(4) [OF assms(1-3,5,6)]) (use assms(8,9) ids in auto)
  from partial_run_not_evaluated [OF assms(1,2,4) m _ this] show ?thesis
    using assms(7) by (auto simp: plan_record_def only_verdicts_def)
qed

lemma partial_evaluation_witness:
  "\<exists>rs w1 e w2. run_command cmd_run [] cmd_args ''c.yaml'' empty_world = (Inr (Finished rs), w1)
     \<and> evaluate_command cmd_machine w1 = (Inl e, w2)"
proof -
  obtain rs w1 where r: "run_command cmd_run [] cmd_args ''c.yaml'' empty_world = (Inr (Finished rs), w1)"
    by (rule cmd_finishes)
  have ids: "select_ids cmd_args cmd_manifest = [''q'']"
    by (simp add: select_ids_def cmd_args_def cmd_manifest_def cmd_entry_def given_def Let_def)
  have "''z'' \<in> set (map me_question_id (mf_entries cmd_manifest))" by (simp add: cmd_manifest_def cmd_entry_def)
  then show ?thesis
    using partial_evaluation [OF _ cmd_planned _ cmd_writable _ r, of "''z''"] r cmd_startable ids
    by (simp add: cmd_plan_def) blast
qed

text \<open>
  C26: Loading what a graph was dumped to gives the same graph, node classes, conditions and
  optional fields included. A file that loads has only the keys its classes declare: at the
  top, and in each node those of the class its kind names.
\<close>

theorem graph_round_trip:
  assumes "pydantic_ok P"
  shows "load_graph P (dump_graph g) = Inr g
    \<and> (\<forall>d h. load_graph P (JObj d) = Inr h \<longrightarrow> set (dkeys d) \<subseteq> set graph_fields
       \<and> (\<forall>vs n. dget d ''nodes'' = Some (JList vs) \<longrightarrow> JObj n \<in> set vs \<longrightarrow>
            (\<exists>tag. dget n ''node_kind'' = Some (JStr tag) \<and> set (dkeys n) \<subseteq> set (base_fields @ class_fields tag))))"
proof (intro conjI allI impI)
  show "load_graph P (dump_graph g) = Inr g" using validate_graph_dump [OF assms] by (simp add: load_graph_def)
next
  fix d h assume "load_graph P (JObj d) = Inr h"
  then have v: "validate_graph P (JObj d) = Some h" by (simp add: load_graph_def from_option_def split: option.splits)
  show "set (dkeys d) \<subseteq> set graph_fields" using validate_graph_keys(1) [OF v] .
  show "\<exists>tag. dget n ''node_kind'' = Some (JStr tag) \<and> set (dkeys n) \<subseteq> set (base_fields @ class_fields tag)"
    if "dget d ''nodes'' = Some (JList vs)" "JObj n \<in> set vs" for vs n
    using validate_graph_keys(2) [OF v that] .
qed

lemma graph_round_trip_witness:
  "load_graph strict_pydantic (dump_graph b1) = Inr b1
   \<and> load_graph strict_pydantic (JObj [(''graph_id'', JStr ''g''), (''grahp'', JStr [])]) \<noteq> Inr b1"
proof -
  note r = graph_round_trip [OF strict_pydantic_ok, of b1]
  have "load_graph strict_pydantic (JObj [(''graph_id'', JStr ''g''), (''grahp'', JStr [])]) \<noteq> Inr b1"
    using conjunct2 [OF r, rule_format, of "[(''graph_id'', JStr ''g''), (''grahp'', JStr [])]" b1]
    by (auto simp: graph_fields_def)
  with r show ?thesis by simp
qed

text \<open>
  C27: Writing the arguments of a run as options of the form --name=value and starting the
  program with them is the same as running the command with these arguments, whatever text
  the values are; the program then ends with the exception of the environment file or of the
  run, or prints the output of the run and returns 0.
\<close>

theorem command_line:
  assumes "pred_option short_int (ra_limit A)"
  shows "run_program M env_file env (run_argv A p) w =
    (case load_env_file env_file env of
       (Inl e, _) \<Rightarrow> (Raised e, w)
     | (Inr _, env') \<Rightarrow>
         (case run_command M env' A p w of
            (Inl e, w') \<Rightarrow> (Raised e, w')
          | (Inr r, w') \<Rightarrow> (Done (run_output M env' A p r), w')))"
  unfolding run_program_line [OF assms] with_env_def ending_def ..

lemma command_line_witness:
  "\<exists>out w'. run_program cmd_run None [] [''--config=c.yaml'', ''--task-id=q'', ''--mock-llm''] empty_world = (Done out, w')"
proof -
  obtain env' where env: "load_env_file None [] = (Inr (), env')" using no_env_file by blast
  obtain rs w' where r: "run_command cmd_run env' cmd_args ''c.yaml'' empty_world = (Inr (Finished rs), w')"
    by (rule cmd_finishes)
  have "pred_option short_int (ra_limit cmd_args)" by (simp add: cmd_args_def)
  from command_line [OF this, of cmd_run None "[]" "''c.yaml''" empty_world] show ?thesis
    by (simp add: env r cmd_argv_line cmd_argv_def)
qed



text \<open>
  C29: When the preparation of a manifest succeeds, it has changed the output file only,
  which holds a manifest with distinct questions and exactly the requested number of each
  difficulty; a manifest saved before and named by --exclude-manifest is read back from its
  file, and the two have no question in common.
\<close>

theorem prepare_excludes:
  assumes "rng_ok G" "pydantic_ok (pyd P)" "prepare_program P data G env_file env argv files = (Done out, files')"
    and "parse_args prepare_options argv = Parsed ns" "p \<in> set (arg_list ns ''exclude_manifest'')"
    and "dget files p = Some (saved_manifest P old)" "writable (float_repr P) (dump_manifest old)"
  shows "\<exists>m path. arg_str ns ''output'' = Some path \<and> files' = dset path (saved_manifest P m) files
    \<and> out = prepare_output path m \<and> distinct (map me_question_id (mf_entries m))
    \<and> set (map me_question_id (mf_entries m)) \<inter> set (map me_question_id (mf_entries old)) = {}
    \<and> (\<forall>(d, n) \<in> set (prepare_counts (prepare_args_of ns)). 0 \<le> n \<longrightarrow>
         int (length (filter (\<lambda>e. me_difficulty e = d) (mf_entries m))) = n)"
  by (rule prepare_fresh [OF assms]) blast

lemma prepare_excludes_witness:
  "\<exists>m out. prepare_program example_platform (\<lambda>_. example_data (JStr ''1'')) still_rng None [] prepare_argv past_files
      = (Done out, dset ''new.json'' (saved_manifest example_platform m) past_files)
    \<and> ''old'' \<notin> set (map me_question_id (mf_entries m))
    \<and> length (filter (\<lambda>e. me_difficulty e = ''easy'') (mf_entries m)) = 1"
proof -
  obtain out files' where r: "prepare_program example_platform (\<lambda>_. example_data (JStr ''1'')) still_rng None []
      prepare_argv past_files = (Done out, files')"
    using prepare_runs by blast
  have g: "rng_ok still_rng" by (simp add: rng_ok_def still_rng_def)
  have "dget past_files ''old.json'' = Some (saved_manifest example_platform past_manifest)" by (simp add: past_files_def)
  from prepare_excludes [OF g example_pydantic r prepare_argv_parsed _ this past_writable] r show ?thesis
    by (auto simp: prepare_namespace_reads past_manifest_def cmd_entry_def prepare_counts_def example_prepare_def)
qed

text \<open>
  C30: When no event holds the character U+0085 (at which the reader breaks lines and which
  JSON text keeps), the summary that reads the event log back from its text reports the sums
  of the prompt and completion tokens over the events of completed and failed nodes, an
  absent number counting as zero, and the share of these events whose error mentions
  parsing.
\<close>

theorem log_totals:
  assumes "summarize_run S w = (Inr s, w')" "sh_dump_event S = event_line (sh_repr S) stamp"
    and "\<forall>e \<in> set (log w). writable (sh_repr S) (dump_event (stamp e) e) \<and> plain (sh_repr S) (dump_event (stamp e) e)"
  shows "let ns = filter node_event (log w) in
      dget s ''total_prompt_tokens'' = Some (JInt (\<Sum>e\<leftarrow>ns. or_zero (ev_prompt_tokens e)))
    \<and> dget s ''total_completion_tokens'' = Some (JInt (\<Sum>e\<leftarrow>ns. or_zero (ev_completion_tokens e)))
    \<and> dget s ''parse_failure_rate'' = Some (ratio_json (length (filter (parse_error (sh_repr S)) ns)) (length ns))"
  using summarize_log [OF assms(1,2)] assms(3) by (simp add: log_tokens_def Let_def o_def)

lemma log_totals_witness:
  "\<exists>s w'. summarize_run \<lparr>sh_repr = frepr, sh_read_float = (\<lambda>_. None), sh_dump_event = event_line frepr (\<lambda>_. ''2024'')\<rparr>
      \<lparr>fs = [], log = [node_done, task_done, node_failed]\<rparr> = (Inr s, w')
    \<and> dget s ''total_prompt_tokens'' = Some (JInt 7) \<and> dget s ''parse_failure_rate'' = Some (ratio_json 1 2)"
proof -
  let ?S = "\<lparr>sh_repr = frepr, sh_read_float = (\<lambda>_. None), sh_dump_event = event_line frepr (\<lambda>_. ''2024'')\<rparr>"
  let ?w = "\<lparr>fs = [], log = [node_done, task_done, node_failed]\<rparr>"
  have "count_lines frepr (\<lambda>_. None) (split_lines (log_text (event_line frepr (\<lambda>_. ''2024''))
      [node_done, task_done, node_failed])) no_tokens = Inr (log_tokens frepr [node_done, task_done, node_failed])"
    by (rule count_log) (use example_events in auto)
  then have "\<exists>s w'. summarize_run ?S ?w = (Inr s, w')"
    by (simp add: summarize_run_def task_names_def List.map_filter_def example_totals summary_of_def no_figures_def
        mean_of_def write_file_def thn_def bnd_def)
  then obtain s w' where r: "summarize_run ?S ?w = (Inr s, w')" by blast
  have p: "contains ''parse'' (py_lower ''ParseError: no block'')" by code_simp
  have h: "sh_dump_event ?S = event_line (sh_repr ?S) (\<lambda>_. ''2024'')" by simp
  have "\<forall>e \<in> set (log ?w). writable (sh_repr ?S) (dump_event ''2024'' e) \<and> plain (sh_repr ?S) (dump_event ''2024'' e)"
    using example_events by simp
  with log_totals [OF r h]
  have "dget s ''total_prompt_tokens'' = Some (JInt 7) \<and> dget s ''parse_failure_rate'' = Some (ratio_json 1 2)"
    by (simp add: node_event_def node_failed_def task_done_def node_done_def or_zero_def parse_error_def p numeral_2_eq_2)
  with r show ?thesis by blast
qed

text \<open>
  C31: With the JSON formats of the requests and results at both ends, the private backend
  refines a direct call: it answers what the worker's private evaluation returns for this
  request in the child process, the timeout result when the limit expires, and an
  unavailable sandbox when the worker raises.
\<close>

theorem worker_wire:
  assumes "pydantic_ok P" "os_processes S = 1"
    and "writable fr (dump_final_request (final_request_for S qid hidden code limit))"
    and "\<forall>r. fst (worker_private W (final_request_for S qid hidden code limit) (child_process (os_runner S) parent)) = Inr r
      \<longrightarrow> writable fr (dump_final_result r)"
  shows "final_evaluate (worker_launch traceback W (json_worker_codec P D fr) slow) (json_client_codec P fr)
      parent S qid hidden code limit =
    (let rq = final_request_for S qid hidden code limit;
         wall = wall_timeout (os_runner S) limit (int (length (req_tests rq)))
     in if slow (dumps fr (dump_final_request rq)) wall then Inr (final_timeout wall)
        else case fst (worker_private W rq (child_process (os_runner S) parent)) of
               Inl e \<Rightarrow> Inl (failed_closed traceback e)
             | Inr r \<Rightarrow> Inr r)"
  by (rule json_final_answer [OF assms(1-3)]) (use assms(4) in blast)

lemma worker_wire_witness:
  "final_evaluate (worker_launch (\<lambda>_. []) example_worker_host (json_worker_codec strict_pydantic (\<lambda>_. None) wire_repr) (\<lambda>_ _. False))
      (json_client_codec strict_pydantic wire_repr) quiet_process example_worker ''q'' (hidden_task ''1'') ''pass'' 6
    = Inr (final_result_of True wire_metadata)"
proof -
  have "os_processes example_worker = 1" by (simp add: example_worker_def)
  from worker_wire [OF strict_pydantic_ok this wire_request_writable, of example_worker_host quiet_process] show ?thesis
    using wire_result wire_result_writable by (simp add: Let_def)
qed

text \<open>
  C32: A public request that carries a key beyond the declared ones, in itself or in its
  task, for example the private tests, makes the worker end with a validation error; it has
  then neither set up its process nor run the code.
\<close>

theorem worker_refuses:
  assumes "json_loads text = Inr (JObj d)" "dget d ''mode'' = Some (JStr ''public'')" "length argv = 3"
    and "\<not> set (dkeys d) \<subseteq> set (request_fields @ [''task''])
      \<or> (\<exists>t. dget d ''task'' = Some (JObj t) \<and> \<not> set (dkeys t) \<subseteq> set visible_fields)"
  shows "worker_main W (json_worker_codec P D fr) argv text p = (Inl (Exc ValidationErrorC ''PublicWorkerRequest''), p)"
  by (rule worker_refuses_extra [OF assms])

lemma worker_refuses_witness:
  "worker_main example_worker_host (json_worker_codec strict_pydantic (\<lambda>_. None) wire_repr) [''worker'', ''in'', ''out'']
     (dumps wire_repr (JObj smuggling_request)) root_process
   = (Inl (Exc ValidationErrorC ''PublicWorkerRequest''), root_process)"
  by (rule worker_refuses [OF smuggling_text])
    (simp_all add: smuggling_request_def smuggled_task_def visible_fields_def)

text \<open>
  C33: Whenever a batch finished a task, evaluating that task finds a frozen state, takes
  the code from the stored artifact the state names, which belongs to the task, and exports
  and judges exactly that code.
\<close>

theorem frozen_evaluated:
  assumes "setup_sound B" "distinct ids" "batch_ok (host_of B) (graph_of B) ids w"
    and "run_batch B tasks ids w = (Inr rs, w')" "(q, Some res) \<in> set rs" "reads_batch J B"
  shows "frozen (final_state res) \<and> (\<exists>a. final_output_artifact_id (final_state res) = Some (artifact_id a)
    \<and> stored_artifact (host_of B) w' (artifact_id a) = Some a \<and> env_task_id a = q
    \<and> evaluate_task J q w' =
        bnd (lift (code_in_artifact (plat (host_of B)) a)) (\<lambda>code.
        bnd (verdict_for J (final_state res) q code) (\<lambda>n. ret (build_official_record q code, n))) w')"
proof -
  have "frozen (final_state res)"
    using run_batch_outcome(3) [OF assms(1-5)] by (simp add: outcome_ok_def)
  moreover obtain a where "final_output_artifact_id (final_state res) = Some (artifact_id a)"
    "stored_artifact (host_of B) w' (artifact_id a) = Some a" "env_task_id a = q"
    "evaluate_task J q w' = bnd (lift (code_in_artifact (plat (host_of B)) a)) (\<lambda>code.
        bnd (verdict_for J (final_state res) q code) (\<lambda>n. ret (build_official_record q code, n))) w'"
    by (rule evaluate_after_batch [OF assms])
  ultimately show ?thesis by blast
qed

lemma frozen_evaluated_witness:
  "\<exists>rs w' res. run_batch example_batch example_tasks [''t''] empty_world = (Inr rs, w') \<and> (''t'', Some res) \<in> set rs
     \<and> frozen (final_state res)"
proof -
  obtain rs w' res where r: "run_batch example_batch example_tasks [''t''] empty_world = (Inr rs, w')" "(''t'', Some res) \<in> set rs"
    by (rule example_batch_result)
  have s: "setup_sound example_batch" "batch_ok (host_of example_batch) (graph_of example_batch) [''t''] empty_world"
    using b0_sound example_batch_ok by (simp_all add: b0_compiled_graph)
  from frozen_evaluated [OF s(1) _ s(2) r example_reads] r show ?thesis by auto
qed

text \<open>
  C34: Two copies of a release that agree up to the private tests of their rows, even with
  different decoders for the test blobs, load to the same visible tasks and references.
\<close>

theorem hidden_tests:
  assumes "same_reader H H'" "same_shards H H'"
    and "load_visible H release F r = (Inr out, q)" "load_visible H' release F r' = (Inr out', q')"
  shows "out = out'"
  by (rule load_visible_hidden [OF assms])

lemma hidden_tests_witness:
  "\<exists>out q q'. load_visible (example_data (JStr ''a'')) ''release_v1'' no_filters [] = (Inr out, q)
     \<and> load_visible (example_data (JStr ''b'')) ''release_v1'' no_filters [] = (Inr out, q') \<and> q \<noteq> q'"
proof -
  obtain oa where a: "load_visible (example_data (JStr ''a'')) ''release_v1'' no_filters [] = (Inr oa, [(''q'', hidden_task ''a'')])"
    using example_visible by blast
  obtain ob where b: "load_visible (example_data (JStr ''b'')) ''release_v1'' no_filters [] = (Inr ob, [(''q'', hidden_task ''b'')])"
    using example_visible by blast
  have "hidden_task ''a'' \<noteq> hidden_task ''b''" by (simp add: hidden_task_def)
  then show ?thesis using a b hidden_tests [OF example_same_data a b] by auto
qed





text \<open>
  C37: The private backend fails closed: it reports a pass only when the worker it launched,
  with an environment that holds no sensitive name and a time limit of at most the
  configured maximum, ended by itself with return code zero and left a result file that
  decodes to exactly that result.
\<close>

theorem fail_closed:
  assumes "final_evaluate launch C parent S qid hidden code limit = Inr r" "fin_passed r"
  shows "\<exists>wall err body.
      launch (child_process (os_runner S) parent) (encode_private C (final_request_for S qid hidden code limit)) wall
        = Inr (Exited 0 err (Some body))
      \<and> decode_final_result C body = Some r \<and> wall \<le> rn_max_wall (os_runner S)
      \<and> (\<forall>name \<in> set (dkeys (environ (child_process (os_runner S) parent))). \<not> is_sensitive_environment_name name)"
proof -
  have "\<forall>name \<in> set (dkeys (environ (child_process (os_runner S) parent))). \<not> is_sensitive_environment_name name"
    using sanitized_not_sensitive by (simp add: child_process_def preexec_environ)
  moreover obtain e where e: "launch (child_process (os_runner S) parent)
      (encode_private C (final_request_for S qid hidden code limit)) (wall_timeout (os_runner S) limit
        (int (length (req_tests (final_request_for S qid hidden code limit))))) = Inr e"
    using assms(1) by (auto simp: final_evaluate_def runner_run_def Let_def res_simps)
  moreover from e assms obtain err body where "e = Exited 0 err (Some body)" "decode_final_result C body = Some r"
    by (cases e) (auto simp: final_evaluate_def runner_run_def Let_def final_timeout_def res_simps split: option.splits if_splits)
  ultimately show ?thesis using wall_timeout_bound unfolding wall_timeout_def by blast
qed

lemma fail_closed_witness:
  "\<exists>wall err body. vj_launch example_job (child_process (os_runner example_worker) quiet_process) [] wall
     = Inr (Exited 0 err (Some body)) \<and> wall \<le> 60"
proof -
  have r: "final_evaluate (vj_launch example_job) example_codec quiet_process example_worker ''t'' (hidden_task ''1'') ''pass'' 6
      = Inr (final_result_of True [])"
    by (simp add: final_evaluate_def runner_run_def Let_def example_job_def example_codec_def)
  have "fin_passed (final_result_of True [])" by (simp add: final_result_of_def)
  from fail_closed [OF r this] show ?thesis by (simp add: example_codec_def example_worker_def) blast
qed

text \<open>
  C38: Evaluation is idempotent: after a completed evaluation, evaluating again with any
  worker, codec or private repository returns the same score and the same predictions,
  launches nothing and leaves the world as it is.
\<close>

theorem evaluation_again:
  assumes "verdicts_kept J" "vj_host J' = vj_host J" "vj_state_of J' = vj_state_of J"
    and "store_inv (vj_host J) w" "evaluate_run J ids w = (Inr s, w')"
  shows "evaluate_run J' ids w' = (Inr s, w')"
  by (rule evaluate_run_again [OF assms(1) _ assms(4,5)]) (simp add: same_inputs_def assms(2,3))

lemma evaluation_again_witness:
  "\<exists>w'. evaluate_run example_job [''t''] finished_world = (Inr (1, 1), w')
     \<and> evaluate_run (example_job\<lparr>vj_launch := (\<lambda>_ _ _. Inr WallExpired)\<rparr>) [''t''] w' = (Inr (1, 1), w')"
proof -
  obtain w' where r: "evaluate_run example_job [''t''] finished_world = (Inr (1, 1), w')"
    using finished_evaluates by metis
  have inv: "store_inv (vj_host example_job) finished_world" by (simp add: example_job_def finished_store)
  have "evaluate_run (example_job\<lparr>vj_launch := (\<lambda>_ _ _. Inr WallExpired)\<rparr>) [''t''] w' = (Inr (1, 1), w')"
    by (rule evaluation_again [OF example_verdicts _ _ inv r]) simp_all
  then show ?thesis using r by blast
qed

text \<open>
  C39: When every evaluation on disk was written by the evaluation command, the summary of a
  freshly evaluated run reports as many tasks and evaluated tasks as there are identifiers,
  and its mean of float verdicts is exactly the pass rate that the evaluation computed from
  an integer count.
\<close>

theorem score_agrees:
  assumes "verdicts_kept J" "own_verdicts J w" "evaluate_run J ids w = (Inr (n, rate), w')"
    and "distinct ids" "ids \<noteq> []" "int (length ids) < 2 ^ 53" "set (task_names w') = set ids"
    and "summarize_run S w' = (Inr s, w'')"
  shows "dget s ''hidden_pass@1'' = Some (JFloat rate) \<and> dget s ''evaluated_tasks'' = Some (JInt n)
    \<and> dget s ''number_of_tasks'' = Some (JInt n)"
  using summary_agrees [OF assms] by simp

lemma score_agrees_witness:
  "\<exists>w' s w''. evaluate_run example_job [''t''] finished_world = (Inr (1, 1), w')
     \<and> summarize_run example_summary_host w' = (Inr s, w'') \<and> dget s ''hidden_pass@1'' = Some (JFloat 1)"
proof -
  obtain w' fe body where r: "evaluate_run example_job [''t''] finished_world = (Inr (1, 1), w')"
      "own_verdicts example_job finished_world"
      "fs w' = fs finished_world @ [(evaluation_file ''t'', vj_dump example_job fe), (RunFile ''predictions.json'', body)]"
      "map event_type (log w') = [''PRIVATE_EVALUATION_STARTED'', ''PRIVATE_EVALUATION_COMPLETED'']"
    by (rule finished_evaluates)
  obtain s w'' where s: "summarize_run example_summary_host w' = (Inr s, w'')"
    using finished_summary [OF r(3,4)] by blast
  have "dget s ''hidden_pass@1'' = Some (JFloat 1)"
    using score_agrees [OF example_verdicts r(2,1) _ _ _ _ s] finished_figures(1) [OF r(3)] by simp
  then show ?thesis using r(1) s by blast
qed



section \<open>Further facts\<close>

text \<open>
  A node of wave k + 1 has an incoming edge from wave k: no node could have been scheduled
  in an earlier wave.
\<close>

theorem compile_earliest:
  assumes "compile env g = Inr cg" "Suc k < length (waves cg)" "v \<in> set (waves cg ! Suc k)"
  shows "\<exists>e \<in> set (edges g). destination_node e = v \<and> source_node e \<in> set (waves cg ! k)"
  by (rule compiled_earliest [OF assms])

theorem compile_earliest_witness:
  "\<exists>e \<in> set (edges b0). destination_node e = ''freeze'' \<and> source_node e \<in> set (waves b0_compiled ! 1)"
  by (rule compile_earliest [OF b0_compiles]) (simp_all add: b0_compiled_def)

text \<open>
  Every input slot of a compiled graph is bound, by an initial artifact or by an edge, and
  the entry nodes are exactly the nodes all of whose inputs are initial artifacts of the
  right schema.
\<close>

theorem compile_bound:
  assumes "compile env g = Inr cg"
  shows "(\<forall>n \<in> set (nodes g). \<forall>slot \<in> set (dkeys (input_slots n)).
      dget (initial_artifact_slots g) slot \<noteq> None
      \<or> (\<exists>e \<in> set (edges g). destination_node e = node_id n \<and> destination_input e = slot))
    \<and> entry_nodes cg = map node_id (filter (initial_match (initial_artifact_slots g)) (nodes g))
    \<and> entry_nodes cg \<noteq> []"
  by (rule compiled_bound [OF assms])

theorem compile_bound_witness:
  "entry_nodes b1_compiled = map node_id (filter (initial_match (initial_artifact_slots b1)) (nodes b1))
    \<and> entry_nodes b1_compiled \<noteq> []"
  using compile_bound [OF b1_compiles] by blast

text \<open>
  In a compiled graph some node that declares the final output slot is reachable, along
  edges, from a node that consumes initial artifacts only.
\<close>

theorem compile_reachable:
  assumes "compile env g = Inr cg"
  shows "\<exists>n \<in> set (nodes g). \<exists>u \<in> set (entry_nodes cg). final_output_slot g \<in> set (dkeys (output_slots n))
    \<and> (u, node_id n) \<in> ((\<lambda>e. (source_node e, destination_node e)) ` set (edges g))\<^sup>*"
  by (rule compiled_reachable [OF assms])

theorem compile_reachable_witness:
  "\<exists>n \<in> set (nodes b1). \<exists>u \<in> set (entry_nodes b1_compiled). final_output_slot b1 \<in> set (dkeys (output_slots n))
    \<and> (u, node_id n) \<in> ((\<lambda>e. (source_node e, destination_node e)) ` set (edges b1))\<^sup>*"
  by (rule compile_reachable [OF b1_compiles])

text \<open>
  An envelope whose payload validates carries an object with declared keys only; in
  particular no \<open>ProblemArtifact\<close> can hold a key such as
  \<open>private_tests\<close>, whatever the coercions of scalars accept.
\<close>

theorem payload_declared:
  assumes "validate_payload P e = Inr m"
  shows "\<exists>d fs. payload e = JObj d \<and> dget payload_schemas (artifact_type e) = Some fs \<and> set (dkeys d) \<subseteq> set fs
    \<and> (artifact_type e = ''ProblemArtifact'' \<longrightarrow> dget d ''private_tests'' = None \<and> dget d ''private_test_cases'' = None)"
proof -
  obtain d fs where d: "payload e = JObj d" "dget payload_schemas (artifact_type e) = Some fs"
    "set (dkeys d) \<subseteq> set fs"
    using validate_payload_declared [OF assms] by blast
  have "dget d k = None" if "artifact_type e = ''ProblemArtifact''" "k \<notin> set problem_fields" for k
    using d that by (auto simp: payload_schemas_def map_of_eq_None_iff)
  then show ?thesis using d by (simp add: problem_fields_def)
qed

theorem payload_declared_witness:
  "\<exists>d. payload (create_artifact example_platform \<lparr>uuid_hex = ''0a'', utc_now = ''now''\<rparr>
     (MCode (code_of ''pass'' ''n'')) ''n'' ''t'' []) = JObj d \<and> set (dkeys d) \<subseteq> set code_fields"
proof -
  have "validate_payload example_platform (create_artifact example_platform \<lparr>uuid_hex = ''0a'', utc_now = ''now''\<rparr>
     (MCode (code_of ''pass'' ''n'')) ''n'' ''t'' []) = Inr (MCode (code_of ''pass'' ''n''))"
    by (rule validate_create) (simp_all add: example_platform_def strict_pydantic_ok code_of_def wf_code_def)
  from payload_declared [OF this] show ?thesis by (auto simp: payload_schemas_def)
qed

text \<open>
  The canonical text behind the content hash identifies a payload: two values with distinct
  keys, integers of at most 4300 digits and floats that read back have the same text exactly
  when sorting their keys makes them equal; \<open>json.loads\<close> returns the key-sorted
  value.
\<close>

theorem canonical_identity:
  assumes "writable repr a" "writable repr b"
  shows "(canonical_json repr a = canonical_json repr b) = (sort_keys a = sort_keys b)
    \<and> json_loads (canonical_json repr a) = Inr (sort_keys a)"
  using canonical_json_inj [OF assms] canonical_json_reads [OF assms(1)] by blast

theorem canonical_identity_witness:
  "canonical_json (\<lambda>x. []) (JObj [(''b'', JInt 1), (''a'', JNull)]) = canonical_json (\<lambda>x. []) (JObj [(''a'', JNull), (''b'', JInt 1)])"
  using canonical_identity [of "\<lambda>x. []" "JObj [(''b'', JInt 1), (''a'', JNull)]" "JObj [(''a'', JNull), (''b'', JInt 1)]"]
  by (simp add: nat_digits.simps)

text \<open>
  An answer with one fenced block and no other backquote yields the stripped text of the
  block as the code, with the declared defaults and the node as source.
\<close>

theorem parse_code_block:
  assumes "CHR 0x60 \<notin> set pre" "CHR 0x60 \<notin> set code" "CHR 0x60 \<notin> set post"
    "lang \<in> {''python'', ''py'', ''Python'', ''''}" "dget payload_schemas schema \<noteq> None"
  shows "parse_output P ''python_code'' (pre @ fence @ lang @ newline # code @ fence @ post) schema src
    = Inr (MCode \<lparr>co_schema_version = ''1.0'', co_language = ''python'', co_code = py_strip code,
        co_source_node = src, co_explanation = None\<rparr>)"
  using parse_code_answer [OF assms] by (simp add: code_of_def)

theorem parse_code_block_witness:
  "parse_output example_platform ''python_code'' (''Here:'' @ fence @ ''python'' @ newline # ''pass'' @ fence @ '''') ''CodeArtifact'' ''n''
    = Inr (MCode \<lparr>co_schema_version = ''1.0'', co_language = ''python'', co_code = py_strip ''pass'',
        co_source_node = ''n'', co_explanation = None\<rparr>)"
  by (rule parse_code_block) (simp_all add: payload_schemas_def)

text \<open>
  Branches gated by \<open>is_true\<close> and \<open>is_false\<close> on the same field of
  the same payload are never both enabled; when the field holds a boolean exactly the
  matching one is.
\<close>

theorem gates_partition:
  assumes "operator c = IsTrue" "operator d = IsFalse" "source_field c = source_field d"
  shows "\<not> (evaluate c p = Inr True \<and> evaluate d p = Inr True)
    \<and> (\<forall>b. walk p (split_on CHR ''.'' (source_field c)) = Some (JBool b) \<longrightarrow>
         evaluate c p = Inr b \<and> evaluate d p = Inr (\<not> b))"
  using gates_exclude [OF assms] gates_cover [OF assms] by blast

theorem gates_partition_witness:
  "evaluate \<lparr>source_field = ''passed'', operator = IsTrue, cond_value = JNull\<rparr> (JObj [(''passed'', JBool False)]) = Inr False
   \<and> evaluate \<lparr>source_field = ''passed'', operator = IsFalse, cond_value = JNull\<rparr> (JObj [(''passed'', JBool False)]) = Inr True"
  using gates_partition [of "\<lparr>source_field = ''passed'', operator = IsTrue, cond_value = JNull\<rparr>"
      "\<lparr>source_field = ''passed'', operator = IsFalse, cond_value = JNull\<rparr>" "JObj [(''passed'', JBool False)]"]
  by (auto dest: spec [where x = False])

text \<open>
  The merged plan lists each edge case of the plan and of the analyst exactly once, and each
  of the analyst's risks exactly once; the edge cases of the plan come first and keep their
  order when they are distinct.
\<close>

theorem merge_dedup:
  "distinct (cp_edge_cases (merge_plans p e))
    \<and> set (cp_edge_cases (merge_plans p e)) = set (al_edge_cases p) \<union> set (ec_edge_cases e)
    \<and> (distinct (al_edge_cases p) \<longrightarrow> (\<exists>rest. cp_edge_cases (merge_plans p e) = al_edge_cases p @ rest))
    \<and> distinct (cp_implementation_risks (merge_plans p e))
    \<and> set (cp_implementation_risks (merge_plans p e)) = set (ec_overflow_risks e) \<union> set (ec_indexing_risks e)
        \<union> set (ec_interface_concerns e) \<union> set (ec_likely_failure_modes e)"
  by (simp add: merge_plans_def from_keys_distinct from_keys_set from_keys_append Un_assoc)

theorem merge_dedup_witness:
  "\<exists>rest. cp_edge_cases (merge_plans
     \<lparr>al_schema_version = ''1.0'', al_problem_summary = [], al_algorithm = [], al_data_structures = [], al_correctness_argument = [],
      al_time_complexity = [], al_space_complexity = [], al_edge_cases = [''n=0'', ''n=1''], al_implementation_notes = []\<rparr>
     \<lparr>ec_schema_version = ''1.0'', ec_input_output_interpretation = [], ec_edge_cases = [''n=0'', ''big''],
      ec_overflow_risks = [], ec_indexing_risks = [], ec_interface_concerns = [], ec_likely_failure_modes = []\<rparr>)
     = [''n=0'', ''n=1''] @ rest"
  using merge_dedup [of "\<lparr>al_schema_version = ''1.0'', al_problem_summary = [], al_algorithm = [], al_data_structures = [],
      al_correctness_argument = [], al_time_complexity = [], al_space_complexity = [], al_edge_cases = [''n=0'', ''n=1''],
      al_implementation_notes = []\<rparr>"
     "\<lparr>ec_schema_version = ''1.0'', ec_input_output_interpretation = [], ec_edge_cases = [''n=0'', ''big''],
      ec_overflow_risks = [], ec_indexing_risks = [], ec_interface_concerns = [], ec_likely_failure_modes = []\<rparr>"]
  by simp

text \<open>
  The report of a harness says passed exactly when there is at least one public test, the
  code compiled, every test passed and there was no runtime error or timeout; its ratio lies
  between 0 and 1, is 1 for a passed program, and without tests it is 0 and the program does
  not pass.
\<close>

theorem harness_verdict:
  assumes "harness_report problem r = Inr h" "0 \<le> sb_passed_count r" "sb_passed_count r \<le> sb_total_count r"
  shows "(hr_passed h \<longleftrightarrow> 0 < sb_total_count r \<and> sb_compiled r \<and> sb_passed_count r = sb_total_count r
      \<and> sb_runtime_errors r = 0 \<and> sb_timeouts r = 0)
    \<and> 0 \<le> hr_pass_ratio h \<and> hr_pass_ratio h \<le> 1 \<and> (hr_passed h \<longrightarrow> hr_pass_ratio h = 1)
    \<and> (sb_total_count r = 0 \<longrightarrow> \<not> hr_passed h \<and> hr_pass_ratio h = 0 \<and> \<not> hr_harness_available h)"
  by (rule harness_report_verdict [OF assms])

theorem harness_verdict_witness:
  "\<exists>h. harness_report example_problem example_run = Inr h \<and> hr_passed h \<and> hr_pass_ratio h = 1"
proof -
  obtain h where h: "harness_report example_problem example_run = Inr h"
    by (simp add: harness_report_def example_run_def)
  then show ?thesis using harness_verdict [OF h] by (auto simp: example_run_def)
qed

text \<open>
  A run of one task leaves every artifact and every checkpoint of every other task as it
  was, whether it returns or raises.
\<close>

theorem task_isolation:
  assumes "sound_setup R (graph cg)" "resumable (rt_host R) (graph cg) (ctx_task_id ctx) w" "bundle_ok (ctx_task_id ctx) w bundle"
    and "path_task p \<noteq> Some (ctx_task_id ctx)"
  shows "file_at (snd (execute R cg bundle ctx w)) p = file_at w p"
  using execute_isolated [OF assms(1-3)] assms(4) by (simp add: others_same_def)

theorem task_isolation_witness:
  "file_at (snd (execute example_runtime b0_compiled example_bundle example_context empty_world)) (CheckpointFile ''u'') = None"
  using task_isolation [of example_runtime b0_compiled example_context empty_world example_bundle "CheckpointFile ''u''"]
  by (simp add: b0_sound empty_world_resumable example_bundle_ok)

text \<open>
  However a run ends, it adds at most one NODE_STARTED event of the task for every node to
  the log.
\<close>

theorem started_once:
  assumes "distinct (node_ids (graph cg))"
  shows "starts (ctx_task_id ctx) n (snd (execute R cg bundle ctx w)) \<le> starts (ctx_task_id ctx) n w + 1"
  by (rule execute_starts [OF assms])

theorem started_once_witness:
  "starts ''t'' ''freeze'' (snd (execute example_runtime b0_compiled example_bundle example_context empty_world)) \<le> 1"
  using started_once [of b0_compiled example_context "''freeze''" example_runtime example_bundle empty_world]
    compiled_distinct(1) [OF b0_compiles]
  by (simp add: b0_compiled_graph starts_def empty_world_def)

text \<open>
  Loading the checkpoint that was saved returns the saved state when the hashes of graph and
  contracts agree or drift is allowed, and raises \<open>CheckpointDriftError\<close>
  otherwise; a task without checkpoint gets none.
\<close>

theorem checkpoint_drift:
  assumes "host_ok H" "finite_edges st"
  shows "(if (graph_hash st = g \<and> contract_hash st = c) \<or> allow
      then read_checkpoint H (snd (save_checkpoint H st w)) (task_id st) g c allow = Inr (Some st)
      else \<exists>m. read_checkpoint H (snd (save_checkpoint H st w)) (task_id st) g c allow = Inl (Exc CheckpointDriftErrorC m))
    \<and> (file_at w (CheckpointFile t) = None \<and> t \<noteq> task_id st \<longrightarrow>
        read_checkpoint H (snd (save_checkpoint H st w)) t g c allow = Inr None)"
  using assms by (auto simp: read_checkpoint_def host_ok_def Let_def)

theorem checkpoint_drift_witness:
  "read_checkpoint example_host (snd (save_checkpoint example_host two_running empty_world)) ''t'' ''h'' ''c'' True = Inr (Some two_running)"
  using checkpoint_drift [OF example_host_ok, of two_running "''h''" "''c''" True empty_world "''u''"]
  by (simp add: finite_edges_def two_running_def initial_state_def example_context_def b0_def)

text \<open>
  The registry returns what the executor returns; an exception whose class is a value error,
  a key error or a timeout becomes a failed result of the node, without outputs, that names
  it; every other exception passes through.
\<close>

theorem registry_errors:
  "(\<forall>r. dispatch P S X ctx n inputs = Inr r \<longrightarrow> execute_safely P S X ctx n inputs = Inr r)
    \<and> (\<forall>e. dispatch P S X ctx n inputs = Inl e \<longrightarrow>
        (if is_value_error (exc_cls e) \<or> exc_cls e \<in> {KeyErrorC, TimeoutErrorC}
         then execute_safely P S X ctx n inputs = Inr (failed_result (node_id n) e (elapsed_ms S (node_id n)))
           \<and> \<not> succeeded (failed_result (node_id n) e (elapsed_ms S (node_id n)))
           \<and> outputs (failed_result (node_id n) e (elapsed_ms S (node_id n))) = []
         else execute_safely P S X ctx n inputs = Inl e))"
  by (simp add: execute_safely_def caught_def failed_result_def)

theorem registry_errors_witness:
  "execute_safely example_platform example_services example_executors example_context
     (nodes b0 ! 2) [] = Inr (failed_result ''freeze'' (key_error ''code'') 5)"
proof -
  have "dispatch example_platform example_services example_executors example_context (nodes b0 ! 2) [] = Inl (key_error ''code'')"
    by (simp add: dispatch_def b0_nodes transform_execute_def transform_payload_def dindex_def)
  then show ?thesis using registry_errors [of example_platform example_services example_executors example_context "nodes b0 ! 2" "[]"]
    by (simp add: b0_nodes example_services_def)
qed

text \<open>
  The input and the expected output in the failure summary of a harness are those of one and
  the same public example of the problem, or absent.
\<close>

theorem summary_public:
  assumes "harness_report problem r = Inr h" "vf_public_input (hr_failure_summary h) = Some i"
  shows "\<exists>e \<in> set (pr_public_examples problem). ex_input e = i
    \<and> vf_expected_public_output (hr_failure_summary h) = Some (ex_output e)"
  by (rule harness_report_shows [OF assms])

theorem summary_public_witness:
  "\<exists>h. harness_report (example_problem\<lparr>pr_public_examples := [example_case]\<rparr>) failing_run = Inr h
    \<and> vf_expected_public_output (hr_failure_summary h) = Some ''2''"
proof -
  obtain h where h: "harness_report (example_problem\<lparr>pr_public_examples := [example_case]\<rparr>) failing_run = Inr h"
      "vf_public_input (hr_failure_summary h) = Some ''1''"
    by (rule failing_report)
  from summary_public [OF h] show ?thesis using h(1) by (auto simp: example_case_def)
qed

text \<open>
  Two machines that differ only in what the HTTP library answers, in Docker, in the checkout
  of the checker and in what worker processes do give the same run with --mock-llm: the same
  result or exception and the same directory. A mock run calls none of them, whatever
  backend the configuration names.
\<close>

theorem mock_offline:
  assumes "ra_mock_llm A"
  shows "run_command (M\<lparr>rm_post := post, rm_status_ok := ok, rm_has_docker := has, rm_docker := docker,
      rm_machine := (rm_machine M)\<lparr>mx_launch := launch, mx_codec := codec, mx_process := parent,
        mx_checkout := checkout, mx_resolve := resolve\<rparr>\<rparr>) env A p w = run_command M env A p w"
proof -
  have "M\<lparr>rm_post := post, rm_status_ok := ok, rm_has_docker := has, rm_docker := docker,
      rm_machine := (rm_machine M)\<lparr>mx_launch := launch, mx_codec := codec, mx_process := parent,
        mx_checkout := checkout, mx_resolve := resolve\<rparr>\<rparr>
    = other_world_access M (M\<lparr>rm_post := post, rm_status_ok := ok, rm_has_docker := has, rm_docker := docker,
      rm_machine := (rm_machine M)\<lparr>mx_launch := launch, mx_codec := codec, mx_process := parent,
        mx_checkout := checkout, mx_resolve := resolve\<rparr>\<rparr>)"
    by (simp add: other_world_access_def)
  then show ?thesis using mock_run_offline [OF assms] by metis
qed

lemma mock_offline_witness:
  "run_command (cmd_run\<lparr>rm_post := (\<lambda>_ _ _. Answered 200 ''x''), rm_status_ok := (\<lambda>_. True), rm_has_docker := True,
      rm_docker := rm_docker cmd_run, rm_machine := (rm_machine cmd_run)\<lparr>mx_launch := (\<lambda>_ _ _. Inl (value_error ''x'')),
        mx_codec := mx_codec (rm_machine cmd_run), mx_process := mx_process (rm_machine cmd_run),
        mx_checkout := (\<lambda>_. False), mx_resolve := (\<lambda>p. p)\<rparr>\<rparr>) [] cmd_args ''c.yaml'' empty_world
    = run_command cmd_run [] cmd_args ''c.yaml'' empty_world"
  by (rule mock_offline) (simp add: cmd_args_def)

text \<open>
  A batch that returns answers for every task in order: the task has its result file, for a
  frozen state that satisfies the invariant of its run also after the later tasks ran, or it
  has its failure file. Nothing outside the tasks of the batch changes, and the world is one
  from which the batch can be run again.
\<close>

theorem batch_outcome:
  assumes "setup_sound B" "distinct ids" "batch_ok (host_of B) (graph_of B) ids w"
    and "run_batch B tasks ids w = (Inr rs, w')"
  shows "map fst rs = ids \<and> batch_ok (host_of B) (graph_of B) ids w'
    \<and> (\<forall>(q, r) \<in> set rs. case r of
         Some res \<Rightarrow> file_at w' (result_file q) = Some (bt_dump_result B res) \<and> frozen (final_state res)
           \<and> run_inv (host_of B) (graph_of B) q (final_state res) w'
       | None \<Rightarrow> file_at w' (failure_file q) \<noteq> None)
    \<and> (\<forall>p. (\<forall>q \<in> set ids. path_task p \<noteq> Some q) \<longrightarrow> file_at w' p = file_at w p)"
  using run_batch_outcome(1-2) [OF assms] run_batch_outcome(3) [OF assms] run_batch_files [OF assms]
  by (fastforce simp: outcome_ok_def split: option.splits)

lemma batch_outcome_witness:
  "\<exists>rs w'. run_batch example_batch example_tasks [''t''] empty_world = (Inr rs, w') \<and> map fst rs = [''t'']
     \<and> batch_ok example_host b0 [''t''] w'"
proof -
  obtain rs w' where r: "run_batch example_batch example_tasks [''t''] empty_world = (Inr rs, w')"
    by (rule example_batch_runs)
  have "setup_sound example_batch" using b0_sound by simp
  from batch_outcome [OF this _ _ r] r show ?thesis by (simp add: example_batch_ok b0_compiled_graph)
qed

text \<open>
  The first of three attempts that neither lost the connection nor got status 429 or a
  server error decides the outcome of a request; the third attempt decides in any case, and
  before attempt k + 1 the client has waited 2 to the k seconds.
\<close>

theorem retries:
  assumes "k < 3" "\<forall>i < k. is_kept (attempt_end ok_status (post i))"
    and "k < 2 \<longrightarrow> \<not> is_kept (attempt_end ok_status (post k))"
  shows "post_request ok_status post = (final_end (attempt_end ok_status (post k)), map (\<lambda>i. 2 ^ i) [0..<k])"
  by (rule post_request_spec [OF assms])

lemma retries_witness:
  "post_request (\<lambda>c. c < 400) (\<lambda>i. if i = 0 then Answered 503 [] else Answered 200 ''ok'') = (Inr ''ok'', [1])"
  using retries [of 1 "\<lambda>c. c < 400" "\<lambda>i. if i = 0 then Answered 503 [] else Answered 200 ''ok''"]
  by (simp add: is_kept_def attempt_end_def retry_status_def final_end_def)

text \<open>
  A text written from literal parts without a dollar sign, variables and variables with a
  default expands to the concatenation of the substituted parts: values are not expanded
  again, a set variable ignores its default, an unset one without default stays as written.
\<close>

theorem expansion:
  assumes "list_all part_ok ps"
  shows "expand_text env (concat (map render ps)) = concat (map (subst_part env) ps)"
  by (rule expand_text_render [OF assms])

lemma expansion_witness:
  "expand_text [(''A'', ''${B}'')] ''x${A}-${B:-y}${C}'' = ''x${B}-y${C}''"
proof -
  have "list_all part_ok [Lit ''x'', Var ''A'', Lit ''-'', VarOr ''B'' ''y'', Var ''C'']" by code_simp
  from expansion [OF this, of "[(''A'', ''${B}'')]"] show ?thesis by simp
qed

text \<open>
  Whatever the generator shuffles, a manifest that is prepared lists distinct questions,
  none of which an excluded manifest lists, with exactly the requested number of every
  difficulty, and its digest is that of its contents.
\<close>

theorem manifest_sample:
  assumes "rng_ok G" "prepare_lcb P H G A exclusions manifests r = (Inr m, q)"
  shows "distinct (map me_question_id (mf_entries m))
    \<and> (\<forall>e \<in> set (mf_entries m). \<forall>old \<in> set manifests. me_question_id e \<notin> me_question_id ` set (mf_entries old))
    \<and> (\<forall>(d, n) \<in> set (prepare_counts A). 0 \<le> n \<longrightarrow>
         int (length (filter (\<lambda>e. me_difficulty e = d) (mf_entries m))) = n)
    \<and> mf_sha256 m = Some (manifest_digest P m)"
  using prepare_lcb_result [OF assms] by blast

lemma manifest_sample_witness:
  "\<exists>m q. prepare_lcb example_platform (example_data (JStr ''a'')) still_rng example_prepare None [] [] = (Inr m, q)
     \<and> length (filter (\<lambda>e. me_difficulty e = ''easy'') (mf_entries m)) = 1"
proof -
  obtain m q where r: "prepare_lcb example_platform (example_data (JStr ''a'')) still_rng example_prepare None [] [] = (Inr m, q)"
    using example_prepares by metis
  have "rng_ok still_rng" by (simp add: rng_ok_def still_rng_def)
  from manifest_sample [OF this r] r show ?thesis by (auto simp: prepare_counts_def example_prepare_def)
qed

end
